(* ===== verification/Lab_Prelude.thy ===== *)
theory Lab_Prelude
  imports Complex_Main "HOL-Library.AList"
begin

text \<open>
  What the component theories share: Python exceptions as values of a sum type, the
  insertion-ordered dictionary (an association list), the few string methods the engine
  calls, timestamps, and the interface of a keyed store. The collections \<open>store_laws\<close>
  and \<open>res_simps\<close> gather the equations that the component proofs rewrite with.
\<close>

named_theorems res_simps \<open>how a possibly failing computation continues\<close>
named_theorems store_laws \<open>lookups after an insertion or a removal\<close>

section \<open>Exceptions as values\<close>

datatype py_error =
    ValueError string
  | RuntimeError string
  | KeyError string
  | TypeError string
  | IntegrityError string
  | AttributeError string | ZeroDivisionError string | AssertionError string
  | InvalidOperation string

type_synonym 'a res = "py_error + 'a"

definition rbind :: "'a res \<Rightarrow> ('a \<Rightarrow> 'b res) \<Rightarrow> 'b res" where
  "rbind m f = (case m of Inl e \<Rightarrow> Inl e | Inr x \<Rightarrow> f x)"

definition raise_if :: "bool \<Rightarrow> py_error \<Rightarrow> 'a res \<Rightarrow> 'a res" where
  "raise_if c e m = (if c then Inl e else m)"

lemma rbind_simps [simp, res_simps]:
  "rbind (Inl e) f = Inl e"
  "rbind (Inr x) f = f x"
  by (simp_all add: rbind_def)

lemma rbind_Inr_iff [res_simps]: "rbind m f = Inr y \<longleftrightarrow> (\<exists>x. m = Inr x \<and> f x = Inr y)"
  by (cases m) auto

lemma rbind_Inl_iff: "rbind m f = Inl e \<longleftrightarrow> m = Inl e \<or> (\<exists>x. m = Inr x \<and> f x = Inl e)"
  by (cases m) auto

lemma raise_if_simps [simp, res_simps]:
  "raise_if True e m = Inl e"
  "raise_if False e m = m"
  by (simp_all add: raise_if_def)

lemma raise_if_Inr_iff [res_simps]: "raise_if c e m = Inr y \<longleftrightarrow> \<not> c \<and> m = Inr y"
  by (simp add: raise_if_def)

lemma raise_if_cong [cong]:
  "c = c' \<Longrightarrow> e = e' \<Longrightarrow> (\<not> c' \<Longrightarrow> m = m') \<Longrightarrow> raise_if c e m = raise_if c' e' m'"
  by (simp add: raise_if_def)

fun rmap :: "('a \<Rightarrow> 'b res) \<Rightarrow> 'a list \<Rightarrow> 'b list res" where
  "rmap f [] = Inr []"
| "rmap f (x # xs) = rbind (f x) (\<lambda>y. rbind (rmap f xs) (\<lambda>ys. Inr (y # ys)))"

lemma rmap_length: "rmap f xs = Inr ys \<Longrightarrow> length ys = length xs"
  by (induction xs arbitrary: ys) (auto simp: res_simps)

section \<open>Dictionaries in insertion order\<close>

text \<open>
  A Python dictionary keeps the order in which its keys were first inserted: assigning to a
  key that is there replaces the value in place, and a new key goes to the end.
\<close>

type_synonym ('k, 'v) dict = "('k \<times> 'v) list"

definition dict_set :: "'k \<Rightarrow> 'v \<Rightarrow> ('k, 'v) dict \<Rightarrow> ('k, 'v) dict" where
  "dict_set k v d = AList.update k v d"

definition dict_pop :: "'k \<Rightarrow> ('k, 'v) dict \<Rightarrow> ('k, 'v) dict" where
  "dict_pop k d = AList.delete k d"

definition dict_get :: "('k, 'v) dict \<Rightarrow> 'k \<Rightarrow> 'v option" where
  "dict_get d k = map_of d k"

definition dict_values :: "('k, 'v) dict \<Rightarrow> 'v list" where
  "dict_values d = map snd d"

definition dict_ok :: "('k, 'v) dict \<Rightarrow> bool" where
  "dict_ok d \<longleftrightarrow> distinct (map fst d)"

lemma dict_get_empty [simp, store_laws]: "dict_get [] k = None"
  by (simp add: dict_get_def)

lemma dict_get_set [simp, store_laws]:
  "dict_get (dict_set k v d) k' = (if k' = k then Some v else dict_get d k')"
  by (simp add: dict_get_def dict_set_def update_conv)

lemma dict_get_pop [simp, store_laws]:
  "dict_get (dict_pop k d) k' = (if k' = k then None else dict_get d k')"
  by (simp add: dict_get_def dict_pop_def delete_conv)

lemma dict_ok_empty [simp]: "dict_ok []"
  by (simp add: dict_ok_def)

lemma dict_ok_set [simp]: "dict_ok d \<Longrightarrow> dict_ok (dict_set k v d)"
  by (simp add: dict_ok_def dict_set_def distinct_update)

lemma dict_ok_pop [simp]: "dict_ok d \<Longrightarrow> dict_ok (dict_pop k d)"
  by (simp add: dict_ok_def dict_pop_def distinct_delete)

lemma dict_get_iff_mem: "dict_ok d \<Longrightarrow> dict_get d k = Some v \<longleftrightarrow> (k, v) \<in> set d"
  by (simp add: dict_ok_def dict_get_def)

lemma dict_values_get: "dict_ok d \<Longrightarrow> v \<in> set (dict_values d) \<longleftrightarrow> (\<exists>k. dict_get d k = Some v)"
  by (force simp: dict_values_def dict_get_iff_mem)

lemma find_Some_mem: "find P xs = Some x \<Longrightarrow> x \<in> set xs \<and> P x"
  by (induction xs) (auto split: if_splits)

lemma dict_values_set_sub:
  "set (dict_values (dict_set k v d)) \<subseteq> insert v (set (dict_values d))"
  by (induction d) (auto simp: dict_values_def dict_set_def)

lemma dict_values_pop_sub: "set (dict_values (dict_pop k d)) \<subseteq> set (dict_values d)"
  by (auto simp: dict_values_def dict_pop_def AList.delete_eq)

text \<open>\<^verbatim>\<open>d.get(k, v)\<close>.\<close>

definition get_or :: "('k, 'v) dict \<Rightarrow> 'k \<Rightarrow> 'v \<Rightarrow> 'v" where
  "get_or d k v = (case dict_get d k of Some x \<Rightarrow> x | None \<Rightarrow> v)"

lemma get_or_simps [simp]:
  "get_or [] k y = y"
  "get_or (dict_set k x d) k' y = (if k' = k then x else get_or d k' y)"
  "get_or (dict_pop k d) k' y = (if k' = k then y else get_or d k' y)"
  by (simp_all add: get_or_def)

section \<open>The interface of a keyed store\<close>

text \<open>
  The engine keeps positions in two places, the in-memory ledger and the positions table of
  the durable repository, and both promise the same: a lookup returns the last value saved
  under the key and nothing once the key was removed, other keys keep their values, and the
  keys stay unique.
\<close>

locale keyed_store =
  fixes get :: "'s \<Rightarrow> 'k \<Rightarrow> 'v option"
    and put :: "'k \<Rightarrow> 'v \<Rightarrow> 's \<Rightarrow> 's"
    and remove :: "'k \<Rightarrow> 's \<Rightarrow> 's"
    and wf :: "'s \<Rightarrow> bool"
  assumes get_put: "get (put k v s) k' = (if k' = k then Some v else get s k')"
    and get_remove: "get (remove k s) k' = (if k' = k then None else get s k')"
    and wf_put: "wf s \<Longrightarrow> wf (put k v s)"
    and wf_remove: "wf s \<Longrightarrow> wf (remove k s)"
begin

lemma put_put_get: "get (put k v (put k w s)) = get (put k v s)"
  by (rule ext) (simp add: get_put)

lemma remove_put_get: "get (remove k (put k v s)) = get (remove k s)"
  by (rule ext) (simp add: get_put get_remove)

lemma put_other: "k' \<noteq> k \<Longrightarrow> get (put k v s) k' = get s k'"
  by (simp add: get_put)

lemma remove_idem_get: "get (remove k (remove k s)) = get (remove k s)"
  by (rule ext) (simp add: get_remove)

end

interpretation dict: keyed_store dict_get dict_set dict_pop dict_ok
  by unfold_locales simp_all

section \<open>The interface of a transition system\<close>

text \<open>
  A component whose operations can come in any order is a set of initial states and a step
  relation; an invariant that holds initially and that every step keeps holds in every
  reachable state. Components that promise one interpret this locale.
\<close>

locale invariant_system =
  fixes start :: "'s \<Rightarrow> bool"
    and step :: "'s \<Rightarrow> 's \<Rightarrow> bool"
    and inv :: "'s \<Rightarrow> bool"
  assumes inv_start: "start s \<Longrightarrow> inv s"
    and inv_step: "inv s \<Longrightarrow> step s s' \<Longrightarrow> inv s'"
begin

lemma inv_steps: "step\<^sup>*\<^sup>* s s' \<Longrightarrow> inv s \<Longrightarrow> inv s'"
  by (induction rule: rtranclp_induct) (auto intro: inv_step)

lemma inv_reachable: "start s \<Longrightarrow> step\<^sup>*\<^sup>* s s' \<Longrightarrow> inv s'"
  by (blast intro: inv_start inv_steps)

end

text \<open>What holds of every entry of a table.\<close>

definition table_all :: "('k \<Rightarrow> 'v \<Rightarrow> bool) \<Rightarrow> ('k, 'v) dict \<Rightarrow> bool" where
  "table_all P d \<longleftrightarrow> (\<forall>k v. dict_get d k = Some v \<longrightarrow> P k v)"

lemma table_all_empty [simp]: "table_all P []"
  by (simp add: table_all_def)

lemma table_all_set [intro]: "table_all P d \<Longrightarrow> P k v \<Longrightarrow> table_all P (dict_set k v d)"
  by (auto simp: table_all_def split: if_splits)

lemma table_all_pop [intro]: "table_all P d \<Longrightarrow> table_all P (dict_pop k d)"
  by (auto simp: table_all_def split: if_splits)

lemma table_allD: "table_all P d \<Longrightarrow> dict_get d k = Some v \<Longrightarrow> P k v"
  by (simp add: table_all_def)

lemma table_all_mono: "table_all P d \<Longrightarrow> (\<And>k v. P k v \<Longrightarrow> Q k v) \<Longrightarrow> table_all Q d"
  by (simp add: table_all_def)

section \<open>Ordered de-duplication\<close>

text \<open>\<^verbatim>\<open>tuple(dict.fromkeys(xs))\<close>: the first occurrence of every element, in order.\<close>

fun fromkeys :: "'a list \<Rightarrow> 'a list" where
  "fromkeys [] = []"
| "fromkeys (x # xs) = x # filter (\<lambda>y. y \<noteq> x) (fromkeys xs)"

lemma set_fromkeys [simp]: "set (fromkeys xs) = set xs"
  by (induction xs) auto

lemma distinct_fromkeys [simp]: "distinct (fromkeys xs)"
  by (induction xs) auto

lemma fromkeys_distinct: "distinct xs \<Longrightarrow> fromkeys xs = xs"
proof (induction xs)
  case (Cons x xs)
  then have "filter (\<lambda>y. y \<noteq> x) xs = xs" by (auto simp: filter_id_conv)
  with Cons show ?case by simp
qed simp

lemma fromkeys_idem [simp]: "fromkeys (fromkeys xs) = fromkeys xs"
  by (simp add: fromkeys_distinct)

lemma fromkeys_Nil_iff [simp]: "fromkeys xs = [] \<longleftrightarrow> xs = []"
  by (cases xs) auto

section \<open>Strings\<close>

definition lower_char :: "char \<Rightarrow> char" where
  "lower_char c = (let n = of_char c :: nat in if 65 \<le> n \<and> n \<le> 90 then char_of (n + 32) else c)"

definition lower :: "string \<Rightarrow> string" where
  "lower s = map lower_char s"

definition is_space :: "char \<Rightarrow> bool" where
  "is_space c = (let n = of_char c :: nat in n = 32 \<or> 9 \<le> n \<and> n \<le> 13 \<or> 28 \<le> n \<and> n \<le> 31)"

definition strip :: "string \<Rightarrow> string" where
  "strip s = rev (dropWhile is_space (rev (dropWhile is_space s)))"

fun starts_with :: "string \<Rightarrow> string \<Rightarrow> bool" where
  "starts_with s [] = True"
| "starts_with [] (p # ps) = False"
| "starts_with (c # cs) (p # ps) = (c = p \<and> starts_with cs ps)"

definition ends_with :: "string \<Rightarrow> string \<Rightarrow> bool" where
  "ends_with s p = starts_with (rev s) (rev p)"

fun contains :: "string \<Rightarrow> string \<Rightarrow> bool" where
  "contains [] p = (p = [])"
| "contains (c # cs) p = (starts_with (c # cs) p \<or> contains cs p)"

fun join_with :: "string \<Rightarrow> string list \<Rightarrow> string" where
  "join_with sep [] = []"
| "join_with sep [s] = s"
| "join_with sep (s # t # ts) = s @ sep @ join_with sep (t # ts)"

lemma lower_char_idem [simp]: "lower_char (lower_char c) = lower_char c"
proof (cases "65 \<le> (of_char c :: nat) \<and> (of_char c :: nat) \<le> 90")
  case True
  then have "(of_char c :: nat) + 32 < 256" by simp
  then have "of_char (char_of ((of_char c :: nat) + 32) :: char) = (of_char c :: nat) + 32" by simp
  with True show ?thesis by (simp add: lower_char_def)
qed (auto simp: lower_char_def Let_def)

lemma lower_idem [simp]: "lower (lower s) = lower s"
  by (simp add: lower_def)

lemma lower_Nil_iff [simp]: "lower s = [] \<longleftrightarrow> s = []"
  by (simp add: lower_def)

lemma starts_with_iff: "starts_with s p \<longleftrightarrow> (\<exists>t. s = p @ t)"
  by (induction s p rule: starts_with.induct) auto

lemma starts_with_append [simp]: "starts_with (p @ t) p"
  by (simp add: starts_with_iff)

lemma strip_id: "s \<noteq> [] \<Longrightarrow> \<not> is_space (hd s) \<Longrightarrow> \<not> is_space (last s) \<Longrightarrow> strip s = s"
proof -
  assume s: "s \<noteq> []" "\<not> is_space (hd s)" "\<not> is_space (last s)"
  have "dropWhile is_space s = s" using s by (cases s) auto
  moreover have "dropWhile is_space (rev s) = rev s" using s by (cases s rule: rev_cases) auto
  ultimately show ?thesis by (simp add: strip_def)
qed

lemma is_space_lower [simp]: "is_space (lower_char c) = is_space c"
proof (cases "65 \<le> (of_char c :: nat) \<and> (of_char c :: nat) \<le> 90")
  case True
  then have "(of_char c :: nat) + 32 < 256" by simp
  then have "of_char (char_of ((of_char c :: nat) + 32) :: char) = (of_char c :: nat) + 32" by simp
  with True show ?thesis by (simp add: lower_char_def is_space_def Let_def)
qed (auto simp: lower_char_def Let_def)

lemma strip_lower: "strip (lower s) = lower (strip s)"
proof -
  have "dropWhile is_space (map lower_char t) = map lower_char (dropWhile is_space t)" for t
    by (induction t) auto
  then show ?thesis by (simp add: strip_def lower_def rev_map)
qed

lemma strip_Nil [simp]: "strip [] = []"
  by (simp add: strip_def)

lemma strip_strip [simp]: "strip (strip s) = strip s"
proof (cases "strip s = []")
  case False
  let ?a = "dropWhile is_space s"
  have ne: "dropWhile is_space (rev ?a) \<noteq> []" using False unfolding strip_def by (metis rev.simps(1))
  then have ne': "?a \<noteq> []" by (metis dropWhile.simps(1) rev.simps(1))
  have "?a = strip s @ rev (takeWhile is_space (rev ?a))"
    unfolding strip_def by (metis rev_append rev_rev_ident takeWhile_dropWhile_id)
  then have "hd (strip s) = hd ?a" using False by (metis hd_append2)
  then have "\<not> is_space (hd (strip s))" using hd_dropWhile [OF ne'] by simp
  moreover have "\<not> is_space (last (strip s))"
    using hd_dropWhile [OF ne] ne by (simp add: strip_def last_rev)
  ultimately show ?thesis using strip_id False by blast
qed simp

text \<open>An optional string is truthy when it is present and not empty.\<close>

definition truthy :: "string option \<Rightarrow> bool" where
  "truthy s = (case s of None \<Rightarrow> False | Some t \<Rightarrow> t \<noteq> [])"

definition or_else :: "string option \<Rightarrow> string option \<Rightarrow> string option" where
  "or_else a b = (if truthy a then a else b)"

lemma truthy_simps [simp]: "\<not> truthy None" "truthy (Some t) \<longleftrightarrow> t \<noteq> []"
  by (simp_all add: truthy_def)

section \<open>Timestamps\<close>

text \<open>
  A \<^verbatim>\<open>datetime\<close> is a number of microseconds since the epoch, either as UTC (an aware
  value) or as the wall clock of a naive value. The engine reads every naive value as UTC
  before it compares (\<^verbatim>\<open>value.replace(tzinfo=UTC)\<close>).
\<close>

datatype datetime = Naive int | Aware int

definition as_utc :: "datetime \<Rightarrow> int" where
  "as_utc t = (case t of Naive n \<Rightarrow> n | Aware n \<Rightarrow> n)"

lemma as_utc_simps [simp]: "as_utc (Naive n) = n" "as_utc (Aware n) = n"
  by (simp_all add: as_utc_def)

abbreviation seconds :: "int \<Rightarrow> int" where
  "seconds n \<equiv> n * 1000000"

end
