(* ===== verification/Py_Num.thy ===== *)
theory Py_Num
  imports Lab_Prelude
begin

text \<open>
  Python's numbers as the engine uses them. A \<^verbatim>\<open>decimal.Decimal\<close> and a \<^verbatim>\<open>float\<close> are
  both rationals, and every arithmetic operation is the exact operation followed by a
  rounding: to 28 significant decimal digits, ties to even, for Decimal (the default context,
  which the engine never changes), and to 53 significant binary digits, ties to even, for
  float. Both are instances of one function, \<open>round_sig\<close>, and of one interface, the locale
  \<open>rounding\<close>, whose laws are all that the components use. Conversions follow the code:
  \<^verbatim>\<open>Decimal(str(x))\<close> of a float is the shortest decimal that reads back as that float
  (\<open>flt_repr\<close>), \<^verbatim>\<open>float(d)\<close> is the nearest float (\<open>flt_round\<close>). NaN, the
  infinities and the limits of the exponent range are left out, so \<^verbatim>\<open>is_finite()\<close> holds
  of every modelled value.
\<close>

type_synonym dec = rat
type_synonym flt = rat

section \<open>Rounding to a number of significant digits\<close>

text \<open>The number of digits of a positive integer in base \<open>b\<close>, less one.\<close>

function ndig :: "int \<Rightarrow> int \<Rightarrow> nat" where
  "ndig b n = (if b < 2 \<or> n < b then 0 else Suc (ndig b (n div b)))"
  by pat_completeness auto
termination
  by (relation "measure (\<lambda>(b, n). nat n)") (auto simp: int_div_less_self)

declare ndig.simps [simp del]

text \<open>The exponent of the leading digit of a positive rational.\<close>

definition mag :: "nat \<Rightarrow> rat \<Rightarrow> int" where
  "mag b x = (let (p, q) = quotient_of x;
                  d = int (ndig (int b) p) - int (ndig (int b) q)
              in if of_nat b powi d \<le> x then d else d - 1)"

definition half_even :: "rat \<Rightarrow> int" where
  "half_even x = (let f = \<lfloor>x\<rfloor>; r = x - of_int f in
     if r < 1/2 then f else if 1/2 < r then f + 1 else if even f then f else f + 1)"

definition round_sig :: "nat \<Rightarrow> nat \<Rightarrow> rat \<Rightarrow> rat" where
  "round_sig b p x =
     (if x = 0 then 0
      else let u = of_nat b powi (mag b \<bar>x\<bar> - (int p - 1))
           in of_int (half_even (x / u)) * u)"

lemma ndig_bounds:
  assumes "2 \<le> b" and "0 < n"
  shows "b ^ ndig b n \<le> n \<and> n < b ^ Suc (ndig b n)"
  using assms
proof (induction b n rule: ndig.induct)
  case (1 b n)
  show ?case
  proof (cases "n < b")
    case True
    with 1 show ?thesis by (simp add: ndig.simps [of b n])
  next
    case False
    with 1 have IH: "b ^ ndig b (n div b) \<le> n div b" "n div b < b ^ Suc (ndig b (n div b))"
      by (simp_all add: pos_imp_zdiv_pos_iff)
    have "b ^ ndig b (n div b) * b \<le> n div b * b"
      using IH(1) "1.prems"(1) by (intro mult_right_mono) simp_all
    also have "\<dots> \<le> n" using "1.prems"(1) by (simp add: minus_mod_eq_div_mult [symmetric])
    finally have lo: "b ^ Suc (ndig b (n div b)) \<le> n" by (simp add: mult.commute)
    have "n mod b < b" "b * (n div b) + n mod b = n" using "1.prems"(1) by simp_all
    then have "n < b * (n div b + 1)" by (simp only: distrib_left mult_1_right)
    also have "\<dots> \<le> b * b ^ Suc (ndig b (n div b))"
      using IH(2) "1.prems"(1) by (intro mult_left_mono) simp_all
    finally show ?thesis using lo False "1.prems"(1) by (simp add: ndig.simps [of b n])
  qed
qed

lemma mag_bounds:
  assumes b: "2 \<le> b" and x: "0 < x"
  shows "of_nat b powi mag b x \<le> x \<and> x < of_nat b powi (mag b x + 1)"
proof -
  obtain p q where pq: "quotient_of x = (p, q)" by (cases "quotient_of x")
  have q0: "0 < q" using quotient_of_denom_pos [OF pq] .
  have xq: "x = of_int p / of_int q" using quotient_of_div [OF pq] .
  have p0: "0 < p" using x q0 by (simp add: xq zero_less_divide_iff)
  let ?B = "of_nat b :: rat"
  have B: "1 < ?B" using b by simp
  define np where "np = ndig (int b) p"
  define nq where "nq = ndig (int b) q"
  have cast: "?B ^ k \<le> of_int r" "(of_int r :: rat) < ?B ^ Suc k"
    if "int b ^ k \<le> r \<and> r < int b ^ Suc k" for r k
    using that by (metis of_int_le_iff of_int_less_iff of_int_of_nat_eq of_int_power)+
  have P: "?B ^ np \<le> of_int p" "(of_int p :: rat) < ?B ^ Suc np"
    using cast [of np p] ndig_bounds [of "int b" p] b p0 by (simp_all add: np_def)
  have Q: "?B ^ nq \<le> of_int q" "(of_int q :: rat) < ?B ^ Suc nq"
    using cast [of nq q] ndig_bounds [of "int b" q] b q0 by (simp_all add: nq_def)
  have qpos: "(0::rat) < of_int q" using q0 by simp
  have up: "x < ?B powi (int np - int nq + 1)"
  proof -
    have "of_int p / of_int q < ?B ^ Suc np / ?B ^ nq"
      using P(2) Q(1) qpos B p0 by (intro frac_less) auto
    also have "\<dots> = ?B powi (int np - int nq + 1)"
      using B by (simp add: power_int_add power_int_diff field_simps)
    finally show ?thesis by (simp add: xq)
  qed
  have lo: "?B powi (int np - int nq - 1) \<le> x"
  proof -
    have "?B powi (int np - int nq - 1) = ?B ^ np / ?B ^ Suc nq"
      using B by (simp add: power_int_diff power_int_add field_simps)
    also have "\<dots> \<le> of_int p / of_int q"
      using P(1) Q(2) qpos B p0 by (intro frac_le) auto
    finally show ?thesis by (simp add: xq)
  qed
  show ?thesis
    using up lo by (auto simp: mag_def pq np_def [symmetric] nq_def [symmetric] Let_def)
qed

lemma mag_unique:
  assumes b: "2 \<le> b" and "0 < x" and "of_nat b powi k \<le> x" and "x < of_nat b powi (k + 1)"
  shows "mag b x = k"
proof -
  have B: "1 < (of_nat b :: rat)" using b by simp
  have "of_nat b powi mag b x < (of_nat b :: rat) powi (k + 1)"
    and "of_nat b powi k < (of_nat b :: rat) powi (mag b x + 1)"
    using mag_bounds [OF b, of x] assms by auto
  then have "mag b x < k + 1" "k < mag b x + 1"
    using B by (meson not_le power_int_increasing less_imp_le leD)+
  then show ?thesis by simp
qed

lemma mag_mono:
  assumes b: "2 \<le> b" and "0 < x" and "x \<le> y"
  shows "mag b x \<le> mag b y"
proof -
  have B: "1 < (of_nat b :: rat)" using b by simp
  have "of_nat b powi mag b x < (of_nat b :: rat) powi (mag b y + 1)"
    using mag_bounds [OF b, of x] mag_bounds [OF b, of y] assms by auto
  then have "mag b x < mag b y + 1"
    using B by (meson not_le power_int_increasing less_imp_le leD)
  then show ?thesis by simp
qed

lemma half_even_of_int [simp]: "half_even (of_int n) = n"
  by (simp add: half_even_def)

lemma half_even_mono: "x \<le> y \<Longrightarrow> half_even x \<le> half_even y"
proof -
  assume le: "x \<le> y"
  then have fl: "\<lfloor>x\<rfloor> \<le> \<lfloor>y\<rfloor>" by (rule floor_mono)
  have top: "half_even x \<le> \<lfloor>x\<rfloor> + 1" and bot: "\<lfloor>y\<rfloor> \<le> half_even y"
    by (auto simp: half_even_def Let_def)
  show ?thesis
  proof (cases "\<lfloor>x\<rfloor> = \<lfloor>y\<rfloor>")
    case True
    with le show ?thesis by (auto simp: half_even_def Let_def)
  next
    case False
    with fl top bot show ?thesis by linarith
  qed
qed

lemma half_even_err: "\<bar>of_int (half_even x) - x\<bar> \<le> 1/2"
proof -
  have "of_int (half_even x) - x \<le> 1/2" and "x - of_int (half_even x) \<le> 1/2"
    using of_int_floor_le [of x] floor_less_iff [of x "\<lfloor>x\<rfloor> + 1"]
    by (simp_all add: half_even_def Let_def, linarith+)
  then show ?thesis by linarith
qed

lemma half_even_minus: "half_even (- x) = - half_even x"
proof (cases "x = of_int \<lfloor>x\<rfloor>")
  case True
  then obtain n where "x = of_int n" by blast
  then show ?thesis by (metis half_even_of_int of_int_minus)
next
  case False
  have c: "\<lfloor>- x\<rfloor> = - \<lfloor>x\<rfloor> - 1"
  proof (rule floor_unique)
    show "of_int (- \<lfloor>x\<rfloor> - 1) \<le> - x" by simp linarith
    show "- x < of_int (- \<lfloor>x\<rfloor> - 1) + 1" using False by simp linarith
  qed
  show ?thesis by (simp add: half_even_def Let_def c)
qed

lemma round_sig_pos:
  assumes b: "2 \<le> b" and p: "1 \<le> p" and x: "0 < x"
  shows "of_nat b powi mag b x \<le> round_sig b p x \<and> round_sig b p x \<le> of_nat b powi (mag b x + 1)"
proof -
  let ?B = "of_nat b :: rat"
  have B: "1 < ?B" using b by simp
  define u where "u = ?B powi (mag b x - (int p - 1))"
  have u: "0 < u" using B by (simp add: u_def)
  have lo: "?B ^ (p - 1) * u = ?B powi mag b x"
    using B p by (simp add: u_def power_int_diff of_nat_diff flip: power_int_of_nat)
  have hi: "?B ^ p * u = ?B powi (mag b x + 1)"
    using B p by (simp add: u_def power_int_diff power_int_add flip: power_int_of_nat)
  have "of_int (int b ^ (p - 1)) \<le> x / u" "x / u \<le> of_int (int b ^ p)"
    using mag_bounds [OF b x] u lo hi by (simp_all add: field_simps)
  then have "int b ^ (p - 1) \<le> half_even (x / u)" "half_even (x / u) \<le> int b ^ p"
    using half_even_mono half_even_of_int by metis+
  then have "?B ^ (p - 1) \<le> of_int (half_even (x / u))" "of_int (half_even (x / u)) \<le> ?B ^ p"
    by (metis of_int_le_iff of_int_power of_int_of_nat_eq)+
  then have "?B ^ (p - 1) * u \<le> of_int (half_even (x / u)) * u"
    "of_int (half_even (x / u)) * u \<le> ?B ^ p * u"
    using u by (simp_all add: mult_right_mono)
  then show ?thesis
    using x by (simp only: lo hi) (simp add: round_sig_def u_def Let_def)
qed

lemma round_sig_minus: "round_sig b p (- x) = - round_sig b p x"
  by (simp add: round_sig_def Let_def half_even_minus)

lemma round_sig_gt_0: "2 \<le> b \<Longrightarrow> 1 \<le> p \<Longrightarrow> 0 < x \<Longrightarrow> 0 < round_sig b p x"
  using round_sig_pos [of b p x] by (auto intro: less_le_trans [rotated])

lemma round_sig_mono_pos:
  assumes b: "2 \<le> b" and p: "1 \<le> p" and x: "0 < x" and le: "x \<le> y"
  shows "round_sig b p x \<le> round_sig b p y"
proof (cases "mag b x = mag b y")
  case True
  let ?u = "of_nat b powi (mag b x - (int p - 1)) :: rat"
  have u: "0 < ?u" using b by simp
  have "half_even (x / ?u) \<le> half_even (y / ?u)"
    using le u by (intro half_even_mono divide_right_mono) simp_all
  then show ?thesis
    using x le u True by (simp add: round_sig_def mult_right_mono Let_def)
next
  case False
  have B: "1 < (of_nat b :: rat)" using b by simp
  have y: "0 < y" using x le by simp
  have "mag b x + 1 \<le> mag b y" using mag_mono [OF b x le] False by simp
  then have "(of_nat b :: rat) powi (mag b x + 1) \<le> of_nat b powi mag b y"
    using B by (intro power_int_increasing) simp_all
  then show ?thesis
    using round_sig_pos [OF b p x] round_sig_pos [OF b p y] by linarith
qed

lemma round_sig_mono:
  assumes b: "2 \<le> b" and p: "1 \<le> p" and le: "x \<le> y"
  shows "round_sig b p x \<le> round_sig b p y"
proof -
  consider "0 < x" | "x = 0" | "x < 0" "0 \<le> y" | "x < 0" "y < 0" by linarith
  then show ?thesis
  proof cases
    case 1
    then show ?thesis using round_sig_mono_pos b p le by blast
  next
    case 2
    then show ?thesis using round_sig_gt_0 [OF b p, of y] le
      by (cases "y = 0") (simp_all add: round_sig_def [of b p 0])
  next
    case 3
    have "0 < round_sig b p (- x)" using round_sig_gt_0 [OF b p, of "- x"] 3 by simp
    moreover have "0 \<le> round_sig b p y" using round_sig_gt_0 [OF b p, of y] 3
      by (cases "y = 0") (simp_all add: round_sig_def [of b p 0])
    ultimately show ?thesis by (simp add: round_sig_minus)
  next
    case 4
    then have "round_sig b p (- y) \<le> round_sig b p (- x)"
      using round_sig_mono_pos [OF b p, of "- y" "- x"] le by simp
    then show ?thesis by (simp add: round_sig_minus)
  qed
qed

text \<open>Every number with at most \<open>p\<close> significant digits is a fixed point.\<close>

lemma powi_int_factor:
  assumes "(B::rat) = of_nat b" and "2 \<le> b" and "0 \<le> k"
  shows "B powi k = of_int (int b ^ nat k)"
  using assms by (metis int_nat_eq of_int_of_nat_eq of_int_power power_int_of_nat)

lemma round_sig_exact:
  assumes b: "2 \<le> b" and p: "1 \<le> p"
    and xn: "x = of_int n * of_nat b powi e" and n: "\<bar>n\<bar> \<le> int b ^ p"
  shows "round_sig b p x = x"
proof (cases "n = 0")
  case True
  then show ?thesis by (simp add: xn round_sig_def)
next
  case False
  let ?B = "of_nat b :: rat"
  have B: "1 < ?B" using b by simp
  have x0: "x \<noteq> 0" using False B by (simp add: xn)
  have ax: "\<bar>x\<bar> = of_int \<bar>n\<bar> * ?B powi e" using B by (simp add: xn abs_mult)
  define m where "m = mag b \<bar>x\<bar>"
  define u where "u = ?B powi (m - (int p - 1))"
  have u0: "u \<noteq> 0" using B by (simp add: u_def)
  have m: "?B powi m \<le> \<bar>x\<bar>" "\<bar>x\<bar> < ?B powi (m + 1)"
    using mag_bounds [OF b, of "\<bar>x\<bar>"] x0 by (simp_all add: m_def)
  have "\<exists>k. x / u = of_int k"
  proof (cases "m \<le> int p + e - 1")
    case True
    then have k: "0 \<le> e - (m - (int p - 1))" by simp
    have "x / u = of_int n * ?B powi (e - (m - (int p - 1)))"
      using B by (simp add: xn u_def power_int_diff)
    also have "\<dots> = of_int (n * int b ^ nat (e - (m - (int p - 1))))"
      by (simp only: powi_int_factor [OF refl b k] of_int_mult)
    finally show ?thesis by blast
  next
    case False
    have "of_int \<bar>n\<bar> \<le> ?B ^ p" using n by (metis of_int_le_iff of_int_power of_int_of_nat_eq)
    then have up: "\<bar>x\<bar> \<le> ?B powi (int p + e)"
      using B by (simp add: ax power_int_add mult_right_mono)
    have "?B powi (int p + e) \<le> ?B powi m" using B False by (intro power_int_increasing) simp_all
    with up m have eq: "\<bar>x\<bar> = ?B powi (int p + e)" and "?B powi m \<le> ?B powi (int p + e)" by linarith+
    then have "m = int p + e"
      using B False by (meson not_le power_int_strict_increasing leD order.antisym zle_diff1_eq not_less)
    then have "\<bar>x\<bar> = ?B powi (int p - 1) * u"
      using eq B by (simp add: u_def flip: power_int_add)
    then have "\<bar>x\<bar> = of_int (int b ^ nat (int p - 1)) * u"
      using p powi_int_factor [OF refl b, of "int p - 1"] by simp
    then have "x / u = of_int (if 0 < x then int b ^ nat (int p - 1) else - (int b ^ nat (int p - 1)))"
      using u0 x0 by (auto simp: field_simps abs_if split: if_splits)
    then show ?thesis by blast
  qed
  then obtain k where "x / u = of_int k" by blast
  then show ?thesis
    using x0 u0 by (simp add: round_sig_def m_def [symmetric] u_def [symmetric] Let_def)
      (simp add: field_simps)
qed

lemma round_sig_idem:
  assumes b: "2 \<le> b" and p: "1 \<le> p"
  shows "round_sig b p (round_sig b p x) = round_sig b p x"
proof (cases "x = 0")
  case True
  then show ?thesis by (simp add: round_sig_def)
next
  case False
  define e where "e = mag b \<bar>x\<bar> - (int p - 1)"
  define n where "n = half_even (x / of_nat b powi e)"
  have r: "round_sig b p x = of_int n * of_nat b powi e"
    using False by (simp add: round_sig_def Let_def n_def e_def)
  have B: "1 < (of_nat b :: rat)" using b by simp
  have "\<bar>round_sig b p x\<bar> \<le> of_nat b powi (mag b \<bar>x\<bar> + 1)"
    using round_sig_pos [OF b p, of "\<bar>x\<bar>"] False B
    by (cases "0 < x") (auto simp: round_sig_minus abs_if intro: order_trans [OF _ order.refl]
        dest: order_trans [rotated, of _ _ 0])
  also have "\<dots> = of_nat b ^ p * of_nat b powi e"
    using B by (simp add: e_def power_int_diff power_int_add flip: power_int_of_nat)
  finally have "of_int \<bar>n\<bar> * of_nat b powi e \<le> of_nat b ^ p * (of_nat b powi e :: rat)"
    using B by (simp add: r abs_mult)
  then have "of_int \<bar>n\<bar> \<le> (of_nat b ^ p :: rat)" using B by simp
  then have "\<bar>n\<bar> \<le> int b ^ p" by (metis of_int_le_iff of_int_power of_int_of_nat_eq)
  then show ?thesis by (rule round_sig_exact [OF b p r])
qed

text \<open>The relative error is at most half a unit in the last place.\<close>

lemma round_sig_err:
  assumes b: "2 \<le> b" and p: "1 \<le> p"
  shows "\<bar>round_sig b p x - x\<bar> \<le> \<bar>x\<bar> * of_nat b powi (1 - int p) / 2"
proof (cases "x = 0")
  case True
  then show ?thesis by (simp add: round_sig_def)
next
  case False
  have B: "1 < (of_nat b :: rat)" using b by simp
  define u where "u = (of_nat b :: rat) powi (mag b \<bar>x\<bar> - (int p - 1))"
  have u: "0 < u" using B by (simp add: u_def)
  have "round_sig b p x - x = (of_int (half_even (x / u)) - x / u) * u"
    using False u unfolding round_sig_def Let_def u_def [symmetric] by (simp add: left_diff_distrib)
  then have "\<bar>round_sig b p x - x\<bar> = \<bar>of_int (half_even (x / u)) - x / u\<bar> * u"
    using u by (simp add: abs_mult)
  also have "\<dots> \<le> 1/2 * u" using half_even_err u by (intro mult_right_mono) auto
  also have "u = of_nat b powi mag b \<bar>x\<bar> * of_nat b powi (1 - int p)"
    using B by (simp add: u_def algebra_simps flip: power_int_add)
  also have "1/2 * (of_nat b powi mag b \<bar>x\<bar> * of_nat b powi (1 - int p)) \<le>
      1/2 * (\<bar>x\<bar> * (of_nat b :: rat) powi (1 - int p))"
    using mag_bounds [OF b, of "\<bar>x\<bar>"] False B by (intro mult_left_mono mult_right_mono) auto
  finally show ?thesis by simp
qed

section \<open>The interface of a rounding\<close>

locale rounding =
  fixes rnd :: "rat \<Rightarrow> rat"
  assumes rnd_mono: "x \<le> y \<Longrightarrow> rnd x \<le> rnd y"
    and rnd_minus: "rnd (- x) = - rnd x"
    and rnd_idem: "rnd (rnd x) = rnd x"
    and rnd_pos: "0 < x \<Longrightarrow> 0 < rnd x"
    and rnd_1: "rnd 1 = 1"
begin

lemma rnd_0: "rnd 0 = 0"
  using rnd_minus [of 0] by simp

lemma rnd_nonneg: "0 \<le> x \<Longrightarrow> 0 \<le> rnd x"
  using rnd_mono [of 0 x] by (simp add: rnd_0)

lemma rnd_neg: "x < 0 \<Longrightarrow> rnd x < 0"
  using rnd_pos [of "- x"] by (simp add: rnd_minus)

lemma rnd_pos_iff: "0 < rnd x \<longleftrightarrow> 0 < x"
  by (metis rnd_pos rnd_0 rnd_neg less_asym linorder_neqE less_irrefl)

lemma rnd_nonneg_iff: "0 \<le> rnd x \<longleftrightarrow> 0 \<le> x"
  by (metis rnd_nonneg rnd_neg not_le)

lemma rnd_le_0_iff: "rnd x \<le> 0 \<longleftrightarrow> x \<le> 0"
  by (meson rnd_pos_iff not_le)

lemma rnd_neg_iff: "rnd x < 0 \<longleftrightarrow> x < 0"
  by (meson rnd_nonneg_iff not_le)

lemma rnd_eq_0_iff: "rnd x = 0 \<longleftrightarrow> x = 0"
  by (metis rnd_0 rnd_pos rnd_neg less_irrefl linorder_neqE)

lemma rnd_le_fix: "x \<le> y \<Longrightarrow> rnd y = y \<Longrightarrow> rnd x \<le> y"
  using rnd_mono [of x y] by simp

lemma rnd_ge_fix: "y \<le> x \<Longrightarrow> rnd y = y \<Longrightarrow> y \<le> rnd x"
  using rnd_mono [of y x] by simp

lemma rnd_le_1: "x \<le> 1 \<Longrightarrow> rnd x \<le> 1"
  by (rule rnd_le_fix) (simp_all add: rnd_1)

lemma rnd_less_cancel: "rnd x < rnd y \<Longrightarrow> x < y"
  using rnd_mono [of y x] by (meson not_le)

lemmas rnd_sign = rnd_0 rnd_nonneg rnd_pos_iff rnd_nonneg_iff rnd_le_0_iff rnd_neg_iff rnd_eq_0_iff

end

section \<open>Decimal and float\<close>

definition dec_round :: "rat \<Rightarrow> dec" where
  "dec_round x = round_sig 10 28 x"

definition flt_round :: "rat \<Rightarrow> flt" where
  "flt_round x = round_sig 2 53 x"

interpretation dec: rounding dec_round
proof
  show "dec_round 1 = 1"
    using round_sig_exact [of 10 28 1 1 0] by (simp add: dec_round_def)
qed (simp_all add: dec_round_def round_sig_mono round_sig_minus round_sig_idem round_sig_gt_0)

interpretation flt: rounding flt_round
proof
  show "flt_round 1 = 1"
    using round_sig_exact [of 2 53 1 1 0] by (simp add: flt_round_def)
qed (simp_all add: flt_round_def round_sig_mono round_sig_minus round_sig_idem round_sig_gt_0)

declare dec.rnd_sign [simp] flt.rnd_sign [simp] dec.rnd_1 [simp] flt.rnd_1 [simp]
declare dec.rnd_idem [simp] flt.rnd_idem [simp]

text \<open>
  A decimal with 18 places and at most ten integer digits, which is what the money columns of
  the database hold, is never changed by the rounding: sums and differences of such amounts
  are exact.
\<close>

definition on_grid :: "dec \<Rightarrow> bool" where
  "on_grid x \<longleftrightarrow> (\<exists>n::int. x = of_int n / 10 ^ 18 \<and> \<bar>n\<bar> \<le> 10 ^ 28)"

lemma dec_round_grid: "on_grid x \<Longrightarrow> dec_round x = x"
  unfolding on_grid_def dec_round_def
  by (elim exE conjE, rule_tac n = n and e = "- 18" in round_sig_exact)
    (simp_all add: power_int_minus field_simps)

lemma on_grid_0 [simp]: "on_grid 0"
  unfolding on_grid_def by (rule exI [of _ 0]) simp

lemma on_grid_of_nat: "n \<le> 10 ^ 10 \<Longrightarrow> on_grid (of_nat n)"
  unfolding on_grid_def by (rule exI [of _ "int n * 10 ^ 18"]) auto

lemma on_grid_numeral: "numeral k \<le> (10 ^ 10 :: nat) \<Longrightarrow> on_grid (numeral k)"
  using on_grid_of_nat [of "numeral k"] by simp

lemma dec_round_eval:
  assumes "of_int \<lfloor>x * 10 ^ 18\<rfloor> = x * 10 ^ 18" and "\<bar>x\<bar> \<le> 10 ^ 10"
  shows "dec_round x = x"
proof (rule dec_round_grid)
  obtain n where n: "x * 10 ^ 18 = of_int n" using assms(1) by metis
  have "of_int \<bar>n\<bar> \<le> (of_int (10 ^ 28) :: rat)"
    using assms(2) by (simp add: n [symmetric] abs_mult)
  then have "\<bar>n\<bar> \<le> 10 ^ 28" by (simp only: of_int_le_iff)
  with n show "on_grid x" unfolding on_grid_def by (intro exI [of _ n]) (simp add: field_simps)
qed

lemma on_grid_minus: "on_grid x \<Longrightarrow> on_grid (- x)"
  unfolding on_grid_def by (metis abs_minus_cancel of_int_minus minus_divide_left)

lemma on_grid_add: "on_grid x \<Longrightarrow> on_grid y \<Longrightarrow> \<bar>x + y\<bar> \<le> 10 ^ 10 \<Longrightarrow> on_grid (x + y)"
proof -
  assume "on_grid x" and "on_grid y" and le: "\<bar>x + y\<bar> \<le> 10 ^ 10"
  then obtain n m :: int where "x = of_int n / 10 ^ 18" "y = of_int m / 10 ^ 18"
    by (auto simp: on_grid_def)
  then have xy: "x + y = of_int (n + m) / 10 ^ 18" by (simp add: add_divide_distrib)
  then have "of_int \<bar>n + m\<bar> \<le> (10 ^ 28 :: rat)" using le by (simp add: abs_divide)
  then have "\<bar>n + m\<bar> \<le> 10 ^ 28" by (metis of_int_le_iff of_int_power of_int_numeral)
  with xy show ?thesis unfolding on_grid_def by blast
qed

definition dadd :: "dec \<Rightarrow> dec \<Rightarrow> dec" where "dadd x y = dec_round (x + y)"
definition dsub :: "dec \<Rightarrow> dec \<Rightarrow> dec" where "dsub x y = dec_round (x - y)"
definition dmul :: "dec \<Rightarrow> dec \<Rightarrow> dec" where "dmul x y = dec_round (x * y)"
definition ddiv :: "dec \<Rightarrow> dec \<Rightarrow> dec" where "ddiv x y = dec_round (x / y)"
definition dsum :: "dec list \<Rightarrow> dec" where "dsum xs = foldl dadd 0 xs"

definition fadd :: "flt \<Rightarrow> flt \<Rightarrow> flt" where "fadd x y = flt_round (x + y)"
definition fsub :: "flt \<Rightarrow> flt \<Rightarrow> flt" where "fsub x y = flt_round (x - y)"
definition fmul :: "flt \<Rightarrow> flt \<Rightarrow> flt" where "fmul x y = flt_round (x * y)"
definition fdiv :: "flt \<Rightarrow> flt \<Rightarrow> flt" where "fdiv x y = flt_round (x / y)"

lemma dadd_mono: "a \<le> b \<Longrightarrow> c \<le> d \<Longrightarrow> dadd a c \<le> dadd b d"
  by (simp add: dadd_def dec.rnd_mono)

lemma dsub_mono: "a \<le> b \<Longrightarrow> d \<le> c \<Longrightarrow> dsub a c \<le> dsub b d"
  by (simp add: dsub_def dec.rnd_mono)

lemma dadd_nonneg [simp]: "0 \<le> a \<Longrightarrow> 0 \<le> b \<Longrightarrow> 0 \<le> dadd a b"
  by (simp add: dadd_def)

lemma dsub_nonneg_iff [simp]: "0 \<le> dsub a b \<longleftrightarrow> b \<le> a"
  by (simp add: dsub_def)

lemma dsub_neg_iff [simp]: "dsub a b < 0 \<longleftrightarrow> a < b"
  by (simp add: dsub_def)

lemma dsub_pos_iff [simp]: "0 < dsub a b \<longleftrightarrow> b < a"
  by (simp add: dsub_def)

lemma dsub_self [simp]: "dsub a a = 0"
  by (simp add: dsub_def)

lemma dmul_nonneg [simp]: "0 \<le> a \<Longrightarrow> 0 \<le> b \<Longrightarrow> 0 \<le> dmul a b"
  by (simp add: dmul_def)

lemma dmul_pos: "0 < a \<Longrightarrow> 0 < b \<Longrightarrow> 0 < dmul a b"
  by (simp add: dmul_def)

lemma dmul_mono: "0 \<le> a \<Longrightarrow> a \<le> b \<Longrightarrow> 0 \<le> c \<Longrightarrow> c \<le> d \<Longrightarrow> dmul a c \<le> dmul b d"
  by (simp add: dmul_def dec.rnd_mono mult_mono)

lemma dmul_0 [simp]: "dmul 0 a = 0" "dmul a 0 = 0"
  by (simp_all add: dmul_def)

lemma dmul_le_left: "0 \<le> a \<Longrightarrow> b \<le> 1 \<Longrightarrow> dec_round a = a \<Longrightarrow> dmul a b \<le> a"
  unfolding dmul_def by (rule dec.rnd_le_fix) (simp_all add: mult_left_le)

lemma ddiv_nonneg [simp]: "0 \<le> a \<Longrightarrow> 0 \<le> b \<Longrightarrow> 0 \<le> ddiv a b"
  by (simp add: ddiv_def)

lemma ddiv_pos: "0 < a \<Longrightarrow> 0 < b \<Longrightarrow> 0 < ddiv a b"
  by (simp add: ddiv_def)

lemma ddiv_self [simp]: "a \<noteq> 0 \<Longrightarrow> ddiv a a = 1"
  by (simp add: ddiv_def)

lemma dec_round_ops [simp]:
  "dec_round (dadd a b) = dadd a b" "dec_round (dsub a b) = dsub a b"
  "dec_round (dmul a b) = dmul a b" "dec_round (ddiv a b) = ddiv a b"
  by (simp_all add: dadd_def dsub_def dmul_def ddiv_def)

lemma flt_round_ops [simp]:
  "flt_round (fadd a b) = fadd a b" "flt_round (fsub a b) = fsub a b"
  "flt_round (fmul a b) = fmul a b" "flt_round (fdiv a b) = fdiv a b"
  by (simp_all add: fadd_def fsub_def fmul_def fdiv_def)

lemma foldl_dadd_nonneg: "0 \<le> a \<Longrightarrow> \<forall>x \<in> set xs. 0 \<le> x \<Longrightarrow> 0 \<le> foldl dadd a xs"
  by (induction xs arbitrary: a) auto

lemma dsum_nonneg: "\<forall>x \<in> set xs. 0 \<le> x \<Longrightarrow> 0 \<le> dsum xs"
  by (simp add: dsum_def foldl_dadd_nonneg)

lemma foldl_dadd_mono: "a \<le> b \<Longrightarrow> list_all2 (\<le>) xs ys \<Longrightarrow> foldl dadd a xs \<le> foldl dadd b ys"
proof (induction xs arbitrary: a b ys)
  case (Cons x xs)
  then obtain y ys' where "ys = y # ys'" "x \<le> y" "list_all2 (\<le>) xs ys'"
    by (auto simp: list_all2_Cons1)
  with Cons show ?case by (simp add: dadd_mono)
qed simp

text \<open>Evaluation of a float operation whose exact result is a multiple of \<open>2 ^ -20\<close>.\<close>

lemma flt_round_eval:
  assumes "of_int \<lfloor>x * 2 ^ 20\<rfloor> = x * 2 ^ 20" and "\<bar>x\<bar> \<le> 2 ^ 30"
  shows "flt_round x = x"
proof -
  obtain n where n: "x * 2 ^ 20 = of_int n" using assms(1) by metis
  have "of_int \<bar>n\<bar> \<le> (of_int (2 ^ 53) :: rat)"
    using assms(2) by (simp add: n [symmetric] abs_mult)
  then have "\<bar>n\<bar> \<le> 2 ^ 53" by (simp only: of_int_le_iff)
  then show ?thesis
    unfolding flt_round_def
    by (intro round_sig_exact [of 2 53 _ n "-20"]) (use n in \<open>simp_all add: field_simps power_int_def\<close>)
qed

text \<open>A rounded value falls short of the exact one by a relative error only.\<close>

lemma relative_lower:
  assumes "\<bar>r - x\<bar> \<le> \<bar>x\<bar> * e / 2" and "0 \<le> x" and "0 \<le> (e :: rat)"
  shows "x * (1 - e) \<le> r"
proof -
  have "x - r \<le> \<bar>r - x\<bar>" by simp
  also have "\<dots> \<le> x * e / 2" using assms(1,2) by simp
  also have "\<dots> \<le> x * e" using assms(2,3) by simp
  finally show ?thesis by (simp add: right_diff_distrib)
qed

lemma relative_upper:
  assumes "\<bar>r - x\<bar> \<le> \<bar>x\<bar> * e / 2" and "0 \<le> x" and "0 \<le> (e :: rat)"
  shows "r \<le> x * (1 + e)"
proof -
  have "r - x \<le> \<bar>r - x\<bar>" by simp
  also have "\<dots> \<le> x * e / 2" using assms(1,2) by simp
  also have "\<dots> \<le> x * e" using assms(2,3) by simp
  finally show ?thesis by (simp add: distrib_left)
qed

lemma powi_numeral: "10 powi (1 - int 28) = (1 / 10 ^ 27 :: rat)" "2 powi (1 - int 53) = (1 / 2 ^ 52 :: rat)"
  by (simp_all add: power_int_def inverse_eq_divide power_one_over)

lemma dec_round_lower: "0 \<le> x \<Longrightarrow> x * (1 - 1 / 10 ^ 27) \<le> dec_round x"
  using round_sig_err [of 10 28 x] powi_numeral(1)
  by (intro relative_lower) (simp_all add: dec_round_def del: power_numeral)

lemma flt_round_lower: "0 \<le> x \<Longrightarrow> x * (1 - 1 / 2 ^ 52) \<le> flt_round x"
  using round_sig_err [of 2 53 x] powi_numeral(2)
  by (intro relative_lower) (simp_all add: flt_round_def del: power_numeral)

lemma flt_round_upper: "0 \<le> x \<Longrightarrow> flt_round x \<le> x * (1 + 1 / 2 ^ 52)"
  using round_sig_err [of 2 53 x] powi_numeral(2)
  by (intro relative_upper) (simp_all add: flt_round_def del: power_numeral)

section \<open>Between float and Decimal\<close>

text \<open>
  \<^verbatim>\<open>str(x)\<close> of a float is the decimal with the fewest significant digits that reads back
  as \<open>x\<close>, and of those the one closest to \<open>x\<close>. With \<open>n\<close> digits the candidates are the two
  neighbours of \<open>x\<close> on the grid of that many digits; 17 digits are always enough.
\<close>

definition repr_candidates :: "nat \<Rightarrow> rat \<Rightarrow> rat list" where
  "repr_candidates n x =
     (let u = 10 powi (mag 10 \<bar>x\<bar> - (int n - 1)); f = \<lfloor>x / u\<rfloor>;
          lo = of_int f * u; hi = of_int (f + 1) * u
      in if x - lo \<le> hi - x then [lo, hi] else [hi, lo])"

fun repr_search :: "rat \<Rightarrow> nat list \<Rightarrow> rat" where
  "repr_search x [] = x"
| "repr_search x (n # ns) =
     (case find (\<lambda>c. flt_round c = x) (repr_candidates n x) of
        Some c \<Rightarrow> c | None \<Rightarrow> repr_search x ns)"

definition flt_repr :: "flt \<Rightarrow> dec" where
  "flt_repr x = (if x = 0 then 0 else repr_search x [1..<18])"

definition is_flt :: "rat \<Rightarrow> bool" where
  "is_flt x \<longleftrightarrow> flt_round x = x"

lemma flt_round_repr_search: "is_flt x \<Longrightarrow> flt_round (repr_search x ns) = x"
  by (induction ns) (auto simp: is_flt_def find_Some_iff split: option.splits)

lemma flt_round_repr [simp]: "is_flt x \<Longrightarrow> flt_round (flt_repr x) = x"
  by (simp add: flt_repr_def flt_round_repr_search)

lemma is_flt_round [simp]: "is_flt (flt_round x)" "is_flt 0" "is_flt 1"
  by (simp_all add: is_flt_def)

lemma flt_repr_less_iff: "is_flt x \<Longrightarrow> is_flt y \<Longrightarrow> flt_repr x < flt_repr y \<longleftrightarrow> x < y"
  using flt.rnd_mono [of "flt_repr x" "flt_repr y"] flt.rnd_mono [of "flt_repr y" "flt_repr x"]
  by (metis flt_round_repr linorder_neqE not_le order.asym)

lemma flt_repr_le_iff: "is_flt x \<Longrightarrow> is_flt y \<Longrightarrow> flt_repr x \<le> flt_repr y \<longleftrightarrow> x \<le> y"
  using flt_repr_less_iff [of y x] by (meson not_le)

lemma flt_repr_0 [simp]: "flt_repr 0 = 0"
  by (simp add: flt_repr_def)

lemma flt_round_repr_search_sign:
  "repr_search x ns = x \<or> flt_round (repr_search x ns) = x"
  by (induction ns) (auto simp: find_Some_iff split: option.splits)

lemma flt_repr_sign: "flt_repr x = x \<or> flt_round (flt_repr x) = x"
  using flt_round_repr_search_sign [of x "[1..<18]"] by (auto simp: flt_repr_def)

lemma flt_repr_pos_iff [simp]: "0 < flt_repr x \<longleftrightarrow> 0 < x"
  using flt_repr_sign [of x] flt.rnd_pos_iff [of "flt_repr x"] by metis

lemma flt_repr_nonneg_iff [simp]: "0 \<le> flt_repr x \<longleftrightarrow> 0 \<le> x"
  using flt_repr_sign [of x] flt.rnd_nonneg_iff [of "flt_repr x"] by metis

lemma flt_repr_le_0_iff [simp]: "flt_repr x \<le> 0 \<longleftrightarrow> x \<le> 0"
  by (metis flt_repr_pos_iff not_le)

lemma flt_repr_eq_iff: "is_flt x \<Longrightarrow> is_flt y \<Longrightarrow> flt_repr x = flt_repr y \<longleftrightarrow> x = y"
  by (metis flt_round_repr)

end
