(* ===== verification/Market_Model.thy ===== *)
theory Market_Model
  imports Py_Num
begin

text \<open>
  The value types of \<^verbatim>\<open>models.py\<close> that describe markets and orders: the enumerations,
  the market specification, the table of execution routes and the functions that derive the
  leg of a route from a market, order books, execution reports and fee quotes. Fields carry a
  prefix for their class (\<open>m_\<close> for \<^verbatim>\<open>MarketSpec\<close>, \<open>er_\<close> for \<^verbatim>\<open>ExecutionReport\<close>,
  \<open>fq_\<close> for \<^verbatim>\<open>VenueFeeQuote\<close> and so on), because HOL record fields share one name space.
  The lemmas show that the route table and the label table are inverse to one another, that a
  route accepted as complementary buys opposite outcomes, and the range and monotonicity of
  the fee of a fill under every fee model.
\<close>

section \<open>Enumerations\<close>

datatype binary_side = YES | NO

datatype execution_status = ES_OPEN | ES_PARTIAL | ES_FILLED | ES_CANCELLED | ES_EXPIRED

datatype execution_mode = PAPER | SHADOW | CANARY | LIVE

datatype mapping_status = CANDIDATE | VERIFIED | REJECTED | MS_STALE

datatype order_intent_status =
    PREPARED | SUBMITTING | ACKNOWLEDGED | OI_PARTIAL | OI_FILLED
  | CANCEL_PENDING | OI_CANCELLED | OI_UNKNOWN | OI_MANUAL_REVIEW

datatype market_data_status = MD_VALID | MD_INVALID | MD_STALE

datatype settlement_status = ST_OPEN | RESOLVED | VOID | REDEEM_PENDING | SETTLED | ST_MANUAL_REVIEW

datatype redemption_status =
    RD_PENDING | RD_SUBMITTED | RD_CONFIRMED | RD_UNKNOWN | RD_FAILED | RD_MANUAL_REVIEW

definition submits_orders :: "execution_mode \<Rightarrow> bool" where
  "submits_orders m = (m = CANARY \<or> m = LIVE)"

definition opposite_binary_side :: "binary_side \<Rightarrow> binary_side" where
  "opposite_binary_side s = (if s = YES then NO else YES)"

lemma opposite_binary_side_simps [simp]:
  "opposite_binary_side YES = NO" "opposite_binary_side NO = YES"
  "opposite_binary_side (opposite_binary_side s) = s" "opposite_binary_side s \<noteq> s"
  by (cases s; simp add: opposite_binary_side_def)+

lemma binary_side_neq_iff: "s \<noteq> t \<longleftrightarrow> t = opposite_binary_side s"
  by (cases s; cases t) simp_all

definition side_value :: "binary_side \<Rightarrow> string" where
  "side_value s = (case s of YES \<Rightarrow> ''YES'' | NO \<Rightarrow> ''NO'')"

section \<open>Market specifications\<close>

record amm_pool =
  yes_reserve :: flt
  no_reserve :: flt
  fee_pct :: flt

record market_spec =
  m_symbol :: string
  m_target_label :: string
  m_polymarket_token_id :: string
  m_polymarket_side :: binary_side
  m_predict_fun_token_id :: string
  m_predict_fun_side :: binary_side
  m_venue_a_label :: string
  m_venue_b_label :: string
  m_expires_at :: "datetime option"
  m_condition_id :: "string option"
  m_polymarket_market_id :: "string option"
  m_polymarket_url :: "string option"
  m_tick_size :: "string option"
  m_neg_risk :: "bool option"
  m_predict_fun_neg_risk :: "bool option"
  m_predict_fun_fee_rate_bps :: "int option"
  m_predict_fun_price_precision :: "int option"
  m_predict_fun_market_id :: "string option"
  m_predict_fun_url :: "string option"
  m_predict_fun_amm_pool :: "amm_pool option"
  m_myriad_market_id :: "string option"
  m_myriad_condition_id :: "string option"
  m_myriad_collateral_token :: "string option"
  m_myriad_url :: "string option"
  m_myriad_side :: binary_side
  m_rules_fingerprint :: "string option"
  m_mapping_strategy :: "string option"
  m_polymarket_volume_usd :: "flt option"
  m_predict_fun_volume_usd :: "flt option"
  m_myriad_volume_usd :: "flt option"
  m_category :: "string option"
  m_mapping_status :: mapping_status
  m_resolution_source :: "string option"
  m_outcome_semantics :: "string option"
  m_cutoff_at :: "datetime option"
  m_timezone_name :: string
  m_verified_routes :: "string set"

text \<open>\<^verbatim>\<open>MarketSpec(symbol, target_label, ...)\<close> with every optional field at its default.\<close>

definition market_spec_default ::
  "string \<Rightarrow> string \<Rightarrow> string \<Rightarrow> binary_side \<Rightarrow> string \<Rightarrow> binary_side \<Rightarrow> market_spec" where
  "market_spec_default symb target first_token first_side second_token second_side =
     \<lparr>m_symbol = symb, m_target_label = target,
      m_polymarket_token_id = first_token, m_polymarket_side = first_side,
      m_predict_fun_token_id = second_token, m_predict_fun_side = second_side,
      m_venue_a_label = ''Polymarket'', m_venue_b_label = ''Predict.fun'',
      m_expires_at = None, m_condition_id = None, m_polymarket_market_id = None,
      m_polymarket_url = None, m_tick_size = None, m_neg_risk = None,
      m_predict_fun_neg_risk = None, m_predict_fun_fee_rate_bps = None,
      m_predict_fun_price_precision = None, m_predict_fun_market_id = None,
      m_predict_fun_url = None, m_predict_fun_amm_pool = None, m_myriad_market_id = None,
      m_myriad_condition_id = None, m_myriad_collateral_token = None, m_myriad_url = None,
      m_myriad_side = NO, m_rules_fingerprint = None, m_mapping_strategy = None,
      m_polymarket_volume_usd = None, m_predict_fun_volume_usd = None,
      m_myriad_volume_usd = None, m_category = None, m_mapping_status = CANDIDATE,
      m_resolution_source = None, m_outcome_semantics = None, m_cutoff_at = None,
      m_timezone_name = ''UTC'', m_verified_routes = {}\<rparr>"

section \<open>Execution routes\<close>

definition EXECUTION_ROUTES :: "string list" where
  "EXECUTION_ROUTES =
     [''polymarket_myriad'', ''polymarket_predict'', ''predict_myriad'', ''predict_sx'',
      ''polymarket_sx'', ''sx_myriad'', ''polymarket_opinion'', ''predict_opinion'',
      ''sx_opinion'', ''opinion_myriad'']"

definition MYRIAD_ROUTES :: "string list" where
  "MYRIAD_ROUTES = [''polymarket_myriad'', ''predict_myriad'', ''sx_myriad'', ''opinion_myriad'']"

definition OPINION_ROUTES :: "string list" where
  "OPINION_ROUTES = [''polymarket_opinion'', ''predict_opinion'', ''sx_opinion'', ''opinion_myriad'']"

definition GENERIC_SLOT_ROUTES :: "string list" where
  "GENERIC_SLOT_ROUTES =
     [''polymarket_predict'', ''predict_sx'', ''polymarket_sx'',
      ''polymarket_opinion'', ''predict_opinion'', ''sx_opinion'']"

definition ROUTE_VENUE_LABELS :: "(string, string \<times> string) dict" where
  "ROUTE_VENUE_LABELS =
     [(''polymarket_myriad'', (''Polymarket'', ''Myriad'')),
      (''polymarket_predict'', (''Polymarket'', ''Predict.fun'')),
      (''predict_myriad'', (''Predict.fun'', ''Myriad'')),
      (''predict_sx'', (''Predict.fun'', ''SX Bet'')),
      (''polymarket_sx'', (''Polymarket'', ''SX Bet'')),
      (''sx_myriad'', (''SX Bet'', ''Myriad'')),
      (''polymarket_opinion'', (''Polymarket'', ''Opinion'')),
      (''predict_opinion'', (''Predict.fun'', ''Opinion'')),
      (''sx_opinion'', (''SX Bet'', ''Opinion'')),
      (''opinion_myriad'', (''Opinion'', ''Myriad''))]"

definition VENUE_LABELS_TO_ROUTE :: "(string \<times> string, string) dict" where
  "VENUE_LABELS_TO_ROUTE = foldl (\<lambda>d (route, labels). dict_set labels route d) [] ROUTE_VENUE_LABELS"

definition route_venue_labels :: "string \<Rightarrow> (string \<times> string) res" where
  "route_venue_labels route =
     (case dict_get ROUTE_VENUE_LABELS route of
        Some labels \<Rightarrow> Inr labels
      | None \<Rightarrow> Inl (ValueError (''Unsupported execution route: '' @ route)))"

definition require_known_route :: "string \<Rightarrow> string \<Rightarrow> unit res" where
  "require_known_route route purpose =
     raise_if (route \<notin> set EXECUTION_ROUTES)
       (ValueError (''Unsupported route for '' @ purpose @ '': '' @ route)) (Inr ())"

definition myriad_execution_side_for_route :: "market_spec \<Rightarrow> string \<Rightarrow> binary_side option res" where
  "myriad_execution_side_for_route market route =
     (if \<not> truthy (m_myriad_market_id market) then Inr None
      else if route = ''polymarket_myriad'' then Inr (Some (m_myriad_side market))
      else if route \<in> {''predict_myriad'', ''sx_myriad'', ''opinion_myriad''}
        then Inr (Some (opposite_binary_side (m_predict_fun_side market)))
      else Inl (ValueError (''Unsupported route for Myriad side derivation: '' @ route)))"

definition myriad_execution_token_for_route :: "market_spec \<Rightarrow> string \<Rightarrow> string option res" where
  "myriad_execution_token_for_route market route =
     rbind (myriad_execution_side_for_route market route) (\<lambda>side.
       Inr (case (side, m_myriad_market_id market) of
              (Some s, Some mid) \<Rightarrow> (if mid = [] then None else Some (mid @ '':'' @ side_value s))
            | _ \<Rightarrow> None))"

definition execution_route_for_market :: "market_spec \<Rightarrow> string res" where
  "execution_route_for_market market =
     (case dict_get VENUE_LABELS_TO_ROUTE (m_venue_a_label market, m_venue_b_label market) of
        Some route \<Rightarrow> Inr route
      | None \<Rightarrow>
          (case dict_get VENUE_LABELS_TO_ROUTE (''Polymarket'', m_venue_b_label market) of
             Some fallback \<Rightarrow> Inr fallback
           | None \<Rightarrow> Inl (ValueError (''Unsupported market route labels: venue_a='' @ m_venue_a_label market
                            @ '', venue_b='' @ m_venue_b_label market))))"

definition first_leg_token_for_route :: "market_spec \<Rightarrow> string \<Rightarrow> string res" where
  "first_leg_token_for_route market route =
     rbind (require_known_route route ''first-leg token derivation'')
       (\<lambda>_. Inr (m_polymarket_token_id market))"

definition second_leg_token_for_route :: "market_spec \<Rightarrow> string \<Rightarrow> string res" where
  "second_leg_token_for_route market route =
     rbind (require_known_route route ''second-leg token derivation'')
       (\<lambda>_. Inr (m_predict_fun_token_id market))"

definition first_leg_side_for_route :: "market_spec \<Rightarrow> string \<Rightarrow> binary_side res" where
  "first_leg_side_for_route market route =
     rbind (require_known_route route ''first-leg side derivation'')
       (\<lambda>_. Inr (m_polymarket_side market))"

definition second_leg_side_for_route :: "market_spec \<Rightarrow> string \<Rightarrow> binary_side res" where
  "second_leg_side_for_route market route =
     rbind (require_known_route route ''second-leg side derivation'')
       (\<lambda>_. Inr (m_predict_fun_side market))"

definition market_supports_execution_route :: "market_spec \<Rightarrow> string \<Rightarrow> bool res" where
  "market_supports_execution_route market route =
     (if route = ''polymarket_myriad'' then
        Inr (m_polymarket_token_id market \<noteq> [] \<and> truthy (m_myriad_market_id market))
      else if route \<in> set MYRIAD_ROUTES then
        rbind (route_venue_labels route) (\<lambda>(first_label, _).
          Inr (m_venue_b_label market = first_label \<and> m_predict_fun_token_id market \<noteq> []
               \<and> truthy (m_myriad_market_id market)))
      else if route \<in> set GENERIC_SLOT_ROUTES then
        rbind (route_venue_labels route) (\<lambda>(first_label, second_label).
          Inr (m_venue_a_label market = first_label \<and> m_venue_b_label market = second_label
               \<and> m_polymarket_token_id market \<noteq> [] \<and> m_predict_fun_token_id market \<noteq> []))
      else Inr False)"

definition route_execution_sides_are_complementary :: "market_spec \<Rightarrow> string \<Rightarrow> bool res" where
  "route_execution_sides_are_complementary market route =
     (if route = ''polymarket_myriad'' then
        rbind (myriad_execution_side_for_route market route) (\<lambda>second_side.
          Inr (case second_side of None \<Rightarrow> False | Some s \<Rightarrow> m_polymarket_side market \<noteq> s))
      else if route \<in> {''predict_myriad'', ''sx_myriad'', ''opinion_myriad''} then
        Inr (truthy (m_myriad_market_id market) \<and> m_myriad_side market = m_predict_fun_side market)
      else if route \<in> set GENERIC_SLOT_ROUTES then
        Inr (m_polymarket_side market \<noteq> m_predict_fun_side market)
      else Inr False)"

text \<open>Lemmas about the route table.\<close>

lemma VENUE_LABELS_TO_ROUTE_get:
  "route \<in> set EXECUTION_ROUTES \<Longrightarrow>
     \<exists>labels. dict_get ROUTE_VENUE_LABELS route = Some labels \<and>
              dict_get VENUE_LABELS_TO_ROUTE labels = Some route"
  by (auto simp: EXECUTION_ROUTES_def ROUTE_VENUE_LABELS_def VENUE_LABELS_TO_ROUTE_def dict_get_def
      dict_set_def)

lemma route_venue_labels_ok:
  "route \<in> set EXECUTION_ROUTES \<longleftrightarrow> (\<exists>labels. route_venue_labels route = Inr labels)"
  by (auto simp: EXECUTION_ROUTES_def ROUTE_VENUE_LABELS_def route_venue_labels_def dict_get_def)

lemma route_labels_distinct:
  "route_venue_labels route = Inr (a, b) \<Longrightarrow> a \<noteq> b"
  by (auto simp: ROUTE_VENUE_LABELS_def route_venue_labels_def dict_get_def split: if_splits)

lemma routes_partition:
  "set EXECUTION_ROUTES = set MYRIAD_ROUTES \<union> set GENERIC_SLOT_ROUTES"
  "set MYRIAD_ROUTES \<inter> set GENERIC_SLOT_ROUTES = {}"
  by (auto simp: EXECUTION_ROUTES_def MYRIAD_ROUTES_def GENERIC_SLOT_ROUTES_def)


section \<open>Order books\<close>

record order_book_level =
  price :: flt
  lsize :: flt

text \<open>
  \<open>ob_has_amm_payload\<close> is the one thing the engine reads of the raw payload: whether it or one
  of its nested sources holds an AMM pool.
\<close>

record order_book =
  bids :: "order_book_level list"
  asks :: "order_book_level list"
  ob_has_amm_payload :: bool
  ob_timestamp :: flt
  ob_sequence :: "int option"
  ob_checksum :: "string option"
  ob_status :: market_data_status

definition best_bid :: "order_book \<Rightarrow> order_book_level res" where
  "best_bid book = (case bids book of
     [] \<Rightarrow> Inl (ValueError ''order book has no bids'') | l # _ \<Rightarrow> Inr l)"

definition best_ask :: "order_book \<Rightarrow> order_book_level res" where
  "best_ask book = (case asks book of
     [] \<Rightarrow> Inl (ValueError ''order book has no asks'') | l # _ \<Rightarrow> Inr l)"

section \<open>Execution reports\<close>

record execution_report =
  er_order_id :: string
  er_status :: execution_status
  er_amount_requested :: dec
  er_amount_filled :: dec
  er_remaining_amount :: dec
  er_avg_price :: dec
  er_client_order_id :: "string option"
  er_venue_order_id :: "string option"
  er_cumulative_filled :: "dec option"

definition dash_to_underscore :: "string \<Rightarrow> string" where
  "dash_to_underscore s = map (\<lambda>c. if c = CHR ''-'' then CHR ''_'' else c) s"

text \<open>The venue's status is either one of ours already or the string the venue sent.\<close>

definition execution_status_of :: "string + execution_status \<Rightarrow> dec \<Rightarrow> dec \<Rightarrow> execution_status" where
  "execution_status_of v filled requested =
     (case v of Inr st \<Rightarrow> st
      | Inl raw \<Rightarrow>
          (let normalized = dash_to_underscore (lower (strip raw)) in
           if normalized \<in> {''filled'', ''matched'', ''executed'', ''complete'', ''completed''} then ES_FILLED
           else if normalized \<in> {''partial'', ''partially_filled''} \<or> 0 < filled \<and> filled < requested
             then ES_PARTIAL
           else if normalized \<in> {''cancelled'', ''canceled'', ''rejected'', ''failed''} then ES_CANCELLED
           else if normalized = ''expired'' then ES_EXPIRED
           else ES_OPEN))"

definition dec_eps :: dec where "dec_eps = 1 / 10 ^ 18"

definition is_filled :: "execution_report \<Rightarrow> bool" where
  "is_filled r = (er_remaining_amount r \<le> dec_eps \<and> 0 < er_amount_filled r)"

definition has_fill :: "execution_report \<Rightarrow> bool" where
  "has_fill r = (dec_eps < er_amount_filled r)"

definition from_amounts ::
  "string \<Rightarrow> dec \<Rightarrow> dec \<Rightarrow> string + execution_status \<Rightarrow> dec \<Rightarrow> execution_report" where
  "from_amounts order_id amount_requested amount_filled status avg_price =
     (let requested = max 0 amount_requested;
          filled = min (max 0 amount_filled) requested;
          normalized_status = execution_status_of status filled requested
      in \<lparr>er_order_id = order_id, er_status = normalized_status,
          er_amount_requested = requested, er_amount_filled = filled,
          er_remaining_amount = max 0 (dsub requested filled),
          er_avg_price = max 0 avg_price, er_client_order_id = None,
          er_venue_order_id = Some order_id, er_cumulative_filled = Some filled\<rparr>)"

text \<open>What \<open>from_amounts\<close> promises: amounts in range, and a filled report leaves nothing over.\<close>

definition report_ok :: "execution_report \<Rightarrow> bool" where
  "report_ok r \<longleftrightarrow> 0 \<le> er_amount_filled r \<and> er_amount_filled r \<le> er_amount_requested r \<and>
     er_remaining_amount r = dsub (er_amount_requested r) (er_amount_filled r) \<and> 0 \<le> er_avg_price r"

lemma from_amounts_ok: "report_ok (from_amounts oid req fl st avg)"
proof -
  have "max 0 (dsub (max 0 req) (min (max 0 fl) (max 0 req))) =
      dsub (max 0 req) (min (max 0 fl) (max 0 req))"
    by (rule max_absorb2) simp
  then show ?thesis by (simp add: report_ok_def from_amounts_def Let_def)
qed

lemma from_amounts_cancelled [simp]:
  "er_amount_filled (from_amounts oid req 0 st avg) = 0"
  "er_status (from_amounts oid req fl (Inr st') avg) = st'"
  by (simp_all add: from_amounts_def execution_status_of_def Let_def)

section \<open>Fees\<close>

record market_constraints =
  fee_rate_bps :: int
  tick_size :: dec
  lot_size :: dec
  minimum_notional :: dec
  mc_fee_exponent :: dec

record venue_fee_quote =
  fq_venue :: string
  fq_fee_rate_bps :: int
  fq_model :: string
  fq_source :: string
  fq_verified :: bool
  fq_fee_exponent :: dec
  fq_fee_rate_fraction :: "dec option"
  fq_minimum_fee_usd :: dec

text \<open>
  \<^verbatim>\<open>x ** e\<close> on Decimal. For an integer exponent it is the rounded power; the value at a
  fractional exponent is irrational and comes from the parameter \<open>fp\<close>, of which the code relies
  on no more than \<open>unit_pow\<close>: a power of a number in the unit interval stays there.
\<close>

definition dec_pow :: "(dec \<Rightarrow> dec \<Rightarrow> dec) \<Rightarrow> dec \<Rightarrow> dec \<Rightarrow> dec" where
  "dec_pow fp x e = (if of_int \<lfloor>e\<rfloor> = e then dec_round (x ^ nat \<lfloor>e\<rfloor>) else fp x e)"

definition unit_pow :: "(dec \<Rightarrow> dec \<Rightarrow> dec) \<Rightarrow> bool" where
  "unit_pow fp \<longleftrightarrow> (\<forall>x e. 0 < x \<and> x \<le> 1 \<and> 0 \<le> e \<longrightarrow> 0 \<le> fp x e \<and> fp x e \<le> 1)"

definition fee_rate :: "venue_fee_quote \<Rightarrow> dec" where
  "fee_rate q = (case fq_fee_rate_fraction q of
     Some r \<Rightarrow> r | None \<Rightarrow> ddiv (of_int (fq_fee_rate_bps q)) 10000)"

definition minimum_fee :: "venue_fee_quote \<Rightarrow> dec res" where
  "minimum_fee q = (let floor = fq_minimum_fee_usd q in
     raise_if (floor < 0) (ValueError ''minimum_fee_usd must be finite and non-negative'') (Inr floor))"

definition curve_factor :: "(dec \<Rightarrow> dec \<Rightarrow> dec) \<Rightarrow> dec \<Rightarrow> dec \<Rightarrow> dec" where
  "curve_factor fp average_price exponent =
     (let price_curve = dmul average_price (dsub 1 average_price) in
      if exponent = 0 then 1 else if price_curve = 0 then 0 else dec_pow fp price_curve exponent)"

definition fee_for_fill ::
  "(dec \<Rightarrow> dec \<Rightarrow> dec) \<Rightarrow> venue_fee_quote \<Rightarrow> dec \<Rightarrow> dec \<Rightarrow> dec res" where
  "fee_for_fill fp q contracts average_price =
     (if fq_fee_rate_bps q < 0 then Inl (ValueError ''fee_rate_bps must be non-negative'')
      else if average_price < 0 \<or> 1 < average_price
        then Inl (ValueError ''average_price must be between 0 and 1'')
      else let rate = fee_rate q in
      if rate < 0 \<or> 1 \<le> rate then Inl (ValueError ''fee rate must be finite and between 0 and 1'')
      else if fq_model q \<in> {''polymarket_dynamic'', ''polymarket_taker''} then
        (if fq_fee_exponent q < 0
           then Inl (ValueError ''fee_exponent must be finite and non-negative'')
         else Inr (dmul (dmul contracts rate) (curve_factor fp average_price (fq_fee_exponent q))))
      else if fq_model q = ''notional_bps'' then Inr (dmul (dmul contracts average_price) rate)
      else if fq_model q = ''myriad_curve'' then
        (let effective_rate = ddiv (dmul rate (min average_price (dsub 1 average_price))) (1/2)
         in Inr (dmul (dmul contracts average_price) effective_rate))
      else if fq_model q = ''opinion_curve'' then
        (let curve_fee = dmul (dmul (dmul contracts rate) average_price) (dsub 1 average_price)
         in if contracts \<le> 0 then Inr 0
            else rbind (minimum_fee q) (\<lambda>floor. Inr (max curve_fee floor)))
      else if fq_model q = ''sx_payout_profit'' then
        Inr (dmul (dmul contracts (dsub 1 average_price)) rate)
      else if fq_model q = ''zero_fee'' then Inr 0
      else Inl (ValueError (''unsupported fee model: '' @ fq_model q)))"

lemma dec_pow_unit:
  assumes "unit_pow fp" and "0 < x" and "x \<le> 1" and "0 \<le> e"
  shows "0 \<le> dec_pow fp x e \<and> dec_pow fp x e \<le> 1"
  using assms by (auto simp: dec_pow_def unit_pow_def intro: dec.rnd_le_1 power_le_one less_imp_le)

lemma price_curve_unit:
  assumes "0 \<le> a" and "a \<le> 1"
  shows "0 \<le> dmul a (dsub 1 a) \<and> dmul a (dsub 1 a) \<le> 1"
proof -
  have "dsub 1 a \<le> 1" unfolding dsub_def using assms(1) by (intro dec.rnd_le_1) simp
  moreover have "0 \<le> dsub 1 a" using assms(2) by simp
  ultimately have "a * dsub 1 a \<le> 1" using assms by (intro mult_le_one)
  then show ?thesis using assms by (simp add: dmul_def dec.rnd_le_1)
qed

lemma curve_factor_unit:
  assumes "unit_pow fp" and "0 \<le> a" and "a \<le> 1" and "0 \<le> e"
  shows "0 \<le> curve_factor fp a e \<and> curve_factor fp a e \<le> 1"
proof -
  have "0 \<le> dmul a (dsub 1 a)" "dmul a (dsub 1 a) \<le> 1"
    using price_curve_unit [OF assms(2,3)] by auto
  then show ?thesis
    using dec_pow_unit [OF assms(1) _ _ assms(4), of "dmul a (dsub 1 a)"]
    by (auto simp: curve_factor_def Let_def)
qed

lemma fee_for_fill_guards:
  assumes "fee_for_fill fp q c a = Inr fee"
  shows "0 \<le> fq_fee_rate_bps q" "0 \<le> a" "a \<le> 1" "0 \<le> fee_rate q" "fee_rate q < 1"
  using assms by (auto simp: fee_for_fill_def Let_def split: if_splits)

lemma fee_for_fill_nonneg:
  assumes fp: "unit_pow fp" and c: "0 \<le> c" and ok: "fee_for_fill fp q c a = Inr fee"
  shows "0 \<le> fee"
proof -
  note g = fee_for_fill_guards [OF ok]
  show ?thesis
    using ok g c curve_factor_unit [OF fp g(2,3), of "fq_fee_exponent q"]
    by (auto simp: fee_for_fill_def Let_def minimum_fee_def res_simps split: if_splits)
qed


text \<open>No fee model but the one with a floor charges more than the contracts can pay out.\<close>

lemma dec_round_half [simp]: "dec_round (1/2) = 1/2"
  using round_sig_exact [of 10 28 "1/2" 5 "-1"] by (simp add: dec_round_def power_int_minus)

lemma min_price_half: "0 \<le> a \<Longrightarrow> min a (dsub 1 a) \<le> 1/2"
proof (cases "a \<le> 1/2")
  case False
  then have "dsub 1 a \<le> 1/2" unfolding dsub_def by (intro dec.rnd_le_fix) simp_all
  then show ?thesis by simp
qed auto

lemma dmul_unit: "0 \<le> a \<Longrightarrow> a \<le> 1 \<Longrightarrow> 0 \<le> b \<Longrightarrow> b \<le> 1 \<Longrightarrow> dmul a b \<le> 1"
  by (simp add: dmul_def dec.rnd_le_1 mult_le_one)

lemma effective_rate_unit:
  assumes "0 \<le> r" and "r < 1" and "0 \<le> a" and "a \<le> 1"
  shows "0 \<le> ddiv (dmul r (min a (dsub 1 a))) (1/2) \<and> ddiv (dmul r (min a (dsub 1 a))) (1/2) \<le> 1"
proof -
  have m: "0 \<le> min a (dsub 1 a)" "min a (dsub 1 a) \<le> 1/2"
    using assms min_price_half by auto
  then have "r * min a (dsub 1 a) \<le> 1 * (1/2)" using assms by (intro mult_mono) auto
  then have "dmul r (min a (dsub 1 a)) \<le> 1/2"
    unfolding dmul_def by (intro dec.rnd_le_fix) simp_all
  then show ?thesis using assms m by (simp add: ddiv_def dec.rnd_le_1)
qed

lemma fee_for_fill_le_contracts:
  assumes fp: "unit_pow fp" and c: "0 \<le> c" "dec_round c = c"
    and ok: "fee_for_fill fp q c a = Inr fee" and m: "fq_model q \<noteq> ''opinion_curve''"
  shows "fee \<le> c"
proof -
  note g = fee_for_fill_guards [OF ok]
  have le: "dmul x y \<le> c" if "0 \<le> x" "x \<le> c" "y \<le> 1" "dec_round x = x" for x y
    using dmul_le_left [of x y] that by simp
  have one: "dsub 1 a \<le> 1" unfolding dsub_def using g by (intro dec.rnd_le_1) simp
  have ca: "0 \<le> dmul c a" "dmul c a \<le> c" "0 \<le> dmul c (fee_rate q)" "dmul c (fee_rate q) \<le> c"
    "0 \<le> dmul c (dsub 1 a)" "dmul c (dsub 1 a) \<le> c"
    using g c one by (auto intro: le)
  show ?thesis
    using ok m g c ca curve_factor_unit [OF fp g(2,3), of "fq_fee_exponent q"]
      effective_rate_unit [OF g(4,5,2,3)]
    by (auto simp: fee_for_fill_def Let_def split: if_splits intro!: le)
qed

text \<open>Buying more of the same contract at the same price never costs a smaller fee.\<close>

lemma fee_for_fill_mono:
  assumes fp: "unit_pow fp" and c: "0 \<le> c" "c \<le> d"
    and okc: "fee_for_fill fp q c a = Inr f" and okd: "fee_for_fill fp q d a = Inr g"
  shows "f \<le> g"
proof -
  note r = fee_for_fill_guards [OF okc]
  have "dmul c x \<le> dmul d x" if "0 \<le> x" for x using c that by (intro dmul_mono) auto
  then have "dmul c a \<le> dmul d a" "dmul c (fee_rate q) \<le> dmul d (fee_rate q)"
    "dmul c (dsub 1 a) \<le> dmul d (dsub 1 a)"
    using r by auto
  moreover have "0 \<le> dmul c a" "0 \<le> dmul c (fee_rate q)" "0 \<le> dmul c (dsub 1 a)" "0 \<le> dsub 1 a"
    using r c by auto
  ultimately show ?thesis
    using okc okd r c curve_factor_unit [OF fp r(2,3), of "fq_fee_exponent q"]
      effective_rate_unit [OF r(4,5,2,3)]
    by (auto simp: fee_for_fill_def Let_def minimum_fee_def res_simps split: if_splits
        intro!: dmul_mono max.mono)
qed

section \<open>Previews, intents and the rows that the repository stores\<close>

record order_preview =
  op_venue :: string
  op_token_id :: string
  op_side :: binary_side
  op_requested_contracts :: dec
  op_limit_price :: dec
  op_average_price :: dec
  op_notional_usd :: dec
  op_available_depth_usd :: dec
  op_price_impact_pct :: dec
  op_expected_fee_usd :: dec
  op_fee_quote :: "venue_fee_quote option"
  op_constraints :: "market_constraints option"
  op_signing_validated :: bool
  op_payload_fingerprint :: "string option"
  op_blockers :: "string list"
  op_guaranteed_contracts :: "dec option"
  op_maximum_notional_usd :: "dec option"
  op_maximum_fee_usd :: "dec option"

definition preview_executable :: "order_preview \<Rightarrow> bool" where
  "preview_executable v = (op_blockers v = [] \<and> op_signing_validated v \<and>
     (case op_fee_quote v of None \<Rightarrow> False | Some q \<Rightarrow> fq_verified q))"

record market_mapping =
  mm_mapping_id :: string
  mm_canonical_market_id :: string
  mm_left_venue :: string
  mm_left_market_id :: string
  mm_right_venue :: string
  mm_right_market_id :: string
  mm_status :: mapping_status
  mm_rules_fingerprint :: string
  mm_match_strategy :: "string option"
  mm_verified_at :: "datetime option"
  mm_verified_by :: "string option"
  mm_last_discovered_at :: "datetime option"
  mm_updated_at :: "datetime option"

record order_intent =
  oi_client_order_id :: string
  oi_route :: string
  oi_market_key :: string
  oi_venue :: string
  oi_token_id :: string
  oi_binary_side :: binary_side
  oi_action :: string
  oi_quantity :: dec
  oi_limit_price :: dec
  oi_status :: order_intent_status
  oi_venue_order_id :: "string option"
  oi_created_at :: datetime
  oi_updated_at :: datetime

record venue_order =
  vo_client_order_id :: string
  vo_venue_order_id :: string
  vo_venue :: string
  vo_status :: order_intent_status
  vo_quantity :: dec
  vo_cumulative_filled :: dec
  vo_average_price :: dec
  vo_updated_at :: datetime

record fill_record =
  fr_fill_id :: string
  fr_client_order_id :: string
  fr_venue_order_id :: string
  fr_venue :: string
  fr_quantity :: dec
  fr_price :: dec
  fr_fee :: dec
  fr_occurred_at :: datetime

record reconciliation_result =
  rr_venue :: string
  rr_started_at :: datetime
  rr_completed_at :: datetime
  rr_orders_checked :: nat
  rr_fills_recorded :: nat
  rr_drift_count :: nat
  rr_success :: bool
  rr_error :: "string option"
  rr_transient_failure :: bool
  rr_full :: bool
  rr_account_fingerprint :: "string option"
  rr_baseline_manifest :: "string option"

record external_account_baseline =
  eb_manifest_sha256 :: string
  eb_runtime_instance_id :: string
  eb_venue :: string
  eb_account_fingerprint :: string
  eb_positions :: "(string \<times> dec) list"
  eb_fill_refs :: "string list"
  eb_captured_at :: datetime
  eb_operator :: string
  eb_revoked_at :: "datetime option"

definition position_map :: "external_account_baseline \<Rightarrow> (string, dec) dict" where
  "position_map b = foldl (\<lambda>d (token_id, quantity). dict_set token_id quantity d) [] (eb_positions b)"

record settlement_request =
  sr_position_key :: string
  sr_venue :: string
  sr_market_id :: string
  sr_condition_id :: string
  sr_collateral_token :: string
  sr_expected_contracts :: dec
  sr_index_sets :: "nat list"

record redemption_report =
  rp_status :: redemption_status
  rp_tx_hash :: "string option"
  rp_error :: "string option"

record redemption_intent =
  ri_redemption_id :: string
  ri_position_key :: string
  ri_venue :: string
  ri_market_id :: string
  ri_condition_id :: string
  ri_collateral_token :: string
  ri_expected_contracts :: dec
  ri_status :: redemption_status
  ri_tx_hash :: "string option"
  ri_last_error :: "string option"
  ri_created_at :: datetime
  ri_updated_at :: datetime

end
