(* ===== verification/Position_Model.thy ===== *)
theory Position_Model
  imports Market_Model
begin

text \<open>
  The position types of \<^verbatim>\<open>models.py\<close>: plans, spread metrics, signals, open positions and
  the cumulative snapshots of residual exits, with the constructor checks that run on every
  \<^verbatim>\<open>replace\<close>. The main operation is \<open>apply_residual_exit_snapshot\<close>, which folds a
  cumulative report of a venue into the accounting of one leg. The lemmas show that it is
  idempotent, that it never closes more than the leg holds, that regressions are refused, and
  that the residual exposure of a leg is the sum over its latest snapshots.
\<close>

section \<open>Plans, metrics and signals\<close>

record position_plan =
  pl_polymarket_contracts :: dec
  pl_polymarket_capital_usd :: dec
  pl_predict_fun_contracts :: dec
  pl_predict_fun_capital_usd :: dec
  pl_payout_contracts :: dec
  pl_total_cost_usd :: dec
  pl_polymarket_fee_usd :: dec
  pl_predict_fun_fee_usd :: dec

record spread_metrics =
  sm_gross_spread :: flt
  sm_net_spread :: flt
  sm_expected_net_profit_usd :: flt
  sm_polymarket_slippage :: flt
  sm_predict_fun_slippage :: flt
  sm_combined_cost_per_payout :: flt
  sm_fixed_chain_cost_usd :: flt

record arbitrage_signal =
  s_market :: market_spec
  s_plan :: position_plan
  s_metrics :: spread_metrics
  s_polymarket_price :: flt
  s_predict_fun_price :: flt
  s_discovery_generation :: "int option"

section \<open>Residual exit snapshots\<close>

record residual_exit_snapshot =
  rs_venue_order_id :: string
  rs_requested_contracts :: dec
  rs_closed_contracts :: dec
  rs_exit_proceeds_usd :: dec
  rs_residual_contracts :: dec

definition snapshot_valid :: "residual_exit_snapshot \<Rightarrow> bool" where
  "snapshot_valid s \<longleftrightarrow>
     0 \<le> rs_requested_contracts s \<and> 0 \<le> rs_closed_contracts s \<and>
     0 \<le> rs_exit_proceeds_usd s \<and> 0 \<le> rs_residual_contracts s \<and>
     0 < rs_requested_contracts s \<and> 0 < rs_residual_contracts s \<and>
     \<not> (0 < rs_closed_contracts s \<and> rs_exit_proceeds_usd s \<le> 0) \<and>
     dadd (rs_closed_contracts s) (rs_residual_contracts s)
       \<le> dadd (rs_requested_contracts s) dec_eps"

definition mk_snapshot :: "residual_exit_snapshot \<Rightarrow> residual_exit_snapshot res" where
  "mk_snapshot s =
     (let oid = lower (strip (rs_venue_order_id s)); t = s\<lparr>rs_venue_order_id := oid\<rparr> in
      raise_if (oid = []) (ValueError ''residual exit snapshot requires a venue order id'')
        (raise_if (\<not> snapshot_valid t)
          (ValueError ''residual exit snapshot contains invalid cumulative accounting'') (Inr t)))"

definition average_exit_price :: "residual_exit_snapshot \<Rightarrow> dec" where
  "average_exit_price s =
     (if rs_closed_contracts s \<le> dec_eps then 0
      else ddiv (rs_exit_proceeds_usd s) (rs_closed_contracts s))"

lemma mk_snapshot_valid: "mk_snapshot s = Inr t \<Longrightarrow> snapshot_valid t \<and> rs_venue_order_id t \<noteq> []"
  by (auto simp: mk_snapshot_def Let_def res_simps)

section \<open>Open positions\<close>

record open_position =
  p_market :: market_spec
  p_polymarket_contracts :: dec
  p_polymarket_entry_price :: dec
  p_predict_fun_contracts :: dec
  p_predict_fun_entry_price :: dec
  p_opened_at :: datetime
  p_polymarket_order_id :: string
  p_predict_fun_order_id :: string
  p_status :: string
  p_unwind_attempts :: nat
  p_polymarket_closed :: bool
  p_predict_fun_closed :: bool
  p_polymarket_exit_price :: "dec option"
  p_predict_fun_exit_price :: "dec option"
  p_unmatched_first_contracts :: dec
  p_unmatched_second_contracts :: dec
  p_polymarket_closed_contracts :: dec
  p_predict_fun_closed_contracts :: dec
  p_polymarket_exit_proceeds_usd :: dec
  p_predict_fun_exit_proceeds_usd :: dec
  p_polymarket_residual_contracts :: dec
  p_predict_fun_residual_contracts :: dec
  p_polymarket_residual_order_ids :: "string list"
  p_predict_fun_residual_order_ids :: "string list"
  p_polymarket_residual_snapshots :: "residual_exit_snapshot list"
  p_predict_fun_residual_snapshots :: "residual_exit_snapshot list"

text \<open>\<^verbatim>\<open>OpenPosition(...)\<close> with every optional field at its default.\<close>

definition open_position_default ::
  "market_spec \<Rightarrow> dec \<Rightarrow> dec \<Rightarrow> dec \<Rightarrow> dec \<Rightarrow> datetime \<Rightarrow> string \<Rightarrow> string \<Rightarrow> open_position" where
  "open_position_default market pc pe qc qe opened poid qoid =
     \<lparr>p_market = market, p_polymarket_contracts = pc, p_polymarket_entry_price = pe,
      p_predict_fun_contracts = qc, p_predict_fun_entry_price = qe, p_opened_at = opened,
      p_polymarket_order_id = poid, p_predict_fun_order_id = qoid, p_status = ''open'',
      p_unwind_attempts = 0, p_polymarket_closed = False, p_predict_fun_closed = False,
      p_polymarket_exit_price = None, p_predict_fun_exit_price = None,
      p_unmatched_first_contracts = 0, p_unmatched_second_contracts = 0,
      p_polymarket_closed_contracts = 0, p_predict_fun_closed_contracts = 0,
      p_polymarket_exit_proceeds_usd = 0, p_predict_fun_exit_proceeds_usd = 0,
      p_polymarket_residual_contracts = 0, p_predict_fun_residual_contracts = 0,
      p_polymarket_residual_order_ids = [], p_predict_fun_residual_order_ids = [],
      p_polymarket_residual_snapshots = [], p_predict_fun_residual_snapshots = []\<rparr>"

definition snapshot_ids :: "residual_exit_snapshot list \<Rightarrow> string list" where
  "snapshot_ids ss = map rs_venue_order_id ss"

definition normalize_order_ids :: "string list \<Rightarrow> residual_exit_snapshot list \<Rightarrow> string list" where
  "normalize_order_ids ids ss =
     fromkeys (fromkeys (map lower (filter (\<lambda>v. v \<noteq> []) ids)) @ snapshot_ids ss)"

text \<open>\<^verbatim>\<open>OpenPosition.__post_init__\<close>, which also runs inside every \<^verbatim>\<open>replace\<close>.\<close>

definition position_post_init :: "open_position \<Rightarrow> open_position res" where
  "position_post_init p =
     raise_if (\<not> distinct (snapshot_ids (p_polymarket_residual_snapshots p)))
       (ValueError ''polymarket_residual_exit_snapshots contains duplicate venue order ids'')
     (raise_if (\<not> distinct (snapshot_ids (p_predict_fun_residual_snapshots p)))
       (ValueError ''predict_fun_residual_exit_snapshots contains duplicate venue order ids'')
       (Inr (p\<lparr>p_polymarket_residual_order_ids :=
                 normalize_order_ids (p_polymarket_residual_order_ids p) (p_polymarket_residual_snapshots p),
               p_predict_fun_residual_order_ids :=
                 normalize_order_ids (p_predict_fun_residual_order_ids p) (p_predict_fun_residual_snapshots p)\<rparr>)))"

definition position_key :: "market_spec \<Rightarrow> string" where
  "position_key market =
     (let fingerprint = (case m_rules_fingerprint market of
            Some f \<Rightarrow> (if f \<noteq> [] then f else m_symbol market @ '':'' @ m_target_label market)
          | None \<Rightarrow> m_symbol market @ '':'' @ m_target_label market)
      in fingerprint @ '':'' @ m_venue_a_label market @ '':'' @ m_polymarket_token_id market @ '':'' @
         side_value (m_polymarket_side market) @ '':'' @ m_venue_b_label market @ '':'' @
         m_predict_fun_token_id market @ '':'' @ side_value (m_predict_fun_side market))"

record exit_signal =
  x_position :: open_position
  x_polymarket_exit_price :: dec
  x_predict_fun_exit_price :: dec
  x_profit_pct :: flt
  x_profit_usd :: dec
  x_exit_spread :: "flt option"

section \<open>Applying a residual exit snapshot\<close>

text \<open>The seven values that \<^verbatim>\<open>apply_to_leg\<close> reads of a leg and returns.\<close>

record leg_account =
  la_total :: dec
  la_closed :: dec
  la_proceeds :: dec
  la_residual :: dec
  la_is_closed :: bool
  la_exit_price :: "dec option"
  la_order_ids :: "string list"
  la_snapshots :: "residual_exit_snapshot list"

definition find_snapshot :: "string \<Rightarrow> residual_exit_snapshot list \<Rightarrow> residual_exit_snapshot option" where
  "find_snapshot oid ss = find (\<lambda>s. rs_venue_order_id s = oid) ss"

definition replace_snapshot ::
  "residual_exit_snapshot \<Rightarrow> residual_exit_snapshot list \<Rightarrow> residual_exit_snapshot list" where
  "replace_snapshot s ss = map (\<lambda>t. if rs_venue_order_id t = rs_venue_order_id s then s else t) ss"

definition no_news :: "residual_exit_snapshot \<Rightarrow> residual_exit_snapshot \<Rightarrow> bool" where
  "no_news old new \<longleftrightarrow>
     rs_closed_contracts new \<le> dadd (rs_closed_contracts old) dec_eps \<and>
     rs_exit_proceeds_usd new \<le> dadd (rs_exit_proceeds_usd old) dec_eps \<and>
     rs_residual_contracts new \<le> dadd (rs_residual_contracts old) dec_eps"

definition regresses :: "residual_exit_snapshot \<Rightarrow> residual_exit_snapshot \<Rightarrow> bool" where
  "regresses old new \<longleftrightarrow>
     rs_closed_contracts new < dsub (rs_closed_contracts old) dec_eps \<or>
     rs_exit_proceeds_usd new < dsub (rs_exit_proceeds_usd old) dec_eps \<or>
     rs_residual_contracts new < dsub (rs_residual_contracts old) dec_eps"

definition settle_leg ::
  "leg_account \<Rightarrow> residual_exit_snapshot \<Rightarrow> dec \<Rightarrow> dec \<Rightarrow> dec \<Rightarrow> residual_exit_snapshot list \<Rightarrow> leg_account res" where
  "settle_leg l s delta_closed delta_proceeds delta_residual snapshots =
     raise_if (dadd (la_total l) dec_eps < dadd (la_closed l) delta_closed)
       (RuntimeError ''residual exit snapshot exceeds the remaining position contracts'')
     (let closed = min (la_total l) (dadd (la_closed l) delta_closed);
          proceeds = dadd (la_proceeds l) delta_proceeds
      in Inr (l\<lparr>la_closed := closed, la_proceeds := proceeds,
                la_residual := dadd (la_residual l) delta_residual,
                la_is_closed := dsub (la_total l) dec_eps \<le> closed,
                la_exit_price := (if dec_eps < closed then Some (ddiv proceeds closed) else None),
                la_order_ids := fromkeys (la_order_ids l @ [rs_venue_order_id s]),
                la_snapshots := snapshots\<rparr>))"

definition apply_to_leg :: "leg_account \<Rightarrow> residual_exit_snapshot \<Rightarrow> leg_account res" where
  "apply_to_leg l s =
     (case find_snapshot (rs_venue_order_id s) (la_snapshots l) of
        None \<Rightarrow>
          raise_if (rs_venue_order_id s \<in> set (la_order_ids l))
            (RuntimeError ''residual exit order is missing its cumulative accounting snapshot'')
            (settle_leg l s (rs_closed_contracts s) (rs_exit_proceeds_usd s)
               (rs_residual_contracts s) (la_snapshots l @ [s]))
      | Some previous \<Rightarrow>
          raise_if (dec_eps < dec_round \<bar>dsub (rs_requested_contracts previous) (rs_requested_contracts s)\<bar>)
            (RuntimeError ''residual exit snapshot changed requested contracts'')
          (if no_news previous s then
             Inr (l\<lparr>la_is_closed := dsub (la_total l) dec_eps \<le> la_closed l,
                    la_exit_price := (if dec_eps < la_closed l
                      then Some (ddiv (la_proceeds l) (la_closed l)) else None)\<rparr>)
           else raise_if (regresses previous s)
             (RuntimeError ''residual exit snapshot contains mixed cumulative regression'')
           (let delta_closed = dsub (rs_closed_contracts s) (rs_closed_contracts previous);
                delta_proceeds = dsub (rs_exit_proceeds_usd s) (rs_exit_proceeds_usd previous);
                delta_residual = dsub (rs_residual_contracts s) (rs_residual_contracts previous)
            in raise_if (dec_eps < delta_closed \<and> delta_proceeds \<le> dec_eps)
                 (RuntimeError ''residual exit snapshot added closed contracts without proceeds'')
                 (settle_leg l s delta_closed delta_proceeds delta_residual
                    (replace_snapshot s (la_snapshots l))))))"

definition first_leg_account :: "open_position \<Rightarrow> leg_account" where
  "first_leg_account p =
     \<lparr>la_total = p_polymarket_contracts p, la_closed = p_polymarket_closed_contracts p,
      la_proceeds = p_polymarket_exit_proceeds_usd p, la_residual = p_polymarket_residual_contracts p,
      la_is_closed = p_polymarket_closed p, la_exit_price = p_polymarket_exit_price p,
      la_order_ids = p_polymarket_residual_order_ids p,
      la_snapshots = p_polymarket_residual_snapshots p\<rparr>"

definition second_leg_account :: "open_position \<Rightarrow> leg_account" where
  "second_leg_account p =
     \<lparr>la_total = p_predict_fun_contracts p, la_closed = p_predict_fun_closed_contracts p,
      la_proceeds = p_predict_fun_exit_proceeds_usd p, la_residual = p_predict_fun_residual_contracts p,
      la_is_closed = p_predict_fun_closed p, la_exit_price = p_predict_fun_exit_price p,
      la_order_ids = p_predict_fun_residual_order_ids p,
      la_snapshots = p_predict_fun_residual_snapshots p\<rparr>"

definition put_first_leg :: "leg_account \<Rightarrow> open_position \<Rightarrow> open_position" where
  "put_first_leg l p = p\<lparr>p_polymarket_closed := la_is_closed l,
     p_polymarket_closed_contracts := la_closed l, p_polymarket_exit_proceeds_usd := la_proceeds l,
     p_polymarket_exit_price := la_exit_price l, p_polymarket_residual_contracts := la_residual l,
     p_polymarket_residual_order_ids := la_order_ids l, p_polymarket_residual_snapshots := la_snapshots l\<rparr>"

definition put_second_leg :: "leg_account \<Rightarrow> open_position \<Rightarrow> open_position" where
  "put_second_leg l p = p\<lparr>p_predict_fun_closed := la_is_closed l,
     p_predict_fun_closed_contracts := la_closed l, p_predict_fun_exit_proceeds_usd := la_proceeds l,
     p_predict_fun_exit_price := la_exit_price l, p_predict_fun_residual_contracts := la_residual l,
     p_predict_fun_residual_order_ids := la_order_ids l, p_predict_fun_residual_snapshots := la_snapshots l\<rparr>"

definition apply_residual_exit_snapshot ::
  "open_position \<Rightarrow> string \<Rightarrow> residual_exit_snapshot \<Rightarrow> open_position res" where
  "apply_residual_exit_snapshot p venue s =
     (if m_venue_a_label (p_market p) = venue then
        rbind (apply_to_leg (first_leg_account p) s)
          (\<lambda>l. position_post_init (put_first_leg l p\<lparr>p_status := ''manual_review''\<rparr>))
      else if m_venue_b_label (p_market p) = venue then
        rbind (apply_to_leg (second_leg_account p) s)
          (\<lambda>l. position_post_init (put_second_leg l p\<lparr>p_status := ''manual_review''\<rparr>))
      else Inl (RuntimeError (''venue '' @ venue @ '' is not part of position '' @ m_symbol (p_market p))))"


section \<open>Lemmas\<close>

subsection \<open>The constructor checks\<close>

lemma fromkeys_append: "fromkeys (xs @ ys) = fromkeys xs @ filter (\<lambda>y. y \<notin> set xs) (fromkeys ys)"
  by (induction xs) (auto simp: filter_filter conj_commute)

lemma fromkeys_append_subset: "distinct xs \<Longrightarrow> set ys \<subseteq> set xs \<Longrightarrow> fromkeys (xs @ ys) = xs"
  by (auto simp: fromkeys_append fromkeys_distinct filter_empty_conv)

definition normal_id :: "string \<Rightarrow> bool" where
  "normal_id v \<longleftrightarrow> v \<noteq> [] \<and> lower v = v"

lemma map_lower_normal: "\<forall>v \<in> set ids. normal_id v \<Longrightarrow> map lower (filter (\<lambda>v. v \<noteq> []) ids) = ids"
  by (induction ids) (auto simp: normal_id_def)

lemma set_normalize_order_ids:
  "set (normalize_order_ids ids ss) = lower ` {v \<in> set ids. v \<noteq> []} \<union> set (snapshot_ids ss)"
  by (simp add: normalize_order_ids_def)

lemma normalize_order_ids_normal:
  "\<forall>v \<in> set (snapshot_ids ss). normal_id v \<Longrightarrow> \<forall>v \<in> set (normalize_order_ids ids ss). normal_id v"
proof (intro ballI)
  fix v
  assume ids: "\<forall>v \<in> set (snapshot_ids ss). normal_id v" and "v \<in> set (normalize_order_ids ids ss)"
  then consider w where "w \<noteq> []" "v = lower w" | "v \<in> set (snapshot_ids ss)"
    unfolding set_normalize_order_ids by blast
  then show "normal_id v" using ids by cases (simp_all add: normal_id_def)
qed

lemma normalize_order_ids_idem:
  assumes "\<forall>v \<in> set (snapshot_ids ss). normal_id v"
  shows "normalize_order_ids (normalize_order_ids ids ss) ss = normalize_order_ids ids ss"
proof -
  let ?N = "normalize_order_ids ids ss"
  have d: "distinct ?N" by (simp add: normalize_order_ids_def)
  have "map lower (filter (\<lambda>v. v \<noteq> []) ?N) = ?N"
    by (rule map_lower_normal) (rule normalize_order_ids_normal [OF assms])
  then have "normalize_order_ids ?N ss = fromkeys (?N @ snapshot_ids ss)"
    by (simp add: normalize_order_ids_def [of ?N] fromkeys_distinct [OF d])
  also have "\<dots> = ?N" using d by (rule fromkeys_append_subset) (auto simp: set_normalize_order_ids)
  finally show ?thesis .
qed

definition snapshots_normal :: "open_position \<Rightarrow> bool" where
  "snapshots_normal p \<longleftrightarrow>
     (\<forall>v \<in> set (snapshot_ids (p_polymarket_residual_snapshots p)). normal_id v) \<and>
     (\<forall>v \<in> set (snapshot_ids (p_predict_fun_residual_snapshots p)). normal_id v)"

lemma position_post_init_idem:
  "snapshots_normal p \<Longrightarrow> position_post_init p = Inr q \<Longrightarrow> position_post_init q = Inr q"
  by (auto simp: position_post_init_def snapshots_normal_def raise_if_def normalize_order_ids_idem
      split: if_splits)

subsection \<open>One leg\<close>

definition snapshot_exact :: "residual_exit_snapshot \<Rightarrow> bool" where
  "snapshot_exact s \<longleftrightarrow> dec_round (rs_closed_contracts s) = rs_closed_contracts s \<and>
     dec_round (rs_exit_proceeds_usd s) = rs_exit_proceeds_usd s \<and>
     dec_round (rs_residual_contracts s) = rs_residual_contracts s"

lemma dec_eps_pos [simp]: "0 < dec_eps" "0 \<le> dec_eps"
  by (simp_all add: dec_eps_def)

lemma le_dadd_eps: "dec_round x = x \<Longrightarrow> x \<le> dadd x dec_eps"
  unfolding dadd_def by (rule dec.rnd_ge_fix) simp_all

lemma no_news_refl: "snapshot_exact s \<Longrightarrow> no_news s s"
  by (simp add: no_news_def snapshot_exact_def le_dadd_eps)

lemma find_snapshot_None: "find_snapshot oid ss = None \<longleftrightarrow> oid \<notin> set (snapshot_ids ss)"
  by (auto simp: find_snapshot_def snapshot_ids_def find_None_iff)

lemma find_snapshot_append:
  "find_snapshot (rs_venue_order_id s) ss = None \<Longrightarrow> find_snapshot (rs_venue_order_id s) (ss @ [s]) = Some s"
  by (induction ss) (auto simp: find_snapshot_def split: if_splits)

lemma find_snapshot_replace:
  "find_snapshot (rs_venue_order_id s) ss = Some t \<Longrightarrow>
     find_snapshot (rs_venue_order_id s) (replace_snapshot s ss) = Some s"
  by (induction ss) (auto simp: find_snapshot_def replace_snapshot_def split: if_splits)

lemma snapshot_ids_replace [simp]: "snapshot_ids (replace_snapshot s ss) = snapshot_ids ss"
  by (auto simp: snapshot_ids_def replace_snapshot_def)

text \<open>What a successful application left in the leg.\<close>

definition flags_current :: "leg_account \<Rightarrow> bool" where
  "flags_current l \<longleftrightarrow> la_is_closed l = (dsub (la_total l) dec_eps \<le> la_closed l) \<and>
     la_exit_price l = (if dec_eps < la_closed l then Some (ddiv (la_proceeds l) (la_closed l)) else None)"

lemma settle_leg_Inr:
  assumes "settle_leg l s dc dp dr ss = Inr l'"
  shows "dadd (la_closed l) dc \<le> dadd (la_total l) dec_eps" "la_total l' = la_total l"
    "la_closed l' = min (la_total l) (dadd (la_closed l) dc)"
    "la_residual l' = dadd (la_residual l) dr" "la_proceeds l' = dadd (la_proceeds l) dp"
    "la_snapshots l' = ss" "flags_current l'"
    "la_order_ids l' = fromkeys (la_order_ids l @ [rs_venue_order_id s])"
  using assms by (auto simp: settle_leg_def raise_if_def Let_def flags_current_def split: if_splits)

lemma settle_leg_closed_le: "settle_leg l s dc dp dr ss = Inr l' \<Longrightarrow> la_closed l' \<le> la_total l'"
  by (simp add: settle_leg_Inr(2,3))

lemma apply_to_leg_cases:
  assumes "apply_to_leg l s = Inr l'"
  obtains (new) "find_snapshot (rs_venue_order_id s) (la_snapshots l) = None"
      "settle_leg l s (rs_closed_contracts s) (rs_exit_proceeds_usd s) (rs_residual_contracts s)
         (la_snapshots l @ [s]) = Inr l'"
  | (same) t where "find_snapshot (rs_venue_order_id s) (la_snapshots l) = Some t" "no_news t s"
      "dec_round \<bar>dsub (rs_requested_contracts t) (rs_requested_contracts s)\<bar> \<le> dec_eps"
      "flags_current l'" "la_snapshots l' = la_snapshots l" "la_total l' = la_total l"
      "la_closed l' = la_closed l" "la_proceeds l' = la_proceeds l" "la_residual l' = la_residual l"
      "la_order_ids l' = la_order_ids l"
  | (update) t where "find_snapshot (rs_venue_order_id s) (la_snapshots l) = Some t"
      "\<not> no_news t s" "\<not> regresses t s"
      "settle_leg l s (dsub (rs_closed_contracts s) (rs_closed_contracts t))
         (dsub (rs_exit_proceeds_usd s) (rs_exit_proceeds_usd t))
         (dsub (rs_residual_contracts s) (rs_residual_contracts t))
         (replace_snapshot s (la_snapshots l)) = Inr l'"
proof (cases "find_snapshot (rs_venue_order_id s) (la_snapshots l)")
  case None
  with assms new show ?thesis by (auto simp: apply_to_leg_def raise_if_def split: if_splits)
next
  case (Some t)
  with assms same [of t] update [of t] show ?thesis
    by (auto simp: apply_to_leg_def raise_if_def Let_def flags_current_def not_less split: if_splits)
qed

lemma apply_to_leg_no_news:
  assumes "find_snapshot (rs_venue_order_id s) (la_snapshots l) = Some t" and "no_news t s"
    and "dec_round \<bar>dsub (rs_requested_contracts t) (rs_requested_contracts s)\<bar> \<le> dec_eps"
    and "flags_current l"
  shows "apply_to_leg l s = Inr l"
  using assms by (simp add: apply_to_leg_def flags_current_def)

lemma apply_to_leg_records:
  assumes "apply_to_leg l s = Inr l'" and "snapshot_exact s"
  shows "\<exists>t. find_snapshot (rs_venue_order_id s) (la_snapshots l') = Some t \<and> no_news t s \<and>
    dec_round \<bar>dsub (rs_requested_contracts t) (rs_requested_contracts s)\<bar> \<le> dec_eps \<and> flags_current l'"
  using assms(1)
proof (cases rule: apply_to_leg_cases)
  case new
  then show ?thesis
    using settle_leg_Inr [OF new(2)] assms(2) by (simp add: find_snapshot_append no_news_refl)
next
  case (same t)
  then show ?thesis by auto
next
  case (update t)
  then show ?thesis
    using settle_leg_Inr [OF update(4)] assms(2) by (simp add: find_snapshot_replace no_news_refl)
qed

lemma apply_to_leg_idem:
  assumes "apply_to_leg l s = Inr l'" and "snapshot_exact s"
  shows "apply_to_leg l' s = Inr l'"
  using apply_to_leg_records [OF assms] apply_to_leg_no_news by blast

lemma apply_to_leg_total: "apply_to_leg l s = Inr l' \<Longrightarrow> la_total l' = la_total l"
  by (erule apply_to_leg_cases) (auto dest: settle_leg_Inr(2))

lemma apply_to_leg_closed_le:
  "apply_to_leg l s = Inr l' \<Longrightarrow> la_closed l \<le> la_total l \<Longrightarrow> la_closed l' \<le> la_total l'"
  by (erule apply_to_leg_cases) (auto dest: settle_leg_closed_le)

lemma apply_to_leg_ids:
  "apply_to_leg l s = Inr l' \<Longrightarrow> distinct (snapshot_ids (la_snapshots l)) \<Longrightarrow>
     distinct (snapshot_ids (la_snapshots l')) \<and>
     set (snapshot_ids (la_snapshots l')) = insert (rs_venue_order_id s) (set (snapshot_ids (la_snapshots l)))"
proof (erule apply_to_leg_cases, goal_cases)
  case 1
  then show ?case using settle_leg_Inr(6) [OF 1(3)] find_snapshot_None by (auto simp: snapshot_ids_def)
next
  case (2 t)
  then have "rs_venue_order_id s \<in> set (snapshot_ids (la_snapshots l))"
    using find_snapshot_None by (metis option.distinct(1))
  with 2 show ?case by auto
next
  case (3 t)
  then have "rs_venue_order_id s \<in> set (snapshot_ids (la_snapshots l))"
    using find_snapshot_None by (metis option.distinct(1))
  with 3 settle_leg_Inr(6) [OF 3(5)] show ?case by auto
qed


subsection \<open>The residual exposure is the sum over the latest snapshots\<close>

definition residual_total :: "residual_exit_snapshot list \<Rightarrow> dec" where
  "residual_total ss = sum_list (map rs_residual_contracts ss)"

definition residual_sums :: "leg_account \<Rightarrow> bool" where
  "residual_sums l \<longleftrightarrow> distinct (snapshot_ids (la_snapshots l)) \<and>
     la_residual l = residual_total (la_snapshots l) \<and>
     (\<forall>t \<in> set (la_snapshots l). on_grid (rs_residual_contracts t) \<and> 0 \<le> rs_residual_contracts t)"

lemma residual_total_nonneg: "\<forall>t \<in> set ss. 0 \<le> rs_residual_contracts t \<Longrightarrow> 0 \<le> residual_total ss"
  by (induction ss) (simp_all add: residual_total_def)

lemma replace_snapshot_absent:
  "rs_venue_order_id s \<notin> set (snapshot_ids ss) \<Longrightarrow> replace_snapshot s ss = ss"
  by (induction ss) (auto simp: replace_snapshot_def snapshot_ids_def)

lemma residual_total_replace:
  assumes "distinct (snapshot_ids ss)" and "find_snapshot (rs_venue_order_id s) ss = Some t"
  shows "residual_total (replace_snapshot s ss) =
    residual_total ss + (rs_residual_contracts s - rs_residual_contracts t)"
  using assms
proof (induction ss)
  case Nil
  then show ?case by (simp add: find_snapshot_def)
next
  case (Cons u ss)
  show ?case
  proof (cases "rs_venue_order_id u = rs_venue_order_id s")
    case True
    with Cons.prems have "rs_venue_order_id s \<notin> set (snapshot_ids ss)" "u = t"
      by (auto simp: snapshot_ids_def find_snapshot_def)
    with True replace_snapshot_absent [of s ss] show ?thesis
      by (simp add: residual_total_def replace_snapshot_def)
  next
    case False
    with Cons show ?thesis by (simp add: residual_total_def replace_snapshot_def find_snapshot_def snapshot_ids_def)
  qed
qed

lemma find_snapshot_mem: "find_snapshot oid ss = Some t \<Longrightarrow> t \<in> set ss"
  by (auto simp: find_snapshot_def find_Some_iff)

lemma on_grid_sum:
  "\<forall>t \<in> set ss. on_grid (rs_residual_contracts t) \<and> 0 \<le> rs_residual_contracts t \<Longrightarrow>
     residual_total ss \<le> 10 ^ 10 \<Longrightarrow> on_grid (residual_total ss)"
proof (induction ss)
  case Nil
  then show ?case by (simp add: residual_total_def)
next
  case (Cons t ss)
  have "0 \<le> residual_total ss" using Cons.prems(1) by (intro residual_total_nonneg) auto
  moreover have "residual_total (t # ss) = rs_residual_contracts t + residual_total ss"
    by (simp add: residual_total_def)
  ultimately show ?case using Cons by (auto intro!: on_grid_add)
qed

lemma residual_total_mem_le:
  "\<forall>u \<in> set ss. 0 \<le> rs_residual_contracts u \<Longrightarrow> t \<in> set ss \<Longrightarrow> rs_residual_contracts t \<le> residual_total ss"
  unfolding residual_total_def by (rule member_le_sum_list) auto

lemma apply_to_leg_residual_sums:
  assumes ok: "apply_to_leg l s = Inr l'" and inv: "residual_sums l"
    and s: "on_grid (rs_residual_contracts s)" "0 \<le> rs_residual_contracts s"
    and small: "residual_total (la_snapshots l) + rs_residual_contracts s \<le> 10 ^ 10"
  shows "residual_sums l'"
proof -
  let ?T = "residual_total (la_snapshots l)"
  have all: "\<forall>t \<in> set (la_snapshots l). on_grid (rs_residual_contracts t) \<and> 0 \<le> rs_residual_contracts t"
    and res: "la_residual l = ?T" and dist: "distinct (snapshot_ids (la_snapshots l))"
    using inv by (auto simp: residual_sums_def)
  have T: "0 \<le> ?T" using all by (intro residual_total_nonneg) auto
  have gT: "on_grid ?T" using all small s(2) by (intro on_grid_sum) auto
  have ids: "distinct (snapshot_ids (la_snapshots l'))" using apply_to_leg_ids [OF ok dist] by simp
  from ok show ?thesis
  proof (cases rule: apply_to_leg_cases)
    case new
    have "dadd ?T (rs_residual_contracts s) = ?T + rs_residual_contracts s"
      unfolding dadd_def using gT s T small by (intro dec_round_grid on_grid_add) auto
    then show ?thesis
      using settle_leg_Inr [OF new(2)] all s ids
      by (auto simp: residual_sums_def res residual_total_def)
  next
    case (same t)
    then show ?thesis using inv by (simp add: residual_sums_def)
  next
    case (update t)
    let ?r = "rs_residual_contracts t"
    have t: "on_grid ?r" "0 \<le> ?r" "?r \<le> ?T"
      using all find_snapshot_mem [OF update(1)] by (auto intro: residual_total_mem_le)
    have d: "dsub (rs_residual_contracts s) ?r = rs_residual_contracts s - ?r"
      "on_grid (rs_residual_contracts s - ?r)"
      using on_grid_add [OF s(1) on_grid_minus [OF t(1)]] t s T small
      by (auto simp: dsub_def dec_round_grid)
    have "dadd ?T (dsub (rs_residual_contracts s) ?r) = ?T + (rs_residual_contracts s - ?r)"
      unfolding dadd_def d(1) using gT d(2) t s T small by (intro dec_round_grid on_grid_add) auto
    then have "la_residual l' = residual_total (la_snapshots l')"
      using settle_leg_Inr [OF update(4)] residual_total_replace [OF dist update(1)] by (simp add: res)
    moreover have "\<forall>u \<in> set (la_snapshots l'). on_grid (rs_residual_contracts u) \<and> 0 \<le> rs_residual_contracts u"
      using settle_leg_Inr(6) [OF update(4)] all s by (auto simp: replace_snapshot_def)
    ultimately show ?thesis using ids by (simp add: residual_sums_def)
  qed
qed


subsection \<open>The whole position\<close>

lemma apply_to_leg_ids_subset:
  "apply_to_leg l s = Inr l' \<Longrightarrow>
     set (snapshot_ids (la_snapshots l')) \<subseteq> insert (rs_venue_order_id s) (set (snapshot_ids (la_snapshots l)))"
  by (erule apply_to_leg_cases) (auto dest!: settle_leg_Inr(6) simp: snapshot_ids_def replace_snapshot_def)

lemma first_leg_account_put:
  "first_leg_account (put_first_leg l p) = l\<lparr>la_total := p_polymarket_contracts p\<rparr>"
  "second_leg_account (put_second_leg l p) = l\<lparr>la_total := p_predict_fun_contracts p\<rparr>"
  by (simp_all add: first_leg_account_def put_first_leg_def second_leg_account_def put_second_leg_def)

lemma leg_account_status [simp]:
  "first_leg_account (p\<lparr>p_status := st\<rparr>) = first_leg_account p"
  "second_leg_account (p\<lparr>p_status := st\<rparr>) = second_leg_account p"
  by (simp_all add: first_leg_account_def second_leg_account_def)

lemma put_leg_account_self:
  "put_first_leg (first_leg_account p) p = p" "put_second_leg (second_leg_account p) p = p"
  by (simp_all add: first_leg_account_def put_first_leg_def second_leg_account_def put_second_leg_def)

lemma status_self: "p_status p = st \<Longrightarrow> p\<lparr>p_status := st\<rparr> = p"
  by (cases p) simp

lemma position_post_init_Inr:
  "position_post_init p = Inr q \<Longrightarrow>
     q = p\<lparr>p_polymarket_residual_order_ids :=
             normalize_order_ids (p_polymarket_residual_order_ids p) (p_polymarket_residual_snapshots p),
           p_predict_fun_residual_order_ids :=
             normalize_order_ids (p_predict_fun_residual_order_ids p) (p_predict_fun_residual_snapshots p)\<rparr> \<and>
     distinct (snapshot_ids (p_polymarket_residual_snapshots p)) \<and>
     distinct (snapshot_ids (p_predict_fun_residual_snapshots p))"
  by (auto simp: position_post_init_def raise_if_def split: if_splits)

lemma apply_first_leg_again:
  assumes venue: "m_venue_a_label (p_market p) = v"
    and leg: "apply_to_leg (first_leg_account p) s = Inr l"
    and ok: "position_post_init (put_first_leg l p\<lparr>p_status := ''manual_review''\<rparr>) = Inr q"
    and s: "snapshot_exact s" "normal_id (rs_venue_order_id s)" and normal: "snapshots_normal p"
  shows "apply_residual_exit_snapshot q v s = Inr q"
proof -
  note q = position_post_init_Inr [OF ok]
  have sn: "p_polymarket_residual_snapshots q = la_snapshots l"
    "p_predict_fun_residual_snapshots q = p_predict_fun_residual_snapshots p"
    and q_market: "p_market q = p_market p" and q_status: "p_status q = ''manual_review''"
    using q by (simp_all add: put_first_leg_def)
  have normal_q: "snapshots_normal q"
    using normal s(2) apply_to_leg_ids_subset [OF leg]
    by (auto simp: snapshots_normal_def sn first_leg_account_def)
  have acc: "first_leg_account q = l\<lparr>la_order_ids := la_order_ids (first_leg_account q)\<rparr>"
    using q apply_to_leg_total [OF leg] by (simp add: first_leg_account_def put_first_leg_def)
  obtain t where t: "find_snapshot (rs_venue_order_id s) (la_snapshots l) = Some t" "no_news t s"
    "dec_round \<bar>dsub (rs_requested_contracts t) (rs_requested_contracts s)\<bar> \<le> dec_eps" "flags_current l"
    using apply_to_leg_records [OF leg s(1)] by blast
  have "apply_to_leg (first_leg_account q) s = Inr (first_leg_account q)"
    using t by (subst acc, subst (2) acc, intro apply_to_leg_no_news [of s _ t]) (simp_all add: flags_current_def)
  moreover have "position_post_init q = Inr q"
    using position_post_init_idem [of q q] normal_q q
    by (auto simp: position_post_init_def raise_if_def normalize_order_ids_idem snapshots_normal_def sn put_first_leg_def)
  ultimately show ?thesis
    using venue status_self [OF q_status]
    by (simp add: apply_residual_exit_snapshot_def q_market put_leg_account_self)
qed

lemma apply_second_leg_again:
  assumes venue: "m_venue_a_label (p_market p) \<noteq> v" "m_venue_b_label (p_market p) = v"
    and leg: "apply_to_leg (second_leg_account p) s = Inr l"
    and ok: "position_post_init (put_second_leg l p\<lparr>p_status := ''manual_review''\<rparr>) = Inr q"
    and s: "snapshot_exact s" "normal_id (rs_venue_order_id s)" and normal: "snapshots_normal p"
  shows "apply_residual_exit_snapshot q v s = Inr q"
proof -
  note q = position_post_init_Inr [OF ok]
  have sn: "p_predict_fun_residual_snapshots q = la_snapshots l"
    "p_polymarket_residual_snapshots q = p_polymarket_residual_snapshots p"
    and q_market: "p_market q = p_market p" and q_status: "p_status q = ''manual_review''"
    using q by (simp_all add: put_second_leg_def)
  have normal_q: "snapshots_normal q"
    using normal s(2) apply_to_leg_ids_subset [OF leg]
    by (auto simp: snapshots_normal_def sn second_leg_account_def)
  have acc: "second_leg_account q = l\<lparr>la_order_ids := la_order_ids (second_leg_account q)\<rparr>"
    using q apply_to_leg_total [OF leg] by (simp add: second_leg_account_def put_second_leg_def)
  obtain t where t: "find_snapshot (rs_venue_order_id s) (la_snapshots l) = Some t" "no_news t s"
    "dec_round \<bar>dsub (rs_requested_contracts t) (rs_requested_contracts s)\<bar> \<le> dec_eps" "flags_current l"
    using apply_to_leg_records [OF leg s(1)] by blast
  have "apply_to_leg (second_leg_account q) s = Inr (second_leg_account q)"
    using t by (subst acc, subst (2) acc, intro apply_to_leg_no_news [of s _ t]) (simp_all add: flags_current_def)
  moreover have "position_post_init q = Inr q"
    using position_post_init_idem [of q q] normal_q q
    by (auto simp: position_post_init_def raise_if_def normalize_order_ids_idem snapshots_normal_def sn put_second_leg_def)
  ultimately show ?thesis
    using venue status_self [OF q_status]
    by (simp add: apply_residual_exit_snapshot_def q_market put_leg_account_self)
qed


subsection \<open>A sequence of residual exits\<close>

definition leg_ok :: "leg_account \<Rightarrow> bool" where
  "leg_ok l \<longleftrightarrow> residual_sums l \<and> la_closed l \<le> la_total l"

definition position_ok :: "open_position \<Rightarrow> bool" where
  "position_ok p \<longleftrightarrow> leg_ok (first_leg_account p) \<and> leg_ok (second_leg_account p)"

definition residual_exposure :: "open_position \<Rightarrow> dec" where
  "residual_exposure p = residual_total (p_polymarket_residual_snapshots p) +
     residual_total (p_predict_fun_residual_snapshots p)"

fun apply_exits :: "open_position \<Rightarrow> (string \<times> residual_exit_snapshot) list \<Rightarrow> open_position res" where
  "apply_exits p [] = Inr p"
| "apply_exits p ((v, s) # rest) = rbind (apply_residual_exit_snapshot p v s) (\<lambda>q. apply_exits q rest)"

lemma apply_to_leg_residual_le:
  assumes "apply_to_leg l s = Inr l'" and "residual_sums l" and "0 \<le> rs_residual_contracts s"
  shows "residual_total (la_snapshots l') \<le> residual_total (la_snapshots l) + rs_residual_contracts s"
  using assms(1)
proof (cases rule: apply_to_leg_cases)
  case new
  then show ?thesis using settle_leg_Inr(6) [OF new(2)] by (simp add: residual_total_def)
next
  case (same t)
  then show ?thesis using assms(3) by simp
next
  case (update t)
  have "0 \<le> rs_residual_contracts t"
    using assms(2) find_snapshot_mem [OF update(1)] by (auto simp: residual_sums_def)
  then show ?thesis
    using settle_leg_Inr(6) [OF update(4)] residual_total_replace [OF _ update(1)] assms(2)
    by (simp add: residual_sums_def)
qed

lemma apply_to_leg_ok:
  assumes "apply_to_leg l s = Inr l'" and "leg_ok l"
    and "on_grid (rs_residual_contracts s)" "0 \<le> rs_residual_contracts s"
    and "residual_total (la_snapshots l) + rs_residual_contracts s \<le> 10 ^ 10"
  shows "leg_ok l'"
  using apply_to_leg_residual_sums [OF assms(1) _ assms(3-5)] apply_to_leg_closed_le [OF assms(1)] assms(2)
  by (simp add: leg_ok_def)

lemma residual_total_pos: "leg_ok l \<Longrightarrow> 0 \<le> residual_total (la_snapshots l)"
  by (auto simp: leg_ok_def residual_sums_def intro: residual_total_nonneg)

lemma leg_ok_sums: "leg_ok l \<Longrightarrow> residual_sums l"
  by (simp add: leg_ok_def)

lemma leg_ok_order_ids [simp]: "leg_ok (l\<lparr>la_order_ids := ids\<rparr>) = leg_ok l"
  by (simp add: leg_ok_def residual_sums_def)

lemma apply_residual_cases:
  assumes "apply_residual_exit_snapshot p v s = Inr q"
  obtains (first) l where "m_venue_a_label (p_market p) = v"
      "apply_to_leg (first_leg_account p) s = Inr l"
      "position_post_init (put_first_leg l p\<lparr>p_status := ''manual_review''\<rparr>) = Inr q"
  | (second) l where "m_venue_a_label (p_market p) \<noteq> v" "m_venue_b_label (p_market p) = v"
      "apply_to_leg (second_leg_account p) s = Inr l"
      "position_post_init (put_second_leg l p\<lparr>p_status := ''manual_review''\<rparr>) = Inr q"
  using assms by (auto simp: apply_residual_exit_snapshot_def rbind_Inr_iff split: if_splits)

lemma post_init_first_account:
  assumes "position_post_init (put_first_leg l p\<lparr>p_status := st\<rparr>) = Inr q" "la_total l = p_polymarket_contracts p"
  shows "\<exists>ids ids'. first_leg_account q = l\<lparr>la_order_ids := ids\<rparr> \<and>
    second_leg_account q = (second_leg_account p)\<lparr>la_order_ids := ids'\<rparr>"
  using position_post_init_Inr [OF assms(1)] assms(2)
  by (intro exI [of _ "p_polymarket_residual_order_ids q"] exI [of _ "p_predict_fun_residual_order_ids q"])
     (simp add: first_leg_account_def second_leg_account_def put_first_leg_def)

lemma post_init_second_account:
  assumes "position_post_init (put_second_leg l p\<lparr>p_status := st\<rparr>) = Inr q" "la_total l = p_predict_fun_contracts p"
  shows "\<exists>ids ids'. second_leg_account q = l\<lparr>la_order_ids := ids\<rparr> \<and>
    first_leg_account q = (first_leg_account p)\<lparr>la_order_ids := ids'\<rparr>"
  using position_post_init_Inr [OF assms(1)] assms(2)
  by (intro exI [of _ "p_predict_fun_residual_order_ids q"] exI [of _ "p_polymarket_residual_order_ids q"])
     (simp add: first_leg_account_def second_leg_account_def put_second_leg_def)

lemma residual_exposure_accounts:
  "residual_exposure p = residual_total (la_snapshots (first_leg_account p)) +
     residual_total (la_snapshots (second_leg_account p))"
  by (simp add: residual_exposure_def first_leg_account_def second_leg_account_def)

lemma apply_residual_ok:
  assumes ok: "apply_residual_exit_snapshot p v s = Inr q" and inv: "position_ok p"
    and s: "on_grid (rs_residual_contracts s)" "0 \<le> rs_residual_contracts s"
    and small: "residual_exposure p + rs_residual_contracts s \<le> 10 ^ 10"
  shows "position_ok q \<and> residual_exposure q \<le> residual_exposure p + rs_residual_contracts s"
  using ok
proof (cases rule: apply_residual_cases)
  case (first l)
  have le: "leg_ok (first_leg_account p)" "leg_ok (second_leg_account p)"
    using inv by (auto simp: position_ok_def)
  have "la_total l = p_polymarket_contracts p"
    using apply_to_leg_total [OF first(2)] by (simp add: first_leg_account_def)
  with post_init_first_account [OF first(3)] obtain ids ids' where
    acc: "first_leg_account q = l\<lparr>la_order_ids := ids\<rparr>"
      "second_leg_account q = (second_leg_account p)\<lparr>la_order_ids := ids'\<rparr>" by blast
  have "leg_ok l"
    using apply_to_leg_ok [OF first(2) le(1) s] small residual_total_pos [OF le(2)]
    by (simp add: residual_exposure_accounts)
  then show ?thesis
    using le apply_to_leg_residual_le [OF first(2) leg_ok_sums [OF le(1)] s(2)]
    by (simp add: position_ok_def residual_exposure_accounts acc)
next
  case (second l)
  have le: "leg_ok (first_leg_account p)" "leg_ok (second_leg_account p)"
    using inv by (auto simp: position_ok_def)
  have "la_total l = p_predict_fun_contracts p"
    using apply_to_leg_total [OF second(3)] by (simp add: second_leg_account_def)
  with post_init_second_account [OF second(4)] obtain ids ids' where
    acc: "second_leg_account q = l\<lparr>la_order_ids := ids\<rparr>"
      "first_leg_account q = (first_leg_account p)\<lparr>la_order_ids := ids'\<rparr>" by blast
  have "leg_ok l"
    using apply_to_leg_ok [OF second(3) le(2) s] small residual_total_pos [OF le(1)]
    by (simp add: residual_exposure_accounts)
  then show ?thesis
    using le apply_to_leg_residual_le [OF second(3) leg_ok_sums [OF le(2)] s(2)]
    by (simp add: position_ok_def residual_exposure_accounts acc)
qed

definition exits_volume :: "(string \<times> residual_exit_snapshot) list \<Rightarrow> dec" where
  "exits_volume es = sum_list (map (\<lambda>e. rs_residual_contracts (snd e)) es)"

lemma exits_volume_simps [simp]:
  "exits_volume [] = 0" "exits_volume ((v, s) # es) = rs_residual_contracts s + exits_volume es"
  by (simp_all add: exits_volume_def)

lemma exits_volume_nonneg: "\<forall>e \<in> set es. 0 \<le> rs_residual_contracts (snd e) \<Longrightarrow> 0 \<le> exits_volume es"
  by (induction es) (auto simp: exits_volume_def)

section \<open>Properties\<close>

definition sample_market :: market_spec where
  "sample_market = market_spec_default ''WC-FINAL'' ''Spain'' ''101'' YES ''202'' NO"

definition sample_position :: open_position where
  "sample_position = open_position_default sample_market 10 (2/5) 10 (1/2) (Aware 0) ''0xaa'' ''0xbb''"

definition sample_exit :: residual_exit_snapshot where
  "sample_exit = \<lparr>rs_venue_order_id = ''0xc1'', rs_requested_contracts = 12, rs_closed_contracts = 6,
     rs_exit_proceeds_usd = 3, rs_residual_contracts = 4\<rparr>"

definition sample_exit_later :: residual_exit_snapshot where
  "sample_exit_later = sample_exit\<lparr>rs_closed_contracts := 7, rs_exit_proceeds_usd := 7/2, rs_residual_contracts := 5\<rparr>"

text \<open>C1. Applying a residual exit report twice changes nothing: \<open>apply_residual_exit_snapshot\<close> is
  idempotent, so a report that a venue or a restart delivers again is never counted twice.\<close>

theorem residual_exit_idempotent:
  assumes "apply_residual_exit_snapshot p v s = Inr q"
    and "snapshot_exact s" and "normal_id (rs_venue_order_id s)" and "snapshots_normal p"
  shows "apply_residual_exit_snapshot q v s = Inr q"
  using assms apply_first_leg_again apply_second_leg_again by (metis apply_residual_cases)

definition sample_position_exited :: open_position where
  "sample_position_exited = sample_position\<lparr>p_status := ''manual_review'',
     p_predict_fun_closed_contracts := 6, p_predict_fun_exit_proceeds_usd := 3,
     p_predict_fun_exit_price := Some (1/2), p_predict_fun_residual_contracts := 4,
     p_predict_fun_residual_order_ids := [''0xc1''], p_predict_fun_residual_snapshots := [sample_exit]\<rparr>"

lemmas apply_eval = apply_residual_exit_snapshot_def apply_to_leg_def settle_leg_def second_leg_account_def
  put_second_leg_def find_snapshot_def replace_snapshot_def no_news_def regresses_def dadd_def dsub_def ddiv_def
  dec_round_eval dec_eps_def Let_def

lemmas samples = sample_market_def sample_position_def open_position_default_def market_spec_default_def
  sample_exit_def sample_exit_later_def

lemma sample_leg_exits:
  "apply_to_leg (second_leg_account sample_position) sample_exit = Inr (second_leg_account sample_position_exited)"
  by (simp add: apply_eval samples sample_position_exited_def)

lemma sample_labels:
  "m_venue_a_label (p_market sample_position) = ''Polymarket''"
  "m_venue_b_label (p_market sample_position) = ''Predict.fun''"
  "p_market sample_position_exited = p_market sample_position"
  by (simp_all add: samples sample_position_exited_def)

lemma sample_position_exits:
  "apply_residual_exit_snapshot sample_position ''Predict.fun'' sample_exit = Inr sample_position_exited"
  by (simp add: apply_residual_exit_snapshot_def sample_leg_exits sample_labels) code_simp

theorem residual_exit_idempotent_witness:
  "apply_residual_exit_snapshot sample_position_exited ''Predict.fun'' sample_exit = Inr sample_position_exited"
  by (rule residual_exit_idempotent [OF sample_position_exits])
     (simp_all add: snapshot_exact_def snapshots_normal_def normal_id_def snapshot_ids_def samples dec_round_eval, code_simp)

text \<open>C2. Whatever sequence of residual exit reports is applied to a position, the accounting stays
  sound on both legs: the closed contracts never exceed the contracts of the leg, each venue order
  is recorded once, and the residual exposure of a leg is exactly the sum of the latest residual
  of every recorded order (amounts on the 18-decimal grid, at most 10^10 in total).\<close>

theorem residual_exits_keep_accounts:
  assumes "apply_exits p es = Inr q" and "position_ok p"
    and "\<forall>e \<in> set es. on_grid (rs_residual_contracts (snd e)) \<and> 0 \<le> rs_residual_contracts (snd e)"
    and "residual_exposure p + exits_volume es \<le> 10 ^ 10"
  shows "position_ok q"
  using assms
proof (induction p es rule: apply_exits.induct)
  case (1 p)
  then show ?case by simp
next
  case (2 p v s rest)
  from "2.prems"(1) obtain r where r: "apply_residual_exit_snapshot p v s = Inr r" "apply_exits r rest = Inr q"
    by (auto simp: rbind_Inr_iff)
  have "0 \<le> exits_volume rest" using "2.prems"(3) by (intro exits_volume_nonneg) auto
  with "2.prems" have "position_ok r \<and> residual_exposure r \<le> residual_exposure p + rs_residual_contracts s"
    by (intro apply_residual_ok [OF r(1)]) auto
  with "2.prems" show ?case by (intro "2.IH" [OF r(2)]) auto
qed

definition sample_position_exited_later :: open_position where
  "sample_position_exited_later = sample_position_exited\<lparr>p_predict_fun_closed_contracts := 7,
     p_predict_fun_exit_proceeds_usd := 7/2, p_predict_fun_residual_contracts := 5,
     p_predict_fun_residual_snapshots := [sample_exit_later]\<rparr>"

lemma sample_leg_exits_later:
  "apply_to_leg (second_leg_account sample_position_exited) sample_exit_later =
     Inr (second_leg_account sample_position_exited_later)"
  by (simp add: apply_eval samples sample_position_exited_def sample_position_exited_later_def)

lemma sample_position_exits_later:
  "apply_residual_exit_snapshot sample_position_exited ''Predict.fun'' sample_exit_later =
     Inr sample_position_exited_later"
  by (simp add: apply_residual_exit_snapshot_def sample_leg_exits_later sample_labels) code_simp

theorem residual_exits_keep_accounts_witness:
  "\<exists>q. apply_exits sample_position [(''Predict.fun'', sample_exit), (''Predict.fun'', sample_exit_later)] = Inr q \<and>
     position_ok q \<and> p_predict_fun_residual_contracts q = 5"
proof -
  let ?q = "sample_position_exited_later"
  have q: "apply_exits sample_position [(''Predict.fun'', sample_exit), (''Predict.fun'', sample_exit_later)] = Inr ?q"
    by (simp add: sample_position_exits sample_position_exits_later)
  have "position_ok sample_position"
    by (simp add: position_ok_def leg_ok_def residual_sums_def residual_total_def snapshot_ids_def
        first_leg_account_def second_leg_account_def sample_position_def open_position_default_def)
  then have "position_ok ?q"
    by (rule residual_exits_keep_accounts [OF q(1)])
       (simp_all add: sample_exit_def sample_exit_later_def on_grid_numeral residual_exposure_def residual_total_def
         sample_position_def open_position_default_def)
  with q show ?thesis by (auto simp: sample_position_exited_later_def)
qed

end
