(* ===== verification/Quant.thy ===== *)
theory Quant
  imports Position_Model
begin

text \<open>
  The pricing of \<^verbatim>\<open>quant.py\<close>: the walk over the asks of an order book, the constant-product
  quote of an AMM pool, the slippage guard, the position plan of a binary arbitrage, its spread
  metrics, the final admission test of a signal and the profit formulas. The lemmas bound what a
  fill spends, relate the two legs of a plan, and show that an admitted signal costs less than
  the payout it guarantees, whatever the roundings did.
\<close>

section \<open>Quotes\<close>

text \<open>Division as the two numeric types do it: zero divisors raise.\<close>

definition div_dec :: "dec \<Rightarrow> dec \<Rightarrow> dec res" where
  "div_dec x y = raise_if (y = 0) (ZeroDivisionError ''decimal division by zero'') (Inr (ddiv x y))"

definition div_flt :: "flt \<Rightarrow> flt \<Rightarrow> flt res" where
  "div_flt x y = raise_if (y = 0) (ZeroDivisionError ''float division by zero'') (Inr (fdiv x y))"

record fill_quote =
  avg_price :: flt
  contracts :: flt
  spent_usd :: flt
  slippage_pct :: flt

definition fill_eps :: dec where "fill_eps = 1 / 10 ^ 12"

record fill_acc =
  fa_remaining :: dec
  fa_spent :: dec
  fa_size :: dec

text \<open>One iteration of the loop over the asks, and the loop with its \<^verbatim>\<open>continue\<close> and \<^verbatim>\<open>break\<close>.\<close>

definition take_level :: "order_book_level \<Rightarrow> fill_acc \<Rightarrow> fill_acc" where
  "take_level l a =
     (let p = flt_repr (price l); level_size = flt_repr (lsize l);
          take_notional = min (fa_remaining a) (dmul p level_size);
          take_size = ddiv take_notional p
      in \<lparr>fa_remaining = dsub (fa_remaining a) take_notional,
          fa_spent = dadd (fa_spent a) take_notional, fa_size = dadd (fa_size a) take_size\<rparr>)"

fun walk_levels :: "order_book_level list \<Rightarrow> fill_acc \<Rightarrow> fill_acc" where
  "walk_levels [] a = a"
| "walk_levels (l # ls) a =
     (if price l \<le> 0 \<or> lsize l \<le> 0 then walk_levels ls a
      else let a' = take_level l a in
        if fa_remaining a' \<le> fill_eps then a' else walk_levels ls a')"

definition weighted_average_fill :: "order_book_level list \<Rightarrow> flt \<Rightarrow> (flt \<times> flt \<times> flt) res" where
  "weighted_average_fill levels target_notional =
     raise_if (target_notional \<le> 0) (ValueError ''target_notional_usd must be positive'')
     (let target = flt_repr target_notional;
          a = walk_levels levels \<lparr>fa_remaining = target, fa_spent = 0, fa_size = 0\<rparr>
      in raise_if (fa_spent a \<le> 0 \<or> fa_size a \<le> 0) (ValueError ''insufficient book liquidity'')
         (raise_if (dadd (fa_spent a) fill_eps < target)
            (ValueError ''insufficient book liquidity for target notional'')
         (Inr (flt_round (ddiv (fa_spent a) (fa_size a)), flt_round (fa_size a), flt_round (fa_spent a)))))"

definition orderbook_buy_quote :: "order_book \<Rightarrow> flt \<Rightarrow> fill_quote res" where
  "orderbook_buy_quote book target_notional =
     rbind (best_ask book) (\<lambda>best.
     rbind (weighted_average_fill (asks book) target_notional) (\<lambda>(avg, cts, spent).
     rbind (div_flt (fsub avg (price best)) (price best)) (\<lambda>rel.
       Inr \<lparr>avg_price = avg, contracts = cts, spent_usd = spent, slippage_pct = max 0 rel\<rparr>)))"

definition amm_reserves :: "amm_pool \<Rightarrow> binary_side \<Rightarrow> flt \<times> flt" where
  "amm_reserves pool side = (if side = YES then (no_reserve pool, yes_reserve pool)
     else (yes_reserve pool, no_reserve pool))"

definition amm_buy_quote :: "amm_pool \<Rightarrow> binary_side \<Rightarrow> flt \<Rightarrow> fill_quote res" where
  "amm_buy_quote pool side target_notional =
     raise_if (target_notional \<le> 0) (ValueError ''target_notional_usd must be positive'')
     (let (x_reserve, y_reserve) = amm_reserves pool side
      in raise_if (x_reserve \<le> 0 \<or> y_reserve \<le> 0) (ValueError ''AMM reserves must be positive'')
      (let x = flt_repr x_reserve; y = flt_repr y_reserve; target = flt_repr target_notional;
           effective_in = dmul target (dsub 1 (flt_repr (fee_pct pool)))
       in rbind (div_dec (dmul y effective_in) (dadd x effective_in)) (\<lambda>contracts_out.
          raise_if (contracts_out \<le> 0) (ValueError ''AMM quote returned zero contracts'')
          (let spot_price = ddiv x (dadd x y); avg = ddiv target contracts_out
           in rbind (div_dec (dsub avg spot_price) spot_price) (\<lambda>rel.
              Inr \<lparr>avg_price = flt_round avg, contracts = flt_round contracts_out,
                   spent_usd = target_notional, slippage_pct = flt_round (max 0 rel)\<rparr>)))))"

definition quote_with_liquidity_guard ::
  "(flt \<Rightarrow> fill_quote res) \<Rightarrow> flt \<Rightarrow> flt \<Rightarrow> fill_quote res" where
  "quote_with_liquidity_guard quote_fn max_order_size max_slippage =
     rbind (quote_fn max_order_size) (\<lambda>quote.
       if slippage_pct quote \<le> max_slippage then Inr quote
       else Inl (ValueError ''price impact exceeds slippage cap''))"

section \<open>Depth\<close>

definition valid_asks :: "order_book \<Rightarrow> order_book_level list" where
  "valid_asks book = filter (\<lambda>l. 0 < price l \<and> 0 < lsize l) (asks book)"

definition executable_depth_usd :: "order_book \<Rightarrow> dec" where
  "executable_depth_usd book =
     dsum (map (\<lambda>l. dmul (flt_repr (price l)) (flt_repr (lsize l))) (valid_asks book))"

definition top_of_book_ask_depth_usd :: "order_book \<Rightarrow> dec" where
  "top_of_book_ask_depth_usd book =
     (if ob_has_amm_payload book \<or> valid_asks book = [] then 0
      else let best = Min (set (map (\<lambda>l. flt_repr (price l)) (valid_asks book)))
        in dmul best (dsum (map (\<lambda>l. flt_repr (lsize l))
             (filter (\<lambda>l. flt_repr (price l) = best) (valid_asks book)))))"

section \<open>Position plans and spread metrics\<close>

text \<open>The keyword arguments that \<^verbatim>\<open>build_position_plan\<close> and \<^verbatim>\<open>calculate_spread_metrics\<close> share.\<close>

record plan_input =
  pi_first_book :: "order_book option"
  pi_second_book :: "order_book option"
  pi_max_order_size :: flt
  pi_max_slippage :: flt
  pi_max_price_impact :: flt
  pi_first_pool :: "amm_pool option"
  pi_first_side :: binary_side
  pi_second_pool :: "amm_pool option"
  pi_second_side :: binary_side
  pi_first_fee_pct :: flt
  pi_second_fee_pct :: flt
  pi_first_fee_quote :: "venue_fee_quote option"
  pi_second_fee_quote :: "venue_fee_quote option"
  pi_required_depth :: "flt option"

definition leg_quote ::
  "string \<Rightarrow> amm_pool option \<Rightarrow> binary_side \<Rightarrow> order_book option \<Rightarrow> flt \<Rightarrow> fill_quote res" where
  "leg_quote missing pool side book notional =
     (case pool of
        Some p \<Rightarrow> amm_buy_quote p side notional
      | None \<Rightarrow> (case book of Some b \<Rightarrow> orderbook_buy_quote b notional | None \<Rightarrow> Inl (ValueError missing)))"

definition depth_guard :: "string \<Rightarrow> flt option \<Rightarrow> order_book option \<Rightarrow> unit res" where
  "depth_guard msg required book =
     (case (required, book) of
        (Some r, Some b) \<Rightarrow> raise_if (executable_depth_usd b < flt_repr r) (ValueError msg) (Inr ())
      | _ \<Rightarrow> Inr ())"

definition leg_fee ::
  "(dec \<Rightarrow> dec \<Rightarrow> dec) \<Rightarrow> venue_fee_quote option \<Rightarrow> flt \<Rightarrow> dec \<Rightarrow> dec \<Rightarrow> flt \<Rightarrow> dec res" where
  "leg_fee fp quote fee_pct_value capital payout avg =
     (case quote of
        Some q \<Rightarrow> fee_for_fill fp q payout (flt_repr avg)
      | None \<Rightarrow> Inr (dmul capital (flt_repr fee_pct_value)))"

definition build_position_plan :: "(dec \<Rightarrow> dec \<Rightarrow> dec) \<Rightarrow> plan_input \<Rightarrow> position_plan res" where
  "build_position_plan fp i =
     raise_if (\<not> (0 \<le> pi_first_fee_pct i \<and> pi_first_fee_pct i < 1) \<or>
               \<not> (0 \<le> pi_second_fee_pct i \<and> pi_second_fee_pct i < 1))
       (ValueError ''trading fee percentages must be between 0 and 1'')
    (raise_if (\<not> (0 < pi_max_price_impact i \<and> pi_max_price_impact i \<le> 1))
       (ValueError ''max_price_impact must be between 0 and 1'')
    (let max_slippage = min (pi_max_slippage i) (pi_max_price_impact i) in
     rbind (quote_with_liquidity_guard
         (leg_quote ''polymarket_book or polymarket_amm_pool is required''
           (pi_first_pool i) (pi_first_side i) (pi_first_book i))
         (pi_max_order_size i) max_slippage) (\<lambda>first.
     rbind (depth_guard ''insufficient executable depth on first leg''
         (pi_required_depth i) (pi_first_book i)) (\<lambda>_.
     rbind (quote_with_liquidity_guard
         (leg_quote ''predict_fun_book or predict_fun_amm_pool is required''
           (pi_second_pool i) (pi_second_side i) (pi_second_book i))
         (pi_max_order_size i) max_slippage) (\<lambda>second.
     rbind (depth_guard ''insufficient executable depth on second leg''
         (pi_required_depth i) (pi_second_book i)) (\<lambda>_.
     let payout = flt_repr (min (contracts first) (contracts second)) in
     raise_if (payout \<le> 0) (ValueError ''zero binary payout contracts'')
     (let first_capital = dmul payout (flt_repr (avg_price first));
          second_capital = dmul payout (flt_repr (avg_price second)) in
      rbind (leg_fee fp (pi_first_fee_quote i) (pi_first_fee_pct i) first_capital payout (avg_price first))
        (\<lambda>first_fee.
      rbind (leg_fee fp (pi_second_fee_quote i) (pi_second_fee_pct i) second_capital payout (avg_price second))
        (\<lambda>second_fee.
      Inr \<lparr>pl_polymarket_contracts = payout, pl_polymarket_capital_usd = first_capital,
           pl_predict_fun_contracts = payout, pl_predict_fun_capital_usd = second_capital,
           pl_payout_contracts = payout,
           pl_total_cost_usd = dadd (dadd (dadd first_capital second_capital) first_fee) second_fee,
           pl_polymarket_fee_usd = first_fee, pl_predict_fun_fee_usd = second_fee\<rparr>)))))))))"

definition best_leg_price :: "order_book option \<Rightarrow> amm_pool option \<Rightarrow> binary_side \<Rightarrow> flt res" where
  "best_leg_price book pool side =
     (case book of
        Some b \<Rightarrow> rbind (best_ask b) (\<lambda>l. Inr (price l))
      | None \<Rightarrow> (case pool of
          None \<Rightarrow> Inl (ValueError ''order book or AMM pool is required'')
        | Some p \<Rightarrow> (let (x_reserve, y_reserve) = amm_reserves p side
                     in div_flt x_reserve (fadd x_reserve y_reserve))))"

definition leg_slippage :: "dec \<Rightarrow> flt \<Rightarrow> flt res" where
  "leg_slippage avg best =
     rbind (div_dec (dsub avg (flt_repr best)) (flt_repr best)) (\<lambda>rel. Inr (flt_round (max 0 rel)))"

definition calculate_spread_metrics ::
  "(dec \<Rightarrow> dec \<Rightarrow> dec) \<Rightarrow> plan_input \<Rightarrow> flt \<Rightarrow> spread_metrics res" where
  "calculate_spread_metrics fp i fixed_chain_cost =
     rbind (build_position_plan fp i) (\<lambda>plan.
     raise_if (fixed_chain_cost < 0) (ValueError ''fixed_chain_cost_usd must be non-negative'')
     (let chain_cost = flt_repr fixed_chain_cost;
          first_avg = ddiv (dadd (pl_polymarket_capital_usd plan) (pl_polymarket_fee_usd plan))
            (pl_payout_contracts plan);
          second_avg = ddiv (dadd (dadd (pl_predict_fun_capital_usd plan) (pl_predict_fun_fee_usd plan)) chain_cost)
            (pl_payout_contracts plan);
          combined_cost = flt_round (dadd first_avg second_avg);
          net = flt_round (dsub 1 (flt_repr combined_cost));
          expected = flt_round (dmul (pl_payout_contracts plan) (flt_repr net))
      in rbind (best_leg_price (pi_first_book i) (pi_first_pool i) (pi_first_side i)) (\<lambda>first_best.
         rbind (best_leg_price (pi_second_book i) (pi_second_pool i) (pi_second_side i)) (\<lambda>second_best.
         rbind (leg_slippage first_avg first_best) (\<lambda>first_slip.
         rbind (leg_slippage second_avg second_best) (\<lambda>second_slip.
         Inr \<lparr>sm_gross_spread = fsub 1 (fadd first_best second_best), sm_net_spread = net,
              sm_expected_net_profit_usd = expected, sm_polymarket_slippage = first_slip,
              sm_predict_fun_slippage = second_slip, sm_combined_cost_per_payout = combined_cost,
              sm_fixed_chain_cost_usd = flt_round chain_cost\<rparr>))))))"

definition signal_eps :: flt where "signal_eps = flt_round (1 / 10 ^ 9)"

definition is_binary_signal_allowed :: "spread_metrics \<Rightarrow> flt \<Rightarrow> bool" where
  "is_binary_signal_allowed metrics min_net_spread \<longleftrightarrow>
     sm_combined_cost_per_payout metrics < fsub (fsub 1 min_net_spread) signal_eps \<and>
     fadd min_net_spread signal_eps < sm_net_spread metrics"

section \<open>Profits\<close>

definition calculate_binary_position_profit :: "dec \<Rightarrow> dec \<Rightarrow> dec \<Rightarrow> (flt \<times> dec) res" where
  "calculate_binary_position_profit entry_total_cost exit_total_value payout =
     raise_if (entry_total_cost \<le> 0 \<or> payout \<le> 0)
       (ValueError ''entry_total_cost and payout_contracts must be positive'')
     (let difference = dsub exit_total_value entry_total_cost
      in Inr (flt_round (ddiv difference entry_total_cost), dmul difference payout))"

definition calculate_realized_position_profit_decimal :: "dec \<Rightarrow> dec \<Rightarrow> (dec \<times> dec) res" where
  "calculate_realized_position_profit_decimal entry_cost exit_proceeds =
     raise_if (entry_cost \<le> 0) (ValueError ''entry_cost_usd must be positive'')
     (let profit = dsub exit_proceeds entry_cost in Inr (ddiv profit entry_cost, profit))"

definition calculate_realized_position_profit :: "flt \<Rightarrow> flt \<Rightarrow> (flt \<times> flt) res" where
  "calculate_realized_position_profit entry_cost exit_proceeds =
     rbind (calculate_realized_position_profit_decimal (flt_repr entry_cost) (flt_repr exit_proceeds))
       (\<lambda>(pct, usd). Inr (flt_round pct, flt_round usd))"


section \<open>Lemmas\<close>

subsection \<open>A quote is positive\<close>

lemma weighted_average_fill_pos:
  "weighted_average_fill ls t = Inr (avg, cts, spent) \<Longrightarrow> 0 < avg \<and> 0 < cts \<and> 0 < spent \<and>
     is_flt avg \<and> is_flt cts \<and> is_flt spent"
  by (auto simp: weighted_average_fill_def Let_def res_simps not_le flt.rnd_pos_iff intro: ddiv_pos)

lemma orderbook_buy_quote_pos:
  "orderbook_buy_quote b t = Inr q \<Longrightarrow> 0 < avg_price q \<and> 0 < contracts q \<and> 0 \<le> slippage_pct q \<and>
     is_flt (avg_price q) \<and> is_flt (contracts q)"
  by (auto simp: orderbook_buy_quote_def res_simps dest!: weighted_average_fill_pos)

lemma amm_buy_quote_pos:
  "amm_buy_quote p side t = Inr q \<Longrightarrow> 0 < avg_price q \<and> 0 < contracts q \<and> 0 \<le> slippage_pct q \<and>
     is_flt (avg_price q) \<and> is_flt (contracts q)"
  by (auto simp: amm_buy_quote_def Let_def res_simps not_le flt.rnd_pos_iff flt.rnd_nonneg_iff ddiv_pos
      split: prod.splits)

lemma leg_quote_pos:
  "leg_quote m pool side book t = Inr q \<Longrightarrow> 0 < avg_price q \<and> 0 < contracts q \<and> 0 \<le> slippage_pct q \<and>
     is_flt (avg_price q) \<and> is_flt (contracts q)"
  by (auto simp: leg_quote_def split: option.splits dest!: amm_buy_quote_pos orderbook_buy_quote_pos)

lemma quote_with_liquidity_guard_Inr:
  "quote_with_liquidity_guard f n cap = Inr q \<longleftrightarrow> f n = Inr q \<and> slippage_pct q \<le> cap"
  by (auto simp: quote_with_liquidity_guard_def res_simps split: if_splits)

subsection \<open>The plan\<close>

lemma leg_fee_nonneg:
  assumes "unit_pow fp" "0 \<le> capital" "0 \<le> payout" "0 \<le> pct" "leg_fee fp quote pct capital payout avg = Inr fee"
  shows "0 \<le> fee"
  using assms by (auto simp: leg_fee_def split: option.splits intro: fee_for_fill_nonneg)

lemma build_position_plan_Inr:
  assumes "build_position_plan fp i = Inr plan"
  obtains first second where
    "leg_quote ''polymarket_book or polymarket_amm_pool is required''
       (pi_first_pool i) (pi_first_side i) (pi_first_book i) (pi_max_order_size i) = Inr first"
    "leg_quote ''predict_fun_book or predict_fun_amm_pool is required''
       (pi_second_pool i) (pi_second_side i) (pi_second_book i) (pi_max_order_size i) = Inr second"
    "slippage_pct first \<le> min (pi_max_slippage i) (pi_max_price_impact i)"
    "slippage_pct second \<le> min (pi_max_slippage i) (pi_max_price_impact i)"
    "pl_payout_contracts plan = flt_repr (min (contracts first) (contracts second))"
    "pl_polymarket_contracts plan = pl_payout_contracts plan"
    "pl_predict_fun_contracts plan = pl_payout_contracts plan"
    "pl_polymarket_capital_usd plan = dmul (pl_payout_contracts plan) (flt_repr (avg_price first))"
    "pl_predict_fun_capital_usd plan = dmul (pl_payout_contracts plan) (flt_repr (avg_price second))"
    "leg_fee fp (pi_first_fee_quote i) (pi_first_fee_pct i) (pl_polymarket_capital_usd plan)
       (pl_payout_contracts plan) (avg_price first) = Inr (pl_polymarket_fee_usd plan)"
    "leg_fee fp (pi_second_fee_quote i) (pi_second_fee_pct i) (pl_predict_fun_capital_usd plan)
       (pl_payout_contracts plan) (avg_price second) = Inr (pl_predict_fun_fee_usd plan)"
    "pl_total_cost_usd plan = dadd (dadd (dadd (pl_polymarket_capital_usd plan) (pl_predict_fun_capital_usd plan))
       (pl_polymarket_fee_usd plan)) (pl_predict_fun_fee_usd plan)"
    "0 \<le> pi_first_fee_pct i" "0 \<le> pi_second_fee_pct i"
  using assms
  by (simp add: build_position_plan_def Let_def raise_if_Inr_iff rbind_Inr_iff quote_with_liquidity_guard_Inr
      del: min_less_iff_conj) (elim exE conjE, auto)

lemma plan_fees_nonneg:
  assumes fp: "unit_pow fp" and ok: "build_position_plan fp i = Inr plan"
  shows "0 < pl_payout_contracts plan \<and> 0 < pl_polymarket_capital_usd plan \<and> 0 < pl_predict_fun_capital_usd plan \<and>
    0 \<le> pl_polymarket_fee_usd plan \<and> 0 \<le> pl_predict_fun_fee_usd plan"
  using ok
proof (cases rule: build_position_plan_Inr)
  case (1 first second)
  have payout: "0 < pl_payout_contracts plan"
    using leg_quote_pos [OF 1(1)] leg_quote_pos [OF 1(2)] by (simp add: 1(5))
  have cap: "0 < pl_polymarket_capital_usd plan" "0 < pl_predict_fun_capital_usd plan"
    using leg_quote_pos [OF 1(1)] leg_quote_pos [OF 1(2)] payout by (simp_all add: 1(8,9) dmul_pos)
  show ?thesis
    using payout cap leg_fee_nonneg [OF fp _ _ 1(13,10)] leg_fee_nonneg [OF fp _ _ 1(14,11)]
    by simp
qed

subsection \<open>Roundings and the admission test\<close>

text \<open>Four roundings in a row lose less than one part in a billion.\<close>

definition slack :: rat where "slack = 1 - 1 / 10 ^ 27"

lemma slack_unit: "0 < slack" "slack \<le> 1"
  by (simp_all add: slack_def)

lemma dadd_slack: "0 \<le> x \<Longrightarrow> 0 \<le> y \<Longrightarrow> (x + y) * slack \<le> dadd x y"
  unfolding dadd_def slack_def by (rule dec_round_lower) simp

lemma ddiv_slack: "0 \<le> x \<Longrightarrow> 0 < y \<Longrightarrow> x / y * slack \<le> ddiv x y"
  unfolding ddiv_def slack_def by (rule dec_round_lower) simp

lemma signal_eps_bounds: "9 / 10 ^ 10 \<le> signal_eps" "signal_eps \<le> 1 / 10 ^ 8"
proof -
  have "(1 / 10 ^ 9) * (1 - 1 / 2 ^ 52) \<le> signal_eps"
    unfolding signal_eps_def by (intro flt_round_lower) simp
  then show "9 / 10 ^ 10 \<le> signal_eps" by (rule order_trans [rotated]) simp
  have "signal_eps \<le> (1 / 10 ^ 9) * (1 + 1 / 2 ^ 52)"
    unfolding signal_eps_def by (intro flt_round_upper) simp
  then show "signal_eps \<le> 1 / 10 ^ 8" by (rule order_trans) simp
qed

lemma signal_bound: "0 \<le> m \<Longrightarrow> fsub (fsub 1 m) signal_eps < slack ^ 4 * (1 - 1 / 2 ^ 52)"
proof -
  assume "0 \<le> m"
  then have "fsub 1 m \<le> 1" unfolding fsub_def by (intro flt.rnd_le_1) simp
  then have "fsub (fsub 1 m) signal_eps \<le> fsub 1 signal_eps"
    unfolding fsub_def by (intro flt.rnd_mono) simp
  also have "fsub 1 signal_eps \<le> (1 - signal_eps) * (1 + 1 / 2 ^ 52)"
    unfolding fsub_def using signal_eps_bounds(2) by (intro flt_round_upper) simp
  also have "\<dots> \<le> (1 - 9 / 10 ^ 10) * (1 + 1 / 2 ^ 52)"
    using signal_eps_bounds(1) by (intro mult_right_mono) auto
  also have "\<dots> < slack ^ 4 * (1 - 1 / 2 ^ 52)" by (simp add: slack_def power_divide)
  finally show ?thesis .
qed

text \<open>If the exact costs reached the payout, the computed cost per payout would fail the test.\<close>

lemma combined_cost_lower:
  assumes "0 \<le> c1" "0 \<le> f1" "0 \<le> c2" "0 \<le> f2" "0 \<le> chain" "0 < p" and "p \<le> c1 + f1 + c2 + f2 + chain"
  shows "slack ^ 4 * (1 - 1 / 2 ^ 52) \<le>
    flt_round (dadd (ddiv (dadd c1 f1) p) (ddiv (dadd (dadd c2 f2) chain) p))"
proof -
  let ?u = "ddiv (dadd c1 f1) p" and ?v = "ddiv (dadd (dadd c2 f2) chain) p"
  note s = slack_unit
  have weaken: "x * slack ^ 3 \<le> x * slack ^ 2" if "0 \<le> x" for x :: rat
    using that s by (intro mult_left_mono power_decreasing) auto
  have "(c1 + f1) * slack / p * slack \<le> dadd c1 f1 / p * slack"
    using assms s by (intro mult_right_mono divide_right_mono dadd_slack) auto
  also have "\<dots> \<le> ?u" using assms by (intro ddiv_slack) auto
  finally have u: "(c1 + f1) / p * slack ^ 3 \<le> ?u"
    using weaken [of "(c1 + f1) / p"] assms by (simp add: power2_eq_square mult.assoc)
  have "(c2 + f2 + chain) * slack \<le> (c2 + f2) + chain"
    using assms s mult_left_le [of slack "c2 + f2 + chain"] by simp
  have "((c2 + f2) * slack + chain) * slack \<le> (dadd c2 f2 + chain) * slack"
    using assms s by (intro mult_right_mono add_right_mono dadd_slack) auto
  also have "\<dots> \<le> dadd (dadd c2 f2) chain" using assms by (intro dadd_slack) auto
  finally have "((c2 + f2) * slack + chain * slack) * slack \<le> dadd (dadd c2 f2) chain"
    using assms s mult_left_le [of slack chain] mult_right_mono [of "chain * slack" chain slack]
    by (simp add: distrib_right)
  then have "(c2 + f2 + chain) * slack ^ 2 / p * slack \<le> dadd (dadd c2 f2) chain / p * slack"
    using assms s by (intro mult_right_mono divide_right_mono) (auto simp: power2_eq_square algebra_simps)
  also have "\<dots> \<le> ?v" using assms by (intro ddiv_slack) auto
  finally have v: "(c2 + f2 + chain) / p * slack ^ 3 \<le> ?v" by (simp add: power3_eq_cube power2_eq_square)
  have "1 * slack ^ 3 \<le> (c1 + f1 + c2 + f2 + chain) / p * slack ^ 3"
    using assms s by (intro mult_right_mono) auto
  also have "\<dots> = (c1 + f1) / p * slack ^ 3 + (c2 + f2 + chain) / p * slack ^ 3"
    by (simp add: add_divide_distrib distrib_right)
  also have "\<dots> \<le> ?u + ?v" using u v by simp
  finally have sum: "slack ^ 3 \<le> ?u + ?v" by simp
  have nn: "0 \<le> ?u" "0 \<le> ?v" using assms by auto
  have "slack ^ 4 \<le> (?u + ?v) * slack"
    using sum s mult_right_mono [of "slack ^ 3" "?u + ?v" slack] by (simp add: power_Suc2 eval_nat_numeral mult.assoc)
  also have "\<dots> \<le> dadd ?u ?v" by (rule dadd_slack [OF nn])
  finally have "slack ^ 4 * (1 - 1 / 2 ^ 52) \<le> dadd ?u ?v * (1 - 1 / 2 ^ 52)" by simp
  also have "\<dots> \<le> flt_round (dadd ?u ?v)" using nn by (intro flt_round_lower) auto
  finally show ?thesis .
qed


subsection \<open>The walk over the asks spends what it says\<close>

definition level_notional :: "order_book_level \<Rightarrow> dec" where
  "level_notional l = dmul (flt_repr (price l)) (flt_repr (lsize l))"

definition valid_level :: "order_book_level \<Rightarrow> bool" where
  "valid_level l \<longleftrightarrow> 0 < price l \<and> 0 < lsize l"

definition grid_levels :: "order_book_level list \<Rightarrow> bool" where
  "grid_levels ls \<longleftrightarrow> (\<forall>l \<in> set ls. valid_level l \<longrightarrow> on_grid (level_notional l))"

definition book_notional :: "order_book_level list \<Rightarrow> dec" where
  "book_notional ls = sum_list (map level_notional (filter valid_level ls))"

lemma book_notional_simps [simp]:
  "book_notional [] = 0"
  "book_notional (l # ls) = (if valid_level l then level_notional l else 0) + book_notional ls"
  by (simp_all add: book_notional_def)

lemma valid_level_notional: "valid_level l \<Longrightarrow> 0 < level_notional l"
  by (simp add: valid_level_def level_notional_def dmul_pos)

lemma book_notional_nonneg: "0 \<le> book_notional ls"
  by (induction ls) (auto dest: valid_level_notional)

text \<open>An accumulator in which every amount is exact.\<close>

definition exact_acc :: "dec \<Rightarrow> fill_acc \<Rightarrow> bool" where
  "exact_acc target a \<longleftrightarrow> on_grid (fa_remaining a) \<and> on_grid (fa_spent a) \<and> 0 \<le> fa_remaining a \<and>
     0 \<le> fa_spent a \<and> fa_spent a + fa_remaining a = target \<and> 0 \<le> fa_size a \<and>
     (0 < fa_spent a \<longrightarrow> 0 < fa_size a)"

lemma on_grid_le: "on_grid x \<Longrightarrow> x \<le> 10 ^ 10"
proof -
  assume "on_grid x"
  then obtain n :: int where n: "x = of_int n / 10 ^ 18" "\<bar>n\<bar> \<le> 10 ^ 28" by (auto simp: on_grid_def)
  then have "(of_int n :: rat) \<le> of_int (10 ^ 28)" by (intro of_int_le_iff [THEN iffD2]) simp
  with n show ?thesis by simp
qed

lemma take_level_exact:
  assumes inv: "exact_acc target a" and l: "valid_level l" "on_grid (level_notional l)"
    and target: "target \<le> 10 ^ 10" and rem: "0 < fa_remaining a"
  shows "exact_acc target (take_level l a)"
    "fa_spent (take_level l a) = fa_spent a + min (fa_remaining a) (level_notional l)"
proof -
  let ?t = "min (fa_remaining a) (level_notional l)"
  have g: "on_grid ?t" using inv l by (simp add: exact_acc_def min_def)
  have pos: "0 < ?t" using rem valid_level_notional [OF l(1)] by simp
  have nn: "0 \<le> fa_spent a" "fa_spent a + fa_remaining a = target" "?t \<le> fa_remaining a"
    using inv by (auto simp: exact_acc_def)
  have r: "dsub (fa_remaining a) ?t = fa_remaining a - ?t" "on_grid (fa_remaining a - ?t)"
    using on_grid_add [of "fa_remaining a" "- ?t"] on_grid_minus [OF g] inv g pos nn target
    by (auto simp: dsub_def dec_round_grid exact_acc_def)
  have s: "dadd (fa_spent a) ?t = fa_spent a + ?t" "on_grid (fa_spent a + ?t)"
    using on_grid_add [OF _ g, of "fa_spent a"] inv pos nn target
    by (auto simp: dadd_def dec_round_grid exact_acc_def)
  have size: "0 < dadd (fa_size a) (ddiv ?t (flt_repr (price l)))"
    using inv pos l(1) ddiv_pos [of ?t "flt_repr (price l)"]
    by (simp add: dadd_def dec.rnd_pos_iff exact_acc_def valid_level_def)
  show "exact_acc target (take_level l a)"
    "fa_spent (take_level l a) = fa_spent a + ?t"
    using r s nn(1,2) size less_imp_le [OF size] add_nonneg_nonneg [OF nn(1) less_imp_le [OF pos]]
    by (simp_all add: take_level_def Let_def level_notional_def [symmetric] exact_acc_def)
qed

lemma walk_levels_exact:
  "exact_acc target a \<Longrightarrow> fill_eps < fa_remaining a \<Longrightarrow> target \<le> 10 ^ 10 \<Longrightarrow> grid_levels ls \<Longrightarrow>
     exact_acc target (walk_levels ls a) \<and>
     (fa_remaining (walk_levels ls a) \<le> fill_eps \<longleftrightarrow> target - fill_eps \<le> fa_spent a + book_notional ls)"
proof (induction ls arbitrary: a)
  case Nil
  then show ?case by (auto simp: exact_acc_def)
next
  case (Cons l ls)
  have pos: "0 < fa_remaining a" using Cons.prems(2) by (simp add: fill_eps_def)
  have tail: "grid_levels ls" using Cons.prems(4) by (simp add: grid_levels_def)
  show ?case
  proof (cases "valid_level l")
    case False
    then have "walk_levels (l # ls) a = walk_levels ls a" by (auto simp: valid_level_def)
    with False Cons.IH [OF Cons.prems(1-3) tail] show ?thesis by simp
  next
    case True
    let ?b = "take_level l a"
    have "on_grid (level_notional l)" using Cons.prems(4) True by (simp add: grid_levels_def)
    note b = take_level_exact [OF Cons.prems(1) True this Cons.prems(3) pos]
    have step: "walk_levels (l # ls) a = (if fa_remaining ?b \<le> fill_eps then ?b else walk_levels ls ?b)"
      using True by (simp add: valid_level_def Let_def)
    have sums: "fa_spent ?b + fa_remaining ?b = target" "fa_spent a + fa_remaining a = target"
      using b(1) Cons.prems(1) by (auto simp: exact_acc_def)
    show ?thesis
    proof (cases "fa_remaining ?b \<le> fill_eps")
      case True
      then have "target - fill_eps \<le> fa_spent a + level_notional l" using sums b(2) by linarith
      then show ?thesis
        using True \<open>valid_level l\<close> b(1) book_notional_nonneg [of ls]
        by (simp add: step del: walk_levels.simps)
    next
      case False
      then have all: "fa_spent ?b = fa_spent a + level_notional l"
        using b(2) sums by (simp add: fill_eps_def min_def split: if_splits)
      show ?thesis
        using Cons.IH [OF b(1) _ Cons.prems(3) tail] False \<open>valid_level l\<close> all
        by (simp add: step add.assoc del: walk_levels.simps)
    qed
  qed
qed


text \<open>On exact amounts the result of the fill depends on the depth of the book alone.\<close>

lemma weighted_average_fill_outcome:
  assumes "grid_levels levels" and target: "on_grid (flt_repr target)" "fill_eps < flt_repr target"
  obtains a where "exact_acc (flt_repr target) a"
    "fa_remaining a \<le> fill_eps \<longleftrightarrow> flt_repr target \<le> book_notional levels + fill_eps"
    "weighted_average_fill levels target =
       (if fa_remaining a \<le> fill_eps
        then Inr (flt_round (ddiv (fa_spent a) (fa_size a)), flt_round (fa_size a), flt_round (fa_spent a))
        else if fa_spent a \<le> 0 \<or> fa_size a \<le> 0 then Inl (ValueError ''insufficient book liquidity'')
        else Inl (ValueError ''insufficient book liquidity for target notional''))"
proof
  define a where "a = walk_levels levels \<lparr>fa_remaining = flt_repr target, fa_spent = 0, fa_size = 0\<rparr>"
  have pos: "0 < flt_repr target" by (rule less_trans [OF _ target(2)]) (simp add: fill_eps_def)
  have "exact_acc (flt_repr target) \<lparr>fa_remaining = flt_repr target, fa_spent = 0, fa_size = 0\<rparr>"
    using target(1) pos by (simp add: exact_acc_def)
  from walk_levels_exact [OF this _ on_grid_le [OF target(1)] assms(1)] target(2)
  show inv: "exact_acc (flt_repr target) a"
    and "fa_remaining a \<le> fill_eps \<longleftrightarrow> flt_repr target \<le> book_notional levels + fill_eps"
    by (auto simp: a_def algebra_simps)
  have "on_grid fill_eps" unfolding on_grid_def fill_eps_def by (rule exI [of _ "10 ^ 6"]) simp
  have le: "flt_repr target \<le> 10 ^ 10" using target(1) by (rule on_grid_le)
  have short: "dadd (fa_spent a) fill_eps < flt_repr target \<longleftrightarrow> \<not> fa_remaining a \<le> fill_eps"
  proof (cases "fa_spent a + fill_eps \<le> 10 ^ 10")
    case True
    then show ?thesis
      using inv on_grid_add [OF _ \<open>on_grid fill_eps\<close>, of "fa_spent a"]
      by (auto simp: dadd_def dec_round_grid exact_acc_def fill_eps_def)
  next
    case False
    then have "flt_repr target \<le> fa_spent a + fill_eps" using le by linarith
    moreover from this have "flt_repr target \<le> dadd (fa_spent a) fill_eps"
      unfolding dadd_def using target(1) by (intro dec.rnd_ge_fix) (auto simp: dec_round_grid)
    ultimately show ?thesis using inv by (auto simp: exact_acc_def)
  qed
  have "fa_remaining a \<le> fill_eps \<Longrightarrow> 0 < fa_spent a \<and> 0 < fa_size a"
    using inv target(2) by (auto simp: exact_acc_def)
  with short pos show "weighted_average_fill levels target =
       (if fa_remaining a \<le> fill_eps
        then Inr (flt_round (ddiv (fa_spent a) (fa_size a)), flt_round (fa_size a), flt_round (fa_spent a))
        else if fa_spent a \<le> 0 \<or> fa_size a \<le> 0 then Inl (ValueError ''insufficient book liquidity'')
        else Inl (ValueError ''insufficient book liquidity for target notional''))"
    by (auto simp: weighted_average_fill_def Let_def raise_if_def a_def [symmetric])
qed

section \<open>A sample plan\<close>

lemma sample_reprs:
  "flt_repr (1/4) = 1/4" "flt_repr (1/2) = 1/2" "flt_repr (3/4) = 3/4" "flt_repr 10 = 10"
  "flt_repr 20 = 20" "flt_repr 40 = 40" "flt_repr 100 = 100"
  by code_simp+

definition sample_book :: "flt \<Rightarrow> order_book" where
  "sample_book p = \<lparr>bids = [], asks = [\<lparr>price = p, lsize = 100\<rparr>], ob_has_amm_payload = False,
     ob_timestamp = 0, ob_sequence = None, ob_checksum = None, ob_status = MD_VALID\<rparr>"

definition sample_input :: plan_input where
  "sample_input = \<lparr>pi_first_book = Some (sample_book (1/4)), pi_second_book = Some (sample_book (1/2)),
     pi_max_order_size = 10, pi_max_slippage = 1/2, pi_max_price_impact = 1/2,
     pi_first_pool = None, pi_first_side = YES, pi_second_pool = None, pi_second_side = NO,
     pi_first_fee_pct = 0, pi_second_fee_pct = 0, pi_first_fee_quote = None, pi_second_fee_quote = None,
     pi_required_depth = None\<rparr>"

definition sample_plan :: position_plan where
  "sample_plan = \<lparr>pl_polymarket_contracts = 20, pl_polymarket_capital_usd = 5,
     pl_predict_fun_contracts = 20, pl_predict_fun_capital_usd = 10, pl_payout_contracts = 20,
     pl_total_cost_usd = 15, pl_polymarket_fee_usd = 0, pl_predict_fun_fee_usd = 0\<rparr>"

definition sample_metrics :: spread_metrics where
  "sample_metrics = \<lparr>sm_gross_spread = 1/4, sm_net_spread = 1/4, sm_expected_net_profit_usd = 5,
     sm_polymarket_slippage = 0, sm_predict_fun_slippage = 0, sm_combined_cost_per_payout = 3/4,
     sm_fixed_chain_cost_usd = 0\<rparr>"

lemmas num_eval = dadd_def dsub_def dmul_def ddiv_def dec_round_eval fadd_def fsub_def fmul_def fdiv_def
  flt_round_eval div_dec_def div_flt_def sample_reprs dec.rnd_0 flt.rnd_0

lemma sample_fill_ops:
  "dmul (1/4) 100 = 25" "dmul (1/2) 100 = 50" "ddiv 10 (1/4) = 40" "ddiv 10 (1/2) = 20"
  "dadd 0 10 = 10" "dadd 0 20 = 20" "dadd 0 40 = 40" "ddiv 10 40 = 1/4" "ddiv 10 20 = 1/2"
  "flt_round (1/4) = 1/4" "flt_round (1/2) = 1/2" "flt_round 10 = 10" "flt_round 20 = 20" "flt_round 40 = 40"
  "dadd 10 fill_eps = 10 + fill_eps"
  by (simp_all add: num_eval fill_eps_def)

lemma fill_eps_pos: "0 < fill_eps" by (simp add: fill_eps_def)

lemma sample_fills:
  "weighted_average_fill (asks (sample_book (1/4))) 10 = Inr (1/4, 40, 10)"
  "weighted_average_fill (asks (sample_book (1/2))) 10 = Inr (1/2, 20, 10)"
  using fill_eps_pos
  by (simp_all add: weighted_average_fill_def sample_book_def take_level_def Let_def sample_reprs sample_fill_ops)

lemma sample_ops:
  "dadd 5 0 = 5" "dadd 10 0 = 10" "ddiv 5 20 = 1/4" "ddiv 10 20 = 1/2" "dadd (1/4) (1/2) = 3/4"
  "flt_round (3/4) = 3/4" "dsub 1 (3/4) = 1/4" "flt_round (1/4) = 1/4" "dmul 20 (1/4) = 5" "flt_round 5 = 5"
  "div_dec 0 (1/4) = Inr 0" "div_dec 0 (1/2) = Inr 0"
  "dmul 20 (1/2) = 10" "dadd 5 10 = 15" "dadd 15 0 = 15"
  "div_flt 0 (1/4) = Inr 0" "div_flt 0 (1/2) = Inr 0" "fsub (1/4) (1/4) = 0" "fsub (1/2) (1/2) = 0"
  "fadd (1/4) (1/2) = 3/4" "fsub 1 (3/4) = 1/4"
  by (simp_all add: num_eval)

lemma sample_plan_built: "build_position_plan fp sample_input = Inr sample_plan"
  using sample_fills
  by (simp add: build_position_plan_def sample_input_def quote_with_liquidity_guard_def leg_quote_def
      orderbook_buy_quote_def best_ask_def sample_book_def depth_guard_def leg_fee_def Let_def sample_reprs
      sample_ops sample_plan_def)

lemma sample_metrics_computed: "calculate_spread_metrics fp sample_input 0 = Inr sample_metrics"
  unfolding calculate_spread_metrics_def sample_plan_built rbind_simps
  by (simp add: best_leg_price_def best_ask_def leg_slippage_def
      sample_plan_def sample_input_def sample_book_def Let_def sample_reprs sample_ops flt.rnd_0 sample_metrics_def)

lemma sample_admitted: "is_binary_signal_allowed sample_metrics (1/8)"
proof -
  have 1: "fsub 1 (1/8) = 7/8" by (simp add: num_eval)
  have "13/16 \<le> fsub (7/8) signal_eps"
    unfolding fsub_def using signal_eps_bounds(2) by (intro flt.rnd_ge_fix) (simp_all add: flt_round_eval)
  moreover have "fadd (1/8) signal_eps \<le> 3/16"
    unfolding fadd_def using signal_eps_bounds(2) by (intro flt.rnd_le_fix) (simp_all add: flt_round_eval)
  ultimately show ?thesis by (simp add: is_binary_signal_allowed_def sample_metrics_def 1)
qed

lemma sample_pow: "unit_pow (\<lambda>x e. x)"
  by (simp add: unit_pow_def)

section \<open>Properties\<close>

text \<open>C3. A position plan is balanced: both legs hold the same positive number of payout contracts,
  no more than either venue quoted within the slippage and price-impact caps, fees are never
  negative, and the total cost is the sum of the two capitals and the two fees.\<close>

theorem plan_is_balanced:
  assumes "unit_pow fp" and "build_position_plan fp i = Inr plan"
  shows "\<exists>first second.
    leg_quote ''polymarket_book or polymarket_amm_pool is required''
      (pi_first_pool i) (pi_first_side i) (pi_first_book i) (pi_max_order_size i) = Inr first \<and>
    leg_quote ''predict_fun_book or predict_fun_amm_pool is required''
      (pi_second_pool i) (pi_second_side i) (pi_second_book i) (pi_max_order_size i) = Inr second \<and>
    slippage_pct first \<le> min (pi_max_slippage i) (pi_max_price_impact i) \<and>
    slippage_pct second \<le> min (pi_max_slippage i) (pi_max_price_impact i) \<and>
    0 < pl_payout_contracts plan \<and>
    pl_payout_contracts plan \<le> flt_repr (contracts first) \<and>
    pl_payout_contracts plan \<le> flt_repr (contracts second) \<and>
    pl_polymarket_contracts plan = pl_payout_contracts plan \<and>
    pl_predict_fun_contracts plan = pl_payout_contracts plan \<and>
    0 \<le> pl_polymarket_fee_usd plan \<and> 0 \<le> pl_predict_fun_fee_usd plan \<and>
    pl_total_cost_usd plan = dadd (dadd (dadd (pl_polymarket_capital_usd plan) (pl_predict_fun_capital_usd plan))
      (pl_polymarket_fee_usd plan)) (pl_predict_fun_fee_usd plan)"
  using assms(2)
proof (cases rule: build_position_plan_Inr)
  case (1 first second)
  have "pl_payout_contracts plan \<le> flt_repr (contracts first)"
    "pl_payout_contracts plan \<le> flt_repr (contracts second)"
    using leg_quote_pos [OF 1(1)] leg_quote_pos [OF 1(2)]
    unfolding 1(5) by (auto simp: flt_repr_le_iff min_def)
  then show ?thesis using 1 plan_fees_nonneg [OF assms] by blast
qed

theorem plan_is_balanced_witness:
  "\<exists>first second.
    leg_quote ''polymarket_book or polymarket_amm_pool is required''
      None YES (Some (sample_book (1/4))) 10 = Inr first \<and>
    leg_quote ''predict_fun_book or predict_fun_amm_pool is required''
      None NO (Some (sample_book (1/2))) 10 = Inr second \<and>
    pl_payout_contracts sample_plan \<le> flt_repr (contracts first) \<and>
    pl_payout_contracts sample_plan \<le> flt_repr (contracts second)"
  using plan_is_balanced [OF sample_pow sample_plan_built] by (auto simp: sample_input_def)

text \<open>Admitted metrics leave room for all costs.\<close>

lemma admitted_costs_below_payout:
  assumes "unit_pow fp" and "build_position_plan fp i = Inr plan"
    and "calculate_spread_metrics fp i chain = Inr m"
    and "is_binary_signal_allowed m min_net_spread" and "0 \<le> min_net_spread"
  shows "pl_polymarket_capital_usd plan + pl_polymarket_fee_usd plan +
    pl_predict_fun_capital_usd plan + pl_predict_fun_fee_usd plan + flt_repr chain < pl_payout_contracts plan"
proof (rule ccontr)
  assume "\<not> ?thesis"
  moreover have "0 \<le> chain"
    using assms(2,3) by (auto simp: calculate_spread_metrics_def res_simps Let_def)
  moreover have "sm_combined_cost_per_payout m =
    flt_round (dadd (ddiv (dadd (pl_polymarket_capital_usd plan) (pl_polymarket_fee_usd plan)) (pl_payout_contracts plan))
      (ddiv (dadd (dadd (pl_predict_fun_capital_usd plan) (pl_predict_fun_fee_usd plan)) (flt_repr chain))
        (pl_payout_contracts plan)))"
    using assms(2,3) by (auto simp: calculate_spread_metrics_def res_simps Let_def)
  ultimately have "slack ^ 4 * (1 - 1 / 2 ^ 52) \<le> sm_combined_cost_per_payout m"
    using plan_fees_nonneg [OF assms(1,2)] combined_cost_lower by simp
  then show False
    using assms(4) signal_bound [OF assms(5)] by (simp add: is_binary_signal_allowed_def)
qed

text \<open>C4. An admitted signal is profitable: if \<open>is_binary_signal_allowed\<close> accepts the metrics of a
  plan with a non-negative minimum spread, then capital, fees and chain costs, added exactly, are
  below the payout that the two complementary legs guarantee.\<close>

theorem admitted_signal_costs_less_than_payout:
  assumes "unit_pow fp" and "build_position_plan fp i = Inr plan"
    and "calculate_spread_metrics fp i chain = Inr m"
    and "is_binary_signal_allowed m min_net_spread" and "0 \<le> min_net_spread"
  shows "pl_polymarket_capital_usd plan + pl_polymarket_fee_usd plan +
    pl_predict_fun_capital_usd plan + pl_predict_fun_fee_usd plan + flt_repr chain < pl_payout_contracts plan"
  using assms by (rule admitted_costs_below_payout)

theorem admitted_signal_costs_less_than_payout_witness:
  "(5 :: dec) + 0 + 10 + 0 + flt_repr 0 < 20"
  using admitted_signal_costs_less_than_payout
    [OF sample_pow sample_plan_built sample_metrics_computed, of "1/8"]
  by (simp add: sample_plan_def sample_admitted)

text \<open>The walk over the asks fills a target exactly when the book holds it: on amounts that the
  18-decimal grid represents, \<open>weighted_average_fill\<close> succeeds if and only if the notional of the
  valid levels reaches the target up to the tolerance of 10^-12, otherwise it raises.\<close>

theorem fill_succeeds_iff_depth:
  assumes "grid_levels levels" and "on_grid (flt_repr target)" and "fill_eps < flt_repr target"
  shows "(\<exists>r. weighted_average_fill levels target = Inr r) \<longleftrightarrow>
    flt_repr target \<le> book_notional levels + fill_eps"
  by (rule weighted_average_fill_outcome [OF assms]) (simp split: if_splits)

lemma sample_levels: "grid_levels [\<lparr>price = 1/4, lsize = 100\<rparr>]" "on_grid (flt_repr 10)" "fill_eps < flt_repr 10"
proof -
  have "level_notional \<lparr>price = 1/4, lsize = 100\<rparr> = 25" by (simp add: level_notional_def num_eval)
  then show "grid_levels [\<lparr>price = 1/4, lsize = 100\<rparr>]"
    by (simp add: grid_levels_def on_grid_numeral)
qed (simp_all add: sample_reprs on_grid_numeral fill_eps_def)

theorem fill_succeeds_iff_depth_witness:
  "\<exists>r. weighted_average_fill [\<lparr>price = 1/4, lsize = 100\<rparr>] 10 = Inr r"
  using fill_succeeds_iff_depth [OF sample_levels]
  by (simp add: book_notional_def valid_level_def level_notional_def fill_eps_def num_eval)

text \<open>A fill spends what was asked and no more: the spent notional never exceeds the target and
  falls short of it by at most the tolerance (read back through the float rounding).\<close>

theorem fill_spends_target:
  assumes "grid_levels levels" and "on_grid (flt_repr target)" and "fill_eps < flt_repr target"
    and "is_flt target" and "weighted_average_fill levels target = Inr (avg, cts, spent)"
  shows "spent \<le> target \<and> flt_round (flt_repr target - fill_eps) \<le> spent"
proof (rule weighted_average_fill_outcome [OF assms(1-3)])
  fix a assume inv: "exact_acc (flt_repr target) a"
    and r: "weighted_average_fill levels target =
       (if fa_remaining a \<le> fill_eps
        then Inr (flt_round (ddiv (fa_spent a) (fa_size a)), flt_round (fa_size a), flt_round (fa_spent a))
        else if fa_spent a \<le> 0 \<or> fa_size a \<le> 0 then Inl (ValueError ''insufficient book liquidity'')
        else Inl (ValueError ''insufficient book liquidity for target notional''))"
  have "fa_remaining a \<le> fill_eps" "spent = flt_round (fa_spent a)"
    using r assms(5) by (auto split: if_splits)
  moreover from this have "fa_spent a \<le> flt_repr target" "flt_repr target - fill_eps \<le> fa_spent a"
    using inv by (auto simp: exact_acc_def)
  ultimately show ?thesis
    using flt.rnd_mono [of "fa_spent a" "flt_repr target"] assms(4) by (auto intro: flt.rnd_mono)
qed

theorem fill_spends_target_witness:
  "(10 :: flt) \<le> 10 \<and> flt_round (flt_repr 10 - fill_eps) \<le> 10"
  using fill_spends_target [OF sample_levels, of "1/4" 40 10] sample_fills(1)
  by (simp add: is_flt_def flt_round_eval sample_book_def)

end
