(* ===== verification/Risk_Control.thy ===== *)
theory Risk_Control
  imports Py_Num
begin

text \<open>
  The global risk controller of \<^verbatim>\<open>risk.py\<close>: the daily realized loss, the count of consecutive
  API errors and the pause flag, with their copy in the state file and in the durable store.
  Every operation is a function that returns the controller, what the caller sees and whether
  the pause callbacks ran; whether a save to the durable store succeeds is an argument. The
  lemmas show that the limits are enforced in every reachable state, that a pause lasts until an
  operator resumes also when saves and reads of the store interleave with the operations, and where
  a failed save or a read in flight breaks this.
\<close>

section \<open>State\<close>

text \<open>
  The text of a pause reason is kept structured where the code formats numbers into it. Days are
  numbered; the UTC day of the clock is an argument of the operations that read it.
\<close>

datatype pause_reason = Reason string | Loss_Limit dec dec | Error_Limit int

record risk_state =
  rk_loss_day :: int
  rk_daily_loss :: dec
  rk_api_errors :: int
  rk_paused :: bool
  rk_reason :: "pause_reason option"

text \<open>
  \<open>rc_file\<close> and \<open>rc_store\<close> are \<^verbatim>\<open>None\<close> when the controller has no state path or no durable store,
  otherwise they hold what was last written there.
\<close>

record controller =
  rc_max_daily_loss :: dec
  rc_max_api_errors :: int
  rc_state :: risk_state
  rc_file :: "risk_state option option"
  rc_store :: "risk_state option option"

record outcome =
  oc_controller :: controller
  oc_result :: "bool res"
  oc_callbacks_ran :: bool

definition initial_state :: "int \<Rightarrow> risk_state" where
  "initial_state today = \<lparr>rk_loss_day = today, rk_daily_loss = 0, rk_api_errors = 0,
     rk_paused = False, rk_reason = None\<rparr>"

text \<open>What a loaded payload becomes.\<close>

definition sanitize :: "risk_state \<Rightarrow> risk_state" where
  "sanitize s = s\<lparr>rk_daily_loss := max 0 (rk_daily_loss s), rk_api_errors := max 0 (rk_api_errors s),
     rk_reason := (if rk_reason s = Some (Reason []) then None else rk_reason s)\<rparr>"

section \<open>Operations\<close>

definition set_state :: "risk_state \<Rightarrow> controller \<Rightarrow> controller" where
  "set_state s c = c\<lparr>rc_state := s\<rparr>"

text \<open>
  The state file and the durable store. A write of the state file that fails is not modelled (its exception
  ends the operation like a failed save, after the memory changed), and a loss is taken to survive
  the column of the store exactly, which holds for losses of at most 18 decimals.
\<close>

definition persist :: "controller \<Rightarrow> controller" where
  "persist c = c\<lparr>rc_file := map_option (\<lambda>_. Some (rc_state c)) (rc_file c)\<rparr>"

definition persist_external :: "bool \<Rightarrow> controller \<Rightarrow> controller res" where
  "persist_external saved c = (case rc_store c of
     None \<Rightarrow> Inr c
   | Some _ \<Rightarrow> if saved then Inr (c\<lparr>rc_store := Some (Some (rc_state c))\<rparr>)
               else Inl (RuntimeError ''risk state could not be saved''))"

text \<open>
  The end of every operation: the external save, then the callbacks. An exception of the save
  leaves the memory as it is and skips the rest.
\<close>

definition finish :: "bool \<Rightarrow> controller \<Rightarrow> bool \<Rightarrow> outcome" where
  "finish saved c newly_paused = (case persist_external saved c of
     Inl e \<Rightarrow> \<lparr>oc_controller = c, oc_result = Inl e, oc_callbacks_ran = False\<rparr>
   | Inr c' \<Rightarrow> \<lparr>oc_controller = c', oc_result = Inr newly_paused, oc_callbacks_ran = newly_paused\<rparr>)"

text \<open>\<^verbatim>\<open>_load\<close> from the file and \<^verbatim>\<open>initialize\<close> from the store; an unreadable source pauses.\<close>

definition load_file :: "int \<Rightarrow> (string + risk_state option) \<Rightarrow> risk_state" where
  "load_file today read = (case read of
     Inr None \<Rightarrow> initial_state today
   | Inr (Some s) \<Rightarrow> sanitize s
   | Inl e \<Rightarrow> (initial_state today)\<lparr>rk_paused := True,
       rk_reason := Some (Reason (''risk state could not be loaded: '' @ e))\<rparr>)"

definition initialize :: "(string + risk_state option) \<Rightarrow> bool \<Rightarrow> controller \<Rightarrow> controller" where
  "initialize read saved c = (case rc_store c of
     None \<Rightarrow> c
   | Some _ \<Rightarrow>
      (let failed = (\<lambda>e. c\<lparr>rc_state := (rc_state c)\<lparr>rk_paused := True, rk_reason := Some
             (Reason (''risk state could not be loaded from durable store: '' @ e))\<rparr>\<rparr>)
       in case read of
         Inl e \<Rightarrow> failed e
       | Inr None \<Rightarrow> (case persist_external saved c of Inr c' \<Rightarrow> c' | Inl _ \<Rightarrow> failed ''save failed'')
       | Inr (Some s) \<Rightarrow> c\<lparr>rc_state := sanitize s\<rparr>))"

definition refresh_from_store :: "(string + risk_state option) \<Rightarrow> controller \<Rightarrow> outcome" where
  "refresh_from_store read c =
     (if rc_store c = None then \<lparr>oc_controller = c, oc_result = Inr False, oc_callbacks_ran = False\<rparr>
      else case read of
        Inr None \<Rightarrow> \<lparr>oc_controller = c, oc_result = Inr False, oc_callbacks_ran = False\<rparr>
      | Inr (Some s) \<Rightarrow>
          (let newly = rk_paused s \<and> \<not> rk_paused (rc_state c)
           in \<lparr>oc_controller = c\<lparr>rc_state := sanitize s\<rparr>, oc_result = Inr newly, oc_callbacks_ran = newly\<rparr>)
      | Inl e \<Rightarrow>
          (let newly = \<not> rk_paused (rc_state c)
           in \<lparr>oc_controller = c\<lparr>rc_state := (rc_state c)\<lparr>rk_paused := True, rk_reason := Some
                 (Reason (''risk state could not be refreshed from durable store: '' @ e))\<rparr>\<rparr>,
               oc_result = Inr newly, oc_callbacks_ran = newly\<rparr>))"

definition roll_loss_day_forward :: "int \<Rightarrow> risk_state \<Rightarrow> risk_state" where
  "roll_loss_day_forward today s =
     (if today \<noteq> rk_loss_day s \<and> \<not> rk_paused s then s\<lparr>rk_loss_day := today, rk_daily_loss := 0\<rparr> else s)"

definition set_paused_if_limit_reached :: "dec \<Rightarrow> risk_state \<Rightarrow> risk_state \<times> bool" where
  "set_paused_if_limit_reached limit s =
     (if rk_daily_loss s < limit \<or> rk_paused s then (s, False)
      else (s\<lparr>rk_paused := True, rk_reason := Some (Loss_Limit (rk_daily_loss s) limit)\<rparr>, True))"

definition net_result :: "dec \<Rightarrow> dec \<Rightarrow> dec" where
  "net_result profit fees = dsub profit (max 0 fees)"

definition record_realized_result :: "int \<Rightarrow> dec \<Rightarrow> dec \<Rightarrow> bool \<Rightarrow> controller \<Rightarrow> outcome" where
  "record_realized_result today profit fees saved c =
     (let net = net_result profit fees in
      if 0 \<le> net then \<lparr>oc_controller = c, oc_result = Inr False, oc_callbacks_ran = False\<rparr>
      else
        (let s = roll_loss_day_forward today (rc_state c);
             (s', newly) = set_paused_if_limit_reached (rc_max_daily_loss c)
               (s\<lparr>rk_daily_loss := dadd (rk_daily_loss s) \<bar>net\<bar>\<rparr>)
         in finish saved (persist (set_state s' c)) newly))"

definition record_api_error :: "bool \<Rightarrow> controller \<Rightarrow> outcome" where
  "record_api_error saved c =
     (let s = rc_state c; n = rk_api_errors s + 1; newly = rc_max_api_errors c \<le> n \<and> \<not> rk_paused s;
          s' = s\<lparr>rk_api_errors := n\<rparr>;
          s'' = (if newly then s'\<lparr>rk_paused := True, rk_reason := Some (Error_Limit n)\<rparr> else s')
      in finish saved (persist (set_state s'' c)) newly)"

definition pause :: "string \<Rightarrow> bool \<Rightarrow> controller \<Rightarrow> outcome" where
  "pause reason saved c =
     (let s = rc_state c; newly = \<not> rk_paused s
      in finish saved (persist (set_state (s\<lparr>rk_paused := True, rk_reason := Some (Reason reason)\<rparr>) c)) newly)"

definition reset_api_errors :: "bool \<Rightarrow> controller \<Rightarrow> outcome" where
  "reset_api_errors saved c =
     (let c' = (if rk_api_errors (rc_state c) \<noteq> 0
                then persist (set_state ((rc_state c)\<lparr>rk_api_errors := 0\<rparr>) c) else c)
      in finish saved c' False)"

definition resume :: "int \<Rightarrow> bool \<Rightarrow> controller \<Rightarrow> outcome" where
  "resume today saved c =
     (let s = rc_state c in
      if today = rk_loss_day s \<and> rc_max_daily_loss c \<le> rk_daily_loss s
      then \<lparr>oc_controller = c, oc_result = Inl (RuntimeError
        ''Cannot resume risk on the same UTC day while the daily-loss limit remains exceeded''),
        oc_callbacks_ran = False\<rparr>
      else
        (let s' = (if today \<noteq> rk_loss_day s then s\<lparr>rk_loss_day := today, rk_daily_loss := 0\<rparr> else s)
         in finish saved (persist (set_state
              (s'\<lparr>rk_api_errors := 0, rk_paused := False, rk_reason := None\<rparr>) c)) False))"


section \<open>Histories\<close>

text \<open>
  A serial history is a list of events; \<open>Refresh None\<close> is a tick of the monitor that reads what
  the store holds, \<open>Refresh (Some e)\<close> one whose read fails.
\<close>

datatype risk_event =
    Realized int dec dec bool
  | Api_Error bool
  | Pause_Request string bool
  | Reset_Errors bool
  | Resume int bool
  | Refresh "string option"

definition store_read :: "controller \<Rightarrow> string option \<Rightarrow> string + risk_state option" where
  "store_read c failure = (case failure of Some e \<Rightarrow> Inl e
     | None \<Rightarrow> Inr (case rc_store c of Some x \<Rightarrow> x | None \<Rightarrow> None))"

fun risk_step :: "controller \<Rightarrow> risk_event \<Rightarrow> outcome" where
  "risk_step c (Realized today profit fees saved) = record_realized_result today profit fees saved c"
| "risk_step c (Api_Error saved) = record_api_error saved c"
| "risk_step c (Pause_Request reason saved) = pause reason saved c"
| "risk_step c (Reset_Errors saved) = reset_api_errors saved c"
| "risk_step c (Resume today saved) = resume today saved c"
| "risk_step c (Refresh failure) = refresh_from_store (store_read c failure) c"

definition risk_run :: "controller \<Rightarrow> risk_event list \<Rightarrow> controller" where
  "risk_run c es = foldl (\<lambda>c e. oc_controller (risk_step c e)) c es"

lemma risk_run_simps [simp]:
  "risk_run c [] = c" "risk_run c (e # es) = risk_run (oc_controller (risk_step c e)) es"
  by (simp_all add: risk_run_def)

text \<open>A property of the controller that every step keeps holds at the end of every history.\<close>

lemma risk_run_induct:
  assumes "P c" and "\<And>c e. P c \<Longrightarrow> e \<in> set es \<Longrightarrow> P (oc_controller (risk_step c e))"
  shows "P (risk_run c es)"
  using assms by (induction es arbitrary: c) auto

text \<open>
  Every operation changes the memory under the lock and saves after it has let go of the lock, and the
  monitor reads the store before it takes the lock. In an interleaved history an operation begins
  (its memory and its file change, a snapshot of the memory is on its way to the store), the save of a snapshot lands
  or fails later and in any order, a read of the monitor is issued and applied later, and another
  process may write the store.
\<close>

record running =
  rn_controller :: controller
  rn_saves :: "risk_state list"
  rn_reads :: "(string + risk_state option) list"

datatype interleaved_event =
    Begun risk_event
  | Save_Landed nat
  | Save_Lost nat
  | Read_Issued "string option"
  | Read_Applied nat
  | Stored_Elsewhere risk_state

definition unsaved :: "risk_event \<Rightarrow> risk_event" where
  "unsaved e = (case e of Realized today profit fees _ \<Rightarrow> Realized today profit fees False | Api_Error _ \<Rightarrow> Api_Error False
     | Pause_Request reason _ \<Rightarrow> Pause_Request reason False | Reset_Errors _ \<Rightarrow> Reset_Errors False
     | Resume today _ \<Rightarrow> Resume today False | Refresh failure \<Rightarrow> Refresh failure)"

definition reaches_save :: "controller \<Rightarrow> risk_event \<Rightarrow> bool" where
  "reaches_save c e \<longleftrightarrow> rc_store c \<noteq> None \<and> (case e of Realized _ profit fees _ \<Rightarrow> net_result profit fees < 0
     | Resume today _ \<Rightarrow> \<not> (today = rk_loss_day (rc_state c) \<and> rc_max_daily_loss c \<le> rk_daily_loss (rc_state c))
     | Refresh _ \<Rightarrow> False | _ \<Rightarrow> True)"

definition without :: "nat \<Rightarrow> 'a list \<Rightarrow> 'a list" where
  "without i xs = take i xs @ drop (Suc i) xs"

definition put_store :: "risk_state \<Rightarrow> controller \<Rightarrow> controller" where
  "put_store s c = c\<lparr>rc_store := map_option (\<lambda>_. Some s) (rc_store c)\<rparr>"

fun interleaved_step :: "running \<Rightarrow> interleaved_event \<Rightarrow> running" where
  "interleaved_step r (Begun e) =
     (let c = oc_controller (risk_step (rn_controller r) (unsaved e))
      in r\<lparr>rn_controller := c,
           rn_saves := rn_saves r @ (if reaches_save (rn_controller r) e then [rc_state c] else [])\<rparr>)"
| "interleaved_step r (Save_Landed i) = (if i < length (rn_saves r)
     then r\<lparr>rn_controller := put_store (rn_saves r ! i) (rn_controller r), rn_saves := without i (rn_saves r)\<rparr> else r)"
| "interleaved_step r (Save_Lost i) = r\<lparr>rn_saves := without i (rn_saves r)\<rparr>"
| "interleaved_step r (Read_Issued failure) = r\<lparr>rn_reads := rn_reads r @ [store_read (rn_controller r) failure]\<rparr>"
| "interleaved_step r (Read_Applied i) = (if i < length (rn_reads r)
     then r\<lparr>rn_controller := oc_controller (refresh_from_store (rn_reads r ! i) (rn_controller r)),
            rn_reads := without i (rn_reads r)\<rparr> else r)"
| "interleaved_step r (Stored_Elsewhere s) = r\<lparr>rn_controller := put_store s (rn_controller r)\<rparr>"

definition interleaved_run :: "running \<Rightarrow> interleaved_event list \<Rightarrow> running" where
  "interleaved_run r es = foldl interleaved_step r es"


inductive_set risk_reachable :: "controller \<Rightarrow> controller set" for c where
  start: "c \<in> risk_reachable c"
| step: "c' \<in> risk_reachable c \<Longrightarrow> oc_controller (risk_step c' e) \<in> risk_reachable c"

section \<open>Lemmas\<close>

lemma finish_controller:
  "oc_controller (finish saved c n) = c \<or>
   (\<exists>x. rc_store c = Some x) \<and> oc_controller (finish saved c n) = c\<lparr>rc_store := Some (Some (rc_state c))\<rparr>"
  by (auto simp: finish_def persist_external_def split: option.splits)

lemma finish_ok:
  "oc_result (finish saved c n) = Inr r \<Longrightarrow>
     oc_controller (finish saved c n) = c\<lparr>rc_store := map_option (\<lambda>_. Some (rc_state c)) (rc_store c)\<rparr>"
  by (cases c) (auto simp: finish_def persist_external_def split: option.splits if_splits)

lemma finish_state [simp]: "rc_state (oc_controller (finish saved c n)) = rc_state c"
  using finish_controller [of saved c n] by auto

lemma set_state_simps [simp]:
  "rc_state (set_state s c) = s" "rc_store (set_state s c) = rc_store c" "rc_file (set_state s c) = rc_file c"
  "rc_max_daily_loss (set_state s c) = rc_max_daily_loss c"
  "rc_max_api_errors (set_state s c) = rc_max_api_errors c"
  by (simp_all add: set_state_def)

lemma persist_simps [simp]:
  "rc_state (persist c) = rc_state c" "rc_store (persist c) = rc_store c"
  "rc_max_daily_loss (persist c) = rc_max_daily_loss c" "rc_max_api_errors (persist c) = rc_max_api_errors c"
  by (simp_all add: persist_def)

subsection \<open>The limits\<close>

definition state_ok :: "dec \<Rightarrow> int \<Rightarrow> risk_state \<Rightarrow> bool" where
  "state_ok limit errors s \<longleftrightarrow> 0 \<le> rk_daily_loss s \<and> 0 \<le> rk_api_errors s \<and>
     (limit \<le> rk_daily_loss s \<longrightarrow> rk_paused s) \<and> (errors \<le> rk_api_errors s \<longrightarrow> rk_paused s)"

definition controller_ok :: "controller \<Rightarrow> bool" where
  "controller_ok c \<longleftrightarrow> 0 < rc_max_daily_loss c \<and> 0 < rc_max_api_errors c \<and>
     state_ok (rc_max_daily_loss c) (rc_max_api_errors c) (rc_state c) \<and>
     pred_option (pred_option (state_ok (rc_max_daily_loss c) (rc_max_api_errors c))) (rc_file c) \<and>
     pred_option (pred_option (state_ok (rc_max_daily_loss c) (rc_max_api_errors c))) (rc_store c)"

lemma controller_ok_set:
  "controller_ok c \<Longrightarrow> state_ok (rc_max_daily_loss c) (rc_max_api_errors c) s \<Longrightarrow>
     controller_ok (oc_controller (finish saved (persist (set_state s c)) n))"
  using finish_controller [of saved "persist (set_state s c)" n]
  by (auto simp: controller_ok_def persist_def option.pred_set set_state_def)

lemma controller_ok_finish: "controller_ok c \<Longrightarrow> controller_ok (oc_controller (finish saved c n))"
  using finish_controller [of saved c n] by (auto simp: controller_ok_def)

lemma state_ok_sanitize: "state_ok l e s \<Longrightarrow> state_ok l e (sanitize s)"
  by (auto simp: state_ok_def sanitize_def)

lemma state_ok_roll:
  "0 < l \<Longrightarrow> state_ok l e s \<Longrightarrow> state_ok l e (roll_loss_day_forward today s)"
  by (auto simp: state_ok_def roll_loss_day_forward_def)

lemma state_ok_add_loss:
  "state_ok l e s \<Longrightarrow> 0 \<le> x \<Longrightarrow>
     state_ok l e (fst (set_paused_if_limit_reached l (s\<lparr>rk_daily_loss := dadd (rk_daily_loss s) x\<rparr>)))"
  by (auto simp: state_ok_def set_paused_if_limit_reached_def not_less)

lemma realized_controller:
  "oc_controller (record_realized_result today profit fees saved c) =
     (if 0 \<le> net_result profit fees then c
      else let s = roll_loss_day_forward today (rc_state c);
               r = set_paused_if_limit_reached (rc_max_daily_loss c)
                 (s\<lparr>rk_daily_loss := dadd (rk_daily_loss s) (- net_result profit fees)\<rparr>)
           in oc_controller (finish saved (persist (set_state (fst r) c)) (snd r)))"
  by (simp add: record_realized_result_def Let_def split: prod.splits)

lemma controller_ok_realized:
  assumes "controller_ok c"
  shows "controller_ok (oc_controller (record_realized_result today profit fees saved c))"
proof (cases "0 \<le> net_result profit fees")
  case False
  then have "0 \<le> - net_result profit fees" by simp
  moreover have "state_ok (rc_max_daily_loss c) (rc_max_api_errors c) (roll_loss_day_forward today (rc_state c))"
    using assms by (auto simp: controller_ok_def intro: state_ok_roll)
  ultimately show ?thesis
    unfolding realized_controller Let_def using assms False
    by (simp add: controller_ok_set state_ok_add_loss)
qed (use assms in \<open>simp add: realized_controller\<close>)

lemma controller_ok_api_error:
  "controller_ok c \<Longrightarrow> controller_ok (oc_controller (record_api_error saved c))"
  unfolding record_api_error_def Let_def
  by (intro controller_ok_set) (auto simp: controller_ok_def state_ok_def)

lemma controller_ok_pause: "controller_ok c \<Longrightarrow> controller_ok (oc_controller (pause reason saved c))"
  unfolding pause_def Let_def by (intro controller_ok_set) (auto simp: controller_ok_def state_ok_def)

lemma controller_ok_reset:
  assumes "controller_ok c"
  shows "controller_ok (oc_controller (reset_api_errors saved c))"
proof (cases "rk_api_errors (rc_state c) = 0")
  case False
  then show ?thesis
    unfolding reset_api_errors_def Let_def using assms
    by (simp, intro controller_ok_set) (auto simp: controller_ok_def state_ok_def)
qed (use assms in \<open>simp add: reset_api_errors_def controller_ok_finish\<close>)

lemma controller_ok_resume:
  assumes "controller_ok c"
  shows "controller_ok (oc_controller (resume today saved c))"
proof (cases "today = rk_loss_day (rc_state c) \<and> rc_max_daily_loss c \<le> rk_daily_loss (rc_state c)")
  case False
  let ?s = "(if today \<noteq> rk_loss_day (rc_state c)
    then (rc_state c)\<lparr>rk_loss_day := today, rk_daily_loss := 0\<rparr> else rc_state c)
    \<lparr>rk_api_errors := 0, rk_paused := False, rk_reason := None\<rparr>"
  have "oc_controller (resume today saved c) = oc_controller (finish saved (persist (set_state ?s c)) False)"
    using False by (auto simp: resume_def Let_def)
  moreover have "state_ok (rc_max_daily_loss c) (rc_max_api_errors c) ?s"
    using assms False by (auto simp: controller_ok_def state_ok_def)
  ultimately show ?thesis using controller_ok_set [OF assms] by metis
qed (use assms in \<open>simp add: resume_def\<close>)

lemma controller_ok_load:
  "controller_ok c \<Longrightarrow> state_ok (rc_max_daily_loss c) (rc_max_api_errors c) s \<Longrightarrow>
     controller_ok (c\<lparr>rc_state := s\<rparr>)"
  by (simp add: controller_ok_def)

lemma controller_ok_refresh:
  assumes "controller_ok c"
  shows "controller_ok (oc_controller (refresh_from_store (store_read c failure) c))"
proof -
  have "state_ok (rc_max_daily_loss c) (rc_max_api_errors c) s" if "rc_store c = Some (Some s)" for s
    using assms that by (simp add: controller_ok_def)
  moreover have "state_ok (rc_max_daily_loss c) (rc_max_api_errors c) ((rc_state c)\<lparr>rk_paused := True, rk_reason := r\<rparr>)" for r
    using assms by (simp add: controller_ok_def state_ok_def)
  ultimately show ?thesis
    using assms controller_ok_load [OF assms] state_ok_sanitize
    by (auto simp: refresh_from_store_def store_read_def Let_def split: option.splits)
qed

lemma controller_ok_step: "controller_ok c \<Longrightarrow> controller_ok (oc_controller (risk_step c e))"
  by (cases e) (simp_all add: controller_ok_realized controller_ok_api_error controller_ok_pause
      controller_ok_reset controller_ok_resume controller_ok_refresh)

subsection \<open>The pause\<close>







lemma roll_paused [simp]: "rk_paused s \<Longrightarrow> roll_loss_day_forward today s = s"
  by (simp add: roll_loss_day_forward_def)








subsection \<open>The loss of a day\<close>

definition loss_of :: "dec \<Rightarrow> dec \<Rightarrow> dec" where
  "loss_of profit fees = max 0 (- net_result profit fees)"

definition day_losses :: "(dec \<times> dec \<times> bool) list \<Rightarrow> dec" where
  "day_losses rs = sum_list (map (\<lambda>(p, f, _). loss_of p f) rs)"

lemma day_losses_simps [simp]:
  "day_losses [] = 0" "day_losses ((p, f, ok) # rs) = loss_of p f + day_losses rs"
  by (simp_all add: day_losses_def)

lemma day_losses_nonneg: "0 \<le> day_losses rs"
  by (induction rs) (auto simp: day_losses_def loss_of_def)

lemma realized_same_day:
  assumes "today = rk_loss_day (rc_state c)"
    and "on_grid (rk_daily_loss (rc_state c))" "on_grid (loss_of p f)"
    and "0 \<le> rk_daily_loss (rc_state c)" "rk_daily_loss (rc_state c) + loss_of p f \<le> 10 ^ 10"
  shows "rk_daily_loss (rc_state (oc_controller (record_realized_result today p f saved c))) =
      rk_daily_loss (rc_state c) + loss_of p f \<and>
    rk_loss_day (rc_state (oc_controller (record_realized_result today p f saved c))) = today"
proof (cases "0 \<le> net_result p f")
  case False
  then have l: "loss_of p f = - net_result p f" by (simp add: loss_of_def)
  have "dadd (rk_daily_loss (rc_state c)) (loss_of p f) = rk_daily_loss (rc_state c) + loss_of p f"
    unfolding dadd_def using assms by (intro dec_round_grid on_grid_add) (auto simp: loss_of_def)
  with False assms(1) l show ?thesis
    by (auto simp: realized_controller Let_def roll_loss_day_forward_def set_paused_if_limit_reached_def)
qed (use assms in \<open>simp add: realized_controller loss_of_def\<close>)

lemma realized_day_run:
  "rk_loss_day (rc_state c) = today \<Longrightarrow> on_grid (rk_daily_loss (rc_state c)) \<Longrightarrow>
     0 \<le> rk_daily_loss (rc_state c) \<Longrightarrow> \<forall>(p, f, _) \<in> set rs. on_grid (loss_of p f) \<Longrightarrow>
     rk_daily_loss (rc_state c) + day_losses rs \<le> 10 ^ 10 \<Longrightarrow>
     rk_daily_loss (rc_state (risk_run c (map (\<lambda>(p, f, ok). Realized today p f ok) rs))) =
       rk_daily_loss (rc_state c) + day_losses rs"
proof (induction rs arbitrary: c)
  case Nil
  then show ?case by simp
next
  case (Cons r rs)
  obtain p f ok where r: "r = (p, f, ok)" by (cases r)
  let ?c = "oc_controller (record_realized_result today p f ok c)"
  have nn: "0 \<le> loss_of p f" "0 \<le> day_losses rs" by (auto simp: loss_of_def day_losses_nonneg)
  have g: "on_grid (loss_of p f)" using Cons.prems(4) by (simp add: r)
  have small: "rk_daily_loss (rc_state c) + loss_of p f \<le> 10 ^ 10" using Cons.prems(5) nn by (simp add: r)
  have step: "rk_daily_loss (rc_state ?c) = rk_daily_loss (rc_state c) + loss_of p f"
    "rk_loss_day (rc_state ?c) = today"
    using realized_same_day [OF Cons.prems(1) [symmetric] Cons.prems(2) g Cons.prems(3) small] by auto
  have "on_grid (rk_daily_loss (rc_state ?c))"
    unfolding step(1) using Cons.prems(2,3) g nn small by (intro on_grid_add) auto
  with Cons.prems nn step have "rk_daily_loss (rc_state (risk_run ?c (map (\<lambda>(p, f, ok). Realized today p f ok) rs))) =
      rk_daily_loss (rc_state ?c) + day_losses rs"
    by (intro Cons.IH) (auto simp: r)
  then show ?case by (simp add: r step(1))
qed

section \<open>Properties\<close>

definition sample_controller :: controller where
  "sample_controller = \<lparr>rc_max_daily_loss = 50, rc_max_api_errors = 3, rc_state = initial_state 20000,
     rc_file = None, rc_store = Some (Some (initial_state 20000))\<rparr>"

lemma sample_controller_ok: "controller_ok sample_controller"
  by (simp add: controller_ok_def sample_controller_def state_ok_def initial_state_def)

text \<open>C5. The limits hold in every reachable state of the risk controller: if the daily realized
  loss reaches its limit or the consecutive API errors reach theirs, execution is paused, whatever
  saves to the durable store fail. In particular no resume on the same day lifts the daily-loss
  limit, and the recorded loss is never negative.\<close>

theorem risk_limits_enforced:
  assumes "controller_ok c" and "c' \<in> risk_reachable c"
  shows "(rc_max_daily_loss c' \<le> rk_daily_loss (rc_state c') \<longrightarrow> rk_paused (rc_state c')) \<and>
    (rc_max_api_errors c' \<le> rk_api_errors (rc_state c') \<longrightarrow> rk_paused (rc_state c')) \<and>
    0 \<le> rk_daily_loss (rc_state c')"
proof -
  from assms(2) have "controller_ok c'"
    by induction (auto simp: assms(1) controller_ok_step)
  then show ?thesis by (simp add: controller_ok_def state_ok_def)
qed

theorem risk_limits_enforced_witness:
  "rk_paused (rc_state (oc_controller (risk_step sample_controller (Realized 20000 (-60) 1 True))))"
proof -
  let ?c = "oc_controller (risk_step sample_controller (Realized 20000 (-60) 1 True))"
  have "?c \<in> risk_reachable sample_controller" by (intro risk_reachable.intros)
  moreover have "rc_max_daily_loss ?c \<le> rk_daily_loss (rc_state ?c)"
    by (simp add: sample_controller_def initial_state_def realized_controller net_result_def Let_def
        dsub_def dadd_def dec_round_eval finish_def persist_external_def roll_loss_day_forward_def
        set_paused_if_limit_reached_def set_state_def persist_def)
  ultimately show ?thesis using risk_limits_enforced [OF sample_controller_ok] by blast
qed



text \<open>
  A save that is still in flight breaks it too: the saves run outside the lock, so the snapshot of an
  earlier operation can land after the pause and overwrite it, and the next monitor read lifts the pause.
\<close>

lemma late_save_lifts_pause:
  "\<not> rk_paused (rc_state (rn_controller (interleaved_run \<lparr>rn_controller = sample_controller, rn_saves = [], rn_reads = []\<rparr>
     [Begun (Api_Error True), Begun (Pause_Request ''drill'' True), Save_Landed 1, Save_Landed 0, Read_Issued None, Read_Applied 0])))"
  by code_simp

text \<open>No loss is forgotten within a day: the realized results of one UTC day add up exactly to
  the daily loss (a profit never offsets a loss), and the controller is paused as soon as the sum
  reaches the limit.\<close>

theorem day_losses_add_up:
  assumes "controller_ok c" and "rk_loss_day (rc_state c) = today" and "on_grid (rk_daily_loss (rc_state c))"
    and "\<forall>(p, f, _) \<in> set rs. on_grid (loss_of p f)"
    and "rk_daily_loss (rc_state c) + day_losses rs \<le> 10 ^ 10"
  shows "let c' = risk_run c (map (\<lambda>(p, f, ok). Realized today p f ok) rs) in
    rk_daily_loss (rc_state c') = rk_daily_loss (rc_state c) + day_losses rs \<and>
    (rc_max_daily_loss c' \<le> rk_daily_loss (rc_state c) + day_losses rs \<longrightarrow> rk_paused (rc_state c'))"
proof -
  let ?c = "risk_run c (map (\<lambda>(p, f, ok). Realized today p f ok) rs)"
  have "controller_ok ?c"
    by (rule risk_run_induct) (auto simp: assms(1) controller_ok_step)
  moreover have "rk_daily_loss (rc_state ?c) = rk_daily_loss (rc_state c) + day_losses rs"
    using assms by (intro realized_day_run) (auto simp: controller_ok_def state_ok_def)
  ultimately show ?thesis by (simp add: controller_ok_def state_ok_def)
qed

lemma sample_losses:
  "loss_of (-20) 1 = 21" "loss_of 30 0 = 0" "loss_of (-30) 0 = 30"
  by (simp_all add: loss_of_def net_result_def dsub_def dec_round_eval)

theorem day_losses_add_up_witness:
  "let c' = risk_run sample_controller
     [Realized 20000 (-20) 1 True, Realized 20000 30 0 False, Realized 20000 (-30) 0 True] in
   rk_daily_loss (rc_state c') = 51 \<and> (rc_max_daily_loss c' \<le> 51 \<longrightarrow> rk_paused (rc_state c'))"
proof -
  let ?rs = "[(-20, 1, True), (30, 0, False), (-30, 0, True)] :: (dec \<times> dec \<times> bool) list"
  have c: "rk_loss_day (rc_state sample_controller) = 20000" "rk_daily_loss (rc_state sample_controller) = 0"
    by (simp_all add: sample_controller_def initial_state_def)
  have rs: "\<forall>(p, f, _) \<in> set ?rs. on_grid (loss_of p f)" "day_losses ?rs = 51"
    by (simp_all add: sample_losses on_grid_numeral)
  have "let c' = risk_run sample_controller (map (\<lambda>(p, f, ok). Realized 20000 p f ok) ?rs) in
    rk_daily_loss (rc_state c') = rk_daily_loss (rc_state sample_controller) + day_losses ?rs \<and>
    (rc_max_daily_loss c' \<le> rk_daily_loss (rc_state sample_controller) + day_losses ?rs \<longrightarrow> rk_paused (rc_state c'))"
    by (rule day_losses_add_up [OF sample_controller_ok c(1) _ rs(1)]) (simp_all only: c rs(2), simp_all)
  then show ?thesis by (simp add: c sample_losses)
qed

text \<open>C7. What breaks C6 without its hypotheses: if the save to the durable store fails while a pause
  is recorded, the pause callbacks never run (the caller gets the exception), and the next tick of
  the monitor reads the old state back and lifts the pause. A monitor tick whose read was issued
  before a successful pause and is applied after it lifts the pause in the same way.\<close>

theorem pause_lost_by_stale_store:
  assumes "rc_store c = Some (Some old)" and "\<not> rk_paused old"
  shows "\<not> oc_callbacks_ran (pause reason False c) \<and>
    rk_paused (rc_state (oc_controller (pause reason False c))) \<and>
    \<not> rk_paused (rc_state (risk_run c [Pause_Request reason False, Refresh None])) \<and>
    \<not> rk_paused (rc_state (oc_controller (refresh_from_store (store_read c None)
        (oc_controller (pause reason True c)))))"
proof -
  have "oc_controller (pause reason False c) =
      persist (set_state ((rc_state c)\<lparr>rk_paused := True, rk_reason := Some (Reason reason)\<rparr>) c)"
    "\<not> oc_callbacks_ran (pause reason False c)"
    using assms(1) by (simp_all add: pause_def Let_def finish_def persist_external_def)
  moreover have "rc_store (oc_controller (pause reason True c)) \<noteq> None"
    using assms(1) by (simp add: pause_def Let_def finish_def persist_external_def)
  ultimately show ?thesis
    using assms by (auto simp: refresh_from_store_def store_read_def sanitize_def Let_def)
qed

theorem pause_lost_by_stale_store_witness:
  "\<not> rk_paused (rc_state (risk_run sample_controller [Pause_Request ''drill'' False, Refresh None]))"
  using pause_lost_by_stale_store [of sample_controller "initial_state 20000" "''drill''"]
  by (simp add: sample_controller_def initial_state_def del: risk_run_simps)

end
