(* ===== verification/Ledger.thy ===== *)
theory Ledger
  imports Position_Model "HOL-Library.List_Lexorder" "HOL-Library.Char_ord"
begin

text \<open>
  The position ledger of \<^verbatim>\<open>positions.py\<close>: the in-memory dictionary keyed by the position key, the
  market-data subscriptions derived from it, and the JSON payload that both the file ledger and
  the database store. The lemmas show that decoding an encoded position gives the position back
  (but for the four fields that the payload does not carry), and that a restart of the file
  ledger finds the positions that were last saved.
\<close>

section \<open>The ledger\<close>

type_synonym position_ledger = "(string, open_position) dict"

definition ledger_add :: "open_position \<Rightarrow> position_ledger \<Rightarrow> position_ledger" where
  "ledger_add p l = dict_set (position_key (p_market p)) p l"

definition ledger_remove :: "string \<Rightarrow> position_ledger \<Rightarrow> position_ledger" where
  "ledger_remove key l = dict_pop key l"

definition ledger_has :: "string \<Rightarrow> position_ledger \<Rightarrow> bool" where
  "ledger_has key l \<longleftrightarrow> dict_get l key \<noteq> None"

definition ledger_all :: "position_ledger \<Rightarrow> open_position list" where
  "ledger_all l = dict_values l"

text \<open>\<^verbatim>\<open>targets.setdefault(venue, set()).add(token)\<close> for a non-empty token.\<close>

definition add_target :: "string \<Rightarrow> string \<Rightarrow> (string, string set) dict \<Rightarrow> (string, string set) dict" where
  "add_target venue token ts =
     (if token = [] then ts
      else dict_set venue (insert token (case dict_get ts venue of Some s \<Rightarrow> s | None \<Rightarrow> {})) ts)"

fun targets_of :: "open_position list \<Rightarrow> (string, string set) dict \<Rightarrow> (string, string set) dict res" where
  "targets_of [] ts = Inr ts"
| "targets_of (p # ps) ts =
     (let market = p_market p in
      rbind (execution_route_for_market market) (\<lambda>route.
      rbind (first_leg_token_for_route market route) (\<lambda>first_token.
      rbind (second_leg_token_for_route market route) (\<lambda>second_token.
        targets_of ps (add_target (m_venue_b_label market) second_token
          (add_target (m_venue_a_label market) first_token ts))))))"

definition market_data_targets :: "position_ledger \<Rightarrow> (string, string set) dict res" where
  "market_data_targets l = targets_of (ledger_all l) []"

section \<open>The JSON payload\<close>

text \<open>
  JSON values, with the two kinds of text that carry a value of another type kept as that value:
  \<open>JDec x\<close> is the text \<^verbatim>\<open>str(x)\<close> of a Decimal, which \<^verbatim>\<open>Decimal(...)\<close> reads back exactly, and
  \<open>JTime t\<close> the text \<^verbatim>\<open>t.isoformat()\<close>, which \<^verbatim>\<open>datetime.fromisoformat\<close> reads back.
\<close>

datatype json =
    JNull
  | JBool bool
  | JInt int
  | JFloat flt
  | JStr string
  | JDec dec
  | JTime datetime
  | JList "json list"
  | JObj "(string \<times> json) list"

text \<open>\<^verbatim>\<open>item["k"]\<close>, \<^verbatim>\<open>item.get("k")\<close> and \<^verbatim>\<open>item.get("k", default)\<close>.\<close>

definition jreq :: "string \<Rightarrow> json \<Rightarrow> json res" where
  "jreq k j = (case j of
     JObj kvs \<Rightarrow> (case map_of kvs k of Some v \<Rightarrow> Inr v | None \<Rightarrow> Inl (KeyError k))
   | _ \<Rightarrow> Inl (TypeError ''not a dictionary''))"

definition jget :: "string \<Rightarrow> json \<Rightarrow> json res" where
  "jget k j = (case j of
     JObj kvs \<Rightarrow> Inr (case map_of kvs k of Some v \<Rightarrow> v | None \<Rightarrow> JNull)
   | _ \<Rightarrow> Inl (AttributeError ''get''))"

definition jgetd :: "string \<Rightarrow> json \<Rightarrow> json \<Rightarrow> json res" where
  "jgetd k d j = (case j of
     JObj kvs \<Rightarrow> Inr (case map_of kvs k of Some v \<Rightarrow> v | None \<Rightarrow> d)
   | _ \<Rightarrow> Inl (AttributeError ''get''))"

text \<open>
  Python's truth value and \<^verbatim>\<open>str(...)\<close> of a JSON value; the text of numbers and containers is
  not modelled, no writer of these payloads puts them where a text is read.
\<close>

definition j_truthy :: "json \<Rightarrow> bool" where
  "j_truthy j = (case j of JNull \<Rightarrow> False | JBool b \<Rightarrow> b | JInt n \<Rightarrow> n \<noteq> 0 | JFloat x \<Rightarrow> x \<noteq> 0
     | JStr s \<Rightarrow> s \<noteq> [] | JDec _ \<Rightarrow> True | JTime _ \<Rightarrow> True | JList xs \<Rightarrow> xs \<noteq> [] | JObj kvs \<Rightarrow> kvs \<noteq> [])"

definition j_text :: "json \<Rightarrow> string res" where
  "j_text j = (case j of JStr s \<Rightarrow> Inr s | JNull \<Rightarrow> Inr ''None''
     | JBool b \<Rightarrow> Inr (if b then ''True'' else ''False'') | _ \<Rightarrow> Inl (TypeError ''text not modelled''))"

definition j_str :: "json \<Rightarrow> string res" where
  "j_str j = (case j of JStr s \<Rightarrow> Inr s | _ \<Rightarrow> Inl (TypeError ''expected a string''))"

definition j_str_opt :: "json \<Rightarrow> string option res" where
  "j_str_opt j = (case j of JNull \<Rightarrow> Inr None | JStr s \<Rightarrow> Inr (Some s) | _ \<Rightarrow> Inl (TypeError ''expected a string''))"

definition j_bool_opt :: "json \<Rightarrow> bool option res" where
  "j_bool_opt j = (case j of JNull \<Rightarrow> Inr None | JBool b \<Rightarrow> Inr (Some b) | _ \<Rightarrow> Inl (TypeError ''expected a bool''))"

definition j_int_opt :: "json \<Rightarrow> int option res" where
  "j_int_opt j = (case j of JNull \<Rightarrow> Inr None | JInt n \<Rightarrow> Inr (Some n) | _ \<Rightarrow> Inl (ValueError ''expected an int''))"

definition j_time_opt :: "json \<Rightarrow> datetime option res" where
  "j_time_opt j = (case j of JNull \<Rightarrow> Inr None | JTime t \<Rightarrow> Inr (Some t) | JStr [] \<Rightarrow> Inr None
     | _ \<Rightarrow> Inl (ValueError ''Invalid isoformat string''))"

definition j_time :: "json \<Rightarrow> datetime res" where
  "j_time j = (case j of JTime t \<Rightarrow> Inr t | _ \<Rightarrow> Inl (ValueError ''Invalid isoformat string''))"

text \<open>\<^verbatim>\<open>Decimal(str(value))\<close>, also for an optional value.\<close>

definition j_dec :: "json \<Rightarrow> dec res" where
  "j_dec j = (case j of JDec x \<Rightarrow> Inr x | JInt n \<Rightarrow> Inr (of_int n) | JFloat x \<Rightarrow> Inr (flt_repr x)
     | _ \<Rightarrow> Inl (InvalidOperation ''invalid decimal''))"

definition j_dec_opt :: "json \<Rightarrow> dec option res" where
  "j_dec_opt j = (case j of JNull \<Rightarrow> Inr None | _ \<Rightarrow> rbind (j_dec j) (\<lambda>x. Inr (Some x)))"

definition j_side :: "json \<Rightarrow> binary_side res" where
  "j_side j = (if j = JStr ''YES'' then Inr YES else if j = JStr ''NO'' then Inr NO
     else Inl (ValueError ''not a valid BinarySide''))"

definition mapping_status_value :: "mapping_status \<Rightarrow> string" where
  "mapping_status_value s = (case s of CANDIDATE \<Rightarrow> ''CANDIDATE'' | VERIFIED \<Rightarrow> ''VERIFIED''
     | REJECTED \<Rightarrow> ''REJECTED'' | MS_STALE \<Rightarrow> ''STALE'')"

definition j_mapping_status :: "json \<Rightarrow> mapping_status res" where
  "j_mapping_status j =
     (if j = JNull \<or> j = JStr [] \<or> j = JStr ''CANDIDATE'' then Inr CANDIDATE
      else if j = JStr ''VERIFIED'' then Inr VERIFIED else if j = JStr ''REJECTED'' then Inr REJECTED
      else if j = JStr ''STALE'' then Inr MS_STALE else Inl (ValueError ''not a valid MappingStatus''))"

definition json_opt :: "('a \<Rightarrow> json) \<Rightarrow> 'a option \<Rightarrow> json" where
  "json_opt f v = (case v of None \<Rightarrow> JNull | Some x \<Rightarrow> f x)"

definition amm_to_json :: "amm_pool option \<Rightarrow> json" where
  "amm_to_json p = json_opt (\<lambda>p. JObj [(''yes_reserve'', JFloat (yes_reserve p)),
     (''no_reserve'', JFloat (no_reserve p)), (''fee_pct'', JFloat (fee_pct p))]) p"

definition j_float :: "json \<Rightarrow> flt res" where
  "j_float j = (case j of JFloat x \<Rightarrow> Inr x | JInt n \<Rightarrow> Inr (flt_round (of_int n))
     | _ \<Rightarrow> Inl (ValueError ''could not convert to float''))"

definition amm_from_json :: "json \<Rightarrow> amm_pool option res" where
  "amm_from_json j = (case j of
     JObj kvs \<Rightarrow>
       rbind (rbind (jreq ''yes_reserve'' j) j_float) (\<lambda>y.
       rbind (rbind (jreq ''no_reserve'' j) j_float) (\<lambda>n.
       rbind (rbind (jgetd ''fee_pct'' (JFloat 0) j) j_float) (\<lambda>f.
         Inr (Some \<lparr>yes_reserve = y, no_reserve = n, fee_pct = f\<rparr>))))
   | _ \<Rightarrow> Inr None)"

definition snapshot_to_json :: "residual_exit_snapshot \<Rightarrow> json" where
  "snapshot_to_json s = JObj
     [(''venue_order_id'', JStr (rs_venue_order_id s)),
      (''requested_contracts'', JDec (rs_requested_contracts s)),
      (''closed_contracts'', JDec (rs_closed_contracts s)),
      (''exit_proceeds_usd'', JDec (rs_exit_proceeds_usd s)),
      (''residual_contracts'', JDec (rs_residual_contracts s))]"

definition snapshot_from_json :: "json \<Rightarrow> residual_exit_snapshot res" where
  "snapshot_from_json j =
     rbind (rbind (jreq ''venue_order_id'' j) j_text) (\<lambda>oid.
     rbind (rbind (jreq ''requested_contracts'' j) j_dec) (\<lambda>requested.
     rbind (rbind (jreq ''closed_contracts'' j) j_dec) (\<lambda>closed.
     rbind (rbind (jreq ''exit_proceeds_usd'' j) j_dec) (\<lambda>proceeds.
     rbind (rbind (jreq ''residual_contracts'' j) j_dec) (\<lambda>residual.
       mk_snapshot \<lparr>rs_venue_order_id = oid, rs_requested_contracts = requested,
         rs_closed_contracts = closed, rs_exit_proceeds_usd = proceeds,
         rs_residual_contracts = residual\<rparr>)))))"

text \<open>
  The decoding errors that the code catches become the one \<^verbatim>\<open>ValueError\<close> that names the field; a
  \<^verbatim>\<open>decimal.InvalidOperation\<close> is an \<^verbatim>\<open>ArithmeticError\<close> and passes.
\<close>

definition decoding_error :: "py_error \<Rightarrow> bool" where
  "decoding_error e = (case e of KeyError _ \<Rightarrow> True | TypeError _ \<Rightarrow> True | ValueError _ \<Rightarrow> True | _ \<Rightarrow> False)"

definition invalid_field :: "string \<Rightarrow> 'a res" where
  "invalid_field field = Inl (ValueError (''position payload has invalid '' @ field))"

definition is_obj :: "json \<Rightarrow> bool" where
  "is_obj j = (case j of JObj _ \<Rightarrow> True | _ \<Rightarrow> False)"

definition residual_exit_snapshots_from_json :: "string \<Rightarrow> json \<Rightarrow> residual_exit_snapshot list res" where
  "residual_exit_snapshots_from_json field j = (case j of
     JNull \<Rightarrow> Inr []
   | JList items \<Rightarrow>
       if list_all is_obj items
       then (case rmap snapshot_from_json items of Inr ss \<Rightarrow> Inr ss
         | Inl e \<Rightarrow> if decoding_error e then invalid_field field else Inl e)
       else invalid_field field
   | _ \<Rightarrow> invalid_field field)"

definition string_tuple :: "string \<Rightarrow> json \<Rightarrow> string list res" where
  "string_tuple field j = (case j of
     JNull \<Rightarrow> Inr []
   | JList items \<Rightarrow>
       if list_all (\<lambda>v. case v of JStr s \<Rightarrow> s \<noteq> [] | _ \<Rightarrow> False) items
       then rmap j_str items else invalid_field field
   | _ \<Rightarrow> invalid_field field)"

text \<open>Values with a fallback: \<^verbatim>\<open>str(d.get(k) or "x")\<close>.\<close>

definition j_str_or :: "string \<Rightarrow> json \<Rightarrow> string res" where
  "j_str_or d j = (if j_truthy j then j_text j else Inr d)"

definition j_side_or_no :: "json \<Rightarrow> binary_side res" where
  "j_side_or_no j = (if j_truthy j then j_side j else Inr NO)"

definition j_nat :: "json \<Rightarrow> nat res" where
  "j_nat j = (case j of JInt n \<Rightarrow> Inr (nat n) | _ \<Rightarrow> Inl (ValueError ''invalid literal for int''))"

definition j_str_set :: "json \<Rightarrow> string set res" where
  "j_str_set j = (case j of JList items \<Rightarrow> rbind (rmap j_text items) (\<lambda>ss. Inr (set ss))
     | _ \<Rightarrow> Inl (TypeError ''not iterable''))"

definition market_to_json :: "market_spec \<Rightarrow> json" where
  "market_to_json m = JObj
     [(''symbol'', JStr (m_symbol m)),
      (''target_label'', JStr (m_target_label m)),
      (''polymarket_token_id'', JStr (m_polymarket_token_id m)),
      (''polymarket_side'', JStr (side_value (m_polymarket_side m))),
      (''predict_fun_token_id'', JStr (m_predict_fun_token_id m)),
      (''predict_fun_side'', JStr (side_value (m_predict_fun_side m))),
      (''venue_a_label'', JStr (m_venue_a_label m)),
      (''venue_b_label'', JStr (m_venue_b_label m)),
      (''expires_at'', json_opt JTime (m_expires_at m)),
      (''condition_id'', json_opt JStr (m_condition_id m)),
      (''polymarket_market_id'', json_opt JStr (m_polymarket_market_id m)),
      (''polymarket_url'', json_opt JStr (m_polymarket_url m)),
      (''tick_size'', json_opt JStr (m_tick_size m)),
      (''neg_risk'', json_opt JBool (m_neg_risk m)),
      (''predict_fun_neg_risk'', json_opt JBool (m_predict_fun_neg_risk m)),
      (''predict_fun_fee_rate_bps'', json_opt JInt (m_predict_fun_fee_rate_bps m)),
      (''predict_fun_price_precision'', json_opt JInt (m_predict_fun_price_precision m)),
      (''predict_fun_market_id'', json_opt JStr (m_predict_fun_market_id m)),
      (''predict_fun_url'', json_opt JStr (m_predict_fun_url m)),
      (''predict_fun_amm_pool'', amm_to_json (m_predict_fun_amm_pool m)),
      (''myriad_market_id'', json_opt JStr (m_myriad_market_id m)),
      (''myriad_condition_id'', json_opt JStr (m_myriad_condition_id m)),
      (''myriad_collateral_token'', json_opt JStr (m_myriad_collateral_token m)),
      (''myriad_url'', json_opt JStr (m_myriad_url m)),
      (''myriad_side'', JStr (side_value (m_myriad_side m))),
      (''rules_fingerprint'', json_opt JStr (m_rules_fingerprint m)),
      (''category'', json_opt JStr (m_category m)),
      (''mapping_status'', JStr (mapping_status_value (m_mapping_status m))),
      (''resolution_source'', json_opt JStr (m_resolution_source m)),
      (''outcome_semantics'', json_opt JStr (m_outcome_semantics m)),
      (''cutoff_at'', json_opt JTime (m_cutoff_at m)),
      (''timezone_name'', JStr (m_timezone_name m)),
      (''verified_routes'', JList (map JStr (sorted_list_of_set (m_verified_routes m))))]"

definition market_from_json :: "json \<Rightarrow> market_spec res" where
  "market_from_json j =
     rbind (rbind (jreq ''symbol'' j) j_str) (\<lambda>x_symbol.
     rbind (rbind (jreq ''target_label'' j) j_str) (\<lambda>x_target_label.
     rbind (rbind (jreq ''polymarket_token_id'' j) j_str) (\<lambda>x_polymarket_token_id.
     rbind (rbind (jreq ''polymarket_side'' j) j_side) (\<lambda>x_polymarket_side.
     rbind (rbind (jreq ''predict_fun_token_id'' j) j_str) (\<lambda>x_predict_fun_token_id.
     rbind (rbind (jreq ''predict_fun_side'' j) j_side) (\<lambda>x_predict_fun_side.
     rbind (rbind (jgetd ''venue_a_label'' (JStr ''Polymarket'') j) j_text) (\<lambda>x_venue_a_label.
     rbind (rbind (jgetd ''venue_b_label'' (JStr ''Predict.fun'') j) j_text) (\<lambda>x_venue_b_label.
     rbind (rbind (jget ''expires_at'' j) j_time_opt) (\<lambda>x_expires_at.
     rbind (rbind (jget ''condition_id'' j) j_str_opt) (\<lambda>x_condition_id.
     rbind (rbind (jget ''polymarket_market_id'' j) j_str_opt) (\<lambda>x_polymarket_market_id.
     rbind (rbind (jget ''polymarket_url'' j) j_str_opt) (\<lambda>x_polymarket_url.
     rbind (rbind (jget ''tick_size'' j) j_str_opt) (\<lambda>x_tick_size.
     rbind (rbind (jget ''neg_risk'' j) j_bool_opt) (\<lambda>x_neg_risk.
     rbind (rbind (jget ''predict_fun_neg_risk'' j) j_bool_opt) (\<lambda>x_predict_fun_neg_risk.
     rbind (rbind (jget ''predict_fun_fee_rate_bps'' j) j_int_opt) (\<lambda>x_predict_fun_fee_rate_bps.
     rbind (rbind (jget ''predict_fun_price_precision'' j) j_int_opt) (\<lambda>x_predict_fun_price_precision.
     rbind (rbind (jget ''predict_fun_market_id'' j) j_str_opt) (\<lambda>x_predict_fun_market_id.
     rbind (rbind (jget ''predict_fun_url'' j) j_str_opt) (\<lambda>x_predict_fun_url.
     rbind (rbind (jget ''predict_fun_amm_pool'' j) amm_from_json) (\<lambda>x_predict_fun_amm_pool.
     rbind (rbind (jget ''myriad_market_id'' j) j_str_opt) (\<lambda>x_myriad_market_id.
     rbind (rbind (jget ''myriad_condition_id'' j) j_str_opt) (\<lambda>x_myriad_condition_id.
     rbind (rbind (jget ''myriad_collateral_token'' j) j_str_opt) (\<lambda>x_myriad_collateral_token.
     rbind (rbind (jget ''myriad_url'' j) j_str_opt) (\<lambda>x_myriad_url.
     rbind (rbind (jget ''myriad_side'' j) j_side_or_no) (\<lambda>x_myriad_side.
     rbind (rbind (jget ''rules_fingerprint'' j) j_str_opt) (\<lambda>x_rules_fingerprint.
     rbind (rbind (jget ''category'' j) j_str_opt) (\<lambda>x_category.
     rbind (rbind (jget ''mapping_status'' j) j_mapping_status) (\<lambda>x_mapping_status.
     rbind (rbind (jget ''resolution_source'' j) j_str_opt) (\<lambda>x_resolution_source.
     rbind (rbind (jget ''outcome_semantics'' j) j_str_opt) (\<lambda>x_outcome_semantics.
     rbind (rbind (jget ''cutoff_at'' j) j_time_opt) (\<lambda>x_cutoff_at.
     rbind (rbind (jget ''timezone_name'' j) (j_str_or ''UTC'')) (\<lambda>x_timezone_name.
     rbind (rbind (jgetd ''verified_routes'' (JList []) j) j_str_set) (\<lambda>x_verified_routes.
     Inr ((market_spec_default x_symbol x_target_label x_polymarket_token_id x_polymarket_side
       x_predict_fun_token_id x_predict_fun_side)\<lparr>m_venue_a_label := x_venue_a_label, m_venue_b_label := x_venue_b_label, m_expires_at := x_expires_at,
       m_condition_id := x_condition_id, m_polymarket_market_id := x_polymarket_market_id, m_polymarket_url := x_polymarket_url,
       m_tick_size := x_tick_size, m_neg_risk := x_neg_risk, m_predict_fun_neg_risk := x_predict_fun_neg_risk,
       m_predict_fun_fee_rate_bps := x_predict_fun_fee_rate_bps, m_predict_fun_price_precision := x_predict_fun_price_precision, m_predict_fun_market_id := x_predict_fun_market_id,
       m_predict_fun_url := x_predict_fun_url, m_predict_fun_amm_pool := x_predict_fun_amm_pool, m_myriad_market_id := x_myriad_market_id,
       m_myriad_condition_id := x_myriad_condition_id, m_myriad_collateral_token := x_myriad_collateral_token, m_myriad_url := x_myriad_url,
       m_myriad_side := x_myriad_side, m_rules_fingerprint := x_rules_fingerprint, m_category := x_category,
       m_mapping_status := x_mapping_status, m_resolution_source := x_resolution_source, m_outcome_semantics := x_outcome_semantics,
       m_cutoff_at := x_cutoff_at, m_timezone_name := x_timezone_name, m_verified_routes := x_verified_routes\<rparr>))))))))))))))))))))))))))))))))))"

definition position_to_json :: "open_position \<Rightarrow> json" where
  "position_to_json p = JObj
     [(''market'', market_to_json (p_market p)),
      (''polymarket_contracts'', JDec (p_polymarket_contracts p)),
      (''polymarket_entry_price'', JDec (p_polymarket_entry_price p)),
      (''predict_fun_contracts'', JDec (p_predict_fun_contracts p)),
      (''predict_fun_entry_price'', JDec (p_predict_fun_entry_price p)),
      (''opened_at'', JTime (p_opened_at p)),
      (''polymarket_order_id'', JStr (p_polymarket_order_id p)),
      (''predict_fun_order_id'', JStr (p_predict_fun_order_id p)),
      (''status'', JStr (p_status p)),
      (''polymarket_unwind_attempts'', JInt (int (p_unwind_attempts p))),
      (''polymarket_closed'', JBool (p_polymarket_closed p)),
      (''predict_fun_closed'', JBool (p_predict_fun_closed p)),
      (''polymarket_exit_price'', json_opt JDec (p_polymarket_exit_price p)),
      (''predict_fun_exit_price'', json_opt JDec (p_predict_fun_exit_price p)),
      (''unmatched_first_contracts'', JDec (p_unmatched_first_contracts p)),
      (''unmatched_second_contracts'', JDec (p_unmatched_second_contracts p)),
      (''polymarket_closed_contracts'', JDec (p_polymarket_closed_contracts p)),
      (''predict_fun_closed_contracts'', JDec (p_predict_fun_closed_contracts p)),
      (''polymarket_exit_proceeds_usd'', JDec (p_polymarket_exit_proceeds_usd p)),
      (''predict_fun_exit_proceeds_usd'', JDec (p_predict_fun_exit_proceeds_usd p)),
      (''polymarket_residual_exposure_contracts'', JDec (p_polymarket_residual_contracts p)),
      (''predict_fun_residual_exposure_contracts'', JDec (p_predict_fun_residual_contracts p)),
      (''polymarket_residual_exit_order_ids'', JList (map JStr (p_polymarket_residual_order_ids p))),
      (''predict_fun_residual_exit_order_ids'', JList (map JStr (p_predict_fun_residual_order_ids p))),
      (''polymarket_residual_exit_snapshots'', JList (map snapshot_to_json (p_polymarket_residual_snapshots p))),
      (''predict_fun_residual_exit_snapshots'', JList (map snapshot_to_json (p_predict_fun_residual_snapshots p)))]"

definition position_from_json :: "json \<Rightarrow> open_position res" where
  "position_from_json j =
     rbind (rbind (jreq ''market'' j) market_from_json) (\<lambda>x_market.
     rbind (rbind (jreq ''polymarket_contracts'' j) j_dec) (\<lambda>x_polymarket_contracts.
     rbind (rbind (jreq ''polymarket_entry_price'' j) j_dec) (\<lambda>x_polymarket_entry_price.
     rbind (rbind (jreq ''predict_fun_contracts'' j) j_dec) (\<lambda>x_predict_fun_contracts.
     rbind (rbind (jreq ''predict_fun_entry_price'' j) j_dec) (\<lambda>x_predict_fun_entry_price.
     rbind (rbind (jreq ''opened_at'' j) j_time) (\<lambda>x_opened_at.
     rbind (rbind (jreq ''polymarket_order_id'' j) j_str) (\<lambda>x_polymarket_order_id.
     rbind (rbind (jreq ''predict_fun_order_id'' j) j_str) (\<lambda>x_predict_fun_order_id.
     rbind (rbind (jgetd ''status'' (JStr ''open'') j) j_text) (\<lambda>x_status.
     rbind (rbind (jgetd ''polymarket_unwind_attempts'' (JInt 0) j) j_nat) (\<lambda>x_unwind_attempts.
     rbind (rbind (jgetd ''polymarket_closed'' (JBool False) j) (\<lambda>v. Inr (j_truthy v))) (\<lambda>x_polymarket_closed.
     rbind (rbind (jgetd ''predict_fun_closed'' (JBool False) j) (\<lambda>v. Inr (j_truthy v))) (\<lambda>x_predict_fun_closed.
     rbind (rbind (jget ''polymarket_exit_price'' j) j_dec_opt) (\<lambda>x_polymarket_exit_price.
     rbind (rbind (jget ''predict_fun_exit_price'' j) j_dec_opt) (\<lambda>x_predict_fun_exit_price.
     rbind (rbind (jgetd ''unmatched_first_contracts'' (JInt 0) j) j_dec) (\<lambda>x_unmatched_first_contracts.
     rbind (rbind (jgetd ''unmatched_second_contracts'' (JInt 0) j) j_dec) (\<lambda>x_unmatched_second_contracts.
     rbind (rbind (jgetd ''polymarket_closed_contracts'' (JInt 0) j) j_dec) (\<lambda>x_polymarket_closed_contracts.
     rbind (rbind (jgetd ''predict_fun_closed_contracts'' (JInt 0) j) j_dec) (\<lambda>x_predict_fun_closed_contracts.
     rbind (rbind (jgetd ''polymarket_exit_proceeds_usd'' (JInt 0) j) j_dec) (\<lambda>x_polymarket_exit_proceeds_usd.
     rbind (rbind (jgetd ''predict_fun_exit_proceeds_usd'' (JInt 0) j) j_dec) (\<lambda>x_predict_fun_exit_proceeds_usd.
     rbind (rbind (jgetd ''polymarket_residual_exposure_contracts'' (JInt 0) j) j_dec) (\<lambda>x_polymarket_residual_contracts.
     rbind (rbind (jgetd ''predict_fun_residual_exposure_contracts'' (JInt 0) j) j_dec) (\<lambda>x_predict_fun_residual_contracts.
     rbind (rbind (jget ''polymarket_residual_exit_order_ids'' j) (string_tuple ''polymarket_residual_exit_order_ids'')) (\<lambda>x_polymarket_residual_order_ids.
     rbind (rbind (jget ''predict_fun_residual_exit_order_ids'' j) (string_tuple ''predict_fun_residual_exit_order_ids'')) (\<lambda>x_predict_fun_residual_order_ids.
     rbind (rbind (jget ''polymarket_residual_exit_snapshots'' j) (residual_exit_snapshots_from_json ''polymarket_residual_exit_snapshots'')) (\<lambda>x_polymarket_residual_snapshots.
     rbind (rbind (jget ''predict_fun_residual_exit_snapshots'' j) (residual_exit_snapshots_from_json ''predict_fun_residual_exit_snapshots'')) (\<lambda>x_predict_fun_residual_snapshots.
     position_post_init \<lparr>p_market = x_market, p_polymarket_contracts = x_polymarket_contracts,
       p_polymarket_entry_price = x_polymarket_entry_price, p_predict_fun_contracts = x_predict_fun_contracts,
       p_predict_fun_entry_price = x_predict_fun_entry_price, p_opened_at = x_opened_at,
       p_polymarket_order_id = x_polymarket_order_id, p_predict_fun_order_id = x_predict_fun_order_id,
       p_status = x_status, p_unwind_attempts = x_unwind_attempts,
       p_polymarket_closed = x_polymarket_closed, p_predict_fun_closed = x_predict_fun_closed,
       p_polymarket_exit_price = x_polymarket_exit_price, p_predict_fun_exit_price = x_predict_fun_exit_price,
       p_unmatched_first_contracts = x_unmatched_first_contracts, p_unmatched_second_contracts = x_unmatched_second_contracts,
       p_polymarket_closed_contracts = x_polymarket_closed_contracts, p_predict_fun_closed_contracts = x_predict_fun_closed_contracts,
       p_polymarket_exit_proceeds_usd = x_polymarket_exit_proceeds_usd, p_predict_fun_exit_proceeds_usd = x_predict_fun_exit_proceeds_usd,
       p_polymarket_residual_contracts = x_polymarket_residual_contracts, p_predict_fun_residual_contracts = x_predict_fun_residual_contracts,
       p_polymarket_residual_order_ids = x_polymarket_residual_order_ids, p_predict_fun_residual_order_ids = x_predict_fun_residual_order_ids,
       p_polymarket_residual_snapshots = x_polymarket_residual_snapshots, p_predict_fun_residual_snapshots = x_predict_fun_residual_snapshots\<rparr>))))))))))))))))))))))))))"


section \<open>The file ledger\<close>

text \<open>
  \<^verbatim>\<open>JsonPositionLedger\<close>: every change writes the whole payload to a temporary file that then
  replaces the old one, so the file is either the old payload or the new one; \<^verbatim>\<open>None\<close> is a file
  that does not exist.
\<close>

record json_ledger =
  jl_positions :: position_ledger
  jl_file :: "json list option"

definition save_sync :: "json_ledger \<Rightarrow> json_ledger" where
  "save_sync l = l\<lparr>jl_file := Some (map position_to_json (ledger_all (jl_positions l)))\<rparr>"

definition json_ledger_add :: "open_position \<Rightarrow> json_ledger \<Rightarrow> json_ledger" where
  "json_ledger_add p l = save_sync (l\<lparr>jl_positions := ledger_add p (jl_positions l)\<rparr>)"

definition json_ledger_remove :: "string \<Rightarrow> json_ledger \<Rightarrow> json_ledger" where
  "json_ledger_remove key l = save_sync (l\<lparr>jl_positions := ledger_remove key (jl_positions l)\<rparr>)"

fun load_items :: "json list \<Rightarrow> position_ledger \<Rightarrow> position_ledger res" where
  "load_items [] l = Inr l"
| "load_items (item # items) l = rbind (position_from_json item) (\<lambda>p. load_items items (ledger_add p l))"

definition json_ledger_load :: "json list option \<Rightarrow> position_ledger res" where
  "json_ledger_load file = (case file of None \<Rightarrow> Inr [] | Some raw \<Rightarrow> load_items raw [])"

section \<open>Lemmas\<close>

subsection \<open>One value\<close>

lemma j_side_value [simp]: "j_side (JStr (side_value s)) = Inr s"
  by (cases s) (simp_all add: j_side_def side_value_def)

lemma j_side_or_no_value [simp]: "j_side_or_no (JStr (side_value s)) = Inr s"
  by (cases s) (simp_all add: j_side_or_no_def j_truthy_def side_value_def j_side_def)

lemma j_mapping_status_value [simp]: "j_mapping_status (JStr (mapping_status_value s)) = Inr s"
  by (cases s) (simp_all add: j_mapping_status_def mapping_status_value_def)

lemma j_opt_values [simp]:
  "j_str_opt (json_opt JStr v) = Inr v" "j_bool_opt (json_opt JBool b) = Inr b"
  "j_int_opt (json_opt JInt n) = Inr n" "j_time_opt (json_opt JTime t) = Inr t"
  "j_dec_opt (json_opt JDec d) = Inr d"
  by (auto simp: j_str_opt_def j_bool_opt_def j_int_opt_def j_time_opt_def j_dec_opt_def j_dec_def json_opt_def
      split: option.splits)

lemma j_plain_values [simp]:
  "j_str (JStr s) = Inr s" "j_text (JStr s) = Inr s" "j_dec (JDec x) = Inr x" "j_time (JTime t) = Inr t"
  "j_nat (JInt (int n)) = Inr n" "j_truthy (JBool b) = b"
  by (simp_all add: j_str_def j_text_def j_dec_def j_time_def j_nat_def j_truthy_def)

lemma j_str_or_value [simp]: "s \<noteq> [] \<Longrightarrow> j_str_or d (JStr s) = Inr s"
  by (simp add: j_str_or_def j_truthy_def)

lemma amm_round_trip [simp]: "amm_from_json (amm_to_json p) = Inr p"
  by (cases p) (simp_all add: amm_from_json_def amm_to_json_def json_opt_def jreq_def jgetd_def j_float_def)

lemma rmap_map: "\<forall>x \<in> set xs. f (g x) = Inr x \<Longrightarrow> rmap f (map g xs) = Inr xs"
  by (induction xs) auto

lemma j_str_set_value [simp]:
  "finite S \<Longrightarrow> j_str_set (JList (map JStr (sorted_list_of_set S))) = Inr S"
  by (simp add: j_str_set_def rmap_map)

lemma string_tuple_value [simp]:
  "[] \<notin> set ids \<Longrightarrow> string_tuple field (JList (map JStr ids)) = Inr ids"
  by (auto simp: string_tuple_def rmap_map list_all_iff)

lemma snapshot_round_trip: "mk_snapshot s = Inr s \<Longrightarrow> snapshot_from_json (snapshot_to_json s) = Inr s"
  by (cases s) (simp add: snapshot_from_json_def snapshot_to_json_def jreq_def)

lemma snapshots_round_trip [simp]:
  assumes "\<forall>s \<in> set ss. mk_snapshot s = Inr s"
  shows "residual_exit_snapshots_from_json field (JList (map snapshot_to_json ss)) = Inr ss"
proof -
  have "rmap snapshot_from_json (map snapshot_to_json ss) = Inr ss"
    using assms by (intro rmap_map) (simp add: snapshot_round_trip)
  moreover have "list_all is_obj (map snapshot_to_json ss)"
    by (simp add: list_all_iff is_obj_def snapshot_to_json_def)
  ultimately show ?thesis by (simp add: residual_exit_snapshots_from_json_def)
qed

subsection \<open>Whole payloads\<close>

text \<open>What the payload of a market carries.\<close>

definition market_carried :: "market_spec \<Rightarrow> market_spec" where
  "market_carried m = m\<lparr>m_mapping_strategy := None, m_polymarket_volume_usd := None,
     m_predict_fun_volume_usd := None, m_myriad_volume_usd := None\<rparr>"

lemma market_round_trip:
  assumes "finite (m_verified_routes m)" and "m_timezone_name m \<noteq> []"
  shows "market_from_json (market_to_json m) = Inr (market_carried m)"
  using assms
  by (simp add: market_from_json_def market_to_json_def jreq_def jget_def jgetd_def market_carried_def
      market_spec_default_def)

definition position_storable :: "open_position \<Rightarrow> bool" where
  "position_storable p \<longleftrightarrow> finite (m_verified_routes (p_market p)) \<and> m_timezone_name (p_market p) \<noteq> [] \<and>
     position_post_init p = Inr p \<and>
     (\<forall>s \<in> set (p_polymarket_residual_snapshots p) \<union> set (p_predict_fun_residual_snapshots p).
        mk_snapshot s = Inr s)"

lemma Nil_notin_normalize: "[] \<notin> set (snapshot_ids ss) \<Longrightarrow> [] \<notin> set (normalize_order_ids ids ss)"
  by (auto simp: set_normalize_order_ids dest: sym)

lemma storable_ids:
  assumes "position_storable p"
  shows "[] \<notin> set (p_polymarket_residual_order_ids p)" "[] \<notin> set (p_predict_fun_residual_order_ids p)"
proof -
  have ne: "[] \<notin> set (snapshot_ids (p_polymarket_residual_snapshots p))"
    "[] \<notin> set (snapshot_ids (p_predict_fun_residual_snapshots p))"
    using assms mk_snapshot_valid by (fastforce simp: position_storable_def snapshot_ids_def)+
  have "position_post_init p = Inr p" using assms by (simp add: position_storable_def)
  note eq = position_post_init_Inr [OF this, THEN conjunct1]
  have "p_polymarket_residual_order_ids p = normalize_order_ids (p_polymarket_residual_order_ids p) (p_polymarket_residual_snapshots p)"
    "p_predict_fun_residual_order_ids p = normalize_order_ids (p_predict_fun_residual_order_ids p) (p_predict_fun_residual_snapshots p)"
    by (subst eq, simp)+
  with ne show "[] \<notin> set (p_polymarket_residual_order_ids p)"
    "[] \<notin> set (p_predict_fun_residual_order_ids p)" by (metis Nil_notin_normalize)+
qed


definition position_carried :: "open_position \<Rightarrow> open_position" where
  "position_carried p = p\<lparr>p_market := market_carried (p_market p)\<rparr>"

lemma post_init_market:
  "position_post_init p = Inr p \<Longrightarrow> position_post_init (p\<lparr>p_market := m\<rparr>) = Inr (p\<lparr>p_market := m\<rparr>)"
  by (cases p) (auto simp: position_post_init_def raise_if_def split: if_splits)

lemma position_from_to_json:
  assumes "position_storable p"
  shows "position_from_json (position_to_json p) = Inr (position_carried p)"
proof -
  have snaps: "\<forall>s \<in> set (p_polymarket_residual_snapshots p). mk_snapshot s = Inr s"
    "\<forall>s \<in> set (p_predict_fun_residual_snapshots p). mk_snapshot s = Inr s"
    and market: "market_from_json (market_to_json (p_market p)) = Inr (market_carried (p_market p))"
    using assms by (auto simp: position_storable_def market_round_trip)
  have "position_from_json (position_to_json p) = position_post_init (position_carried p)"
    using snaps storable_ids [OF assms] market
    by (cases p) (simp add: position_from_json_def position_to_json_def jreq_def jget_def jgetd_def position_carried_def)
  then show ?thesis
    using assms by (simp add: position_carried_def position_storable_def post_init_market)
qed

lemma position_key_carried [simp]: "position_key (market_carried m) = position_key m"
  by (simp add: position_key_def market_carried_def split: option.split)

definition ledger_ok :: "position_ledger \<Rightarrow> bool" where
  "ledger_ok l \<longleftrightarrow> dict_ok l \<and>
     (\<forall>(key, p) \<in> set l. key = position_key (p_market p) \<and> position_storable p)"

definition ledger_carried :: "position_ledger \<Rightarrow> position_ledger" where
  "ledger_carried l = map (\<lambda>(key, p). (key, position_carried p)) l"

lemma ledger_ok_empty: "ledger_ok []"
  by (simp add: ledger_ok_def)

lemma update_mem: "(k', v') \<in> set (AList.update k v d) \<Longrightarrow> (k', v') = (k, v) \<or> (k', v') \<in> set d"
  by (induction d) (auto split: if_splits)

lemma ledger_ok_add: "ledger_ok l \<Longrightarrow> position_storable p \<Longrightarrow> ledger_ok (ledger_add p l)"
  using update_mem by (fastforce simp: ledger_ok_def ledger_add_def dict_set_def dict_ok_def distinct_update)

lemma dict_pop_mem: "kv \<in> set (dict_pop key d) \<Longrightarrow> kv \<in> set d"
  by (auto simp: dict_pop_def AList.delete_eq)

lemma ledger_ok_remove: "ledger_ok l \<Longrightarrow> ledger_ok (ledger_remove key l)"
  by (auto simp: ledger_ok_def ledger_remove_def dest: dict_pop_mem)

lemma update_fresh: "k \<notin> fst ` set d \<Longrightarrow> AList.update k v d = d @ [(k, v)]"
  by (induction d) auto

lemma load_items_all:
  "ledger_ok l \<Longrightarrow> fst ` set l \<inter> fst ` set acc = {} \<Longrightarrow>
     load_items (map position_to_json (map snd l)) acc = Inr (acc @ ledger_carried l)"
proof (induction l arbitrary: acc)
  case Nil
  then show ?case by (simp add: ledger_carried_def)
next
  case (Cons kp l)
  obtain k p where kp: "kp = (k, p)" by (cases kp)
  have p: "position_storable p" "k = position_key (p_market p)" "ledger_ok l" "k \<notin> fst ` set l"
    using Cons.prems(1) by (auto simp: ledger_ok_def kp dict_ok_def)
  have "ledger_add (position_carried p) acc = acc @ [(k, position_carried p)]"
    using Cons.prems(2) p(2) by (auto simp: ledger_add_def dict_set_def kp update_fresh position_carried_def)
  moreover have "load_items (map position_to_json (map snd l)) (acc @ [(k, position_carried p)]) =
      Inr ((acc @ [(k, position_carried p)]) @ ledger_carried l)"
    using Cons.prems(2) p(3,4) by (intro Cons.IH) (auto simp: kp)
  ultimately show ?case
    using position_from_to_json [OF p(1)] by (simp add: kp ledger_carried_def)
qed

lemma load_saved:
  "ledger_ok (jl_positions l) \<Longrightarrow>
     json_ledger_load (jl_file (save_sync l)) = Inr (ledger_carried (jl_positions l))"
  using load_items_all [of "jl_positions l" "[]"]
  by (simp add: json_ledger_load_def save_sync_def ledger_all_def dict_values_def)


subsection \<open>Subscriptions\<close>

definition subscribed :: "string \<Rightarrow> string \<Rightarrow> (string, string set) dict \<Rightarrow> bool" where
  "subscribed venue token ts \<longleftrightarrow> (\<exists>s. dict_get ts venue = Some s \<and> token \<in> s)"

lemma subscribed_add [simp]:
  "subscribed v t (add_target venue token ts) \<longleftrightarrow> (token \<noteq> [] \<and> v = venue \<and> t = token) \<or> subscribed v t ts"
  by (auto simp: subscribed_def add_target_def split: option.splits)

definition leg_target :: "string \<Rightarrow> string \<Rightarrow> open_position \<Rightarrow> bool" where
  "leg_target venue token p \<longleftrightarrow> token \<noteq> [] \<and>
     ((venue = m_venue_a_label (p_market p) \<and> token = m_polymarket_token_id (p_market p)) \<or>
      (venue = m_venue_b_label (p_market p) \<and> token = m_predict_fun_token_id (p_market p)))"

lemma targets_of_iff:
  "targets_of ps ts = Inr ts' \<Longrightarrow>
     subscribed v t ts' \<longleftrightarrow> subscribed v t ts \<or> (\<exists>p \<in> set ps. leg_target v t p)"
proof (induction ps ts arbitrary: ts' rule: targets_of.induct)
  case (1 ts)
  then show ?case by simp
next
  case (2 p ps ts)
  from "2.prems" obtain route where
    route: "execution_route_for_market (p_market p) = Inr route"
      "first_leg_token_for_route (p_market p) route = Inr (m_polymarket_token_id (p_market p))"
      "second_leg_token_for_route (p_market p) route = Inr (m_predict_fun_token_id (p_market p))" and
    rest: "targets_of ps (add_target (m_venue_b_label (p_market p)) (m_predict_fun_token_id (p_market p))
        (add_target (m_venue_a_label (p_market p)) (m_polymarket_token_id (p_market p)) ts)) = Inr ts'"
    by (auto simp: rbind_Inr_iff Let_def first_leg_token_for_route_def second_leg_token_for_route_def)
  show ?case using "2.IH" [OF refl rest] by (auto simp: leg_target_def)
qed

section \<open>Properties\<close>

text \<open>C8. Decoding inverts encoding: the payload of a position, as written to the file and to the
  database, reads back as the same position, but for the mapping strategy and the three volumes
  that the payload does not carry.\<close>

theorem position_json_round_trip:
  assumes "position_storable p"
  shows "position_from_json (position_to_json p) =
    Inr (p\<lparr>p_market := (p_market p)\<lparr>m_mapping_strategy := None, m_polymarket_volume_usd := None,
      m_predict_fun_volume_usd := None, m_myriad_volume_usd := None\<rparr>\<rparr>)"
  using position_from_to_json [OF assms] by (simp add: position_carried_def market_carried_def)

lemma sample_storable: "position_storable sample_position_exited"
proof -
  have "position_post_init sample_position_exited = Inr sample_position_exited"
    by code_simp
  moreover have "mk_snapshot sample_exit = Inr sample_exit"
    by (simp add: mk_snapshot_def snapshot_valid_def sample_exit_def Let_def dadd_def dec_round_eval dec_eps_def
        raise_if_def, code_simp)
  ultimately show ?thesis
    by (simp add: position_storable_def sample_position_exited_def sample_position_def open_position_default_def
        sample_market_def market_spec_default_def)
qed

theorem position_json_round_trip_witness:
  "position_from_json (position_to_json sample_position_exited) = Inr sample_position_exited"
  using position_json_round_trip [OF sample_storable]
  by (simp add: sample_position_exited_def sample_position_def open_position_default_def sample_market_def
      market_spec_default_def)

text \<open>A restart finds the ledger as it was last saved: after any adds and removals of storable
  positions the file decodes, and it holds the same keys in the same order with the same positions
  (up to the fields that C11 names).\<close>

theorem restart_recovers_ledger:
  assumes "ledger_ok (jl_positions l)" and "position_storable p"
  shows "json_ledger_load (jl_file (json_ledger_add p l)) =
      Inr (ledger_carried (jl_positions (json_ledger_add p l))) \<and>
    json_ledger_load (jl_file (json_ledger_remove key l)) =
      Inr (ledger_carried (jl_positions (json_ledger_remove key l))) \<and>
    ledger_ok (jl_positions (json_ledger_add p l)) \<and> ledger_ok (jl_positions (json_ledger_remove key l))"
  using load_saved [of "l\<lparr>jl_positions := ledger_add p (jl_positions l)\<rparr>"]
    load_saved [of "l\<lparr>jl_positions := ledger_remove key (jl_positions l)\<rparr>"]
    ledger_ok_add [OF assms] ledger_ok_remove [OF assms(1)]
  by (simp add: json_ledger_add_def json_ledger_remove_def save_sync_def)

theorem restart_recovers_ledger_witness:
  "json_ledger_load (jl_file (json_ledger_add sample_position_exited \<lparr>jl_positions = [], jl_file = None\<rparr>)) =
     Inr (ledger_carried [(position_key sample_market, sample_position_exited)])"
  using restart_recovers_ledger [of "\<lparr>jl_positions = [], jl_file = None\<rparr>", OF _ sample_storable]
  by (simp add: ledger_ok_empty json_ledger_add_def save_sync_def ledger_add_def dict_set_def
      sample_position_exited_def sample_position_def open_position_default_def)

text \<open>The engine subscribes to exactly the tokens of its open positions: a token is in the targets
  of a venue if and only if some open position holds that token on that venue.\<close>

theorem market_data_targets_exact:
  assumes "market_data_targets l = Inr targets"
  shows "(\<exists>tokens. dict_get targets venue = Some tokens \<and> token \<in> tokens) \<longleftrightarrow>
    token \<noteq> [] \<and> (\<exists>p \<in> set (ledger_all l).
      (venue = m_venue_a_label (p_market p) \<and> token = m_polymarket_token_id (p_market p)) \<or>
      (venue = m_venue_b_label (p_market p) \<and> token = m_predict_fun_token_id (p_market p)))"
  using targets_of_iff [OF assms [unfolded market_data_targets_def], of venue token]
  by (auto simp: subscribed_def leg_target_def)

theorem market_data_targets_exact_witness:
  "\<exists>tokens. dict_get [(''Polymarket'', {''101''}), (''Predict.fun'', {''202''})] ''Predict.fun'' = Some tokens \<and>
     ''202'' \<in> tokens"
proof -
  have "market_data_targets (ledger_add sample_position []) =
      Inr [(''Polymarket'', {''101''}), (''Predict.fun'', {''202''})]"
    by code_simp
  from market_data_targets_exact [OF this, of "''Predict.fun''" "''202''"] show ?thesis
    by (simp add: ledger_all_def ledger_add_def dict_set_def dict_values_def sample_position_def
        open_position_default_def sample_market_def market_spec_default_def)
qed

end
