(* ===== verification/Mapping_Rules.thy ===== *)
theory Mapping_Rules
  imports Position_Model
begin

text \<open>
  The mapping rules of \<^verbatim>\<open>market_mapping.py\<close> and of the mapping tables of \<^verbatim>\<open>database.py\<close>: category
  normalisation, the launch filters, live eligibility, the join of discovered markets with the
  verified mappings, the upsert of discovered mappings and the test for stale mappings. The
  lemmas show that a market trades live on a route only through a verified mapping of that
  route, and that a mapping whose rules changed never stays verified.
\<close>

section \<open>Text\<close>

text \<open>The maximal runs of characters that do not satisfy \<open>P\<close>; \<^verbatim>\<open>s.split()\<close> is \<open>split_runs is_space\<close>.\<close>

function split_runs :: "(char \<Rightarrow> bool) \<Rightarrow> string \<Rightarrow> string list" where
  "split_runs P [] = []"
| "split_runs P (c # cs) =
     (if P c then split_runs P cs
      else (c # takeWhile (\<lambda>d. \<not> P d) cs) # split_runs P (dropWhile (\<lambda>d. \<not> P d) cs))"
  by pat_completeness auto
termination
  by (relation "measure (\<lambda>(_, s). length s)") (auto simp: le_imp_less_Suc length_dropWhile_le)

definition replace_char :: "char \<Rightarrow> char \<Rightarrow> string \<Rightarrow> string" where
  "replace_char a b s = map (\<lambda>c. if c = a then b else c) s"

definition category_text :: "string \<Rightarrow> string" where
  "category_text v = join_with '' '' (split_runs is_space (replace_char (CHR ''_'') (CHR ''-'') (lower (strip v))))"

definition CATEGORY_ALIASES :: "(string \<times> string) list" where
  "CATEGORY_ALIASES =
     [(''sport'', ''sports''), (''sports'', ''sports''), (''esport'', ''sports''), (''e-sports'', ''sports''),
      (''esports'', ''sports''), (''football'', ''sports''), (''soccer'', ''sports''),
      (''crypto'', ''finance''), (''cryptocurrency'', ''finance''), (''blockchain'', ''finance''),
      (''web3'', ''finance''), (''digital-assets'', ''finance''), (''digital assets'', ''finance''),
      (''economics'', ''finance''), (''finance'', ''finance'')]"

definition CRYPTO_CATEGORY_NAMES :: "string list" where
  "CRYPTO_CATEGORY_NAMES =
     [''crypto'', ''cryptocurrency'', ''blockchain'', ''web3'', ''digital-assets'', ''digital assets'']"

definition CRYPTO_TITLE_TERMS :: "string list" where
  "CRYPTO_TITLE_TERMS =
     [''airdrop'', ''bitcoin'', ''btc'', ''crypto'', ''doge'', ''dogecoin'', ''ethereum'', ''fdv'',
      ''hyperliquid'', ''solana'', ''token'', ''xrp'']"

definition alias_category :: "string \<Rightarrow> string option" where
  "alias_category t = (case map_of CATEGORY_ALIASES t of
     Some c \<Rightarrow> Some c | None \<Rightarrow> if t = [] then None else Some t)"

definition normalize_category :: "string option \<Rightarrow> string option" where
  "normalize_category value = (case value of None \<Rightarrow> None | Some v \<Rightarrow> alias_category (category_text v))"

definition normalize_launch_category :: "string option \<Rightarrow> string option" where
  "normalize_launch_category value = (case value of None \<Rightarrow> None
     | Some v \<Rightarrow> (let raw = category_text v in
         if raw \<in> set CRYPTO_CATEGORY_NAMES then Some ''crypto'' else normalize_category (Some raw)))"

section \<open>Launch filters\<close>

definition filter_markets_for_categories ::
  "market_spec list \<Rightarrow> string list \<Rightarrow> execution_mode \<Rightarrow> market_spec list" where
  "filter_markets_for_categories markets categories mode =
     filter (\<lambda>m. case normalize_category (m_category m) of
          None \<Rightarrow> \<not> submits_orders mode
        | Some c \<Rightarrow> list_all (\<lambda>v. normalize_category (Some v) = None) categories \<or>
            list_ex (\<lambda>v. normalize_category (Some v) = Some c) categories) markets"

definition is_alnum :: "char \<Rightarrow> bool" where
  "is_alnum c = (let n = of_char c :: nat in 97 \<le> n \<and> n \<le> 122 \<or> 48 \<le> n \<and> n \<le> 57)"

definition is_crypto_market :: "market_spec \<Rightarrow> bool" where
  "is_crypto_market m =
     (category_text (case m_category m of None \<Rightarrow> [] | Some c \<Rightarrow> c) \<in> set CRYPTO_CATEGORY_NAMES \<or>
      list_ex (\<lambda>w. w \<in> set CRYPTO_TITLE_TERMS)
        (split_runs (\<lambda>c. \<not> is_alnum c) (lower (m_symbol m @ '' '' @ m_target_label m))))"

definition launch_category :: "market_spec \<Rightarrow> string" where
  "launch_category m = (case normalize_category (m_category m) of
     None \<Rightarrow> ''unknown''
   | Some c \<Rightarrow> if c = ''finance'' \<and> is_crypto_market m then ''crypto'' else c)"

text \<open>\<^verbatim>\<open>timedelta(hours=h)\<close> in microseconds.\<close>

definition hours_delta :: "flt \<Rightarrow> int" where
  "hours_delta h = half_even (h * 3600000000)"

definition launch_horizons ::
  "flt \<Rightarrow> flt \<Rightarrow> (string \<times> flt) list \<Rightarrow> (string, flt) dict" where
  "launch_horizons sports crypto extra =
     foldl (\<lambda>d (raw, h). case normalize_launch_category (Some raw) of
         None \<Rightarrow> d | Some c \<Rightarrow> dict_set c h d)
       [(''sports'', sports), (''crypto'', crypto)] extra"

definition market_cutoff :: "market_spec \<Rightarrow> datetime option" where
  "market_cutoff m = (case m_cutoff_at m of Some t \<Rightarrow> Some t | None \<Rightarrow> m_expires_at m)"

definition within_horizon :: "int \<Rightarrow> market_spec \<Rightarrow> flt \<Rightarrow> bool" where
  "within_horizon now m hours = (case market_cutoff m of
     None \<Rightarrow> False
   | Some t \<Rightarrow> 0 < as_utc t - now \<and> as_utc t - now \<le> hours_delta hours)"

definition crypto_only :: "string list \<Rightarrow> bool" where
  "crypto_only categories =
     (list_ex (\<lambda>v. category_text v \<in> {''crypto'', ''cryptocurrency''}) categories \<and>
      \<not> list_ex (\<lambda>v. category_text v \<in> {''finance'', ''economics''}) categories)"

definition filter_markets_for_launch_horizon ::
  "market_spec list \<Rightarrow> string list \<Rightarrow> flt \<Rightarrow> flt \<Rightarrow> (string \<times> flt) list \<Rightarrow> int \<Rightarrow> market_spec list" where
  "filter_markets_for_launch_horizon markets categories sports crypto extra now =
     (let horizons = launch_horizons sports crypto extra in
      filter (\<lambda>m.
        if normalize_category (m_category m) = Some ''finance'' \<and> launch_category m \<noteq> ''crypto'' \<and>
           crypto_only categories then False
        else case dict_get horizons (launch_category m) of
            None \<Rightarrow> True | Some h \<Rightarrow> within_horizon now m h) markets)"

section \<open>Routes and eligibility\<close>

definition VENUE_ALIASES :: "(string \<times> string) list" where
  "VENUE_ALIASES = [(''Polymarket'', ''polymarket''), (''Predict.fun'', ''predict''),
     (''SX Bet'', ''sx''), (''Myriad'', ''myriad''), (''Opinion'', ''opinion'')]"

definition route_key :: "string \<Rightarrow> string \<Rightarrow> string" where
  "route_key left_venue right_venue =
     (let name = (\<lambda>v. case map_of VENUE_ALIASES v of Some n \<Rightarrow> n
        | None \<Rightarrow> replace_char (CHR ''.'') (CHR ''_'') (lower (strip v)))
      in name left_venue @ ''_'' @ name right_venue)"

definition venue_alias :: "string \<Rightarrow> string" where
  "venue_alias v = (case map_of VENUE_ALIASES v of Some n \<Rightarrow> n | None \<Rightarrow> lower v)"

text \<open>\<^verbatim>\<open>_route_name\<close>: the route whose two venues are the given ones, in either order.\<close>

definition route_name :: "string \<Rightarrow> string \<Rightarrow> string" where
  "route_name left_venue right_venue =
     (let left = venue_alias left_venue; right = venue_alias right_venue
      in case find (\<lambda>r. case dict_get ROUTE_VENUE_LABELS r of
             Some (a, b) \<Rightarrow> {venue_alias a, venue_alias b} = {left, right} | None \<Rightarrow> False)
           (rev EXECUTION_ROUTES) of
         Some r \<Rightarrow> r | None \<Rightarrow> left @ ''_'' @ right)"

definition is_live_mapping_eligible :: "market_spec \<Rightarrow> execution_mode \<Rightarrow> string option \<Rightarrow> bool" where
  "is_live_mapping_eligible m mode route =
     (if \<not> submits_orders mode then True
      else m_mapping_status m = VERIFIED \<and> truthy (m_rules_fingerprint m) \<and>
        truthy (m_resolution_source m) \<and> truthy (m_outcome_semantics m) \<and>
        normalize_category (m_category m) \<noteq> None \<and>
        (case route of None \<Rightarrow> True | Some r \<Rightarrow> r \<in> m_verified_routes m))"

text \<open>\<^verbatim>\<open>rules_fingerprint\<close>: \<open>digest\<close> is SHA-256 over the canonical JSON of the five values.\<close>

definition rules_fingerprint ::
  "(string \<times> string \<times> int \<times> string \<times> string \<Rightarrow> string) \<Rightarrow> string \<Rightarrow> string \<Rightarrow> datetime \<Rightarrow> string \<Rightarrow> string \<Rightarrow> string" where
  "rules_fingerprint digest title source cutoff semantics timezone =
     (let canonical = (\<lambda>s. join_with '' '' (split_runs is_space (lower s)))
      in digest (canonical title, canonical source, as_utc cutoff, canonical semantics, timezone))"

section \<open>Identities of a market on its venues\<close>

definition first_leg_market_id :: "market_spec \<Rightarrow> string option" where
  "first_leg_market_id m =
     (if m_venue_a_label m = ''Polymarket'' then or_else (m_polymarket_market_id m) (m_condition_id m)
      else or_else (or_else (m_polymarket_market_id m) (m_predict_fun_market_id m)) (m_condition_id m))"

definition put_identity :: "string \<Rightarrow> string option \<Rightarrow> (string, string) dict \<Rightarrow> (string, string) dict" where
  "put_identity venue mid d = (case mid of Some i \<Rightarrow> if i \<noteq> [] then dict_set venue i d else d | None \<Rightarrow> d)"

definition market_identities :: "market_spec \<Rightarrow> (string, string) dict" where
  "market_identities m =
     put_identity ''Myriad'' (m_myriad_market_id m)
       (put_identity (m_venue_b_label m)
          (if m_venue_b_label m \<noteq> ''Myriad'' then m_predict_fun_market_id m else None)
          (put_identity (m_venue_a_label m) (first_leg_market_id m) []))"

definition venue_tokens :: "market_spec \<Rightarrow> string \<Rightarrow> string \<times> string" where
  "venue_tokens m venue =
     (if venue = m_venue_a_label m then
        (if m_polymarket_side m = YES then (m_polymarket_token_id m, []) else ([], m_polymarket_token_id m))
      else if venue = m_venue_b_label m \<and> venue \<noteq> ''Myriad'' then
        (if m_predict_fun_side m = YES then (m_predict_fun_token_id m, []) else ([], m_predict_fun_token_id m))
      else (case m_myriad_market_id m of
          Some i \<Rightarrow> if i \<noteq> [] then (i @ '':YES'', i @ '':NO'') else ([], [])
        | None \<Rightarrow> ([], [])))"

text \<open>The unordered pairs of venues of a market, each in the order of the identity table.\<close>

fun identity_pairs :: "(string \<times> string) list \<Rightarrow> ((string \<times> string) \<times> (string \<times> string)) list" where
  "identity_pairs [] = []"
| "identity_pairs (x # xs) = map (\<lambda>y. (x, y)) xs @ identity_pairs xs"


section \<open>Joining the discovery snapshot with the verified mappings\<close>

type_synonym metadata = "string \<times> string \<times> string \<times> datetime"

definition missing_verified_metadata :: "string option \<Rightarrow> bool" where
  "missing_verified_metadata v = (case v of None \<Rightarrow> True | Some s \<Rightarrow> s = [] \<or> lower (strip s) = ''unknown'')"

definition known_verified_metadata :: "string \<Rightarrow> string option" where
  "known_verified_metadata v = (if missing_verified_metadata (Some v) then None else Some v)"

definition mapping_metadata :: "datetime \<Rightarrow> (string, metadata) dict \<Rightarrow> market_mapping \<Rightarrow> metadata" where
  "mapping_metadata now canonical mp = (case dict_get canonical (mm_canonical_market_id mp) of
     Some md \<Rightarrow> md | None \<Rightarrow> (''unknown'', ''unknown'', ''unknown'', now))"

definition mapping_route :: "market_mapping \<Rightarrow> string" where
  "mapping_route mp = route_name (mm_left_venue mp) (mm_right_venue mp)"

text \<open>\<open>route_pairs[(left, right)]\<close>: route to fingerprint and metadata, later mappings overwrite.\<close>

definition put_route_pair ::
  "datetime \<Rightarrow> (string, metadata) dict \<Rightarrow> string \<Rightarrow> string \<Rightarrow> (string, string \<times> metadata) dict \<Rightarrow> market_mapping \<Rightarrow>
    (string, string \<times> metadata) dict" where
  "put_route_pair now canonical l r d mp =
     (let md = (mm_rules_fingerprint mp, mapping_metadata now canonical mp);
          d' = (if mm_left_market_id mp = l \<and> mm_right_market_id mp = r then dict_set (mapping_route mp) md d else d)
      in if mm_right_market_id mp = l \<and> mm_left_market_id mp = r then dict_set (mapping_route mp) md d' else d')"

definition route_pairs ::
  "datetime \<Rightarrow> (string, metadata) dict \<Rightarrow> market_mapping list \<Rightarrow> string \<Rightarrow> string \<Rightarrow> (string, string \<times> metadata) dict" where
  "route_pairs now canonical mappings l r = foldl (put_route_pair now canonical l r) [] mappings"

definition metadata_by_fingerprint ::
  "datetime \<Rightarrow> (string, metadata) dict \<Rightarrow> market_mapping list \<Rightarrow> string \<Rightarrow> metadata option" where
  "metadata_by_fingerprint now canonical mappings fp =
     map_option (mapping_metadata now canonical) (find (\<lambda>mp. mm_rules_fingerprint mp = fp) mappings)"

text \<open>The values that the join fills in, and one assignment of a \<^verbatim>\<open>(source, semantics, category, cutoff)\<close>.\<close>

record joined =
  jn_routes :: "string set"
  jn_fingerprint :: "string option"
  jn_source :: "string option"
  jn_semantics :: "string option"
  jn_category :: "string option"
  jn_cutoff :: "datetime option"

definition fill_metadata :: "metadata \<Rightarrow> joined \<Rightarrow> joined" where
  "fill_metadata md j = (case md of (source, semantics, category, cutoff) \<Rightarrow>
     j\<lparr>jn_source := (if missing_verified_metadata (jn_source j) then known_verified_metadata source else jn_source j),
       jn_semantics := (if missing_verified_metadata (jn_semantics j)
         then known_verified_metadata semantics else jn_semantics j),
       jn_category := (if missing_verified_metadata (jn_category j)
         then known_verified_metadata category else jn_category j),
       jn_cutoff := (if jn_cutoff j = None then Some cutoff else jn_cutoff j)\<rparr>)"

definition join_pair :: "(string, string \<times> metadata) dict \<Rightarrow> joined \<Rightarrow> joined" where
  "join_pair matched j =
     (let j1 = j\<lparr>jn_routes := jn_routes j \<union> set (map fst matched)\<rparr> in
      case matched of
        [] \<Rightarrow> j1
      | (_, fp, md) # _ \<Rightarrow>
          fill_metadata md (j1\<lparr>jn_fingerprint := (if jn_fingerprint j1 = None then Some fp else jn_fingerprint j1)\<rparr>))"

definition join_market ::
  "datetime \<Rightarrow> (string, metadata) dict \<Rightarrow> market_mapping list \<Rightarrow> market_spec \<Rightarrow> market_spec" where
  "join_market now canonical mappings m =
     (let j0 = \<lparr>jn_routes = m_verified_routes m, jn_fingerprint = m_rules_fingerprint m,
                jn_source = m_resolution_source m, jn_semantics = m_outcome_semantics m,
                jn_category = m_category m, jn_cutoff = m_cutoff_at m\<rparr>;
          j1 = foldl (\<lambda>j ((_, l), (_, r)). join_pair (route_pairs now canonical mappings l r) j)
                 j0 (identity_pairs (market_identities m));
          j2 = (if truthy (jn_fingerprint j1)
                then (case metadata_by_fingerprint now canonical mappings (the (jn_fingerprint j1)) of
                        Some md \<Rightarrow> fill_metadata md j1 | None \<Rightarrow> j1)
                else j1)
      in m\<lparr>m_verified_routes := jn_routes j2,
           m_mapping_status := (if jn_routes j2 \<noteq> {} then VERIFIED else m_mapping_status m),
           m_rules_fingerprint := jn_fingerprint j2, m_resolution_source := jn_source j2,
           m_outcome_semantics := jn_semantics j2, m_category := jn_category j2, m_cutoff_at := jn_cutoff j2\<rparr>)"

definition apply_verified_mapping_snapshot ::
  "datetime \<Rightarrow> (string, metadata) dict \<Rightarrow> market_spec list \<Rightarrow> market_mapping list \<Rightarrow> market_spec list" where
  "apply_verified_mapping_snapshot now canonical markets mappings = map (join_market now canonical mappings) markets"

section \<open>The mapping table\<close>

type_synonym mapping_table = "(string, market_mapping) dict"

text \<open>\<^verbatim>\<open>list_mappings(VERIFIED)\<close> and \<^verbatim>\<open>apply_verified_mappings\<close>; the table is in order of creation.\<close>

definition list_mappings :: "mapping_status option \<Rightarrow> mapping_table \<Rightarrow> market_mapping list" where
  "list_mappings status t = (case status of None \<Rightarrow> dict_values t
     | Some st \<Rightarrow> filter (\<lambda>mp. mm_status mp = st) (dict_values t))"

definition apply_verified_mappings ::
  "datetime \<Rightarrow> (string, metadata) dict \<Rightarrow> mapping_table \<Rightarrow> market_spec list \<Rightarrow> market_spec list" where
  "apply_verified_mappings now canonical t markets =
     apply_verified_mapping_snapshot now canonical markets (list_mappings (Some VERIFIED) t)"

definition set_mapping_status ::
  "datetime \<Rightarrow> string \<Rightarrow> mapping_status \<Rightarrow> string option \<Rightarrow> mapping_table \<Rightarrow> mapping_table res" where
  "set_mapping_status now mid status operator t = (case dict_get t mid of
     None \<Rightarrow> Inl (KeyError (''Unknown mapping id: '' @ mid))
   | Some row \<Rightarrow> Inr (dict_set mid (row\<lparr>mm_status := status,
       mm_verified_at := (if status = VERIFIED then Some now else None),
       mm_verified_by := (if status = VERIFIED then operator else None),
       mm_updated_at := Some now\<rparr>) t))"

text \<open>What one discovered pair does to the row of its mapping (\<^verbatim>\<open>upsert_market_candidates\<close>).\<close>

definition mark_stale :: "market_mapping \<Rightarrow> market_mapping" where
  "mark_stale row = row\<lparr>mm_status := MS_STALE, mm_verified_at := None, mm_verified_by := None\<rparr>"

definition strategy_regressed :: "market_mapping \<Rightarrow> string \<Rightarrow> bool" where
  "strategy_regressed row strategy =
     (case mm_match_strategy row of None \<Rightarrow> strategy \<noteq> ''exact_id'' | Some old \<Rightarrow> old \<noteq> strategy)"

definition update_mapping_row ::
  "datetime \<Rightarrow> bool \<Rightarrow> string \<Rightarrow> string \<Rightarrow> string option \<Rightarrow> market_mapping \<Rightarrow> market_mapping" where
  "update_mapping_row now mark_seen canonical_id fingerprint strategy row =
     (let changed1 = mm_rules_fingerprint row \<noteq> fingerprint;
          r1 = (if changed1 then mark_stale (row\<lparr>mm_canonical_market_id := canonical_id,
                  mm_rules_fingerprint := fingerprint\<rparr>) else row);
          changed2 = strategy \<noteq> None \<and> mm_match_strategy r1 \<noteq> strategy;
          r2 = (if changed2
                then (if mm_status r1 = VERIFIED \<and> strategy_regressed r1 (the strategy) then mark_stale r1 else r1)
                       \<lparr>mm_match_strategy := strategy\<rparr>
                else r1);
          r3 = (if mark_seen then r2\<lparr>mm_last_discovered_at := Some now\<rparr> else r2)
      in if changed1 \<or> changed2 then r3\<lparr>mm_updated_at := Some now\<rparr> else r3)"

definition new_mapping_row ::
  "datetime \<Rightarrow> bool \<Rightarrow> string \<Rightarrow> string \<Rightarrow> string \<Rightarrow> string option \<Rightarrow> (string \<times> string) \<times> (string \<times> string) \<Rightarrow> market_mapping" where
  "new_mapping_row now mark_seen mid canonical_id fingerprint strategy pair =
     (case pair of ((lv, l), (rv, r)) \<Rightarrow>
       \<lparr>mm_mapping_id = mid, mm_canonical_market_id = canonical_id, mm_left_venue = lv, mm_left_market_id = l,
        mm_right_venue = rv, mm_right_market_id = r, mm_status = CANDIDATE, mm_rules_fingerprint = fingerprint,
        mm_match_strategy = strategy, mm_verified_at = None, mm_verified_by = None,
        mm_last_discovered_at = (if mark_seen then Some now else None), mm_updated_at = Some now\<rparr>)"

text \<open>\<^verbatim>\<open>_stable_id\<close>: \<open>digest\<close> is SHA-256 over the parts joined with the unit separator.\<close>

definition stable_id :: "(string \<Rightarrow> string) \<Rightarrow> string list \<Rightarrow> string" where
  "stable_id digest parts = digest (join_with [char_of (31 :: nat)] parts)"

definition upsert_pair ::
  "(string \<Rightarrow> string) \<Rightarrow> datetime \<Rightarrow> bool \<Rightarrow> string \<Rightarrow> string \<Rightarrow> string option \<Rightarrow>
    (string \<times> string) \<times> (string \<times> string) \<Rightarrow> mapping_table \<Rightarrow> mapping_table" where
  "upsert_pair digest now mark_seen canonical_id fingerprint strategy pair t =
     (case pair of ((lv, l), (rv, r)) \<Rightarrow>
       (let mid = stable_id digest [lv, l, rv, r] in
        case dict_get t mid of
          None \<Rightarrow> dict_set mid (new_mapping_row now mark_seen mid canonical_id fingerprint strategy pair) t
        | Some row \<Rightarrow> dict_set mid (update_mapping_row now mark_seen canonical_id fingerprint strategy row) t))"

text \<open>
  One prepared market: its identities, canonical id, canonical fingerprint and match strategy,
  with the key and the signature under which the process remembers what it wrote.
\<close>

record prepared =
  pp_identities :: "(string, string) dict"
  pp_canonical_id :: string
  pp_fingerprint :: string
  pp_strategy :: "string option"
  pp_cache_key :: string
  pp_signature :: string

definition upsert_mappings ::
  "(string \<Rightarrow> string) \<Rightarrow> datetime \<Rightarrow> bool \<Rightarrow> prepared list \<Rightarrow> mapping_table \<Rightarrow> mapping_table" where
  "upsert_mappings digest now mark_seen items t =
     foldl (\<lambda>t item. foldl (\<lambda>t pair. upsert_pair digest now mark_seen (pp_canonical_id item)
         (pp_fingerprint item) (pp_strategy item) pair t) t (identity_pairs (pp_identities item))) t items"

definition upsert_market_candidates ::
  "(string \<Rightarrow> string) \<Rightarrow> datetime \<Rightarrow> bool \<Rightarrow> prepared list \<Rightarrow>
    (string, string) dict \<times> mapping_table \<Rightarrow> (string, string) dict \<times> mapping_table" where
  "upsert_market_candidates digest now mark_seen items st =
     (case st of (cache, t) \<Rightarrow>
       (let todo = (if mark_seen then items
              else filter (\<lambda>i. dict_get cache (pp_cache_key i) \<noteq> Some (pp_signature i)) items)
        in (foldl (\<lambda>c i. dict_set (pp_cache_key i) (pp_signature i) c) cache todo,
            upsert_mappings digest now mark_seen todo t)))"

definition mapping_route_pairs :: "string list \<Rightarrow> (string \<times> string) list" where
  "mapping_route_pairs routes =
     concat (map (\<lambda>r. case dict_get ROUTE_VENUE_LABELS r of Some (a, b) \<Rightarrow> [(a, b), (b, a)] | None \<Rightarrow> []) routes)"

definition same_venue_pair :: "market_mapping \<Rightarrow> market_mapping \<Rightarrow> bool" where
  "same_venue_pair a b \<longleftrightarrow>
     (mm_left_venue a = mm_left_venue b \<and> mm_right_venue a = mm_right_venue b) \<or>
     (mm_left_venue a = mm_right_venue b \<and> mm_right_venue a = mm_left_venue b)"

definition has_stale_mappings :: "string list \<Rightarrow> mapping_table \<Rightarrow> bool" where
  "has_stale_mappings enabled_routes t =
     list_ex (\<lambda>st. mm_status st = MS_STALE \<and>
        \<not> list_ex (\<lambda>v. mm_status v = VERIFIED \<and> mm_canonical_market_id v = mm_canonical_market_id st \<and>
              same_venue_pair v st) (dict_values t) \<and>
        (enabled_routes = [] \<or> (mm_left_venue st, mm_right_venue st) \<in> set (mapping_route_pairs enabled_routes)))
      (dict_values t)"


section \<open>Lemmas\<close>

subsection \<open>Category text\<close>

lemma split_runs_step:
  "\<not> P c \<Longrightarrow> split_runs P (c # cs) =
     (c # takeWhile (\<lambda>d. \<not> P d) cs) # split_runs P (dropWhile (\<lambda>d. \<not> P d) cs)"
  by simp

lemma split_runs_words: "w \<in> set (split_runs P s) \<Longrightarrow> w \<noteq> [] \<and> (\<forall>c \<in> set w. \<not> P c)"
proof (induction P s rule: split_runs.induct)
  case (2 P c cs)
  show ?case
  proof (cases "P c")
    case True
    then show ?thesis using "2.IH"(1) "2.prems" by simp
  next
    case False
    consider "w = c # takeWhile (\<lambda>d. \<not> P d) cs" | "w \<in> set (split_runs P (dropWhile (\<lambda>d. \<not> P d) cs))"
      using "2.prems" unfolding split_runs_step [where P = P and c = c, OF False] by auto
    then show ?thesis
    proof cases
      case 1
      moreover have "\<forall>d \<in> set (takeWhile (\<lambda>d. \<not> P d) cs). \<not> P d" by (blast dest: set_takeWhileD)
      ultimately show ?thesis using False by simp
    next
      case 2
      then show ?thesis by (rule "2.IH"(2) [OF False])
    qed
  qed
qed simp

lemma split_runs_chars: "w \<in> set (split_runs P s) \<Longrightarrow> set w \<subseteq> set s"
proof (induction P s rule: split_runs.induct)
  case (2 P c cs)
  show ?case
  proof (cases "P c")
    case True
    then show ?thesis using "2.IH"(1) "2.prems" by auto
  next
    case False
    consider "w = c # takeWhile (\<lambda>d. \<not> P d) cs" | "w \<in> set (split_runs P (dropWhile (\<lambda>d. \<not> P d) cs))"
      using "2.prems" unfolding split_runs_step [where P = P and c = c, OF False] by auto
    then show ?thesis
    proof cases
      case 1
      then show ?thesis using set_takeWhileD by fastforce
    next
      case 2
      then have "set w \<subseteq> set (dropWhile (\<lambda>d. \<not> P d) cs)" by (rule "2.IH"(2) [OF False])
      then show ?thesis using set_dropWhileD by fastforce
    qed
  qed
qed simp

lemma split_runs_word:
  assumes "w \<noteq> []" "\<forall>c \<in> set w. \<not> P c"
  shows "split_runs P w = [w]"
proof (cases w)
  case (Cons c cs)
  have np: "\<not> P c" and tk: "takeWhile (\<lambda>d. \<not> P d) cs = cs" and drop: "dropWhile (\<lambda>d. \<not> P d) cs = []"
    using assms Cons by (auto simp: takeWhile_eq_all_conv dropWhile_eq_Nil_conv)
  show ?thesis
    unfolding Cons split_runs_step [where P = P and c = c, OF np] tk drop by simp
qed (use assms in simp)

lemma split_runs_append:
  assumes "w \<noteq> []" "\<forall>c \<in> set w. \<not> P c" "P d"
  shows "split_runs P (w @ d # s) = w # split_runs P s"
proof (cases w)
  case (Cons c cs)
  have "takeWhile (\<lambda>d. \<not> P d) (cs @ d # s) = cs" "dropWhile (\<lambda>d. \<not> P d) (cs @ d # s) = d # s"
    using assms Cons by (auto simp: takeWhile_append dropWhile_append)
  with assms Cons show ?thesis by simp
qed (use assms in simp)

lemma is_space_blank [simp]: "is_space (CHR '' '')"
  by (simp add: is_space_def)

lemma split_join:
  "\<forall>w \<in> set ws. w \<noteq> [] \<and> (\<forall>c \<in> set w. \<not> is_space c) \<Longrightarrow> split_runs is_space (join_with '' '' ws) = ws"
proof (induction "'' ''" ws rule: join_with.induct)
  case (3 s t ts)
  then have "split_runs is_space (s @ CHR '' '' # join_with '' '' (t # ts)) = s # split_runs is_space (join_with '' '' (t # ts))"
    by (intro split_runs_append) auto
  with 3 show ?case by simp
qed (auto simp: split_runs_word)

lemma set_join: "set (join_with '' '' ws) \<subseteq> insert (CHR '' '') (\<Union> (set ` set ws))"
  by (induction "'' ''" ws rule: join_with.induct) auto

lemma join_ends:
  "ws \<noteq> [] \<Longrightarrow> \<forall>w \<in> set ws. w \<noteq> [] \<and> (\<forall>c \<in> set w. \<not> is_space c) \<Longrightarrow>
     join_with '' '' ws \<noteq> [] \<and> \<not> is_space (hd (join_with '' '' ws)) \<and> \<not> is_space (last (join_with '' '' ws))"
proof (induction "'' ''" ws rule: join_with.induct)
  case (3 s t ts)
  then show ?case by (auto simp: hd_append)
qed auto

lemma strip_join:
  "\<forall>w \<in> set ws. w \<noteq> [] \<and> (\<forall>c \<in> set w. \<not> is_space c) \<Longrightarrow> strip (join_with '' '' ws) = join_with '' '' ws"
  using join_ends [of ws] strip_id by (cases "ws = []") (auto simp: strip_def)

definition plain_char :: "char \<Rightarrow> bool" where
  "plain_char c \<longleftrightarrow> lower_char c = c \<and> c \<noteq> CHR ''_''"

lemma plain_map: "\<forall>c \<in> set s. plain_char c \<Longrightarrow> replace_char (CHR ''_'') (CHR ''-'') (lower s) = s"
  by (induction s) (auto simp: plain_char_def replace_char_def lower_def)

lemma plain_replaced: "\<forall>c \<in> set (replace_char (CHR ''_'') (CHR ''-'') (lower s)). plain_char c"
proof -
  have "lower_char (CHR ''-'') = CHR ''-''" by code_simp
  then show ?thesis by (auto simp: replace_char_def lower_def plain_char_def)
qed

lemma category_text_idem: "category_text (category_text v) = category_text v"
proof -
  let ?r = "replace_char (CHR ''_'') (CHR ''-'') (lower (strip v))"
  let ?ws = "split_runs is_space ?r"
  have ws: "\<forall>w \<in> set ?ws. w \<noteq> [] \<and> (\<forall>c \<in> set w. \<not> is_space c)" using split_runs_words by blast
  have "plain_char (CHR '' '')" by (simp add: plain_char_def, code_simp)
  then have "\<forall>c \<in> set (join_with '' '' ?ws). plain_char c"
    using set_join [of ?ws] split_runs_chars [of _ is_space ?r] plain_replaced [of "strip v"] by blast
  then show ?thesis
    by (simp add: category_text_def strip_join [OF ws] plain_map split_join [OF ws])
qed

lemma alias_fixed: "map_of CATEGORY_ALIASES t = Some c \<Longrightarrow> map_of CATEGORY_ALIASES c = Some c \<and> category_text c = c"
proof -
  assume "map_of CATEGORY_ALIASES t = Some c"
  then have "(t, c) \<in> set CATEGORY_ALIASES" by (rule map_of_SomeD)
  then have "c \<in> set (map snd CATEGORY_ALIASES)" by force
  moreover have "list_all (\<lambda>c. map_of CATEGORY_ALIASES c = Some c \<and> category_text c = c) (map snd CATEGORY_ALIASES)"
    by code_simp
  ultimately show ?thesis unfolding list_all_iff by blast
qed


lemma normalize_category_Some: "normalize_category (Some v) = alias_category (category_text v)"
  by (simp add: normalize_category_def)

lemma category_text_Nil: "category_text [] = []"
  by code_simp

subsection \<open>Routes verified by the join\<close>

definition dict_keys :: "('k, 'v) dict \<Rightarrow> 'k set" where
  "dict_keys d = fst ` set d"

lemma keys_dict_set [simp]: "dict_keys (dict_set k v d) = insert k (dict_keys d)"
  by (simp add: dict_set_def dom_update dict_keys_def)

lemma dict_keys_Nil [simp]: "dict_keys [] = {}"
  by (simp add: dict_keys_def)

lemma dict_keys_two_sets:
  "r \<in> dict_keys (if c then dict_set k v (if c' then dict_set k v d else d)
     else if c' then dict_set k v d else d) \<Longrightarrow> r \<in> dict_keys d \<or> r = k \<and> (c \<or> c')"
  by (cases c; cases c') auto

lemma put_route_pair_keys:
  "r \<in> dict_keys (put_route_pair now canonical a b d mp) \<Longrightarrow> r \<in> dict_keys d \<or> r = mapping_route mp \<and>
     (mm_right_market_id mp = a \<and> mm_left_market_id mp = b \<or> mm_left_market_id mp = a \<and> mm_right_market_id mp = b)"
  unfolding put_route_pair_def Let_def by (rule dict_keys_two_sets)

lemma route_pairs_keys:
  assumes "r \<in> dict_keys (route_pairs now canonical mappings a b)"
  shows "\<exists>mp \<in> set mappings. mapping_route mp = r \<and>
    {mm_left_market_id mp, mm_right_market_id mp} = {a, b}"
  using assms
proof (induction mappings rule: rev_induct)
  case Nil
  then show ?case by (simp add: route_pairs_def)
next
  case (snoc mp mappings)
  have "route_pairs now canonical (mappings @ [mp]) a b =
      put_route_pair now canonical a b (route_pairs now canonical mappings a b) mp"
    by (simp add: route_pairs_def)
  with snoc.prems have "r \<in> dict_keys (put_route_pair now canonical a b (route_pairs now canonical mappings a b) mp)"
    by metis
  from put_route_pair_keys [OF this] show ?case
  proof
    assume "r \<in> dict_keys (route_pairs now canonical mappings a b)"
    from snoc.IH [OF this] show ?thesis by auto
  next
    assume mp: "r = mapping_route mp \<and> (mm_right_market_id mp = a \<and> mm_left_market_id mp = b \<or>
      mm_left_market_id mp = a \<and> mm_right_market_id mp = b)"
    then have "{mm_left_market_id mp, mm_right_market_id mp} = {a, b}" by blast
    with mp show ?thesis by (intro bexI [of _ mp]) simp_all
  qed
qed

lemma fill_metadata_routes [simp]: "jn_routes (fill_metadata md j) = jn_routes j"
  by (simp add: fill_metadata_def split: prod.splits)

lemma join_pair_routes: "jn_routes (join_pair matched j) = jn_routes j \<union> dict_keys matched"
  by (auto simp: join_pair_def dict_keys_def Let_def split: list.splits prod.splits)

lemma join_pairs_routes:
  "x \<in> jn_routes (foldl (\<lambda>j ((_, l), (_, r)). join_pair (f l r) j) j pairs) \<Longrightarrow>
     x \<in> jn_routes j \<or> (\<exists>lv l rv r. ((lv, l), (rv, r)) \<in> set pairs \<and> x \<in> dict_keys (f l r))"
proof (induction pairs arbitrary: j)
  case (Cons pr pairs)
  obtain lv l rv r where pr: "pr = ((lv, l), (rv, r))" by (metis prod.exhaust)
  from Cons.prems have "x \<in> jn_routes (foldl (\<lambda>j ((_, l), (_, r)). join_pair (f l r) j) (join_pair (f l r) j) pairs)"
    by (simp add: pr)
  from Cons.IH [OF this] consider "x \<in> jn_routes j" | "x \<in> dict_keys (f l r)"
    | "\<exists>lv l rv r. ((lv, l), (rv, r)) \<in> set pairs \<and> x \<in> dict_keys (f l r)"
    unfolding join_pair_routes by blast
  then show ?case
  proof cases
    case 2
    moreover have "((lv, l), (rv, r)) \<in> set (pr # pairs)" by (simp add: pr)
    ultimately show ?thesis by blast
  next
    case 3
    then show ?thesis by (meson list.set_intros(2))
  qed simp
qed simp

lemma join_market_routes:
  assumes "x \<in> m_verified_routes (join_market now canonical mappings m)"
  shows "x \<in> m_verified_routes m \<or> (\<exists>lv l rv r. ((lv, l), (rv, r)) \<in> set (identity_pairs (market_identities m)) \<and>
    x \<in> dict_keys (route_pairs now canonical mappings l r))"
proof -
  let ?j0 = "\<lparr>jn_routes = m_verified_routes m, jn_fingerprint = m_rules_fingerprint m,
    jn_source = m_resolution_source m, jn_semantics = m_outcome_semantics m,
    jn_category = m_category m, jn_cutoff = m_cutoff_at m\<rparr>"
  have "x \<in> jn_routes (foldl (\<lambda>j ((_, l), (_, r)). join_pair (route_pairs now canonical mappings l r) j)
      ?j0 (identity_pairs (market_identities m)))"
    using assms by (simp add: join_market_def Let_def split: option.splits if_splits)
  from join_pairs_routes [OF this] show ?thesis by simp
qed

lemma list_mappings_verified: "set (list_mappings (Some VERIFIED) t) = {mp \<in> set (dict_values t). mm_status mp = VERIFIED}"
  by (auto simp: list_mappings_def)

subsection \<open>Rows that stay verified\<close>

definition kept_verified :: "market_mapping \<Rightarrow> market_mapping \<Rightarrow> bool" where
  "kept_verified old new \<longleftrightarrow> mm_status old = VERIFIED \<and>
     mm_rules_fingerprint new = mm_rules_fingerprint old \<and> mm_verified_by new = mm_verified_by old \<and>
     mm_verified_at new = mm_verified_at old \<and> mm_canonical_market_id new = mm_canonical_market_id old \<and>
     (mm_match_strategy new = mm_match_strategy old \<or>
      mm_match_strategy old = None \<and> mm_match_strategy new = Some ''exact_id'')"

lemma mark_stale_status [simp]: "mm_status (mark_stale r) = MS_STALE"
  by (simp add: mark_stale_def)

lemma update_mapping_row_fingerprint:
  "mm_rules_fingerprint row \<noteq> fp \<Longrightarrow> mm_status (update_mapping_row now seen cid fp strategy row) = MS_STALE"
  by (simp add: update_mapping_row_def Let_def)

lemma update_mapping_row_same:
  "mm_rules_fingerprint row = fp \<Longrightarrow> strategy = None \<or> mm_match_strategy row = strategy \<Longrightarrow>
     update_mapping_row now seen cid fp strategy row =
       (if seen then row\<lparr>mm_last_discovered_at := Some now\<rparr> else row)"
  by (auto simp: update_mapping_row_def Let_def)

lemma update_mapping_row_strategy:
  "mm_rules_fingerprint row = fp \<Longrightarrow> mm_match_strategy row \<noteq> Some st \<Longrightarrow>
     update_mapping_row now seen cid fp (Some st) row =
       (let r = (if mm_status row = VERIFIED \<and> strategy_regressed row st then mark_stale row else row)
              \<lparr>mm_match_strategy := Some st\<rparr>
        in (if seen then r\<lparr>mm_last_discovered_at := Some now\<rparr> else r)\<lparr>mm_updated_at := Some now\<rparr>)"
  by (simp add: update_mapping_row_def Let_def)

lemma update_mapping_row_verified:
  assumes "mm_status (update_mapping_row now seen cid fp strategy row) = VERIFIED"
  shows "kept_verified row (update_mapping_row now seen cid fp strategy row) \<and> fp = mm_rules_fingerprint row"
proof -
  have fp: "mm_rules_fingerprint row = fp"
    using assms update_mapping_row_fingerprint [of row fp] by (metis mapping_status.distinct(9))
  show ?thesis
  proof (cases "strategy = None \<or> mm_match_strategy row = strategy")
    case True
    show ?thesis
      using assms by (simp add: update_mapping_row_same [OF fp True] kept_verified_def fp split: if_splits)
  next
    case False
    then obtain st where st: "strategy = Some st" "mm_match_strategy row \<noteq> Some st" by auto
    then have "mm_status row = VERIFIED" "\<not> strategy_regressed row st"
      using assms by (auto simp: st(1) update_mapping_row_strategy [OF fp st(2)] Let_def split: if_splits)
    then show ?thesis
      using st(2) by (auto simp: st(1) update_mapping_row_strategy [OF fp st(2)] Let_def kept_verified_def
          strategy_regressed_def fp split: option.splits)
  qed
qed

lemma kept_verified_trans: "kept_verified x y \<Longrightarrow> kept_verified y z \<Longrightarrow> kept_verified x z"
  by (auto simp: kept_verified_def)

definition pair_id :: "(string \<Rightarrow> string) \<Rightarrow> (string \<times> string) \<times> (string \<times> string) \<Rightarrow> string" where
  "pair_id digest pair = (case pair of ((lv, l), (rv, r)) \<Rightarrow> stable_id digest [lv, l, rv, r])"

lemma upsert_pair_get:
  "dict_get (upsert_pair digest now seen cid fp strategy pair t) mid =
     (if mid = pair_id digest pair
      then Some (case dict_get t mid of None \<Rightarrow> new_mapping_row now seen mid cid fp strategy pair
        | Some row \<Rightarrow> update_mapping_row now seen cid fp strategy row)
      else dict_get t mid)"
  by (auto simp: upsert_pair_def pair_id_def Let_def split: prod.splits option.splits)

text \<open>The writes of an upsert in order: the item and the pair of each.\<close>

definition upsert_writes :: "prepared list \<Rightarrow> (prepared \<times> (string \<times> string) \<times> (string \<times> string)) list" where
  "upsert_writes items = concat (map (\<lambda>i. map (\<lambda>pr. (i, pr)) (identity_pairs (pp_identities i))) items)"

lemma upsert_mappings_writes:
  "upsert_mappings digest now seen items t =
     foldl (\<lambda>t (i, pr). upsert_pair digest now seen (pp_canonical_id i) (pp_fingerprint i) (pp_strategy i) pr t)
       t (upsert_writes items)"
proof -
  have inner: "foldl (\<lambda>t (i, pr). upsert_pair digest now seen (pp_canonical_id i) (pp_fingerprint i) (pp_strategy i) pr t) t
      (map (\<lambda>pr. (i, pr)) prs) =
    foldl (\<lambda>t pr. upsert_pair digest now seen (pp_canonical_id i) (pp_fingerprint i) (pp_strategy i) pr t) t prs"
    for i prs t
    by (induction prs arbitrary: t) simp_all
  show ?thesis
    unfolding upsert_mappings_def upsert_writes_def by (induction items arbitrary: t) (simp_all add: inner)
qed

lemma upsert_verified:
  "dict_get (foldl (\<lambda>t (i, pr). upsert_pair digest now seen (pp_canonical_id i) (pp_fingerprint i) (pp_strategy i) pr t)
     t ws) mid = Some row \<Longrightarrow> mm_status row = VERIFIED \<Longrightarrow>
   (\<exists>old. dict_get t mid = Some old \<and> mm_status old = VERIFIED \<and> kept_verified old row) \<and>
   (\<forall>(i, pr) \<in> set ws. pair_id digest pr = mid \<longrightarrow> pp_fingerprint i = mm_rules_fingerprint row)"
proof (induction ws arbitrary: t)
  case Nil
  then show ?case by (auto simp: kept_verified_def)
next
  case (Cons w ws)
  obtain i pr where w: "w = (i, pr)" by (cases w)
  let ?t = "upsert_pair digest now seen (pp_canonical_id i) (pp_fingerprint i) (pp_strategy i) pr t"
  from Cons.IH [of ?t] Cons.prems obtain mid_row where
    mid: "dict_get ?t mid = Some mid_row" "mm_status mid_row = VERIFIED" "kept_verified mid_row row"
    and rest: "\<forall>(i, pr) \<in> set ws. pair_id digest pr = mid \<longrightarrow> pp_fingerprint i = mm_rules_fingerprint row"
    by (auto simp: w)
  show ?case
  proof (cases "mid = pair_id digest pr")
    case False
    then show ?thesis using mid rest by (auto simp: w upsert_pair_get)
  next
    case True
    obtain old where old: "dict_get t mid = Some old"
      using mid(1,2) True by (cases "dict_get t mid")
        (auto simp: upsert_pair_get new_mapping_row_def split: prod.splits)
    have row: "mid_row = update_mapping_row now seen (pp_canonical_id i) (pp_fingerprint i) (pp_strategy i) old"
      using mid(1) True old by (simp add: upsert_pair_get)
    have "kept_verified old mid_row" "pp_fingerprint i = mm_rules_fingerprint old"
      using update_mapping_row_verified mid(2) unfolding row by blast+
    then show ?thesis
      using old mid(3) rest kept_verified_trans [of old mid_row row] by (auto simp: w kept_verified_def)
  qed
qed


section \<open>Properties\<close>

text \<open>C9. No live trading without an approval: a market that the engine, in a mode that submits orders,
  accepts for a route after the join either carried that route in its own approved routes before the
  join (a static market whose configuration lists it), or is covered by a VERIFIED row of the
  mapping table whose route is that route and whose two market ids are the ids of the market on
  two of its venues. A market that discovery delivered without approved routes needs the row.\<close>

theorem live_route_is_verified:
  assumes "submits_orders mode"
    and "is_live_mapping_eligible (join_market now canonical (list_mappings (Some VERIFIED) t) m) mode (Some route)"
  shows "route \<in> m_verified_routes m \<or>
    (\<exists>mp \<in> set (dict_values t). mm_status mp = VERIFIED \<and> mapping_route mp = route \<and>
      (\<exists>lv l rv r. ((lv, l), (rv, r)) \<in> set (identity_pairs (market_identities m)) \<and>
         {mm_left_market_id mp, mm_right_market_id mp} = {l, r}))"
proof (cases "route \<in> m_verified_routes m")
  case False
  have "route \<in> m_verified_routes (join_market now canonical (list_mappings (Some VERIFIED) t) m)"
    using assms by (simp add: is_live_mapping_eligible_def)
  from join_market_routes [OF this] False obtain lv l rv r where
    pr: "((lv, l), (rv, r)) \<in> set (identity_pairs (market_identities m))"
    and "route \<in> dict_keys (route_pairs now canonical (list_mappings (Some VERIFIED) t) l r)"
    by auto
  from route_pairs_keys [OF this(2)] obtain mp where
    "mp \<in> set (list_mappings (Some VERIFIED) t)" "mapping_route mp = route"
    "{mm_left_market_id mp, mm_right_market_id mp} = {l, r}" by blast
  then have "mp \<in> set (dict_values t)" "mm_status mp = VERIFIED"
    by (simp_all add: list_mappings_verified)
  with \<open>mapping_route mp = route\<close> \<open>{mm_left_market_id mp, mm_right_market_id mp} = {l, r}\<close> pr show ?thesis
    by blast
qed simp

definition sample_mapping :: market_mapping where
  "sample_mapping = \<lparr>mm_mapping_id = ''m1'', mm_canonical_market_id = ''c1'', mm_left_venue = ''Polymarket'',
     mm_left_market_id = ''0x11'', mm_right_venue = ''Predict.fun'', mm_right_market_id = ''77'',
     mm_status = VERIFIED, mm_rules_fingerprint = ''fp'', mm_match_strategy = Some ''exact_id'',
     mm_verified_at = Some (Aware 0), mm_verified_by = Some ''op'', mm_last_discovered_at = None,
     mm_updated_at = None\<rparr>"

definition sample_discovered :: market_spec where
  "sample_discovered = sample_market\<lparr>m_polymarket_market_id := Some ''0x11'', m_predict_fun_market_id := Some ''77''\<rparr>"

theorem live_route_is_verified_witness:
  "\<exists>mp \<in> set (dict_values [(''m1'', sample_mapping)]). mm_status mp = VERIFIED \<and>
     mapping_route mp = ''polymarket_predict'' \<and>
     (\<exists>lv l rv r. ((lv, l), (rv, r)) \<in> set (identity_pairs (market_identities sample_discovered)) \<and>
       {mm_left_market_id mp, mm_right_market_id mp} = {l, r})"
proof -
  have "submits_orders LIVE" by (simp add: submits_orders_def)
  moreover have "is_live_mapping_eligible (join_market (Aware 0) [(''c1'', (''AP'', ''winner'', ''Sports'', Aware 9))]
      (list_mappings (Some VERIFIED) [(''m1'', sample_mapping)]) sample_discovered) LIVE (Some ''polymarket_predict'')"
    by code_simp
  moreover have "m_verified_routes sample_discovered = {}"
    by (simp add: sample_discovered_def sample_market_def market_spec_default_def)
  ultimately show ?thesis using live_route_is_verified by blast
qed

text \<open>C10. Rules that changed are never traded on an old approval: a mapping that is VERIFIED after a
  batch of discovered markets was VERIFIED before it, by the same operator and with the same
  fingerprint, every market of the batch that names the pair carries that fingerprint, and its match strategy
  is unchanged or was first recorded as an exact id. Discovery itself never verifies.\<close>

theorem changed_rules_never_stay_verified:
  assumes "dict_get (upsert_mappings digest now mark_seen items t) mid = Some row" and "mm_status row = VERIFIED"
  shows "(\<exists>old. dict_get t mid = Some old \<and> mm_status old = VERIFIED \<and>
      mm_rules_fingerprint row = mm_rules_fingerprint old \<and> mm_verified_by row = mm_verified_by old \<and>
      (mm_match_strategy row = mm_match_strategy old \<or>
       mm_match_strategy old = None \<and> mm_match_strategy row = Some ''exact_id'')) \<and>
    (\<forall>item \<in> set items. \<forall>lv l rv r. ((lv, l), (rv, r)) \<in> set (identity_pairs (pp_identities item)) \<longrightarrow>
      stable_id digest [lv, l, rv, r] = mid \<longrightarrow> pp_fingerprint item = mm_rules_fingerprint row)"
proof -
  note v = upsert_verified [OF assms(1) [unfolded upsert_mappings_writes] assms(2)]
  have "pp_fingerprint item = mm_rules_fingerprint row"
    if "item \<in> set items" "((lv, l), (rv, r)) \<in> set (identity_pairs (pp_identities item))"
      "stable_id digest [lv, l, rv, r] = mid" for item lv l rv r
  proof -
    have "(item, ((lv, l), (rv, r))) \<in> set (upsert_writes items)"
      using that by (auto simp: upsert_writes_def)
    with v that(3) show ?thesis by (auto simp: pair_id_def)
  qed
  moreover have "\<exists>old. dict_get t mid = Some old \<and> mm_status old = VERIFIED \<and>
      mm_rules_fingerprint row = mm_rules_fingerprint old \<and> mm_verified_by row = mm_verified_by old \<and>
      (mm_match_strategy row = mm_match_strategy old \<or>
       mm_match_strategy old = None \<and> mm_match_strategy row = Some ''exact_id'')"
    using v by (auto simp: kept_verified_def)
  ultimately show ?thesis by blast
qed

definition sample_prepared :: prepared where
  "sample_prepared = \<lparr>pp_identities = [(''Polymarket'', ''0x11''), (''Predict.fun'', ''77'')],
     pp_canonical_id = ''c1'', pp_fingerprint = ''fp'', pp_strategy = Some ''exact_id'',
     pp_cache_key = ''k'', pp_signature = ''s''\<rparr>"

theorem changed_rules_never_stay_verified_witness:
  "pp_fingerprint sample_prepared = mm_rules_fingerprint sample_mapping"
proof -
  let ?t = "upsert_mappings (\<lambda>s. ''m1'') (Aware 5) False [sample_prepared] [(''m1'', sample_mapping)]"
  have "dict_get ?t ''m1'' = Some sample_mapping" by code_simp
  from changed_rules_never_stay_verified [OF this] show ?thesis
    by (simp add: sample_mapping_def sample_prepared_def stable_id_def)
qed

text \<open>Route names and venue labels agree everywhere: for every supported route the venue labels of
  \<open>route_venue_labels\<close> lead back to the route through \<open>route_key\<close>, through \<open>route_name\<close> in both orders, and
  through the labels of a market specification.\<close>

theorem route_names_round_trip:
  assumes "route \<in> set EXECUTION_ROUTES"
  shows "\<exists>a b. route_venue_labels route = Inr (a, b) \<and> route_key a b = route \<and>
    route_name a b = route \<and> route_name b a = route \<and>
    (\<forall>m. m_venue_a_label m = a \<and> m_venue_b_label m = b \<longrightarrow> execution_route_for_market m = Inr route)"
proof -
  have "list_all (\<lambda>route. case dict_get ROUTE_VENUE_LABELS route of
      Some (a, b) \<Rightarrow> route_key a b = route \<and> route_name a b = route \<and> route_name b a = route \<and>
        dict_get VENUE_LABELS_TO_ROUTE (a, b) = Some route
    | None \<Rightarrow> False) EXECUTION_ROUTES"
    by code_simp
  with assms have "case dict_get ROUTE_VENUE_LABELS route of
      Some (a, b) \<Rightarrow> route_key a b = route \<and> route_name a b = route \<and> route_name b a = route \<and>
        dict_get VENUE_LABELS_TO_ROUTE (a, b) = Some route
    | None \<Rightarrow> False"
    by (simp add: list_all_iff)
  then obtain a b where "dict_get ROUTE_VENUE_LABELS route = Some (a, b)" "route_key a b = route"
    "route_name a b = route" "route_name b a = route" "dict_get VENUE_LABELS_TO_ROUTE (a, b) = Some route"
    by (auto split: option.splits)
  then show ?thesis by (auto simp: route_venue_labels_def execution_route_for_market_def)
qed

theorem route_names_round_trip_witness:
  "\<exists>a b. route_venue_labels ''sx_opinion'' = Inr (a, b) \<and> route_name b a = ''sx_opinion''"
  using route_names_round_trip [of "''sx_opinion''"] by (auto simp: EXECUTION_ROUTES_def)

text \<open>Category normalisation is idempotent: a category that was normalised once (trimmed, lower case,
  one blank between words, aliases resolved) is normalised, so the filters, the eligibility test and
  the stored rows agree on it.\<close>

lemma normalize_category_idempotent:
  "normalize_category (normalize_category v) = normalize_category v"
proof (cases "normalize_category v")
  case None
  then show ?thesis by (simp add: normalize_category_def)
next
  case (Some c)
  then obtain w where w: "alias_category (category_text w) = Some c"
    by (auto simp: normalize_category_def split: option.splits)
  have "category_text c = c \<and> alias_category c = Some c"
  proof (cases "map_of CATEGORY_ALIASES (category_text w)")
    case None
    with w have "c = category_text w" by (auto simp: alias_category_def split: if_splits)
    with w show ?thesis by (simp add: category_text_idem)
  next
    case (Some d)
    with w alias_fixed [OF Some] show ?thesis by (simp add: alias_category_def)
  qed
  then show ?thesis by (simp add: Some normalize_category_Some)
qed

end
