(* ===== verification/Repository.thy ===== *)
theory Repository
  imports Ledger Mapping_Rules Risk_Control "HOL-Library.Multiset"
begin

text \<open>
  The durable repository of \<^verbatim>\<open>database.py\<close>: order intents, venue orders, fills, positions, redemption intents,
  and the risk row; the theory Evidence adds the operations on reconciliation runs, external
  account baselines and balance snapshots. Every operation is one
  transaction: it returns the new state and its result, or an error and no change. Primary keys,
  foreign keys and unique indexes are checks of the operations that write. The lemmas show that
  retries never count twice, that foreign keys and unique indexes hold in every reachable state,
  that the positions table refines the ledger in memory and that no open intent is forgotten.
\<close>

section \<open>State\<close>

record intent_row =
  ir_intent :: order_intent
  ir_last_error :: "string option"

record reconciliation_run =
  run_instance :: string
  run_result :: reconciliation_result

text \<open>
  A row of \<^verbatim>\<open>external_account_baselines\<close> with its items; the kind of an item is its text in the table,
  and a position has a quantity while a fill reference has none.
\<close>

record baseline_item =
  bi_type :: string
  bi_key :: string
  bi_quantity :: "dec option"

record baseline_row =
  br_manifest :: string
  br_instance :: string
  br_venue :: string
  br_fingerprint :: string
  br_operator :: string
  br_captured_at :: datetime
  br_revoked_at :: "datetime option"
  br_revoked_by :: "string option"
  br_items :: "baseline_item list"

record balance_snapshot =
  bs_venue :: string
  bs_asset :: string
  bs_balance :: dec
  bs_captured_at :: datetime

text \<open>
  The tables are insertion-ordered dictionaries by primary key; \<open>db_runs\<close> and
  \<open>db_balances\<close> are in the order of their autoincremented ids. The scope of the reconciliation gate is process state of the repository.
\<close>

record repository =
  db_instance :: string
  db_enabled_routes :: "string list"
  db_reconciliation_venues :: "string list"
  db_scope_configured :: bool
  db_intents :: "(string, intent_row) dict"
  db_venue_orders :: "(string, venue_order) dict"
  db_fills :: "(string, fill_record) dict"
  db_positions :: "(string, json) dict"
  db_redemptions :: "(string, redemption_intent) dict"
  db_risk :: "(string, risk_state) dict"
  db_runs :: "reconciliation_run list"
  db_baselines :: "(string, baseline_row) dict"
  db_balances :: "balance_snapshot list"

type_synonym 'a tx = "('a \<times> repository) res"

section \<open>Order intents\<close>

definition LEGACY_ORDER_INTENT_ROUTE_ALIASES :: "(string \<times> string) list" where
  "LEGACY_ORDER_INTENT_ROUTE_ALIASES =
     [(''polymarket_predict'', ''Polymarket:Predict.fun''), (''polymarket_sx'', ''Polymarket:SX Bet''),
      (''polymarket_myriad'', ''Polymarket:Myriad''), (''predict_myriad'', ''Predict.fun:Myriad''),
      (''predict_sx'', ''Predict.fun:SX Bet''), (''sx_myriad'', ''SX Bet:Myriad''),
      (''polymarket_opinion'', ''Polymarket:Opinion''), (''predict_opinion'', ''Predict.fun:Opinion''),
      (''sx_opinion'', ''SX Bet:Opinion''), (''opinion_myriad'', ''Opinion:Myriad'')]"

definition order_intent_routes :: "repository \<Rightarrow> string list" where
  "order_intent_routes db = fromkeys (concat (map (\<lambda>r.
     [r, case map_of LEGACY_ORDER_INTENT_ROUTE_ALIASES r of Some a \<Rightarrow> a | None \<Rightarrow> r]) (db_enabled_routes db)))"

definition create_order_intent :: "order_intent \<Rightarrow> repository \<Rightarrow> unit tx" where
  "create_order_intent i db =
     (if dict_get (db_intents db) (oi_client_order_id i) \<noteq> None
      then Inl (IntegrityError ''order_intents_pkey'')
      else Inr ((), db\<lparr>db_intents := dict_set (oi_client_order_id i)
             \<lparr>ir_intent = i, ir_last_error = None\<rparr> (db_intents db)\<rparr>))"

definition update_order_intent ::
  "datetime \<Rightarrow> string \<Rightarrow> order_intent_status \<Rightarrow> string option \<Rightarrow> string option \<Rightarrow> repository \<Rightarrow> unit tx" where
  "update_order_intent now cid status venue_order_id error db =
     (case dict_get (db_intents db) cid of
        None \<Rightarrow> Inl (KeyError (''Unknown client order id: '' @ cid))
      | Some row \<Rightarrow> Inr ((), db\<lparr>db_intents := dict_set cid
          \<lparr>ir_intent = (ir_intent row)\<lparr>oi_status := status,
             oi_venue_order_id := (if venue_order_id \<noteq> None then venue_order_id else oi_venue_order_id (ir_intent row)),
             oi_updated_at := now\<rparr>,
           ir_last_error = error\<rparr> (db_intents db)\<rparr>))"

definition in_scope :: "repository \<Rightarrow> order_intent \<Rightarrow> bool" where
  "in_scope db i \<longleftrightarrow> order_intent_routes db = [] \<or> oi_route i \<in> set (order_intent_routes db)"

definition unresolved_order_intents :: "repository \<Rightarrow> order_intent list" where
  "unresolved_order_intents db =
     filter (\<lambda>i. oi_status i \<notin> {OI_FILLED, OI_CANCELLED} \<and> in_scope db i)
       (map ir_intent (dict_values (db_intents db)))"

definition order_intents_for_fill_reconciliation :: "string \<Rightarrow> datetime option \<Rightarrow> repository \<Rightarrow> order_intent list" where
  "order_intents_for_fill_reconciliation venue since db =
     sort_key (\<lambda>i. as_utc (oi_created_at i))
       (filter (\<lambda>i. oi_venue i = venue \<and> oi_venue_order_id i \<noteq> None \<and> in_scope db i \<and>
          (case since of None \<Rightarrow> True
           | Some t \<Rightarrow> as_utc t \<le> as_utc (oi_created_at i) \<or> as_utc t \<le> as_utc (oi_updated_at i)))
          (map ir_intent (dict_values (db_intents db))))"

definition client_order_id_for_venue_order :: "string \<Rightarrow> string \<Rightarrow> repository \<Rightarrow> string option" where
  "client_order_id_for_venue_order venue vid db =
     (let rows = map ir_intent (dict_values (db_intents db)) in
      case find (\<lambda>i. oi_venue i = venue \<and> oi_venue_order_id i = Some vid) rows of
        Some i \<Rightarrow> Some (oi_client_order_id i)
      | None \<Rightarrow>
          if CHR '':'' \<in> set vid then None
          else map_option oi_client_order_id (find (\<lambda>i. oi_venue i = venue \<and>
                 (case oi_venue_order_id i of Some v \<Rightarrow> ends_with v ('':'' @ vid) | None \<Rightarrow> False)) rows))"

definition known_venue_order_ids :: "string \<Rightarrow> string list \<Rightarrow> repository \<Rightarrow> string set" where
  "known_venue_order_ids venue ids db =
     {v \<in> set ids. v \<noteq> [] \<and> list_ex (\<lambda>r. oi_venue (ir_intent r) = venue \<and>
        oi_venue_order_id (ir_intent r) = Some v) (dict_values (db_intents db))}"

definition known_client_order_ids :: "string \<Rightarrow> string list \<Rightarrow> repository \<Rightarrow> string set" where
  "known_client_order_ids venue ids db =
     {c \<in> set ids. c \<noteq> [] \<and> list_ex (\<lambda>r. oi_venue (ir_intent r) = venue \<and>
        oi_client_order_id (ir_intent r) = c) (dict_values (db_intents db))}"

definition durable_order_token_ids :: "string \<Rightarrow> repository \<Rightarrow> string set" where
  "durable_order_token_ids venue db =
     set (map (\<lambda>r. oi_token_id (ir_intent r))
       (filter (\<lambda>r. oi_venue (ir_intent r) = venue) (dict_values (db_intents db))))"

section \<open>Venue orders and fills\<close>

text \<open>The foreign key to \<^verbatim>\<open>order_intents\<close> and the unique client order id of \<^verbatim>\<open>venue_orders\<close>.\<close>

definition references_intent :: "string \<Rightarrow> (string, intent_row) dict \<Rightarrow> bool" where
  "references_intent cid intents \<longleftrightarrow> dict_get intents cid \<noteq> None"

definition upsert_venue_order :: "venue_order \<Rightarrow> repository \<Rightarrow> unit tx" where
  "upsert_venue_order vo db =
     (if \<not> references_intent (vo_client_order_id vo) (db_intents db) then Inl (IntegrityError ''venue_orders_client_order_id_fkey'')
      else if list_ex (\<lambda>o'. vo_client_order_id o' = vo_client_order_id vo \<and> vo_venue_order_id o' \<noteq> vo_venue_order_id vo)
                (dict_values (db_venue_orders db))
        then Inl (IntegrityError ''venue_orders_client_order_id_key'')
      else Inr ((), db\<lparr>db_venue_orders := dict_set (vo_venue_order_id vo) vo (db_venue_orders db)\<rparr>))"

definition insert_fill :: "fill_record \<Rightarrow> repository \<Rightarrow> bool tx" where
  "insert_fill f db =
     (if dict_get (db_fills db) (fr_fill_id f) \<noteq> None then Inr (False, db)
      else if \<not> references_intent (fr_client_order_id f) (db_intents db) then Inl (IntegrityError ''fills_client_order_id_fkey'')
      else Inr (True, db\<lparr>db_fills := dict_set (fr_fill_id f) f (db_fills db)\<rparr>))"

section \<open>Positions\<close>

definition save_position :: "string \<Rightarrow> open_position \<Rightarrow> repository \<Rightarrow> repository" where
  "save_position key p db = db\<lparr>db_positions := dict_set key (position_to_json p) (db_positions db)\<rparr>"

definition remove_position :: "string \<Rightarrow> repository \<Rightarrow> repository" where
  "remove_position key db = db\<lparr>db_positions := dict_pop key (db_positions db)\<rparr>"

definition position_route :: "open_position \<Rightarrow> string" where
  "position_route p = route_key (m_venue_a_label (p_market p)) (m_venue_b_label (p_market p))"

text \<open>
  \<^verbatim>\<open>load_position_entries\<close>: the query names no order, so \<open>decode_entries\<close> takes the rows in the order in
  which the database returns them; \<open>load_position_entries\<close> is the run that returns them in the order of
  the table.
\<close>

definition decode_entries :: "string list \<Rightarrow> (string \<times> json) list \<Rightarrow> (string \<times> open_position) list res" where
  "decode_entries enabled_routes rows =
     rbind (rmap (\<lambda>(key, payload). rbind (position_from_json payload) (\<lambda>p. Inr (key, p))) rows)
       (\<lambda>ps. Inr (if enabled_routes = [] then ps
                else filter (\<lambda>(_, p). position_route p \<in> set enabled_routes) ps))"

lemma decode_entries_Nil [simp]: "decode_entries enabled_routes [] = Inr []"
  by (simp add: decode_entries_def)

definition load_position_entries :: "repository \<Rightarrow> (string \<times> open_position) list res" where
  "load_position_entries db = decode_entries (db_enabled_routes db) (db_positions db)"

definition position_after_residual_exit ::
  "open_position \<Rightarrow> string \<Rightarrow> string \<Rightarrow> dec \<Rightarrow> dec \<Rightarrow> dec \<Rightarrow> dec \<Rightarrow> open_position res" where
  "position_after_residual_exit p venue oid requested closed_qty avg residual =
     rbind (mk_snapshot \<lparr>rs_venue_order_id = oid, rs_requested_contracts = requested, rs_closed_contracts = closed_qty,
              rs_exit_proceeds_usd = dmul closed_qty avg, rs_residual_contracts = residual\<rparr>)
       (\<lambda>s. apply_residual_exit_snapshot p venue s)"

definition record_residual_exit_exposure ::
  "string \<Rightarrow> string \<Rightarrow> dec \<Rightarrow> execution_report \<Rightarrow> dec \<Rightarrow> repository \<Rightarrow> bool tx" where
  "record_residual_exit_exposure key venue requested report residual db =
     (case dict_get (db_positions db) key of
        None \<Rightarrow> Inl (RuntimeError (''position '' @ key @ '' is missing for residual exit reconciliation''))
      | Some payload \<Rightarrow>
          rbind (position_from_json payload) (\<lambda>p.
          rbind (position_after_residual_exit p venue (er_order_id report) requested (er_amount_filled report)
                  (er_avg_price report) residual) (\<lambda>updated.
            Inr (updated \<noteq> p, db\<lparr>db_positions := dict_set key (position_to_json updated) (db_positions db)\<rparr>))))"

section \<open>Redemption intents\<close>

definition same_redemption :: "redemption_intent \<Rightarrow> redemption_intent \<Rightarrow> bool" where
  "same_redemption a b \<longleftrightarrow> ri_position_key a = ri_position_key b \<and> ri_venue a = ri_venue b \<and>
     ri_condition_id a = ri_condition_id b"

definition create_redemption_intent :: "redemption_intent \<Rightarrow> repository \<Rightarrow> bool \<times> repository" where
  "create_redemption_intent i db =
     (if dict_get (db_redemptions db) (ri_redemption_id i) \<noteq> None \<or>
         list_ex (same_redemption i) (dict_values (db_redemptions db))
      then (False, db)
      else (True, db\<lparr>db_redemptions := dict_set (ri_redemption_id i) i (db_redemptions db)\<rparr>))"

definition get_redemption_intent :: "string \<Rightarrow> string \<Rightarrow> string \<Rightarrow> repository \<Rightarrow> redemption_intent option" where
  "get_redemption_intent key venue condition db =
     find (\<lambda>i. ri_position_key i = key \<and> ri_venue i = venue \<and> ri_condition_id i = condition)
       (dict_values (db_redemptions db))"

definition update_redemption_intent ::
  "datetime \<Rightarrow> string \<Rightarrow> redemption_status \<Rightarrow> string option \<Rightarrow> string option \<Rightarrow> repository \<Rightarrow> redemption_intent tx" where
  "update_redemption_intent now rid status tx_hash error db =
     (case dict_get (db_redemptions db) rid of
        None \<Rightarrow> Inl (KeyError (''Unknown redemption id: '' @ rid))
      | Some row \<Rightarrow>
          (let row' = row\<lparr>ri_status := status, ri_tx_hash := (if tx_hash \<noteq> None then tx_hash else ri_tx_hash row),
                 ri_last_error := error, ri_updated_at := now\<rparr>
           in Inr (row', db\<lparr>db_redemptions := dict_set rid row' (db_redemptions db)\<rparr>)))"

text \<open>The venues of the row behind a payload are those of the position it encodes.\<close>

definition allowed_position_keys :: "repository \<Rightarrow> string set" where
  "allowed_position_keys db = set (map fst (filter (\<lambda>(_, payload). case position_from_json payload of
       Inr p \<Rightarrow> position_route p \<in> set (db_enabled_routes db) | Inl _ \<Rightarrow> False) (db_positions db)))"

definition unresolved_redemption_intents :: "repository \<Rightarrow> redemption_intent list" where
  "unresolved_redemption_intents db =
     filter (\<lambda>i. db_enabled_routes db = [] \<or> ri_position_key i \<in> allowed_position_keys db)
       (sort_key (\<lambda>i. as_utc (ri_created_at i))
         (filter (\<lambda>i. ri_status i \<notin> {RD_CONFIRMED, RD_MANUAL_REVIEW}) (dict_values (db_redemptions db))))"

section \<open>The risk row\<close>

definition save_risk_state :: "risk_state \<Rightarrow> repository \<Rightarrow> repository" where
  "save_risk_state s db = db\<lparr>db_risk := dict_set (db_instance db) s (db_risk db)\<rparr>"

definition load_risk_state :: "repository \<Rightarrow> risk_state option" where
  "load_risk_state db = dict_get (db_risk db) (db_instance db)"

section \<open>The two copies of the positions\<close>

text \<open>
  \<^verbatim>\<open>_add_position\<close> and \<^verbatim>\<open>_remove_position\<close> of \<^verbatim>\<open>execution.py\<close> write the table first and then the
  ledger in memory.
\<close>

definition add_position :: "open_position \<Rightarrow> repository \<times> position_ledger \<Rightarrow> repository \<times> position_ledger" where
  "add_position p s = (save_position (position_key (p_market p)) p (fst s), ledger_add p (snd s))"

definition drop_position :: "string \<Rightarrow> repository \<times> position_ledger \<Rightarrow> repository \<times> position_ledger" where
  "drop_position key s = (remove_position key (fst s), ledger_remove key (snd s))"

datatype book_op = AddPosition open_position | RemovePosition string

fun run_book :: "book_op list \<Rightarrow> repository \<times> position_ledger \<Rightarrow> repository \<times> position_ledger" where
  "run_book [] s = s"
| "run_book (AddPosition p # ops) s = run_book ops (add_position p s)"
| "run_book (RemovePosition key # ops) s = run_book ops (drop_position key s)"

text \<open>A feed of fills: a delivery that the repository refuses leaves it as it was.\<close>

definition deliver_fill :: "fill_record \<Rightarrow> repository \<Rightarrow> repository" where
  "deliver_fill f db = (case insert_fill f db of Inr (_, db') \<Rightarrow> db' | Inl _ \<Rightarrow> db)"

definition deliver_fills :: "fill_record list \<Rightarrow> repository \<Rightarrow> repository" where
  "deliver_fills fs db = foldl (\<lambda>db f. deliver_fill f db) db fs"

section \<open>Steps\<close>

text \<open>
  The committed transactions, in any order; a transaction that raises is rolled back and leaves
  no step. \<open>empty_tables\<close> is a fresh schema.
\<close>

inductive repo_step :: "repository \<Rightarrow> repository \<Rightarrow> bool" where
  intent_created: "create_order_intent i db = Inr ((), db') \<Longrightarrow> repo_step db db'"
| intent_updated: "update_order_intent now cid st vid err db = Inr ((), db') \<Longrightarrow> repo_step db db'"
| order_upserted: "upsert_venue_order vo db = Inr ((), db') \<Longrightarrow> repo_step db db'"
| fill_inserted: "insert_fill f db = Inr (b, db') \<Longrightarrow> repo_step db db'"
| position_saved: "repo_step db (save_position key p db)"
| position_removed: "repo_step db (remove_position key db)"
| residual_recorded: "record_residual_exit_exposure key venue requested report residual db = Inr (b, db') \<Longrightarrow> repo_step db db'"
| redemption_created: "create_redemption_intent ri db = (b, db') \<Longrightarrow> repo_step db db'"
| redemption_updated: "update_redemption_intent now rid rst tx err db = Inr (row, db') \<Longrightarrow> repo_step db db'"
| risk_saved: "repo_step db (save_risk_state rk db)"

definition empty_tables :: "repository \<Rightarrow> bool" where
  "empty_tables db \<longleftrightarrow> db_intents db = [] \<and> db_venue_orders db = [] \<and> db_fills db = [] \<and>
     db_positions db = [] \<and> db_redemptions db = [] \<and> db_risk db = [] \<and> db_runs db = [] \<and> db_baselines db = [] \<and> db_balances db = []"

section \<open>Lemmas\<close>

subsection \<open>Referential integrity\<close>

definition repository_ok :: "repository \<Rightarrow> bool" where
  "repository_ok db \<longleftrightarrow>
     dict_ok (db_intents db) \<and> dict_ok (db_venue_orders db) \<and> dict_ok (db_fills db) \<and>
     dict_ok (db_positions db) \<and> dict_ok (db_redemptions db) \<and>
     table_all (\<lambda>cid row. oi_client_order_id (ir_intent row) = cid) (db_intents db) \<and>
     table_all (\<lambda>k f. fr_fill_id f = k \<and> references_intent (fr_client_order_id f) (db_intents db)) (db_fills db) \<and>
     table_all (\<lambda>k vo. vo_venue_order_id vo = k \<and> references_intent (vo_client_order_id vo) (db_intents db) \<and>
       table_all (\<lambda>k' vo'. vo_client_order_id vo' = vo_client_order_id vo \<longrightarrow> k' = k) (db_venue_orders db))
       (db_venue_orders db) \<and>
     table_all (\<lambda>k r. ri_redemption_id r = k \<and>
       table_all (\<lambda>k' r'. same_redemption r r' \<longrightarrow> k' = k) (db_redemptions db)) (db_redemptions db)"

lemma repository_ok_empty: "empty_tables db \<Longrightarrow> repository_ok db"
  by (simp add: empty_tables_def repository_ok_def)

lemma repository_ok_unique:
  assumes "repository_ok db"
  shows "dict_get (db_venue_orders db) k = Some vo \<Longrightarrow> dict_get (db_venue_orders db) k' = Some vo' \<Longrightarrow>
      vo_client_order_id vo' = vo_client_order_id vo \<Longrightarrow> k' = k"
    and "dict_get (db_redemptions db) k = Some r \<Longrightarrow> dict_get (db_redemptions db) k' = Some r' \<Longrightarrow>
      same_redemption r r' \<Longrightarrow> k' = k"
  using assms by (auto simp: repository_ok_def table_all_def)

lemma same_redemption_refl [simp]: "same_redemption r r"
  by (simp add: same_redemption_def)

lemma references_intent_set:
  "references_intent cid t \<Longrightarrow> references_intent cid (dict_set k row t)"
  by (auto simp: references_intent_def)

lemma repository_ok_intent:
  assumes "repository_ok db" and "oi_client_order_id (ir_intent row) = k"
  shows "repository_ok (db\<lparr>db_intents := dict_set k row (db_intents db)\<rparr>)"
proof -
  have "table_all (\<lambda>cid row. oi_client_order_id (ir_intent row) = cid) (dict_set k row (db_intents db))"
    using assms by (auto simp: repository_ok_def)
  moreover have "table_all (\<lambda>k' f. fr_fill_id f = k' \<and>
      references_intent (fr_client_order_id f) (dict_set k row (db_intents db))) (db_fills db)"
    using assms by (auto simp: repository_ok_def intro: references_intent_set elim!: table_all_mono)
  moreover have "table_all (\<lambda>k' vo. vo_venue_order_id vo = k' \<and>
      references_intent (vo_client_order_id vo) (dict_set k row (db_intents db)) \<and>
       table_all (\<lambda>k'' vo'. vo_client_order_id vo' = vo_client_order_id vo \<longrightarrow> k'' = k') (db_venue_orders db))
       (db_venue_orders db)"
    using assms by (auto simp: repository_ok_def intro: references_intent_set elim!: table_all_mono)
  ultimately show ?thesis using assms by (simp add: repository_ok_def)
qed

lemma repository_ok_fill:
  assumes "repository_ok db" and "references_intent (fr_client_order_id f) (db_intents db)"
  shows "repository_ok (db\<lparr>db_fills := dict_set (fr_fill_id f) f (db_fills db)\<rparr>)"
  using assms by (auto simp: repository_ok_def)

lemma list_ex_values: "dict_ok d \<Longrightarrow> list_ex P (dict_values d) \<longleftrightarrow> (\<exists>k v. dict_get d k = Some v \<and> P v)"
  unfolding list_ex_iff Bex_def by (simp add: dict_values_get) blast

lemma repository_ok_order:
  assumes ok: "repository_ok db" and "upsert_venue_order vo db = Inr ((), db')"
  shows "repository_ok db'"
proof -
  have ref: "references_intent (vo_client_order_id vo) (db_intents db)"
    and db': "db' = db\<lparr>db_venue_orders := dict_set (vo_venue_order_id vo) vo (db_venue_orders db)\<rparr>"
    and fresh: "\<not> list_ex (\<lambda>o'. vo_client_order_id o' = vo_client_order_id vo \<and> vo_venue_order_id o' \<noteq> vo_venue_order_id vo)
                (dict_values (db_venue_orders db))"
    using assms(2) by (auto simp: upsert_venue_order_def split: if_splits)
  have keys: "table_all (\<lambda>k vo. vo_venue_order_id vo = k) (db_venue_orders db)"
    using ok by (auto simp: repository_ok_def table_all_def)
  have other: "dict_get (db_venue_orders db) k = Some w \<Longrightarrow> vo_client_order_id w = vo_client_order_id vo \<Longrightarrow>
      k = vo_venue_order_id vo" for k w
    using fresh keys ok by (auto simp: list_ex_values repository_ok_def table_all_def)
  show ?thesis
    using ok ref by (auto simp: db' repository_ok_def table_all_def dest: other repository_ok_unique(1) [OF ok])
qed

lemma repository_ok_redemption_new:
  assumes ok: "repository_ok db" and "create_redemption_intent i db = (b, db')"
  shows "repository_ok db'"
proof (cases "dict_get (db_redemptions db) (ri_redemption_id i) \<noteq> None \<or>
         list_ex (same_redemption i) (dict_values (db_redemptions db))")
  case True
  with assms show ?thesis by (auto simp: create_redemption_intent_def)
next
  case False
  have sym: "same_redemption a b \<Longrightarrow> same_redemption b a" for a b by (auto simp: same_redemption_def)
  have other: "dict_get (db_redemptions db) k = Some r \<Longrightarrow> \<not> same_redemption i r" for k r
    using False ok by (auto simp: list_ex_values repository_ok_def)
  have db': "db' = db\<lparr>db_redemptions := dict_set (ri_redemption_id i) i (db_redemptions db)\<rparr>"
    using False assms(2) by (auto simp: create_redemption_intent_def)
  show ?thesis
    using ok by (auto simp: db' repository_ok_def table_all_def dest: other sym)
qed

lemma repository_ok_redemption_update:
  assumes ok: "repository_ok db" and "update_redemption_intent now rid st tx err db = Inr (row, db')"
  shows "repository_ok db'"
proof -
  obtain old where old: "dict_get (db_redemptions db) rid = Some old" and row: "same_redemption old row"
      "ri_redemption_id row = ri_redemption_id old"
    and db': "db' = db\<lparr>db_redemptions := dict_set rid row (db_redemptions db)\<rparr>"
    using assms(2) by (auto simp: update_redemption_intent_def same_redemption_def Let_def split: option.splits)
  note uniq = repository_ok_unique(2) [OF ok]
  have to_row: "same_redemption r row \<longleftrightarrow> same_redemption r old" "same_redemption row r \<longleftrightarrow> same_redemption old r" for r
    using row(1) by (auto simp: same_redemption_def)
  have key: "ri_redemption_id old = rid" using ok old by (auto simp: repository_ok_def table_all_def)
  show ?thesis
    using ok row(2) key
    by (auto simp: db' repository_ok_def table_all_def to_row dest: uniq [OF old] uniq [OF _ old] uniq)
qed

lemma repository_ok_step: "repo_step db db' \<Longrightarrow> repository_ok db \<Longrightarrow> repository_ok db'"
proof (induction rule: repo_step.induct)
  case (intent_created i db db')
  then show ?case by (auto simp: create_order_intent_def intro: repository_ok_intent split: if_splits)
next
  case (intent_updated now cid st vid err db db')
  then show ?case
    by (auto simp: update_order_intent_def split: option.splits intro!: repository_ok_intent)
      (auto simp: repository_ok_def table_all_def)
next
  case (fill_inserted f db b db')
  then show ?case by (auto simp: insert_fill_def intro: repository_ok_fill split: if_splits)
next
  case (position_saved db key p)
  then show ?case by (simp add: repository_ok_def save_position_def)
next
  case (position_removed db key)
  then show ?case by (simp add: repository_ok_def remove_position_def)
next
  case (residual_recorded key venue requested report residual db b db')
  then show ?case
    by (auto simp: repository_ok_def record_residual_exit_exposure_def rbind_Inr_iff
        split: option.splits)
next
  case (risk_saved db rk)
  then show ?case by (simp add: repository_ok_def save_risk_state_def)
qed (blast intro: repository_ok_order repository_ok_redemption_new repository_ok_redemption_update)+

interpretation tables: invariant_system empty_tables repo_step repository_ok
  by unfold_locales (blast intro: repository_ok_empty repository_ok_step)+

subsection \<open>Positions as a keyed store\<close>

lemma map_update: "map (\<lambda>(k, v). (k, f v)) (AList.update k v d) = AList.update k (f v) (map (\<lambda>(k, v). (k, f v)) d)"
  by (induction d) auto

lemma map_pop: "map (\<lambda>(k, v). (k, f v)) (dict_pop k d) = dict_pop k (map (\<lambda>(k, v). (k, f v)) d)"
  by (induction d) (auto simp: dict_pop_def AList.delete_eq)

interpretation position_table: keyed_store "\<lambda>db. dict_get (db_positions db)"
  "\<lambda>key payload db. db\<lparr>db_positions := dict_set key payload (db_positions db)\<rparr>" remove_position "\<lambda>db. dict_ok (db_positions db)"
  by unfold_locales (simp_all add: remove_position_def)

text \<open>The table holds the encoded ledger.\<close>

definition encoded_ledger :: "position_ledger \<Rightarrow> (string, json) dict" where
  "encoded_ledger l = map (\<lambda>(key, p). (key, position_to_json p)) l"

lemma encoded_ledger_add:
  "db_positions db = encoded_ledger l \<Longrightarrow>
     db_positions (fst (add_position p (db, l))) = encoded_ledger (snd (add_position p (db, l)))"
  by (simp add: add_position_def save_position_def ledger_add_def encoded_ledger_def dict_set_def map_update)

lemma encoded_ledger_remove:
  "db_positions db = encoded_ledger l \<Longrightarrow>
     db_positions (fst (drop_position key (db, l))) = encoded_ledger (snd (drop_position key (db, l)))"
  by (simp add: drop_position_def remove_position_def ledger_remove_def encoded_ledger_def map_pop)

lemma run_book_simulation:
  "run_book ops (db, l) = (db', l') \<Longrightarrow> db_positions db = encoded_ledger l \<Longrightarrow> ledger_ok l \<Longrightarrow>
     \<forall>p. AddPosition p \<in> set ops \<longrightarrow> position_storable p \<Longrightarrow>
     db_positions db' = encoded_ledger l' \<and> ledger_ok l' \<and> db_enabled_routes db' = db_enabled_routes db"
proof (induction ops "(db, l)" arbitrary: db l rule: run_book.induct)
  case 1
  then show ?case by simp
next
  case (2 p ops db l)
  obtain db1 l1 where eq: "add_position p (db, l) = (db1, l1)" by fastforce
  have "db_positions db1 = encoded_ledger l1" "ledger_ok l1" "db_enabled_routes db1 = db_enabled_routes db"
    using encoded_ledger_add [OF "2.prems"(2), of p] ledger_ok_add [OF "2.prems"(3), of p] "2.prems"(4) eq
    by (auto simp: add_position_def save_position_def)
  with "2.hyps" [OF eq] "2.prems" eq show ?case by simp
next
  case (3 key ops db l)
  obtain db1 l1 where eq: "drop_position key (db, l) = (db1, l1)" by fastforce
  have "db_positions db1 = encoded_ledger l1" "ledger_ok l1" "db_enabled_routes db1 = db_enabled_routes db"
    using encoded_ledger_remove [OF "3.prems"(2), of key] ledger_ok_remove [OF "3.prems"(3), of key] eq
    by (auto simp: drop_position_def remove_position_def)
  with "3.hyps" [OF eq] "3.prems" eq show ?case by simp
qed

lemma load_encoded:
  "\<forall>(key, p) \<in> set l. position_storable p \<Longrightarrow>
     rmap (\<lambda>(key, payload). rbind (position_from_json payload) (\<lambda>p. Inr (key, p))) (encoded_ledger l) =
       Inr (ledger_carried l)"
  by (induction l) (auto simp: encoded_ledger_def ledger_carried_def position_from_to_json)

text \<open>Rows of a list in another order are the images of its elements in another order.\<close>

lemma mset_map_reorder: "mset rows = mset (map f xs) \<Longrightarrow> \<exists>ys. mset ys = mset xs \<and> rows = map f ys"
proof (induction rows arbitrary: xs)
  case (Cons r rows)
  then have "r \<in> set (map f xs)" by (metis list.set_intros(1) mset_eq_setD)
  then obtain a x b where xs: "xs = a @ x # b" "r = f x" by (metis (no_types, lifting) image_iff list.set_map split_list)
  with Cons.prems have "mset rows = mset (map f (a @ b))" by simp
  from Cons.IH [OF this] obtain ys where "mset ys = mset (a @ b)" "rows = map f ys" by blast
  with xs show ?case by (intro exI [of _ "x # ys"]) simp
qed simp

lemma decode_any_order:
  assumes "\<forall>(key, p) \<in> set l. position_storable p" and "mset rows = mset (encoded_ledger l)"
  shows "\<exists>es. decode_entries enabled_routes rows = Inr es \<and>
    mset es = mset (filter (\<lambda>(_, p). enabled_routes = [] \<or> position_route p \<in> set enabled_routes) (ledger_carried l))"
proof -
  from mset_map_reorder [OF assms(2) [unfolded encoded_ledger_def]] obtain l' where
    l': "mset l' = mset l" "rows = encoded_ledger l'" by (auto simp: encoded_ledger_def)
  then have "\<forall>(key, p) \<in> set l'. position_storable p" using assms(1) by (metis mset_eq_setD)
  then have "rmap (\<lambda>(key, payload). rbind (position_from_json payload) (\<lambda>p. Inr (key, p))) rows = Inr (ledger_carried l')"
    unfolding l'(2) by (rule load_encoded)
  moreover have "mset (ledger_carried l') = mset (ledger_carried l)" using l'(1) by (simp add: ledger_carried_def)
  ultimately show ?thesis by (cases "enabled_routes = []") (auto simp: decode_entries_def case_prod_unfold)
qed

subsection \<open>Fills\<close>

lemma deliver_fill_eq:
  "references_intent (fr_client_order_id f) (db_intents db) \<Longrightarrow>
     deliver_fill f db = (if dict_get (db_fills db) (fr_fill_id f) \<noteq> None then db
       else db\<lparr>db_fills := dict_set (fr_fill_id f) f (db_fills db)\<rparr>)"
  by (simp add: deliver_fill_def insert_fill_def)

lemma deliver_fill_intents [simp]: "db_intents (deliver_fill f db) = db_intents db"
  by (simp add: deliver_fill_def insert_fill_def)

lemma deliver_fills_Cons [simp]:
  "deliver_fills [] db = db" "deliver_fills (f # fs) db = deliver_fills fs (deliver_fill f db)"
  by (simp_all add: deliver_fills_def)

lemma deliver_fills_append [simp]: "deliver_fills (fs @ gs) db = deliver_fills gs (deliver_fills fs db)"
  by (simp add: deliver_fills_def)

lemma deliver_fills_intents [simp]: "db_intents (deliver_fills fs db) = db_intents db"
  by (induction fs arbitrary: db) auto

lemma deliver_fills_get:
  "\<forall>f \<in> set fs. references_intent (fr_client_order_id f) (db_intents db) \<Longrightarrow>
     dict_get (db_fills (deliver_fills fs db)) k =
       (case dict_get (db_fills db) k of Some f \<Rightarrow> Some f | None \<Rightarrow> find (\<lambda>f. fr_fill_id f = k) fs)"
  by (induction fs arbitrary: db) (auto simp: deliver_fill_eq split: option.split)

lemma deliver_known_fills:
  "\<forall>f \<in> set fs. references_intent (fr_client_order_id f) (db_intents db) \<and>
     dict_get (db_fills db) (fr_fill_id f) \<noteq> None \<Longrightarrow> deliver_fills fs db = db"
  by (induction fs) (auto simp: deliver_fill_eq)

subsection \<open>Residual exits of stored positions\<close>

lemma mk_snapshot_normal: "mk_snapshot s = Inr t \<Longrightarrow> normal_id (rs_venue_order_id t)"
  by (auto simp: mk_snapshot_def normal_id_def Let_def raise_if_def split: if_splits)

lemma snapshots_kept:
  assumes "apply_to_leg l s = Inr l'"
  shows "set (la_snapshots l') \<subseteq> insert s (set (la_snapshots l))"
  using assms
  by (cases rule: apply_to_leg_cases) (auto dest!: settle_leg_Inr(6) simp: replace_snapshot_def split: if_splits)

lemma mk_snapshot_again: "mk_snapshot s = Inr t \<Longrightarrow> mk_snapshot t = Inr t"
  by (auto simp: mk_snapshot_def Let_def raise_if_def strip_lower split: if_splits)

lemma storable_apply:
  assumes p: "position_storable p" and q: "apply_residual_exit_snapshot p v s = Inr q"
    and s: "mk_snapshot s = Inr s"
  shows "position_storable q \<and> p_market q = p_market p"
  using q
proof (cases rule: apply_residual_cases)
  case (first l)
  note eq = position_post_init_Inr [OF first(3)]
  have sub: "set (p_polymarket_residual_snapshots q) \<subseteq> insert s (set (p_polymarket_residual_snapshots p))"
    "p_predict_fun_residual_snapshots q = p_predict_fun_residual_snapshots p"
    using eq snapshots_kept [OF first(2)] by (auto simp: put_first_leg_def first_leg_account_def)
  have mk: "\<forall>t \<in> set (p_polymarket_residual_snapshots q) \<union> set (p_predict_fun_residual_snapshots q). mk_snapshot t = Inr t"
    using p s sub by (auto simp: position_storable_def)
  have "p_polymarket_residual_snapshots (put_first_leg l p\<lparr>p_status := ''manual_review''\<rparr>) = p_polymarket_residual_snapshots q"
    "p_predict_fun_residual_snapshots (put_first_leg l p\<lparr>p_status := ''manual_review''\<rparr>) = p_predict_fun_residual_snapshots q"
    using eq by (simp_all add: put_first_leg_def)
  then have "snapshots_normal (put_first_leg l p\<lparr>p_status := ''manual_review''\<rparr>)"
    using mk mk_snapshot_normal unfolding snapshots_normal_def snapshot_ids_def by fastforce
  then have "position_post_init q = Inr q" using first(3) position_post_init_idem by blast
  then show ?thesis using p mk eq by (simp add: position_storable_def put_first_leg_def)
next
  case (second l)
  note eq = position_post_init_Inr [OF second(4)]
  have sub: "set (p_predict_fun_residual_snapshots q) \<subseteq> insert s (set (p_predict_fun_residual_snapshots p))"
    "p_polymarket_residual_snapshots q = p_polymarket_residual_snapshots p"
    using eq snapshots_kept [OF second(3)] by (auto simp: put_second_leg_def second_leg_account_def)
  have mk: "\<forall>t \<in> set (p_polymarket_residual_snapshots q) \<union> set (p_predict_fun_residual_snapshots q). mk_snapshot t = Inr t"
    using p s sub by (auto simp: position_storable_def)
  have "p_polymarket_residual_snapshots (put_second_leg l p\<lparr>p_status := ''manual_review''\<rparr>) = p_polymarket_residual_snapshots q"
    "p_predict_fun_residual_snapshots (put_second_leg l p\<lparr>p_status := ''manual_review''\<rparr>) = p_predict_fun_residual_snapshots q"
    using eq by (simp_all add: put_second_leg_def)
  then have "snapshots_normal (put_second_leg l p\<lparr>p_status := ''manual_review''\<rparr>)"
    using mk mk_snapshot_normal unfolding snapshots_normal_def snapshot_ids_def by fastforce
  then have "position_post_init q = Inr q" using second(4) position_post_init_idem by blast
  then show ?thesis using p mk eq by (simp add: position_storable_def put_second_leg_def)
qed

lemma storable_carried [simp]: "position_storable p \<Longrightarrow> position_storable (position_carried p)"
  by (auto simp: position_storable_def position_carried_def market_carried_def post_init_market)

lemma storable_normal: "position_storable p \<Longrightarrow> snapshots_normal p"
  using mk_snapshot_normal unfolding snapshots_normal_def snapshot_ids_def position_storable_def by fastforce

lemma apply_residual_again:
  assumes "apply_residual_exit_snapshot p v s = Inr q" and "snapshot_exact s" and "mk_snapshot s = Inr s"
    and "position_storable p"
  shows "apply_residual_exit_snapshot q v s = Inr q"
  using assms(1)
proof (cases rule: apply_residual_cases)
  case first
  then show ?thesis
    using apply_first_leg_again assms(2) mk_snapshot_normal [OF assms(3)] storable_normal [OF assms(4)] by blast
next
  case second
  then show ?thesis
    using apply_second_leg_again assms(2) mk_snapshot_normal [OF assms(3)] storable_normal [OF assms(4)] by blast
qed

lemma position_after_residual_exit_again:
  assumes "position_after_residual_exit p v oid requested filled avg residual = Inr q" and "position_storable p"
    and "dec_round filled = filled" and "dec_round residual = residual"
  shows "position_after_residual_exit q v oid requested filled avg residual = Inr q \<and> position_storable q \<and>
    p_market q = p_market p"
proof -
  obtain s where s: "mk_snapshot \<lparr>rs_venue_order_id = oid, rs_requested_contracts = requested,
      rs_closed_contracts = filled, rs_exit_proceeds_usd = dmul filled avg, rs_residual_contracts = residual\<rparr> = Inr s"
    and q: "apply_residual_exit_snapshot p v s = Inr q"
    using assms(1) by (auto simp: position_after_residual_exit_def rbind_Inr_iff)
  have "snapshot_exact s"
    using s assms(3,4) by (auto simp: mk_snapshot_def Let_def raise_if_def snapshot_exact_def dmul_def split: if_splits)
  with q s assms(2) show ?thesis
    using apply_residual_again [OF q] storable_apply [OF assms(2) q] mk_snapshot_again [OF s]
    by (simp add: position_after_residual_exit_def)
qed

subsection \<open>Open intents\<close>

definition open_intent :: "string \<Rightarrow> repository \<Rightarrow> bool" where
  "open_intent cid db \<longleftrightarrow> (\<exists>row. dict_get (db_intents db) cid = Some row \<and>
     oi_status (ir_intent row) \<notin> {OI_FILLED, OI_CANCELLED} \<and> in_scope db (ir_intent row))"

lemma order_intent_routes_cong:
  "db_enabled_routes db' = db_enabled_routes db \<Longrightarrow> order_intent_routes db' = order_intent_routes db"
  by (simp add: order_intent_routes_def)

lemma repo_step_routes: "repo_step db db' \<Longrightarrow> db_enabled_routes db' = db_enabled_routes db"
  by (induction rule: repo_step.induct)
    (auto simp: create_order_intent_def update_order_intent_def upsert_venue_order_def insert_fill_def
      save_position_def remove_position_def record_residual_exit_exposure_def create_redemption_intent_def
      update_redemption_intent_def save_risk_state_def rbind_Inr_iff Let_def split: if_splits option.splits)

text \<open>A step that does not write a terminal status to the intent.\<close>

definition keeps_open :: "string \<Rightarrow> repository \<Rightarrow> repository \<Rightarrow> bool" where
  "keeps_open cid db db' \<longleftrightarrow> repo_step db db' \<and> \<not> (\<exists>now st vid err.
     st \<in> {OI_FILLED, OI_CANCELLED} \<and> update_order_intent now cid st vid err db = Inr ((), db'))"

lemma open_intent_step:
  assumes "keeps_open cid db db'" and "open_intent cid db"
  shows "open_intent cid db'"
proof -
  have step: "repo_step db db'" using assms(1) by (simp add: keeps_open_def)
  have routes: "order_intent_routes db' = order_intent_routes db"
    using repo_step_routes [OF step] by (rule order_intent_routes_cong)
  have same: "db_intents db' = db_intents db \<Longrightarrow> open_intent cid db'"
    using assms(2) routes by (simp add: open_intent_def in_scope_def)
  from step show ?thesis
  proof cases
    case (intent_created i)
    then show ?thesis
      using assms(2) routes by (auto simp: create_order_intent_def open_intent_def in_scope_def split: if_splits)
  next
    case (intent_updated now cid' st vid err)
    then have "cid' = cid \<Longrightarrow> st \<notin> {OI_FILLED, OI_CANCELLED}"
      using assms(1) unfolding keeps_open_def by blast
    then show ?thesis
      using assms(2) routes intent_updated
      by (auto simp: update_order_intent_def open_intent_def in_scope_def split: option.splits)
  qed (rule same; auto simp: upsert_venue_order_def insert_fill_def save_position_def remove_position_def
      record_residual_exit_exposure_def create_redemption_intent_def update_redemption_intent_def
      save_risk_state_def rbind_Inr_iff Let_def split: if_splits option.splits)+
qed

interpretation open_intents: invariant_system "open_intent cid" "keeps_open cid" "open_intent cid" for cid
  by unfold_locales (blast intro: open_intent_step)+

lemma open_intent_listed:
  "open_intent cid db \<Longrightarrow> repository_ok db \<Longrightarrow>
     \<exists>i \<in> set (unresolved_order_intents db). oi_client_order_id i = cid"
proof -
  assume o: "open_intent cid db" and ok: "repository_ok db"
  obtain row where row: "dict_get (db_intents db) cid = Some row"
    "oi_status (ir_intent row) \<notin> {OI_FILLED, OI_CANCELLED}" "in_scope db (ir_intent row)"
    using o by (auto simp: open_intent_def)
  have "row \<in> set (dict_values (db_intents db))"
    using row(1) ok by (auto simp: repository_ok_def dict_values_get)
  moreover have "oi_client_order_id (ir_intent row) = cid"
    using row(1) ok by (auto simp: repository_ok_def dest: table_allD)
  ultimately show ?thesis using row by (auto simp: unresolved_order_intents_def)
qed

lemma keeps_open_steps: "(keeps_open cid)\<^sup>*\<^sup>* db db' \<Longrightarrow> repo_step\<^sup>*\<^sup>* db db'"
  by (induction rule: rtranclp_induct) (auto simp: keeps_open_def intro: rtranclp.rtrancl_into_rtrancl)

section \<open>Properties\<close>

definition empty_repository :: repository where
  "empty_repository = \<lparr>db_instance = ''global'', db_enabled_routes = [], db_reconciliation_venues = [],
     db_scope_configured = False, db_intents = [], db_venue_orders = [], db_fills = [], db_positions = [],
     db_redemptions = [], db_risk = [], db_runs = [], db_baselines = [], db_balances = []\<rparr>"

definition sample_intent :: order_intent where
  "sample_intent = \<lparr>oi_client_order_id = ''c-1'', oi_route = ''polymarket_predict'', oi_market_key = ''WC'',
     oi_venue = ''Polymarket'', oi_token_id = ''101'', oi_binary_side = YES, oi_action = ''buy'', oi_quantity = 10,
     oi_limit_price = 2/5, oi_status = PREPARED, oi_venue_order_id = None, oi_created_at = Aware 0, oi_updated_at = Aware 0\<rparr>"

definition sample_fill :: fill_record where
  "sample_fill = \<lparr>fr_fill_id = ''f-1'', fr_client_order_id = ''c-1'', fr_venue_order_id = ''v-1'',
     fr_venue = ''Polymarket'', fr_quantity = 4, fr_price = 2/5, fr_fee = 0, fr_occurred_at = Aware 5\<rparr>"

definition sample_redemption :: "string \<Rightarrow> redemption_intent" where
  "sample_redemption rid = \<lparr>ri_redemption_id = rid, ri_position_key = ''k'', ri_venue = ''Polymarket'', ri_market_id = ''m'',
     ri_condition_id = ''0xc0'', ri_collateral_token = ''usdc'', ri_expected_contracts = 10, ri_status = RD_PENDING,
     ri_tx_hash = None, ri_last_error = None, ri_created_at = Aware 0, ri_updated_at = Aware 0\<rparr>"

lemma empty_repository_tables: "empty_tables empty_repository"
  by (simp add: empty_tables_def empty_repository_def)

text \<open>C12. Referential integrity in every reachable state: whatever transactions committed, every fill and
  every venue order belongs to a recorded order intent, no intent has two venue orders, and no
  condition of a position is redeemed twice on a venue, so a redemption cannot be submitted twice
  through two intents.\<close>

theorem repository_stays_consistent:
  assumes "empty_tables db0" and "repo_step\<^sup>*\<^sup>* db0 db"
  shows "(\<forall>k f. dict_get (db_fills db) k = Some f \<longrightarrow> references_intent (fr_client_order_id f) (db_intents db)) \<and>
    (\<forall>k vo. dict_get (db_venue_orders db) k = Some vo \<longrightarrow> references_intent (vo_client_order_id vo) (db_intents db)) \<and>
    (\<forall>k k' vo vo'. dict_get (db_venue_orders db) k = Some vo \<and> dict_get (db_venue_orders db) k' = Some vo' \<and>
       vo_client_order_id vo = vo_client_order_id vo' \<longrightarrow> k = k') \<and>
    (\<forall>k k' r r'. dict_get (db_redemptions db) k = Some r \<and> dict_get (db_redemptions db) k' = Some r' \<and>
       same_redemption r r' \<longrightarrow> k = k')"
proof -
  have ok: "repository_ok db" by (rule tables.inv_reachable [OF assms])
  show ?thesis
  proof (intro conjI allI impI)
    fix k f assume "dict_get (db_fills db) k = Some f"
    then show "references_intent (fr_client_order_id f) (db_intents db)"
      using ok by (auto simp: repository_ok_def dest: table_allD)
  next
    fix k vo assume "dict_get (db_venue_orders db) k = Some vo"
    then show "references_intent (vo_client_order_id vo) (db_intents db)"
      using ok by (auto simp: repository_ok_def dest: table_allD)
  next
    fix k k' vo vo'
    assume "dict_get (db_venue_orders db) k = Some vo \<and> dict_get (db_venue_orders db) k' = Some vo' \<and>
       vo_client_order_id vo = vo_client_order_id vo'"
    then show "k = k'" using repository_ok_unique(1) [OF ok] by metis
  next
    fix k k' r r'
    assume "dict_get (db_redemptions db) k = Some r \<and> dict_get (db_redemptions db) k' = Some r' \<and> same_redemption r r'"
    then show "k = k'" using repository_ok_unique(2) [OF ok] by metis
  qed
qed

theorem repository_stays_consistent_witness:
  "\<exists>db. repo_step\<^sup>*\<^sup>* empty_repository db \<and> dict_get (db_redemptions db) ''r-1'' = Some (sample_redemption ''r-1'') \<and>
     (\<forall>k r. dict_get (db_redemptions db) k = Some r \<and> same_redemption (sample_redemption ''r-1'') r \<longrightarrow> ''r-1'' = k)"
proof -
  let ?db = "snd (create_redemption_intent (sample_redemption ''r-1'') empty_repository)"
  have "repo_step empty_repository ?db"
    by (rule redemption_created [of "sample_redemption ''r-1''" _ "fst (create_redemption_intent (sample_redemption ''r-1'') empty_repository)"]) simp
  then have steps: "repo_step\<^sup>*\<^sup>* empty_repository ?db" by (rule r_into_rtranclp)
  have row: "dict_get (db_redemptions ?db) ''r-1'' = Some (sample_redemption ''r-1'')"
    by (simp add: create_redemption_intent_def empty_repository_def dict_values_def sample_redemption_def)
  from repository_stays_consistent [OF empty_repository_tables steps] have
    "\<forall>k k' r r'. dict_get (db_redemptions ?db) k = Some r \<and> dict_get (db_redemptions ?db) k' = Some r' \<and>
       same_redemption r r' \<longrightarrow> k = k'" by (elim conjE)
  with steps row show ?thesis by blast
qed

text \<open>C13. Fills are counted once: after any sequence of deliveries the table holds under each id the fill
  that was delivered first, and redelivering ids that are there, in any order and with any
  content, changes nothing.\<close>

theorem redelivered_fills_change_nothing:
  assumes "\<forall>f \<in> set (fs @ gs). references_intent (fr_client_order_id f) (db_intents db)"
    and "fr_fill_id ` set gs \<subseteq> fr_fill_id ` set fs"
  shows "deliver_fills (fs @ gs) db = deliver_fills fs db \<and>
    dict_get (db_fills (deliver_fills fs db)) k =
      (case dict_get (db_fills db) k of Some f \<Rightarrow> Some f | None \<Rightarrow> find (\<lambda>f. fr_fill_id f = k) fs)"
proof -
  have get: "dict_get (db_fills (deliver_fills fs db)) k =
      (case dict_get (db_fills db) k of Some f \<Rightarrow> Some f | None \<Rightarrow> find (\<lambda>f. fr_fill_id f = k) fs)" for k
    using assms(1) by (intro deliver_fills_get) auto
  have "dict_get (db_fills (deliver_fills fs db)) (fr_fill_id g) \<noteq> None" if "g \<in> set gs" for g
  proof -
    have "fr_fill_id g \<in> fr_fill_id ` set fs" using that assms(2) by blast
    then have "find (\<lambda>f. fr_fill_id f = fr_fill_id g) fs \<noteq> None" by (auto simp: find_None_iff)
    then show ?thesis unfolding get by (simp split: option.split)
  qed
  then have "deliver_fills gs (deliver_fills fs db) = deliver_fills fs db"
    using assms(1) by (intro deliver_known_fills) auto
  with get show ?thesis by simp
qed

definition sample_repository :: repository where
  "sample_repository = empty_repository\<lparr>db_intents := [(''c-1'', \<lparr>ir_intent = sample_intent, ir_last_error = None\<rparr>)]\<rparr>"

theorem redelivered_fills_change_nothing_witness:
  "deliver_fills ([sample_fill] @ [sample_fill\<lparr>fr_quantity := 9\<rparr>]) sample_repository = deliver_fills [sample_fill] sample_repository"
proof -
  have "references_intent ''c-1'' (db_intents sample_repository)"
    by (simp add: references_intent_def sample_repository_def dict_get_def)
  then show ?thesis
    using redelivered_fills_change_nothing [of "[sample_fill]" "[sample_fill\<lparr>fr_quantity := 9\<rparr>]" sample_repository]
    by (simp add: sample_fill_def)
qed

text \<open>A residual exit is recorded exactly once: when the report of an unwind that the repository
  recorded is delivered again, the repository answers False and the stored position, and with it the
  residual exposure, is what it was.\<close>

theorem residual_exit_recorded_once:
  assumes "dict_get (db_positions db) key = Some (position_to_json p)" and "position_storable p"
    and "record_residual_exit_exposure key venue requested report residual db = Inr (changed, db')"
    and "dec_round (er_amount_filled report) = er_amount_filled report" and "dec_round residual = residual"
  shows "record_residual_exit_exposure key venue requested report residual db' = Inr (False, db')"
proof -
  obtain q where q: "position_after_residual_exit (position_carried p) venue (er_order_id report) requested
        (er_amount_filled report) (er_avg_price report) residual = Inr q"
    and db': "db' = db\<lparr>db_positions := dict_set key (position_to_json q) (db_positions db)\<rparr>"
    using assms(1,3) position_from_to_json [OF assms(2)]
    by (auto simp: record_residual_exit_exposure_def rbind_Inr_iff)
  note again = position_after_residual_exit_again [OF q storable_carried [OF assms(2)] assms(4,5)]
  have "position_carried q = q"
    using again by (simp add: position_carried_def market_carried_def)
  then have "position_from_json (position_to_json q) = Inr q"
    using again position_from_to_json [of q] by simp
  moreover have "dict_set key v (dict_set key v d) = dict_set key v d" for v :: json and d
    by (simp add: dict_set_def)
  ultimately show ?thesis using again by (simp add: db' record_residual_exit_exposure_def)
qed

definition sample_exit_report :: execution_report where
  "sample_exit_report = \<lparr>er_order_id = ''0xc1'', er_status = ES_PARTIAL, er_amount_requested = 12, er_amount_filled = 6,
     er_remaining_amount = 6, er_avg_price = 1/2, er_client_order_id = None, er_venue_order_id = None,
     er_cumulative_filled = None\<rparr>"

lemma sample_exit_again: "mk_snapshot sample_exit = Inr sample_exit"
  by (simp add: mk_snapshot_def snapshot_valid_def sample_exit_def Let_def dadd_def dec_round_eval dec_eps_def
      raise_if_def, code_simp)

lemma sample_position_storable: "position_storable sample_position"
proof -
  have "position_post_init sample_position = Inr sample_position" by code_simp
  then show ?thesis
    by (simp add: position_storable_def sample_position_def open_position_default_def sample_market_def market_spec_default_def)
qed

lemma sample_exit_recorded:
  "record_residual_exit_exposure ''k'' ''Predict.fun'' 12 sample_exit_report 4
     (save_position ''k'' sample_position empty_repository) =
   Inr (True, save_position ''k'' sample_position_exited empty_repository)"
proof -
  have carried: "position_carried sample_position = sample_position"
    by (simp add: position_carried_def market_carried_def sample_position_def open_position_default_def
        sample_market_def market_spec_default_def)
  have "\<lparr>rs_venue_order_id = ''0xc1'', rs_requested_contracts = 12, rs_closed_contracts = 6,
      rs_exit_proceeds_usd = dmul 6 (1/2), rs_residual_contracts = 4\<rparr> = sample_exit"
    by (simp add: sample_exit_def dmul_def dec_round_eval)
  then have after: "position_after_residual_exit sample_position ''Predict.fun'' ''0xc1'' 12 6 (1/2) 4 = Inr sample_position_exited"
    by (simp add: position_after_residual_exit_def sample_exit_again sample_position_exits)
  have "sample_position_exited \<noteq> sample_position"
    by (simp add: sample_position_exited_def sample_position_def open_position_default_def)
  then show ?thesis
    using after position_from_to_json [OF sample_position_storable]
    by (simp add: record_residual_exit_exposure_def save_position_def sample_exit_report_def carried empty_repository_def
        dict_set_def dict_get_def)
qed

theorem residual_exit_recorded_once_witness:
  "record_residual_exit_exposure ''k'' ''Predict.fun'' 12 sample_exit_report 4
     (save_position ''k'' sample_position_exited empty_repository) =
   Inr (False, save_position ''k'' sample_position_exited empty_repository)"
  by (rule residual_exit_recorded_once [OF _ sample_position_storable sample_exit_recorded])
     (simp_all add: save_position_def sample_exit_report_def dec_round_eval)

text \<open>C14. The positions table refines the ledger: whatever positions the engine adds and removes, a
  restart that loads the table, in whatever order the database returns its rows, finds exactly the
  positions of the ledger in memory whose route is enabled (all of them when no routes are
  configured), each once and under its key.\<close>

theorem positions_table_refines_ledger:
  assumes "db_positions db = []" and "\<forall>p. AddPosition p \<in> set ops \<longrightarrow> position_storable p"
    and "run_book ops (db, []) = (db', ledger)" and "mset rows = mset (db_positions db')"
  shows "\<exists>es. decode_entries (db_enabled_routes db') rows = Inr es \<and> db_enabled_routes db' = db_enabled_routes db \<and>
    mset es = mset (filter (\<lambda>(_, p). db_enabled_routes db = [] \<or>
      position_route p \<in> set (db_enabled_routes db)) (ledger_carried ledger))"
proof -
  have sim: "db_positions db' = encoded_ledger ledger" "ledger_ok ledger" "db_enabled_routes db' = db_enabled_routes db"
    using run_book_simulation [OF assms(3)] assms(1,2) by (simp_all add: encoded_ledger_def ledger_ok_empty)
  have "\<forall>(key, p) \<in> set ledger. position_storable p" using sim(2) by (auto simp: ledger_ok_def)
  from decode_any_order [OF this assms(4) [unfolded sim(1)], of "db_enabled_routes db"] sim(3) show ?thesis by auto
qed

theorem positions_table_refines_ledger_witness:
  "decode_entries [] (db_positions (fst (run_book [AddPosition sample_position_exited, RemovePosition ''other''] (empty_repository, [])))) =
     Inr [(position_key sample_market, sample_position_exited)]"
proof -
  let ?ops = "[AddPosition sample_position_exited, RemovePosition ''other'']"
  have ledger: "snd (run_book ?ops (empty_repository, [])) = [(position_key sample_market, sample_position_exited)]"
    by (simp add: add_position_def drop_position_def ledger_add_def ledger_remove_def dict_set_def dict_pop_def
        sample_position_exited_def sample_position_def open_position_default_def, code_simp)
  have carried: "ledger_carried [(position_key sample_market, sample_position_exited)] = [(position_key sample_market, sample_position_exited)]"
    by (simp add: ledger_carried_def position_carried_def market_carried_def sample_position_exited_def
        sample_position_def open_position_default_def sample_market_def market_spec_default_def)
  have empty: "db_positions empty_repository = []" "db_enabled_routes empty_repository = []" by (simp_all add: empty_repository_def)
  have storable: "\<forall>p. AddPosition p \<in> set ?ops \<longrightarrow> position_storable p" by (auto simp: sample_storable)
  from positions_table_refines_ledger [OF empty(1) storable prod.collapse [symmetric] refl] obtain es where
    "decode_entries [] (db_positions (fst (run_book ?ops (empty_repository, [])))) = Inr es"
    "mset es = mset [(position_key sample_market, sample_position_exited)]"
    unfolding ledger carried empty by auto
  then show ?thesis by simp
qed

text \<open>C15. No order is forgotten: an order intent that was recorded, in the scope of the repository, stays in the
  list of unresolved intents that reconciliation works through, whatever other transactions commit,
  until a transaction writes FILLED or CANCELLED to it.\<close>

theorem no_intent_forgotten:
  assumes "empty_tables db0" and "repo_step\<^sup>*\<^sup>* db0 db" and "create_order_intent i db = Inr ((), db1)"
    and "oi_status i \<notin> {OI_FILLED, OI_CANCELLED}" and "in_scope db i"
    and "(keeps_open (oi_client_order_id i))\<^sup>*\<^sup>* db1 db2"
  shows "\<exists>j \<in> set (unresolved_order_intents db2). oi_client_order_id j = oi_client_order_id i"
proof -
  have step: "repo_step db db1" using assms(3) by (rule intent_created)
  have "order_intent_routes db1 = order_intent_routes db"
    using repo_step_routes [OF step] by (rule order_intent_routes_cong)
  then have "open_intent (oi_client_order_id i) db1"
    using assms(3-5) by (auto simp: create_order_intent_def open_intent_def in_scope_def split: if_splits)
  then have "open_intent (oi_client_order_id i) db2"
    using open_intents.inv_steps [OF assms(6)] by blast
  moreover have "repo_step\<^sup>*\<^sup>* db0 db2"
    using assms(2) step keeps_open_steps [OF assms(6)] by (meson rtranclp.rtrancl_into_rtrancl rtranclp_trans)
  then have "repository_ok db2" by (rule tables.inv_reachable [OF assms(1)])
  ultimately show ?thesis by (rule open_intent_listed)
qed

theorem no_intent_forgotten_witness:
  "\<exists>j \<in> set (unresolved_order_intents (save_risk_state (initial_state 0) sample_repository)). oi_client_order_id j = ''c-1''"
proof -
  let ?db2 = "save_risk_state (initial_state 0) sample_repository"
  have create: "create_order_intent sample_intent empty_repository = Inr ((), sample_repository)"
    by (simp add: create_order_intent_def empty_repository_def sample_repository_def sample_intent_def dict_set_def)
  have "\<not> (\<exists>now st vid err. st \<in> {OI_FILLED, OI_CANCELLED} \<and>
      update_order_intent now ''c-1'' st vid err sample_repository = Inr ((), ?db2))"
    by (auto simp: update_order_intent_def sample_repository_def save_risk_state_def empty_repository_def dict_set_def dict_get_def)
  then have "keeps_open ''c-1'' sample_repository ?db2"
    by (simp add: keeps_open_def risk_saved)
  then have steps: "(keeps_open (oi_client_order_id sample_intent))\<^sup>*\<^sup>* sample_repository ?db2"
    by (simp add: sample_intent_def r_into_rtranclp)
  show ?thesis
    using no_intent_forgotten [OF empty_repository_tables rtranclp.rtrancl_refl create _ _ steps]
    by (simp add: sample_intent_def in_scope_def order_intent_routes_def empty_repository_def)
qed

end
