(* ===== verification/Evidence.thy ===== *)
theory Evidence
  imports Repository "HOL-Library.Multiset" "HOL-Library.List_Lexorder" "HOL-Library.Char_ord"
begin

text \<open>
  The reconciliation evidence of \<^verbatim>\<open>database.py\<close> and the canonical payload of
  \<^verbatim>\<open>external_baseline.py\<close>: which venues the gate manages, the runs it recorded, external account
  baselines with their activation and revocation, and \<^verbatim>\<open>latest_reconciliation_failures\<close>, whose
  empty answer lets the engine trade. SHA-256 over the canonical text is a parameter \<open>digest\<close>.
\<close>

section \<open>The canonical payload\<close>

text \<open>
  The payload as the values that \<^verbatim>\<open>json.dumps\<close> writes; a quantity stands for its plain decimal text,
  which \<^verbatim>\<open>_canonical_decimal\<close> makes the same for equal values.
\<close>

record baseline_payload =
  bp_runtime :: string
  bp_venue :: string
  bp_fingerprint :: string
  bp_positions :: "(string \<times> dec) list"
  bp_fill_refs :: "string list"

definition account_fingerprint :: "(string \<Rightarrow> string) \<Rightarrow> string \<Rightarrow> string \<Rightarrow> string res" where
  "account_fingerprint sha venue account =
     (let v = strip venue; a = lower (strip account)
      in raise_if (v = [] \<or> a = []) (ValueError ''venue and account identifier are required'')
        (Inr (sha (''external-account-baseline:v1'' @ [char_of (0 :: nat)] @ v @ [char_of (0 :: nat)] @ a))))"

definition is_hex :: "char \<Rightarrow> bool" where
  "is_hex c = (c \<in> set ''0123456789abcdef'')"

definition canonical_decimal :: "dec \<Rightarrow> dec" where
  "canonical_decimal q = dec_round q"

fun canonical_positions :: "(string \<times> dec) list \<Rightarrow> string list \<Rightarrow> (string \<times> dec) list res" where
  "canonical_positions [] seen = Inr []"
| "canonical_positions ((raw, q) # rest) seen =
     (let token = strip raw in
      raise_if (token = [] \<or> 256 < length token) (ValueError ''external position token id is invalid'')
     (raise_if (token \<in> set seen) (ValueError (''duplicate external position token id: '' @ token))
     (raise_if (q \<le> 0) (ValueError (''external position quantity must be positive for token '' @ token))
       (rbind (canonical_positions rest (token # seen)) (\<lambda>ps. Inr ((token, canonical_decimal q) # ps))))))"

fun canonical_fill_refs :: "string list \<Rightarrow> string list \<Rightarrow> string list res" where
  "canonical_fill_refs [] seen = Inr []"
| "canonical_fill_refs (raw # rest) seen =
     (let r = strip raw in
      raise_if (r = [] \<or> 256 < length r) (ValueError ''external fill reference is invalid'')
     (raise_if (r \<in> set seen) (ValueError (''duplicate external fill reference: '' @ r))
       (rbind (canonical_fill_refs rest (r # seen)) (\<lambda>rs. Inr (r # rs)))))"

definition canonical_external_baseline_payload ::
  "string \<Rightarrow> string \<Rightarrow> string \<Rightarrow> (string \<times> dec) list \<Rightarrow> string list \<Rightarrow> baseline_payload res" where
  "canonical_external_baseline_payload runtime venue fingerprint positions fill_refs =
     (let r = strip runtime; v = strip venue; fp = lower (strip fingerprint)
      in raise_if (r = [] \<or> v = []) (ValueError ''runtime instance and venue are required'')
        (raise_if (length fp \<noteq> 64 \<or> \<not> list_all is_hex fp) (ValueError ''account fingerprint must be a SHA-256 digest'')
        (rbind (canonical_positions positions []) (\<lambda>ps.
         rbind (canonical_fill_refs fill_refs []) (\<lambda>fs.
           Inr \<lparr>bp_runtime = r, bp_venue = v, bp_fingerprint = fp,
                bp_positions = sort_key fst ps, bp_fill_refs = sort fs\<rparr>)))))"

section \<open>External baselines\<close>

definition baseline_active :: "string \<Rightarrow> baseline_row \<Rightarrow> bool" where
  "baseline_active instance_id b \<longleftrightarrow> br_instance b = instance_id \<and> br_revoked_at b = None"

definition active_row :: "string \<Rightarrow> repository \<Rightarrow> baseline_row option" where
  "active_row venue db =
     find (\<lambda>b. baseline_active (db_instance db) b \<and> br_venue b = venue) (dict_values (db_baselines db))"

text \<open>\<^verbatim>\<open>_external_baseline_from_rows\<close>: the items must be well-formed and the digest must match.\<close>

fun split_items :: "baseline_item list \<Rightarrow> ((string \<times> dec) list \<times> string list) res" where
  "split_items [] = Inr ([], [])"
| "split_items (i # rest) =
     (if bi_type i = ''position'' \<and> bi_quantity i \<noteq> None
      then rbind (split_items rest) (\<lambda>(ps, fs). Inr ((bi_key i, the (bi_quantity i)) # ps, fs))
      else if bi_type i = ''fill_ref'' \<and> bi_quantity i = None
      then rbind (split_items rest) (\<lambda>(ps, fs). Inr (ps, bi_key i # fs))
      else Inl (RuntimeError ''stored external baseline contains an invalid item''))"

definition to_utc :: "datetime \<Rightarrow> datetime" where
  "to_utc t = Aware (as_utc t)"

definition external_baseline_from_rows ::
  "(baseline_payload \<Rightarrow> string) \<Rightarrow> baseline_row \<Rightarrow> external_account_baseline res" where
  "external_baseline_from_rows digest row =
     rbind (split_items (br_items row)) (\<lambda>(ps, fs).
     rbind (canonical_external_baseline_payload (br_instance row) (br_venue row) (br_fingerprint row) ps fs) (\<lambda>payload.
       raise_if (digest payload \<noteq> br_manifest row) (RuntimeError ''stored external baseline failed its integrity check'')
         (Inr \<lparr>eb_manifest_sha256 = br_manifest row, eb_runtime_instance_id = br_instance row, eb_venue = br_venue row,
            eb_account_fingerprint = br_fingerprint row, eb_positions = sort_key fst ps, eb_fill_refs = sort fs,
            eb_captured_at = to_utc (br_captured_at row), eb_operator = br_operator row,
            eb_revoked_at = map_option to_utc (br_revoked_at row)\<rparr>)))"

definition active_external_account_baseline ::
  "(baseline_payload \<Rightarrow> string) \<Rightarrow> string \<Rightarrow> repository \<Rightarrow> external_account_baseline option res" where
  "active_external_account_baseline digest venue db = (case active_row venue db of
       None \<Rightarrow> Inr None
     | Some row \<Rightarrow> rbind (external_baseline_from_rows digest row) (\<lambda>b. Inr (Some b)))"

text \<open>
  A column \<^verbatim>\<open>Numeric(38, 18)\<close> keeps 18 decimals and rounds the others, ties away from zero; that it
  refuses values from 10^20 on is not modelled.
\<close>

definition money_column :: "dec \<Rightarrow> dec" where
  "money_column q = sgn q * of_int \<lfloor>\<bar>q\<bar> * 10 ^ 18 + 1 / 2\<rfloor> / 10 ^ 18"

lemma money_column_grid: "on_grid q \<Longrightarrow> money_column q = q"
proof -
  assume "on_grid q"
  then obtain n :: int where n: "q = of_int n / 10 ^ 18" by (auto simp: on_grid_def)
  then have "\<bar>q\<bar> * 10 ^ 18 = of_int \<bar>n\<bar>" by (simp add: abs_divide)
  moreover have "\<lfloor>of_int \<bar>n\<bar> + 1 / 2 :: dec\<rfloor> = \<bar>n\<bar>" by (rule floor_unique) simp_all
  ultimately have "money_column q = sgn q * \<bar>q\<bar>" by (simp add: money_column_def n abs_divide)
  then show "money_column q = q" by (simp add: sgn_mult_abs)
qed

definition baseline_items :: "external_account_baseline \<Rightarrow> baseline_item list" where
  "baseline_items b =
     map (\<lambda>(token, q). \<lparr>bi_type = ''position'', bi_key = token, bi_quantity = Some (money_column q)\<rparr>) (eb_positions b) @
     map (\<lambda>r. \<lparr>bi_type = ''fill_ref'', bi_key = r, bi_quantity = None\<rparr>) (eb_fill_refs b)"

definition put_baseline :: "baseline_row \<Rightarrow> repository \<Rightarrow> repository" where
  "put_baseline row db = db\<lparr>db_baselines := dict_set (br_manifest row) row (db_baselines db)\<rparr>"

definition new_baseline_row :: "external_account_baseline \<Rightarrow> baseline_row" where
  "new_baseline_row b = \<lparr>br_manifest = eb_manifest_sha256 b, br_instance = eb_runtime_instance_id b,
     br_venue = eb_venue b, br_fingerprint = eb_account_fingerprint b, br_operator = eb_operator b,
     br_captured_at = eb_captured_at b, br_revoked_at = None, br_revoked_by = None, br_items = baseline_items b\<rparr>"

definition activate_external_account_baseline ::
  "(baseline_payload \<Rightarrow> string) \<Rightarrow> external_account_baseline \<Rightarrow> repository \<Rightarrow> bool tx" where
  "activate_external_account_baseline digest b db =
     raise_if (eb_runtime_instance_id b \<noteq> db_instance db)
       (ValueError ''external baseline runtime instance does not match repository scope'')
     (rbind (canonical_external_baseline_payload (eb_runtime_instance_id b) (eb_venue b) (eb_account_fingerprint b)
               (eb_positions b) (eb_fill_refs b)) (\<lambda>payload.
       raise_if (digest payload \<noteq> lower (eb_manifest_sha256 b))
         (ValueError ''external baseline manifest digest does not match its contents'')
       (case active_row (eb_venue b) db of
          Some active \<Rightarrow>
            if br_manifest active = eb_manifest_sha256 b then Inr (False, db)
            else Inl (ValueError ''an active external baseline already exists for this runtime and venue; revoke it first'')
        | None \<Rightarrow> (case dict_get (db_baselines db) (eb_manifest_sha256 b) of
            Some existing \<Rightarrow>
              if br_instance existing \<noteq> eb_runtime_instance_id b \<or> br_venue existing \<noteq> eb_venue b \<or>
                 br_fingerprint existing \<noteq> eb_account_fingerprint b
              then Inl (ValueError ''external baseline manifest is already bound to a different account scope'')
              else Inr (True, put_baseline (existing\<lparr>br_revoked_at := None, br_revoked_by := None,
                     br_captured_at := eb_captured_at b, br_operator := eb_operator b\<rparr>) db)
          | None \<Rightarrow> Inr (True, put_baseline (new_baseline_row b) db)))))"

definition revoke_external_account_baseline ::
  "datetime \<Rightarrow> string \<Rightarrow> string \<Rightarrow> string \<Rightarrow> repository \<Rightarrow> bool tx" where
  "revoke_external_account_baseline now venue operator manifest db =
     (let op = strip operator; mf = lower (strip manifest)
      in raise_if (op = []) (ValueError ''operator is required to revoke an external baseline'')
        (raise_if (length mf \<noteq> 64) (ValueError ''external baseline manifest SHA-256 is required for revocation'')
        (case active_row venue db of
           None \<Rightarrow> Inr (False, db)
         | Some row \<Rightarrow>
             raise_if (br_manifest row \<noteq> mf) (ValueError ''active external baseline changed since revocation preview'')
               (Inr (True, put_baseline (row\<lparr>br_revoked_at := Some now, br_revoked_by := Some op\<rparr>) db)))))"

section \<open>Runs, venues and the gate\<close>

definition active_venues_for_routes :: "string list \<Rightarrow> string list" where
  "active_venues_for_routes routes = sort (fromkeys (concat (map (\<lambda>r.
     case route_venue_labels r of Inr (a, b) \<Rightarrow> [a, b] | Inl _ \<Rightarrow> []) routes)))"

definition configure_managed_reconciliation_venues :: "string list \<Rightarrow> repository \<Rightarrow> string list tx" where
  "configure_managed_reconciliation_venues entry_routes db =
     rbind (load_position_entries db) (\<lambda>entries.
       (let venues = sort (fromkeys (active_venues_for_routes entry_routes @
              map oi_venue (unresolved_order_intents db) @ map ri_venue (unresolved_redemption_intents db) @
              concat (map (\<lambda>(_, p). [m_venue_a_label (p_market p), m_venue_b_label (p_market p)]) entries) @
              map br_venue (filter (baseline_active (db_instance db)) (dict_values (db_baselines db)))))
        in Inr (venues, db\<lparr>db_reconciliation_venues := venues, db_scope_configured := True\<rparr>)))"

definition record_reconciliation :: "reconciliation_result \<Rightarrow> repository \<Rightarrow> repository" where
  "record_reconciliation r db = db\<lparr>db_runs := db_runs db @ [\<lparr>run_instance = db_instance db, run_result = r\<rparr>]\<rparr>"

definition in_gate_scope :: "repository \<Rightarrow> string \<Rightarrow> bool" where
  "in_gate_scope db v \<longleftrightarrow> (db_reconciliation_venues db = [] \<and> \<not> db_scope_configured db) \<or> v \<in> set (db_reconciliation_venues db)"

definition gate_runs :: "repository \<Rightarrow> reconciliation_result list" where
  "gate_runs db = map run_result (filter (\<lambda>r. run_instance r = db_instance db \<and> in_gate_scope db (rr_venue (run_result r))) (db_runs db))"

text \<open>The last run of every venue, in the order in which the venues first appear.\<close>

definition latest_runs :: "reconciliation_result list \<Rightarrow> reconciliation_result list" where
  "latest_runs rs = map (\<lambda>v. last (filter (\<lambda>r. rr_venue r = v) rs)) (fromkeys (map rr_venue rs))"

definition drifted :: "reconciliation_result \<Rightarrow> bool" where
  "drifted r \<longleftrightarrow> \<not> rr_success r \<or> 0 < rr_drift_count r"

definition drift_message :: "string \<Rightarrow> reconciliation_result \<Rightarrow> string" where
  "drift_message fallback r = rr_venue r @ '': '' @ (case rr_error r of Some e \<Rightarrow> (if e \<noteq> [] then e else fallback) | None \<Rightarrow> fallback)"

definition RECONCILIATION_EVIDENCE_MAX_AGE :: int where
  "RECONCILIATION_EVIDENCE_MAX_AGE = seconds 300"

definition gate_baselines :: "repository \<Rightarrow> baseline_row list" where
  "gate_baselines db = filter (\<lambda>b. baseline_active (db_instance db) b \<and> in_gate_scope db (br_venue b)) (dict_values (db_baselines db))"

text \<open>
  What one latest full run adds to the failures. The baseline of a venue is the last active row
  (\<^verbatim>\<open>{row.venue: row}\<close>); it is invalid when it fails its integrity check.
\<close>

definition gate_baseline :: "repository \<Rightarrow> string \<Rightarrow> baseline_row option" where
  "gate_baseline db venue = find (\<lambda>b. br_venue b = venue) (rev (gate_baselines db))"

definition baseline_invalid :: "(baseline_payload \<Rightarrow> string) \<Rightarrow> baseline_row \<Rightarrow> bool" where
  "baseline_invalid digest b \<longleftrightarrow> (case external_baseline_from_rows digest b of Inl _ \<Rightarrow> True | Inr _ \<Rightarrow> False)"

definition full_run_failure ::
  "(baseline_payload \<Rightarrow> string) \<Rightarrow> int \<Rightarrow> repository \<Rightarrow> reconciliation_result \<Rightarrow> string list \<Rightarrow> string list" where
  "full_run_failure digest now db r failures =
     (let venue = rr_venue r; baseline = gate_baseline db venue in
      if drifted r then
        (let message = drift_message ''full reconciliation drift'' r
         in if message \<in> set failures then failures else failures @ [message])
      else if RECONCILIATION_EVIDENCE_MAX_AGE < now - as_utc (rr_completed_at r)
        then failures @ [venue @ '': latest full reconciliation evidence is stale'']
      else if (case baseline of Some b \<Rightarrow> baseline_invalid digest b | None \<Rightarrow> False) then failures
      else if rr_baseline_manifest r \<noteq> map_option br_manifest baseline
        then failures @ [venue @ '': reconciliation evidence predates external baseline state'']
      else case baseline of None \<Rightarrow> failures
        | Some b \<Rightarrow>
            if as_utc (rr_completed_at r) < as_utc (br_captured_at b) \<or> \<not> truthy (rr_account_fingerprint r)
              then failures @ [venue @ '': external baseline lacks fresh reconciliation evidence'']
            else if lower (the (rr_account_fingerprint r)) \<noteq> lower (br_fingerprint b)
              then failures @ [venue @ '': reconciliation account identity does not match baseline'']
            else failures)"

definition latest_reconciliation_failures ::
  "(baseline_payload \<Rightarrow> string) \<Rightarrow> int \<Rightarrow> repository \<Rightarrow> string list" where
  "latest_reconciliation_failures digest now db =
     (let latest_any = latest_runs (gate_runs db);
          latest_full = latest_runs (filter rr_full (gate_runs db));
          venues = fromkeys (map br_venue (gate_baselines db));
          failures = map (drift_message ''latest reconciliation drift'') (filter drifted latest_any) @
            map (\<lambda>v. v @ '': active external baseline failed its integrity check'')
              (filter (\<lambda>v. case gate_baseline db v of Some b \<Rightarrow> baseline_invalid digest b | None \<Rightarrow> False) venues)
      in foldl (\<lambda>fs r. full_run_failure digest now db r fs) failures latest_full @
         map (\<lambda>v. v @ '': reconciliation result missing for runtime '' @ db_instance db)
           (filter (\<lambda>v. v \<notin> set (map rr_venue latest_any)) (db_reconciliation_venues db)) @
         map (\<lambda>v. v @ '': fresh full reconciliation result missing for runtime '' @ db_instance db)
           (filter (\<lambda>v. v \<notin> set (map rr_venue latest_full)) (db_reconciliation_venues db)))"

section \<open>Balance snapshots\<close>

definition record_balances :: "datetime \<Rightarrow> string \<Rightarrow> (string \<times> dec) list \<Rightarrow> repository \<Rightarrow> repository" where
  "record_balances now venue balances db = db\<lparr>db_balances := db_balances db @
     map (\<lambda>(asset, b). \<lparr>bs_venue = venue, bs_asset = asset, bs_balance = b, bs_captured_at = now\<rparr>) balances\<rparr>"

text \<open>Newest first; the first row of a venue and asset is kept, and only venues of the enabled routes are shown.\<close>

definition add_snapshot ::
  "balance_snapshot \<Rightarrow> (string, (string, dec \<times> datetime) dict) dict \<Rightarrow> (string, (string, dec \<times> datetime) dict) dict" where
  "add_snapshot s d = (let row = (case dict_get d (bs_venue s) of Some m \<Rightarrow> m | None \<Rightarrow> []) in
     if dict_get row (bs_asset s) \<noteq> None then d
     else dict_set (bs_venue s) (dict_set (bs_asset s) (bs_balance s, bs_captured_at s) row) d)"

definition latest_balance_snapshots :: "repository \<Rightarrow> (string, (string, dec \<times> datetime) dict) dict" where
  "latest_balance_snapshots db =
     (let result = foldl (\<lambda>d s. add_snapshot s d) [] (sort_key (\<lambda>s. - as_utc (bs_captured_at s)) (rev (db_balances db)));
          venues = active_venues_for_routes (db_enabled_routes db)
      in if venues = [] then result else filter (\<lambda>(v, _). v \<in> set venues) result)"

section \<open>Lemmas\<close>

subsection \<open>The gate\<close>

definition evidence_clean :: "(baseline_payload \<Rightarrow> string) \<Rightarrow> int \<Rightarrow> repository \<Rightarrow> reconciliation_result \<Rightarrow> bool" where
  "evidence_clean digest now db r \<longleftrightarrow> \<not> drifted r \<and>
     now - as_utc (rr_completed_at r) \<le> RECONCILIATION_EVIDENCE_MAX_AGE \<and>
     (case gate_baseline db (rr_venue r) of
        None \<Rightarrow> rr_baseline_manifest r = None
      | Some b \<Rightarrow> baseline_invalid digest b \<or>
          (rr_baseline_manifest r = Some (br_manifest b) \<and> as_utc (br_captured_at b) \<le> as_utc (rr_completed_at r) \<and>
           (\<exists>fp. rr_account_fingerprint r = Some fp \<and> fp \<noteq> [] \<and> lower fp = lower (br_fingerprint b))))"

lemma full_run_failure_Nil:
  "full_run_failure digest now db r fs = [] \<longleftrightarrow> fs = [] \<and> evidence_clean digest now db r"
  by (cases "rr_account_fingerprint r")
    (auto simp: full_run_failure_def evidence_clean_def Let_def not_less split: option.splits)

lemma full_runs_Nil:
  "foldl (\<lambda>fs r. full_run_failure digest now db r fs) fs rs = [] \<longleftrightarrow>
     fs = [] \<and> (\<forall>r \<in> set rs. evidence_clean digest now db r)"
  by (induction rs arbitrary: fs) (auto simp: full_run_failure_Nil)

lemma latest_runs_mem:
  assumes "v \<in> set (map rr_venue (latest_runs rs))"
  shows "last (filter (\<lambda>r. rr_venue r = v) rs) \<in> set (latest_runs rs) \<and>
    last (filter (\<lambda>r. rr_venue r = v) rs) \<in> set rs \<and> rr_venue (last (filter (\<lambda>r. rr_venue r = v) rs)) = v"
proof -
  have some: "last (filter (\<lambda>r. rr_venue r = w) rs) \<in> set rs \<and> rr_venue (last (filter (\<lambda>r. rr_venue r = w) rs)) = w"
    if "w \<in> set (map rr_venue rs)" for w
  proof -
    have "filter (\<lambda>r. rr_venue r = w) rs \<noteq> []" using that by (auto simp: filter_empty_conv)
    then have "last (filter (\<lambda>r. rr_venue r = w) rs) \<in> set (filter (\<lambda>r. rr_venue r = w) rs)" by (rule last_in_set)
    then show ?thesis by simp
  qed
  have "v \<in> set (map rr_venue rs)" using assms some by (auto simp: latest_runs_def)
  with some [OF this] show ?thesis by (auto simp: latest_runs_def)
qed

lemma gate_baseline_mem:
  assumes "gate_baseline db v = Some b"
  shows "b \<in> set (gate_baselines db) \<and> br_venue b = v \<and> v \<in> set (fromkeys (map br_venue (gate_baselines db)))"
proof -
  have "b \<in> set (rev (gate_baselines db)) \<and> br_venue b = v"
    using assms unfolding gate_baseline_def by (rule find_Some_mem)
  then show ?thesis by auto
qed

subsection \<open>Active baselines\<close>

text \<open>The partial unique index on the instance and venue of rows that are not revoked.\<close>

definition same_scope :: "baseline_row \<Rightarrow> baseline_row \<Rightarrow> bool" where
  "same_scope b b' \<longleftrightarrow> br_revoked_at b = None \<and> br_revoked_at b' = None \<and> br_instance b = br_instance b' \<and>
     br_venue b = br_venue b'"

definition baselines_ok :: "repository \<Rightarrow> bool" where
  "baselines_ok db \<longleftrightarrow> dict_ok (db_baselines db) \<and> table_all (\<lambda>k b. br_manifest b = k) (db_baselines db) \<and>
     table_all (\<lambda>k b. table_all (\<lambda>k' b'. same_scope b b' \<longrightarrow> k = k') (db_baselines db)) (db_baselines db)"

lemma baselines_unique:
  "baselines_ok db \<Longrightarrow> dict_get (db_baselines db) k = Some b \<Longrightarrow> dict_get (db_baselines db) k' = Some b' \<Longrightarrow>
     same_scope b b' \<Longrightarrow> k = k'"
  by (simp add: baselines_ok_def table_all_def)

inductive evidence_step :: "repository \<Rightarrow> repository \<Rightarrow> bool" where
  transaction: "repo_step db db' \<Longrightarrow> evidence_step db db'"
| activated: "activate_external_account_baseline digest b db = Inr (r, db') \<Longrightarrow> evidence_step db db'"
| revoked: "revoke_external_account_baseline now venue operator manifest db = Inr (r, db') \<Longrightarrow> evidence_step db db'"
| recorded: "evidence_step db (record_reconciliation run db)"
| balances_recorded: "evidence_step db (record_balances now venue balances db)"
| configured: "configure_managed_reconciliation_venues routes db = Inr (venues, db') \<Longrightarrow> evidence_step db db'"

lemma repo_step_baselines: "repo_step db db' \<Longrightarrow> db_baselines db' = db_baselines db \<and> db_instance db' = db_instance db"
  by (induction rule: repo_step.induct)
    (auto simp: create_order_intent_def update_order_intent_def upsert_venue_order_def insert_fill_def
      save_position_def remove_position_def record_residual_exit_exposure_def create_redemption_intent_def
      update_redemption_intent_def save_risk_state_def rbind_Inr_iff Let_def split: if_splits option.splits)

lemma active_row_None:
  assumes "active_row v db = None" and "dict_ok (db_baselines db)" and "dict_get (db_baselines db) k = Some b"
  shows "\<not> (br_instance b = db_instance db \<and> br_revoked_at b = None \<and> br_venue b = v)"
proof -
  have "b \<in> set (dict_values (db_baselines db))" using assms(2,3) by (auto simp: dict_values_get)
  with assms(1) show ?thesis by (auto simp: active_row_def find_None_iff baseline_active_def)
qed

lemma active_row_Some:
  assumes "active_row v db = Some b" and ok: "baselines_ok db"
  shows "dict_get (db_baselines db) (br_manifest b) = Some b \<and> br_instance b = db_instance db \<and>
    br_revoked_at b = None \<and> br_venue b = v"
proof -
  have b: "b \<in> set (dict_values (db_baselines db))" "baseline_active (db_instance db) b \<and> br_venue b = v"
    using find_Some_mem [OF assms(1) [unfolded active_row_def]] by blast+
  have d: "dict_ok (db_baselines db)" and t: "table_all (\<lambda>k b. br_manifest b = k) (db_baselines db)"
    using ok by (simp_all add: baselines_ok_def)
  obtain k where k: "dict_get (db_baselines db) k = Some b" using b(1) dict_values_get [OF d] by blast
  with table_allD [OF t k] b(2) show ?thesis by (simp add: baseline_active_def)
qed

lemma baselines_ok_put:
  assumes ok: "baselines_ok db"
    and fresh: "br_revoked_at row = None \<Longrightarrow> active_row (br_venue row) db = None \<and> br_instance row = db_instance db"
  shows "baselines_ok (put_baseline row db)"
proof -
  have d: "dict_ok (db_baselines db)" and t: "table_all (\<lambda>k b. br_manifest b = k) (db_baselines db)"
    using ok by (simp_all add: baselines_ok_def)
  have no: "\<not> same_scope row b \<and> \<not> same_scope b row" if "dict_get (db_baselines db) k = Some b" for k b
    using fresh active_row_None [OF _ d that, of "br_venue row"] by (auto simp: same_scope_def)
  have uniq: "table_all (\<lambda>k b. table_all (\<lambda>k' b'. same_scope b b' \<longrightarrow> k = k') (dict_set (br_manifest row) row (db_baselines db)))
      (dict_set (br_manifest row) row (db_baselines db))"
    using no baselines_unique [OF ok] by (simp add: table_all_def)
  show ?thesis
    unfolding baselines_ok_def put_baseline_def using d t uniq by (simp add: table_all_set)
qed

lemma activate_keeps_baselines:
  assumes "activate_external_account_baseline digest b db = Inr (r, db')" and ok: "baselines_ok db"
  shows "baselines_ok db'"
proof -
  have "db' = db \<or> (active_row (eb_venue b) db = None \<and> eb_runtime_instance_id b = db_instance db \<and>
      (\<exists>row. db' = put_baseline row db \<and> br_venue row = eb_venue b \<and> br_instance row = eb_runtime_instance_id b))"
    using assms(1)
    by (auto simp: activate_external_account_baseline_def raise_if_Inr_iff rbind_Inr_iff new_baseline_row_def
        split: option.splits if_splits)
  with ok show ?thesis by (auto intro!: baselines_ok_put)
qed

lemma revoke_keeps_baselines:
  assumes "revoke_external_account_baseline now venue operator manifest db = Inr (r, db')" and ok: "baselines_ok db"
  shows "baselines_ok db'"
proof -
  have "db' = db \<or> (\<exists>row. db' = put_baseline row db \<and> br_revoked_at row \<noteq> None)"
    using assms(1)
    by (auto simp: revoke_external_account_baseline_def raise_if_Inr_iff Let_def split: option.splits)
  with ok show ?thesis by (auto intro!: baselines_ok_put)
qed

lemma baselines_ok_step: "evidence_step db db' \<Longrightarrow> baselines_ok db \<Longrightarrow> baselines_ok db'"
proof (induction rule: evidence_step.induct)
  case (transaction db db')
  then show ?case using repo_step_baselines [of db db'] by (simp add: baselines_ok_def)
next
  case (recorded db run)
  then show ?case by (simp add: baselines_ok_def record_reconciliation_def)
next
  case (balances_recorded db now venue balances)
  then show ?case by (simp add: baselines_ok_def record_balances_def)
next
  case (configured routes db venues db')
  then show ?case
    by (auto simp: baselines_ok_def configure_managed_reconciliation_venues_def rbind_Inr_iff Let_def)
qed (blast intro: activate_keeps_baselines revoke_keeps_baselines)+

lemma baselines_ok_empty: "empty_tables db \<Longrightarrow> baselines_ok db"
  by (simp add: empty_tables_def baselines_ok_def)

interpretation baselines: invariant_system empty_tables evidence_step baselines_ok
  by unfold_locales (blast intro: baselines_ok_empty baselines_ok_step)+

subsection \<open>Payloads\<close>

lemma split_items_baseline:
  "split_items (baseline_items b) = Inr (map (\<lambda>(token, q). (token, money_column q)) (eb_positions b), eb_fill_refs b)"
proof -
  have refs: "split_items (map (\<lambda>r. \<lparr>bi_type = ''fill_ref'', bi_key = r, bi_quantity = None\<rparr>) fs) = Inr ([], fs)" for fs
    by (induction fs) auto
  have "split_items (map (\<lambda>(token, q). \<lparr>bi_type = ''position'', bi_key = token, bi_quantity = Some (money_column q)\<rparr>) ps @
     map (\<lambda>r. \<lparr>bi_type = ''fill_ref'', bi_key = r, bi_quantity = None\<rparr>) fs) =
       Inr (map (\<lambda>(token, q). (token, money_column q)) ps, fs)" for ps fs
    by (induction ps) (auto simp: refs)
  then show ?thesis by (simp add: baseline_items_def)
qed

lemma canonical_positions_Inr:
  "canonical_positions ps seen = Inr qs \<longleftrightarrow> qs = map (\<lambda>(t, q). (strip t, canonical_decimal q)) ps \<and>
     (\<forall>tq \<in> set ps. strip (fst tq) \<noteq> [] \<and> length (strip (fst tq)) \<le> 256 \<and> 0 < snd tq \<and> strip (fst tq) \<notin> set seen) \<and>
     distinct (map (\<lambda>tq. strip (fst tq)) ps)"
  by (induction ps seen arbitrary: qs rule: canonical_positions.induct)
    (auto simp: Let_def raise_if_Inr_iff rbind_Inr_iff not_less not_le, erule notE, rule rev_image_eqI, assumption, simp)

lemma canonical_fill_refs_Inr:
  "canonical_fill_refs fs seen = Inr rs \<longleftrightarrow> rs = map strip fs \<and>
     (\<forall>f \<in> set fs. strip f \<noteq> [] \<and> length (strip f) \<le> 256 \<and> strip f \<notin> set seen) \<and> distinct (map strip fs)"
  by (induction fs seen arbitrary: rs rule: canonical_fill_refs.induct)
    (auto simp: Let_def raise_if_Inr_iff rbind_Inr_iff not_less not_le, erule notE, rule rev_image_eqI, assumption, simp)

lemma canonical_positions_perm:
  assumes "canonical_positions ps [] = Inr qs" and "mset ps' = mset ps"
  shows "\<exists>qs'. canonical_positions ps' [] = Inr qs' \<and> sort_key fst qs' = sort_key fst qs"
proof -
  let ?f = "\<lambda>(t, q). (strip t, canonical_decimal q)"
  note c = assms(1) [unfolded canonical_positions_Inr]
  have set_eq: "set ps' = set ps" using assms(2) by (metis set_mset_mset)
  have "mset (map (\<lambda>tq. strip (fst tq)) ps') = mset (map (\<lambda>tq. strip (fst tq)) ps)" using assms(2) by simp
  then have "distinct (map (\<lambda>tq. strip (fst tq)) ps')" using c by (metis mset_eq_imp_distinct_iff)
  with c set_eq have ok: "canonical_positions ps' [] = Inr (map ?f ps')" unfolding canonical_positions_Inr by simp
  have "fst \<circ> ?f = (\<lambda>tq. strip (fst tq))" by auto
  then have "inj_on fst (set (map ?f ps'))"
    using c set_eq by (simp add: distinct_map inj_on_imageI)
  then have "sort_key fst (map ?f ps') = sort_key fst (map ?f ps)"
    using assms(2) by (intro sort_key_inj_key_eq) auto
  with ok c show ?thesis by auto
qed

lemma canonical_fill_refs_perm:
  assumes "canonical_fill_refs fs [] = Inr rs" and "mset fs' = mset fs"
  shows "\<exists>rs'. canonical_fill_refs fs' [] = Inr rs' \<and> sort rs' = sort rs"
proof -
  note c = assms(1) [unfolded canonical_fill_refs_Inr]
  have set_eq: "set fs' = set fs" using assms(2) by (metis set_mset_mset)
  have m: "mset (map strip fs') = mset (map strip fs)" using assms(2) by simp
  then have "distinct (map strip fs')" using c by (metis mset_eq_imp_distinct_iff)
  with c set_eq have "canonical_fill_refs fs' [] = Inr (map strip fs')" unfolding canonical_fill_refs_Inr by simp
  moreover have "sort (map strip fs') = sort (map strip fs)"
    using m by (intro properties_for_sort) auto
  ultimately show ?thesis using c by auto
qed

section \<open>Properties\<close>

text \<open>C16. The gate opens on evidence only: when the list of failures is empty, every managed venue has a
  latest run of this instance without drift and error, and a latest full run that is clean, at most
  five minutes old and bound to the account state: it names exactly the active external baseline
  (or none when there is none), that baseline passes its integrity check, was captured before the
  run completed, and belongs to the account that was reconciled.\<close>

theorem empty_failures_mean_fresh_evidence:
  assumes "latest_reconciliation_failures digest now db = []" and "v \<in> set (db_reconciliation_venues db)"
  shows "(\<exists>r. r = last (filter (\<lambda>r. rr_venue r = v) (gate_runs db)) \<and> r \<in> set (gate_runs db) \<and>
      rr_success r \<and> rr_drift_count r = 0) \<and>
    (\<exists>r. r = last (filter (\<lambda>r. rr_venue r = v) (filter rr_full (gate_runs db))) \<and> r \<in> set (gate_runs db) \<and> rr_full r \<and>
      rr_success r \<and> rr_drift_count r = 0 \<and> now - as_utc (rr_completed_at r) \<le> seconds 300 \<and>
      rr_baseline_manifest r = map_option br_manifest (gate_baseline db v) \<and>
      (\<forall>b. gate_baseline db v = Some b \<longrightarrow> (\<exists>eb. external_baseline_from_rows digest b = Inr eb) \<and>
         as_utc (br_captured_at b) \<le> as_utc (rr_completed_at r) \<and>
         map_option lower (rr_account_fingerprint r) = Some (lower (br_fingerprint b))))"
proof -
  let ?any = "latest_runs (gate_runs db)" and ?full = "latest_runs (filter rr_full (gate_runs db))"
  have any: "v \<in> set (map rr_venue ?any)" "\<forall>r \<in> set ?any. \<not> drifted r"
    and full: "v \<in> set (map rr_venue ?full)" "\<forall>r \<in> set ?full. evidence_clean digest now db r"
    and valid: "\<forall>w \<in> set (fromkeys (map br_venue (gate_baselines db))).
      \<not> (case gate_baseline db w of Some b \<Rightarrow> baseline_invalid digest b | None \<Rightarrow> False)"
    using assms by (auto simp: latest_reconciliation_failures_def Let_def full_runs_Nil filter_empty_conv)
  note a = latest_runs_mem [OF any(1)] and f = latest_runs_mem [OF full(1)]
  have ok: "\<not> baseline_invalid digest b" if "gate_baseline db v = Some b" for b
    using valid gate_baseline_mem [OF that] that by fastforce
  have clean: "evidence_clean digest now db (last (filter (\<lambda>r. rr_venue r = v) (filter rr_full (gate_runs db))))"
    using f full(2) by blast
  have "\<not> drifted (last (filter (\<lambda>r. rr_venue r = v) (gate_runs db)))" using a any(2) by blast
  then show ?thesis
    using a f clean ok
    by (cases "gate_baseline db v")
      (auto simp: evidence_clean_def drifted_def RECONCILIATION_EVIDENCE_MAX_AGE_def baseline_invalid_def split: sum.splits)
qed

definition sample_run :: reconciliation_result where
  "sample_run = \<lparr>rr_venue = ''Polymarket'', rr_started_at = Aware 70, rr_completed_at = Aware 90, rr_orders_checked = 1,
     rr_fills_recorded = 0, rr_drift_count = 0, rr_success = True, rr_error = None, rr_transient_failure = False,
     rr_full = True, rr_account_fingerprint = Some (replicate 64 (CHR ''a'')), rr_baseline_manifest = Some ''m''\<rparr>"

definition sample_baseline :: external_account_baseline where
  "sample_baseline = \<lparr>eb_manifest_sha256 = ''m'', eb_runtime_instance_id = ''global'', eb_venue = ''Polymarket'',
     eb_account_fingerprint = replicate 64 (CHR ''a''), eb_positions = [(''202'', 3), (''101'', 5)],
     eb_fill_refs = [''f2'', ''f1''], eb_captured_at = Naive 50, eb_operator = ''op'', eb_revoked_at = None\<rparr>"

definition sample_gate :: repository where
  "sample_gate = record_reconciliation sample_run (put_baseline (new_baseline_row sample_baseline)
     (empty_repository\<lparr>db_reconciliation_venues := [''Polymarket''], db_scope_configured := True\<rparr>))"

lemma sample_gate_opens: "latest_reconciliation_failures (\<lambda>_. ''m'') 100 sample_gate = []"
  by code_simp

theorem empty_failures_mean_fresh_evidence_witness:
  "\<exists>r. r \<in> set (gate_runs sample_gate) \<and> rr_full r \<and> rr_success r \<and>
     rr_baseline_manifest r = map_option br_manifest (gate_baseline sample_gate ''Polymarket'')"
proof -
  have "''Polymarket'' \<in> set (db_reconciliation_venues sample_gate)"
    by (simp add: sample_gate_def record_reconciliation_def put_baseline_def empty_repository_def)
  from empty_failures_mean_fresh_evidence [OF sample_gate_opens this] show ?thesis by blast
qed

text \<open>C17. Reachable states have one active baseline per scope: whatever baselines operators activate and
  revoke and whatever else commits, two active rows of the same instance and venue are the same row.\<close>

theorem one_active_baseline_per_scope:
  assumes "empty_tables db0" and "evidence_step\<^sup>*\<^sup>* db0 db"
    and "dict_get (db_baselines db) k = Some b" and "dict_get (db_baselines db) k' = Some b'"
    and "br_revoked_at b = None" and "br_revoked_at b' = None"
    and "br_instance b = br_instance b'" and "br_venue b = br_venue b'"
  shows "k = k' \<and> b = b'"
proof -
  have "baselines_ok db" by (rule baselines.inv_reachable [OF assms(1,2)])
  from baselines_unique [OF this assms(3,4)] assms show ?thesis by (simp add: same_scope_def)
qed

lemma sample_activation:
  "activate_external_account_baseline (\<lambda>_. ''m'') sample_baseline empty_repository =
     Inr (True, put_baseline (new_baseline_row sample_baseline) empty_repository)"
  by code_simp

theorem one_active_baseline_per_scope_witness:
  "{k. \<exists>b. dict_get (db_baselines (put_baseline (new_baseline_row sample_baseline) empty_repository)) k = Some b \<and>
     br_revoked_at b = None \<and> br_instance b = ''global'' \<and> br_venue b = ''Polymarket''} = {''m''}"
proof -
  let ?db = "put_baseline (new_baseline_row sample_baseline) empty_repository"
  let ?row = "new_baseline_row sample_baseline"
  have steps: "evidence_step\<^sup>*\<^sup>* empty_repository ?db"
    using activated [OF sample_activation] by (rule r_into_rtranclp)
  have row: "dict_get (db_baselines ?db) ''m'' = Some ?row" "br_revoked_at ?row = None" "br_instance ?row = ''global''"
    "br_venue ?row = ''Polymarket''"
    by (simp_all add: put_baseline_def new_baseline_row_def sample_baseline_def)
  have "k = ''m''" if "dict_get (db_baselines ?db) k = Some b" "br_revoked_at b = None" "br_instance b = ''global''"
    "br_venue b = ''Polymarket''" for k b
    using one_active_baseline_per_scope [OF empty_repository_tables steps that(1) row(1)] that row by simp
  then show ?thesis using row by blast
qed

text \<open>C18. What was activated is what is enforced: a baseline that an operator activates under a digest in lower
  case, with quantities of at most 18 decimals (those the column of the table holds exactly), reads
  back with the same contents, sorted, until it is revoked.\<close>

theorem activated_baseline_reads_back:
  assumes "baselines_ok db" and "activate_external_account_baseline digest b db = Inr (True, db')"
    and "dict_get (db_baselines db) (eb_manifest_sha256 b) = None" and "lower (eb_manifest_sha256 b) = eb_manifest_sha256 b"
    and "\<forall>(token, q) \<in> set (eb_positions b). on_grid q"
  shows "active_external_account_baseline digest (eb_venue b) db' =
    Inr (Some (b\<lparr>eb_positions := sort_key fst (eb_positions b), eb_fill_refs := sort (eb_fill_refs b),
      eb_captured_at := to_utc (eb_captured_at b), eb_revoked_at := None\<rparr>))"
proof -
  obtain payload where payload: "canonical_external_baseline_payload (eb_runtime_instance_id b) (eb_venue b)
        (eb_account_fingerprint b) (eb_positions b) (eb_fill_refs b) = Inr payload" "digest payload = eb_manifest_sha256 b"
    and db': "db' = put_baseline (new_baseline_row b) db" and inst: "eb_runtime_instance_id b = db_instance db"
    using assms(2-4)
    by (auto simp: activate_external_account_baseline_def raise_if_Inr_iff rbind_Inr_iff split: option.splits if_splits)
  have ok: "baselines_ok db'" by (rule activate_keeps_baselines [OF assms(2,1)])
  have row: "dict_get (db_baselines db') (eb_manifest_sha256 b) = Some (new_baseline_row b)"
    by (simp add: db' put_baseline_def new_baseline_row_def)
  have scope: "br_instance (new_baseline_row b) = db_instance db'" "br_venue (new_baseline_row b) = eb_venue b"
    "br_revoked_at (new_baseline_row b) = None"
    using inst by (simp_all add: new_baseline_row_def db' put_baseline_def)
  have "dict_ok (db_baselines db')" using ok by (simp add: baselines_ok_def)
  from active_row_None [OF _ this row, of "eb_venue b"] scope obtain a where a: "active_row (eb_venue b) db' = Some a"
    by (cases "active_row (eb_venue b) db'") auto
  note a' = active_row_Some [OF a ok]
  have "br_manifest a = eb_manifest_sha256 b"
    using a' scope by (intro baselines_unique [OF ok conjunct1 [OF a'] row]) (simp add: same_scope_def)
  with a' row have "a = new_baseline_row b" by (metis option.inject)
  moreover have "map (\<lambda>(token, q). (token, money_column q)) (eb_positions b) = eb_positions b"
    using assms(5) by (intro map_idI) (auto simp: money_column_grid)
  ultimately show ?thesis
    using a payload by (simp add: active_external_account_baseline_def external_baseline_from_rows_def new_baseline_row_def
        split_items_baseline)
qed

theorem activated_baseline_reads_back_witness:
  "\<exists>eb. active_external_account_baseline (\<lambda>_. ''m'') ''Polymarket''
      (put_baseline (new_baseline_row sample_baseline) empty_repository) = Inr (Some eb) \<and>
     eb_positions eb = [(''101'', 5), (''202'', 3)] \<and> eb_captured_at eb = Aware 50"
proof -
  have sorted: "sort_key fst (eb_positions sample_baseline) = [(''101'', 5), (''202'', 3)]" by code_simp
  have "lower (eb_manifest_sha256 sample_baseline) = eb_manifest_sha256 sample_baseline" by code_simp
  moreover have "\<forall>(token, q) \<in> set (eb_positions sample_baseline). on_grid q"
    by (simp add: sample_baseline_def on_grid_numeral)
  ultimately
  have "active_external_account_baseline (\<lambda>_. ''m'') (eb_venue sample_baseline)
      (put_baseline (new_baseline_row sample_baseline) empty_repository) =
    Inr (Some (sample_baseline\<lparr>eb_positions := sort_key fst (eb_positions sample_baseline),
      eb_fill_refs := sort (eb_fill_refs sample_baseline), eb_captured_at := to_utc (eb_captured_at sample_baseline),
      eb_revoked_at := None\<rparr>))"
    by (intro activated_baseline_reads_back [OF baselines_ok_empty [OF empty_repository_tables] sample_activation])
      (simp_all add: empty_repository_def)
  then show ?thesis by (simp add: sorted to_utc_def, simp add: sample_baseline_def)
qed

text \<open>
  The two conditions are needed: a manifest in upper case, or a quantity below the last decimal of the
  column, is activated and then fails its integrity check whenever it is read.
\<close>

definition unreadable_after_activation :: "external_account_baseline \<Rightarrow> bool" where
  "unreadable_after_activation b \<longleftrightarrow> (case activate_external_account_baseline (\<lambda>_. ''m'') b empty_repository of
     Inl _ \<Rightarrow> False
   | Inr (activated, db) \<Rightarrow> activated \<and>
       (case active_external_account_baseline (\<lambda>_. ''m'') (eb_venue b) db of Inl _ \<Rightarrow> True | Inr _ \<Rightarrow> False))"

lemma upper_case_manifest_unreadable: "unreadable_after_activation (sample_baseline\<lparr>eb_manifest_sha256 := ''M''\<rparr>)"
  by code_simp

lemma tiny_quantity_unreadable: "unreadable_after_activation (sample_baseline\<lparr>eb_positions := [(''101'', 1 / 10 ^ 19)]\<rparr>)"
  by code_simp

text \<open>The digest of a baseline does not depend on the order in which its positions and fills are listed:
  permuted lists give the same canonical payload.\<close>

theorem canonical_payload_ignores_order:
  assumes "canonical_external_baseline_payload runtime venue fingerprint ps fs = Inr payload"
    and "mset ps' = mset ps" and "mset fs' = mset fs"
  shows "canonical_external_baseline_payload runtime venue fingerprint ps' fs' = Inr payload"
proof -
  obtain qs rs where q: "canonical_positions ps [] = Inr qs" and r: "canonical_fill_refs fs [] = Inr rs"
    using assms(1) by (auto simp: canonical_external_baseline_payload_def raise_if_Inr_iff rbind_Inr_iff Let_def)
  with canonical_positions_perm [OF q assms(2)] canonical_fill_refs_perm [OF r assms(3)] assms(1) show ?thesis
    by (auto simp: canonical_external_baseline_payload_def raise_if_Inr_iff Let_def)
qed

theorem canonical_payload_ignores_order_witness:
  "canonical_external_baseline_payload ''global'' ''Polymarket'' (replicate 64 (CHR ''a''))
     [(''101'', 5), (''202'', 3)] [''f1'', ''f2''] =
   Inr \<lparr>bp_runtime = ''global'', bp_venue = ''Polymarket'', bp_fingerprint = replicate 64 (CHR ''a''),
     bp_positions = [(''101'', canonical_decimal 5), (''202'', canonical_decimal 3)], bp_fill_refs = [''f1'', ''f2'']\<rparr>"
proof -
  have "canonical_external_baseline_payload ''global'' ''Polymarket'' (replicate 64 (CHR ''a''))
     [(''202'', 3), (''101'', 5)] [''f2'', ''f1''] =
   Inr \<lparr>bp_runtime = ''global'', bp_venue = ''Polymarket'', bp_fingerprint = replicate 64 (CHR ''a''),
     bp_positions = [(''101'', canonical_decimal 5), (''202'', canonical_decimal 3)], bp_fill_refs = [''f1'', ''f2'']\<rparr>"
    by code_simp
  from canonical_payload_ignores_order [OF this] show ?thesis by (simp add: add_mset_commute)
qed

end
