(* ===== verification/Entry_Gates.thy ===== *)
theory Entry_Gates
  imports Quant Ledger Risk_Control Mapping_Rules
begin

text \<open>
  The gates that \<^verbatim>\<open>execution.py\<close> puts before an order: the order budget of
  \<^verbatim>\<open>EntrySubmissionCoordinator\<close>, the risk limits over the open positions, the reservation of
  capital against the cached balances, the submission windows, and the status that an intent gets
  from a report. The lemmas show that the budget holds over every window of sixty seconds, that
  admitted entries keep the portfolio within its limits, and that reservations never exceed the
  balance they were granted against.
\<close>

section \<open>Configuration\<close>

record spread_policy =
  sp_route_floors :: "(string, flt) dict"
  sp_min_expected_profit_usd :: flt
  sp_depth_buffer :: flt
  sp_adverse_move :: flt
  sp_adverse_move_by_route :: "(string, flt) dict"
  sp_safety_buffer :: flt
  sp_fixed_chain_cost :: flt
  sp_fixed_chain_cost_by_route :: "(string, flt) dict"
  sp_gas_units_by_route :: "(string, (int \<times> int) list) dict"
  sp_native_ceiling :: "(int, flt) dict"
  sp_gas_price_multiplier :: flt
  sp_gas_quote_ttl :: flt
  sp_require_live_gas :: bool

definition threshold_for :: "spread_policy \<Rightarrow> string \<Rightarrow> flt" where
  "threshold_for sp route = max (get_or (sp_route_floors sp) route 0)
     (fadd (get_or (sp_adverse_move_by_route sp) route (sp_adverse_move sp)) (sp_safety_buffer sp))"

definition fixed_chain_cost_for :: "spread_policy \<Rightarrow> string \<Rightarrow> flt" where
  "fixed_chain_cost_for sp route = get_or (sp_fixed_chain_cost_by_route sp) route (sp_fixed_chain_cost sp)"

record exec_config =
  ec_mode :: execution_mode
  ec_is_test :: bool
  ec_funded_routes :: "string list"
  ec_position_size_usd :: flt
  ec_min_net_spread :: flt
  ec_max_open_positions :: nat
  ec_max_total_notional_usd :: flt
  ec_max_market_exposure_usd :: flt
  ec_max_venue_exposure_usd :: flt
  ec_max_unresolved_exposure_usd :: flt
  ec_max_orders_per_minute :: int
  ec_max_production_price_impact :: flt
  ec_polymarket_slippage :: flt
  ec_predict_fun_slippage :: flt
  ec_sx_bet_slippage :: flt
  ec_myriad_slippage :: flt
  ec_polymarket_fee_pct :: flt
  ec_predict_fun_fee_bps :: int
  ec_sx_bet_fee_bps :: int
  ec_myriad_fee_pct :: flt
  ec_policy :: spread_policy

definition venue_slippage_cap :: "exec_config \<Rightarrow> string \<Rightarrow> flt res" where
  "venue_slippage_cap c venue =
     rbind (if venue = ''Polymarket'' then Inr (ec_polymarket_slippage c)
            else if venue = ''Predict.fun'' then Inr (ec_predict_fun_slippage c)
            else if venue = ''SX Bet'' then Inr (ec_sx_bet_slippage c)
            else if venue = ''Myriad'' then Inr (ec_myriad_slippage c)
            else Inl (ValueError (''Unsupported venue label: '' @ venue)))
       (\<lambda>configured. Inr (min configured (ec_max_production_price_impact c)))"

definition bps_fraction :: "int \<Rightarrow> flt" where
  "bps_fraction bps = flt_round (ddiv (of_int bps) 10000)"

definition venue_fee_pct :: "exec_config \<Rightarrow> string \<Rightarrow> market_spec \<Rightarrow> flt res" where
  "venue_fee_pct c venue m =
     (if venue = ''Polymarket'' then Inr (ec_polymarket_fee_pct c)
      else if venue = ''Predict.fun'' then
        Inr (bps_fraction (case m_predict_fun_fee_rate_bps m of Some b \<Rightarrow> b | None \<Rightarrow> ec_predict_fun_fee_bps c))
      else if venue = ''SX Bet'' then
        Inr (bps_fraction (case m_predict_fun_fee_rate_bps m of
          Some b \<Rightarrow> if m_venue_a_label m \<noteq> ''Predict.fun'' then b else ec_sx_bet_fee_bps c
        | None \<Rightarrow> ec_sx_bet_fee_bps c))
      else if venue = ''Myriad'' then Inr (ec_myriad_fee_pct c)
      else Inl (ValueError (''Unsupported venue label: '' @ venue)))"

section \<open>The order budget\<close>

text \<open>Times are seconds of the monotonic clock; the queue holds the times of the admitted orders.\<close>

definition expired :: "flt \<Rightarrow> flt \<Rightarrow> bool" where
  "expired now t \<longleftrightarrow> 60 \<le> fsub now t"

definition reserve_order_attempts :: "flt \<Rightarrow> int \<Rightarrow> int \<Rightarrow> flt list \<Rightarrow> (bool \<times> flt list) res" where
  "reserve_order_attempts now n max_orders ts =
     raise_if (n \<le> 0) (ValueError ''count must be positive'')
    (raise_if (max_orders \<le> 0) (ValueError ''max_orders_per_minute must be positive'')
      (let kept = dropWhile (expired now) ts in
       if max_orders < int (length kept) + n then Inr (False, kept)
       else Inr (True, kept @ replicate (nat n) now)))"

section \<open>Risk limits\<close>

definition first_cost :: "open_position \<Rightarrow> dec" where
  "first_cost p = dmul (p_polymarket_contracts p) (p_polymarket_entry_price p)"

definition second_cost :: "open_position \<Rightarrow> dec" where
  "second_cost p = dmul (p_predict_fun_contracts p) (p_predict_fun_entry_price p)"

definition position_cost :: "open_position \<Rightarrow> dec" where
  "position_cost p = dadd (first_cost p) (second_cost p)"

definition total_notional :: "open_position list \<Rightarrow> dec" where
  "total_notional ps = dsum (map position_cost ps)"

definition add_exposure :: "open_position \<Rightarrow> (string, dec) dict \<Rightarrow> (string, dec) dict" where
  "add_exposure p d =
     (let d1 = dict_set (m_venue_a_label (p_market p))
            (dadd (get_or d (m_venue_a_label (p_market p)) 0) (first_cost p)) d
      in dict_set (m_venue_b_label (p_market p))
            (dadd (get_or d1 (m_venue_b_label (p_market p)) 0) (second_cost p)) d1)"

definition venue_exposure :: "open_position list \<Rightarrow> (string, dec) dict" where
  "venue_exposure ps = foldl (\<lambda>d p. add_exposure p d) [] ps"

definition UNRESOLVED_STATUSES :: "string list" where
  "UNRESOLVED_STATUSES = [''entry_pending'', ''unwind_pending'', ''partial_exit_pending'', ''manual_review'']"

definition RISK_USD_EPSILON :: dec where
  "RISK_USD_EPSILON = 1 / 10 ^ 9"

definition principal_cost :: "arbitrage_signal \<Rightarrow> dec" where
  "principal_cost s = dadd (pl_polymarket_capital_usd (s_plan s)) (pl_predict_fun_capital_usd (s_plan s))"

definition signal_all_in_cost :: "arbitrage_signal \<Rightarrow> dec" where
  "signal_all_in_cost s = dadd (pl_total_cost_usd (s_plan s)) (flt_repr (sm_fixed_chain_cost_usd (s_metrics s)))"

definition usd_limit :: "flt \<Rightarrow> dec" where
  "usd_limit x = dadd (flt_repr x) RISK_USD_EPSILON"

definition risk_limits_allow ::
  "exec_config \<Rightarrow> string \<Rightarrow> string \<Rightarrow> open_position list \<Rightarrow> arbitrage_signal \<Rightarrow> dec option \<Rightarrow> bool" where
  "risk_limits_allow c first_label second_label ps s all_in_cost_usd =
     (if all_in_cost_usd = None \<and> flt_repr (sm_fixed_chain_cost_usd (s_metrics s)) < 0 then False
      else
       (let principal = principal_cost s;
            all_in = (case all_in_cost_usd of Some a \<Rightarrow> a | None \<Rightarrow> signal_all_in_cost s);
            exposure = venue_exposure ps;
            required = dict_set second_label (pl_predict_fun_capital_usd (s_plan s))
              [(first_label, pl_polymarket_capital_usd (s_plan s))]
        in if principal < 0 \<or> all_in < principal then False
           else if usd_limit (ec_max_total_notional_usd c) < dadd (total_notional ps) all_in then False
           else if usd_limit (ec_max_market_exposure_usd c) < principal then False
           else if list_ex (\<lambda>(venue, amount).
               usd_limit (ec_max_venue_exposure_usd c) < dadd (get_or exposure venue 0) amount) required then False
           else \<not> (flt_repr (ec_max_unresolved_exposure_usd c) <
               total_notional (filter (\<lambda>p. p_status p \<in> set UNRESOLVED_STATUSES) ps))))"

section \<open>Balances and reservations\<close>

record balances =
  bl_cache :: "(string, dec) dict"
  bl_debits :: "(string, dec) dict"
  bl_reserved :: "(string, dec) dict"

definition effective_balance :: "string \<Rightarrow> balances \<Rightarrow> dec" where
  "effective_balance venue b = max 0 (dsub (get_or (bl_cache b) venue 0) (get_or (bl_debits b) venue 0))"

definition debit_cached_balance :: "string \<Rightarrow> dec \<Rightarrow> balances \<Rightarrow> balances" where
  "debit_cached_balance venue amount b =
     b\<lparr>bl_debits := dict_set venue (dadd (get_or (bl_debits b) venue 0) amount) (bl_debits b)\<rparr>"

definition set_or_pop :: "string \<Rightarrow> dec \<Rightarrow> (string, dec) dict \<Rightarrow> (string, dec) dict" where
  "set_or_pop k x d = (if x \<le> dec_eps then dict_pop k d else dict_set k x d)"

definition apply_balance_refresh :: "string \<Rightarrow> dec \<Rightarrow> balances \<Rightarrow> balances" where
  "apply_balance_refresh venue fetched b =
     (let b' = (case dict_get (bl_cache b) venue of
            Some previous \<Rightarrow>
              if fetched < dsub previous dec_eps
              then b\<lparr>bl_debits := set_or_pop venue
                     (max 0 (dsub (get_or (bl_debits b) venue 0) (dsub previous fetched))) (bl_debits b)\<rparr>
              else b
          | None \<Rightarrow> b)
      in b'\<lparr>bl_cache := dict_set venue fetched (bl_cache b')\<rparr>)"

text \<open>\<^verbatim>\<open>_refresh_balances\<close>: a failed query of either venue changes nothing.\<close>

definition refresh_balances :: "string \<Rightarrow> string \<Rightarrow> (dec \<times> dec) option \<Rightarrow> balances \<Rightarrow> balances" where
  "refresh_balances first_label second_label fetched b = (case fetched of
     None \<Rightarrow> b
   | Some (x, y) \<Rightarrow> apply_balance_refresh second_label y (apply_balance_refresh first_label x b))"

definition first_required :: "arbitrage_signal \<Rightarrow> dec" where
  "first_required s = dadd (pl_polymarket_capital_usd (s_plan s)) (pl_polymarket_fee_usd (s_plan s))"

definition second_required :: "arbitrage_signal \<Rightarrow> dec" where
  "second_required s = dadd (pl_predict_fun_capital_usd (s_plan s)) (pl_predict_fun_fee_usd (s_plan s))"

definition available_balance :: "string \<Rightarrow> balances \<Rightarrow> dec" where
  "available_balance venue b = dsub (effective_balance venue b) (get_or (bl_reserved b) venue 0)"

definition add_reservation :: "string \<Rightarrow> dec \<Rightarrow> balances \<Rightarrow> balances" where
  "add_reservation venue amount b =
     b\<lparr>bl_reserved := dict_set venue (dadd (get_or (bl_reserved b) venue 0) amount) (bl_reserved b)\<rparr>"

definition reserve_signal_capital ::
  "string \<Rightarrow> string \<Rightarrow> (dec \<times> dec) option \<Rightarrow> arbitrage_signal \<Rightarrow> balances \<Rightarrow> bool \<times> balances" where
  "reserve_signal_capital first_label second_label fetched s b0 =
     (let b = (if bl_cache b0 = [] then refresh_balances first_label second_label fetched b0 else b0)
      in if available_balance first_label b < first_required s \<or> available_balance second_label b < second_required s
         then (False, b)
         else (True, add_reservation second_label (second_required s) (add_reservation first_label (first_required s) b)))"

definition release_venue :: "string \<Rightarrow> dec \<Rightarrow> balances \<Rightarrow> balances" where
  "release_venue venue amount b =
     b\<lparr>bl_reserved := set_or_pop venue (max 0 (dsub (get_or (bl_reserved b) venue 0) amount)) (bl_reserved b)\<rparr>"

definition release_signal_capital :: "string \<Rightarrow> string \<Rightarrow> arbitrage_signal \<Rightarrow> balances \<Rightarrow> balances" where
  "release_signal_capital first_label second_label s b =
     foldl (\<lambda>b (venue, amount). release_venue venue amount b) b
       (dict_set second_label (second_required s) [(first_label, first_required s)])"

text \<open>\<^verbatim>\<open>_runtime_balance_state_snapshot\<close>: one row per venue that any of the three dictionaries names.\<close>

definition runtime_balance_state :: "string list \<Rightarrow> balances \<Rightarrow> (string \<times> dec \<times> dec \<times> dec \<times> dec \<times> dec) list" where
  "runtime_balance_state sorted_venues b = map (\<lambda>v.
     let cached = get_or (bl_cache b) v 0; debits = get_or (bl_debits b) v 0; reserved = get_or (bl_reserved b) v 0;
         effective = max 0 (dsub cached debits)
     in (v, cached, debits, reserved, effective, max 0 (dsub effective reserved))) sorted_venues"

section \<open>Submission windows\<close>

text \<open>\<^verbatim>\<open>datetime.timestamp()\<close>: the float nearest to the seconds since the epoch.\<close>

definition unix_time :: "int \<Rightarrow> flt" where
  "unix_time us = flt_round (of_int us / 1000000)"

definition entry_submission_deadline_unix :: "market_spec \<Rightarrow> flt option" where
  "entry_submission_deadline_unix m =
     (case (m_cutoff_at m, m_expires_at m) of
        (None, None) \<Rightarrow> None
      | (Some a, None) \<Rightarrow> Some (unix_time (as_utc a))
      | (None, Some b) \<Rightarrow> Some (unix_time (as_utc b))
      | (Some a, Some b) \<Rightarrow> Some (unix_time (min (as_utc a) (as_utc b))))"

definition entry_submission_window_open :: "market_spec \<Rightarrow> bool \<Rightarrow> int \<Rightarrow> bool" where
  "entry_submission_window_open m includes_sx now =
     (case entry_submission_deadline_unix m of
        None \<Rightarrow> \<not> includes_sx
      | Some d \<Rightarrow> fadd (unix_time now) (if includes_sx then 25 else 0) < d)"

text \<open>
  The deadline of a funded canary: \<open>raw\<close> is \<^verbatim>\<open>None\<close> when the source is absent, unreadable or
  empty and \<open>Some None\<close> when its text is no number; every failure closes the window.
\<close>

definition funded_canary_deadline_unix :: "execution_mode \<Rightarrow> flt option option \<Rightarrow> flt option" where
  "funded_canary_deadline_unix mode raw =
     (if mode \<noteq> CANARY then None
      else case raw of Some (Some d) \<Rightarrow> Some (if 0 < d then d else 0) | _ \<Rightarrow> Some 0)"

definition funded_canary_window_open :: "flt option \<Rightarrow> flt \<Rightarrow> bool" where
  "funded_canary_window_open deadline now =
     (case deadline of None \<Rightarrow> True | Some d \<Rightarrow> now < fsub d 1)"

section \<open>Reports\<close>

definition intent_status_from_report :: "execution_report \<Rightarrow> order_intent_status" where
  "intent_status_from_report r =
     (if er_status r = ES_OPEN then OI_UNKNOWN
      else if is_filled r then OI_FILLED
      else if has_fill r then OI_PARTIAL
      else if er_status r \<in> {ES_CANCELLED, ES_EXPIRED} then OI_CANCELLED
      else OI_UNKNOWN)"

definition debit_reported_fill ::
  "exec_config \<Rightarrow> string \<Rightarrow> market_spec \<Rightarrow> execution_report \<Rightarrow> dec \<Rightarrow> balances \<Rightarrow> balances res" where
  "debit_reported_fill c venue m r reserved_capital b =
     (if \<not> has_fill r then Inr b
      else if 0 < er_avg_price r then
        rbind (venue_fee_pct c venue m) (\<lambda>fee. Inr (debit_cached_balance venue
          (min reserved_capital (dmul (dmul (er_amount_filled r) (er_avg_price r)) (dadd 1 (flt_repr fee)))) b))
      else Inr (debit_cached_balance venue reserved_capital b))"

section \<open>Lemmas\<close>

subsection \<open>The order budget over a history\<close>

text \<open>
  A history of calls with a clock that does not run backwards; the log collects every admitted
  order, while the queue of the coordinator forgets the expired ones.
\<close>

record budget =
  bu_clock :: flt
  bu_queue :: "flt list"
  bu_log :: "flt list"

inductive budget_step :: "budget \<Rightarrow> budget \<Rightarrow> bool" where
  call: "bu_clock b \<le> now \<Longrightarrow> reserve_order_attempts now n max_orders (bu_queue b) = Inr (ok, queue) \<Longrightarrow>
    budget_step b \<lparr>bu_clock = now, bu_queue = queue, bu_log = bu_log b @ (if ok then replicate (nat n) now else [])\<rparr>"

definition budget_start :: "budget \<Rightarrow> bool" where
  "budget_start b \<longleftrightarrow> bu_queue b = [] \<and> bu_log b = []"

definition budget_ok :: "budget \<Rightarrow> bool" where
  "budget_ok b \<longleftrightarrow> (\<exists>old. bu_log b = old @ bu_queue b \<and> (\<forall>t \<in> set old. expired (bu_clock b) t)) \<and>
     sorted (bu_log b) \<and> (\<forall>t \<in> set (bu_log b). t \<le> bu_clock b)"

lemma expired_mono: "expired now t \<Longrightarrow> now \<le> later \<Longrightarrow> t' \<le> t \<Longrightarrow> expired later t'"
  unfolding expired_def fsub_def using flt.rnd_mono [of "now - t" "later - t'"] by simp

lemma budget_ok_step: "budget_step b b' \<Longrightarrow> budget_ok b \<Longrightarrow> budget_ok b'"
proof (induction rule: budget_step.induct)
  case (call b now n max_orders ok queue)
  obtain old where old: "bu_log b = old @ bu_queue b" "\<forall>t \<in> set old. expired (bu_clock b) t"
    using call.prems by (auto simp: budget_ok_def)
  let ?gone = "takeWhile (expired now) (bu_queue b)" and ?kept = "dropWhile (expired now) (bu_queue b)"
  have queue: "queue = ?kept @ (if ok then replicate (nat n) now else [])"
    using call.hyps(2) by (auto simp: reserve_order_attempts_def raise_if_Inr_iff Let_def split: if_splits)
  have "bu_log b = (old @ ?gone) @ ?kept" using old(1) by simp
  moreover have "\<forall>t \<in> set (old @ ?gone). expired now t"
    using old(2) call.hyps(1) expired_mono set_takeWhileD by fastforce
  moreover have "sorted (bu_log b)" "\<forall>t \<in> set (bu_log b). t \<le> now"
    using call.prems call.hyps(1) by (auto simp: budget_ok_def)
  ultimately show ?case
    unfolding budget_ok_def queue
    by (intro conjI exI [of _ "old @ ?gone"]) (auto simp: sorted_append sorted_replicate)
qed

interpretation order_budget: invariant_system budget_start budget_step budget_ok
proof
  show "budget_start b \<Longrightarrow> budget_ok b" for b by (simp add: budget_start_def budget_ok_def)
  show "budget_ok b \<Longrightarrow> budget_step b b' \<Longrightarrow> budget_ok b'" for b b' by (rule budget_ok_step)
qed

lemma kept_is_window:
  "sorted q \<Longrightarrow> dropWhile (expired now) q = filter (\<lambda>t. \<not> expired now t) q"
proof (induction q)
  case (Cons t q)
  show ?case
  proof (cases "expired now t")
    case False
    then have "\<forall>t' \<in> set q. \<not> expired now t'" using Cons.prems expired_mono by fastforce
    with False show ?thesis by (simp add: filter_id_conv)
  qed (use Cons in simp)
qed simp

lemma window_of_log:
  assumes "budget_ok b" and "bu_clock b \<le> now"
  shows "filter (\<lambda>t. \<not> expired now t) (bu_log b) = dropWhile (expired now) (bu_queue b)"
proof -
  obtain old where old: "bu_log b = old @ bu_queue b" "\<forall>t \<in> set old. expired (bu_clock b) t"
    and "sorted (bu_log b)" using assms(1) by (auto simp: budget_ok_def)
  then have "sorted (bu_queue b)" by (simp add: sorted_append)
  moreover have "filter (\<lambda>t. \<not> expired now t) old = []"
    using old(2) assms(2) expired_mono by (fastforce simp: filter_empty_conv)
  ultimately show ?thesis by (simp add: old(1) kept_is_window)
qed

subsection \<open>Exposure\<close>

lemma dsum_append: "dsum (xs @ [x]) = dadd (dsum xs) x"
  by (simp add: dsum_def)

lemma foldl_dadd_round: "dec_round a = a \<Longrightarrow> dec_round (foldl dadd a xs) = foldl dadd a xs"
  by (induction xs arbitrary: a) auto

lemma dadd_ge_left: "dec_round a = a \<Longrightarrow> 0 \<le> x \<Longrightarrow> a \<le> dadd a x"
  unfolding dadd_def by (rule dec.rnd_ge_fix) simp_all

lemma dsum_remove:
  assumes "\<forall>x \<in> set (xs @ y # ys). 0 \<le> x"
  shows "dsum (xs @ ys) \<le> dsum (xs @ y # ys)"
proof -
  have "dsum xs \<le> dadd (dsum xs) y"
    using assms by (intro dadd_ge_left) (auto simp: dsum_def foldl_dadd_round)
  then have "foldl dadd (dsum xs) ys \<le> foldl dadd (dadd (dsum xs) y) ys"
    by (intro foldl_dadd_mono) (simp_all add: list_all2_refl)
  then show ?thesis by (simp add: dsum_def)
qed

text \<open>The exposure of a venue is the sum of what the positions hold there, in order.\<close>

definition venue_costs :: "string \<Rightarrow> open_position \<Rightarrow> dec list" where
  "venue_costs v p = (if m_venue_a_label (p_market p) = v then [first_cost p] else []) @
     (if m_venue_b_label (p_market p) = v then [second_cost p] else [])"

lemma add_exposure_get: "get_or (add_exposure p d) v 0 = foldl dadd (get_or d v 0) (venue_costs v p)"
  by (auto simp: add_exposure_def get_or_def venue_costs_def Let_def)

lemma venue_exposure_get: "get_or (venue_exposure ps) v 0 = dsum (concat (map (venue_costs v) ps))"
proof -
  have "get_or (foldl (\<lambda>d p. add_exposure p d) d ps) v 0 = foldl dadd (get_or d v 0) (concat (map (venue_costs v) ps))" for d
    by (induction ps arbitrary: d) (simp_all add: add_exposure_get)
  from this [of "[]"] show ?thesis by (simp add: venue_exposure_def dsum_def get_or_def)
qed

lemma dsum_remove_list:
  assumes "\<forall>x \<in> set (xs @ zs @ ys). 0 \<le> x"
  shows "dsum (xs @ ys) \<le> dsum (xs @ zs @ ys)"
  using assms
proof (induction zs)
  case (Cons z zs)
  then have "dsum (xs @ ys) \<le> dsum (xs @ zs @ ys)" by auto
  also have "\<dots> \<le> dsum (xs @ (z # zs) @ ys)" using dsum_remove [of xs z "zs @ ys"] Cons.prems by simp
  finally show ?case .
qed simp

subsection \<open>The portfolio\<close>

text \<open>
  Routers of all routes share the ledger: each may open a position for a signal that its limits
  admitted, at no more than the planned capital of each leg, and positions may close.
\<close>

inductive portfolio_step :: "exec_config \<Rightarrow> position_ledger \<Rightarrow> position_ledger \<Rightarrow> bool" for c where
  opened: "risk_limits_allow c first_label second_label (ledger_all l) s all_in \<Longrightarrow>
    \<not> ledger_has (position_key (p_market p)) l \<Longrightarrow> first_label \<noteq> second_label \<Longrightarrow>
    m_venue_a_label (p_market p) = first_label \<Longrightarrow> m_venue_b_label (p_market p) = second_label \<Longrightarrow>
    0 \<le> first_cost p \<Longrightarrow> first_cost p \<le> pl_polymarket_capital_usd (s_plan s) \<Longrightarrow>
    0 \<le> second_cost p \<Longrightarrow> second_cost p \<le> pl_predict_fun_capital_usd (s_plan s) \<Longrightarrow>
    portfolio_step c l (ledger_add p l)"
| closed_one: "portfolio_step c l (ledger_remove key l)"

definition costs_ok :: "position_ledger \<Rightarrow> bool" where
  "costs_ok l \<longleftrightarrow> dict_ok l \<and> (\<forall>p \<in> set (ledger_all l). 0 \<le> first_cost p \<and> 0 \<le> second_cost p)"

definition within_limits :: "exec_config \<Rightarrow> position_ledger \<Rightarrow> bool" where
  "within_limits c l \<longleftrightarrow> costs_ok l \<and>
     total_notional (ledger_all l) \<le> usd_limit (ec_max_total_notional_usd c) \<and>
     (\<forall>v. get_or (venue_exposure (ledger_all l)) v 0 \<le> usd_limit (ec_max_venue_exposure_usd c))"

lemma ledger_add_fresh:
  "\<not> ledger_has (position_key (p_market p)) l \<Longrightarrow> ledger_all (ledger_add p l) = ledger_all l @ [p]"
  by (auto simp: ledger_has_def ledger_add_def ledger_all_def dict_values_def dict_set_def dict_get_def
      update_fresh map_of_eq_None_iff)

lemma ledger_remove_split:
  assumes "dict_ok l"
  shows "ledger_remove key l = l \<or> (\<exists>xs p ys. ledger_all l = xs @ p # ys \<and> ledger_all (ledger_remove key l) = xs @ ys)"
proof (cases "dict_get l key")
  case None
  then have "key \<notin> fst ` set l" by (simp add: dict_get_def map_of_eq_None_iff)
  then have "ledger_remove key l = l"
    by (force simp: ledger_remove_def dict_pop_def AList.delete_eq filter_id_conv)
  then show ?thesis ..
next
  case (Some p)
  then have "(key, p) \<in> set l" using assms by (simp add: dict_get_iff_mem)
  then obtain xs ys where l: "l = xs @ (key, p) # ys" by (meson split_list)
  with assms have "key \<notin> fst ` set xs" "key \<notin> fst ` set ys" by (auto simp: dict_ok_def)
  then have "filter (\<lambda>(k', _). key \<noteq> k') xs = xs" "filter (\<lambda>(k', _). key \<noteq> k') ys = ys"
    by (force simp: filter_id_conv)+
  then have "ledger_remove key l = xs @ ys"
    by (simp add: l ledger_remove_def dict_pop_def AList.delete_eq)
  with l show ?thesis by (auto simp: ledger_all_def dict_values_def)
qed

lemma position_cost_nonneg: "0 \<le> first_cost p \<Longrightarrow> 0 \<le> second_cost p \<Longrightarrow> 0 \<le> position_cost p"
  by (simp add: position_cost_def)

lemma portfolio_opened:
  assumes ok: "within_limits c l" and allow: "risk_limits_allow c f g (ledger_all l) s all_in"
    and fresh: "\<not> ledger_has (position_key (p_market p)) l" and labels: "f \<noteq> g"
      "m_venue_a_label (p_market p) = f" "m_venue_b_label (p_market p) = g"
    and first: "0 \<le> first_cost p" "first_cost p \<le> pl_polymarket_capital_usd (s_plan s)"
    and second: "0 \<le> second_cost p" "second_cost p \<le> pl_predict_fun_capital_usd (s_plan s)"
  shows "within_limits c (ledger_add p l)"
proof -
  obtain all_in' where bounds: "principal_cost s \<le> all_in'"
      "dadd (total_notional (ledger_all l)) all_in' \<le> usd_limit (ec_max_total_notional_usd c)"
      "dadd (get_or (venue_exposure (ledger_all l)) f 0) (pl_polymarket_capital_usd (s_plan s)) \<le> usd_limit (ec_max_venue_exposure_usd c)"
      "dadd (get_or (venue_exposure (ledger_all l)) g 0) (pl_predict_fun_capital_usd (s_plan s)) \<le> usd_limit (ec_max_venue_exposure_usd c)"
    using allow labels(1) by (auto simp: risk_limits_allow_def Let_def dict_set_def not_less split: if_splits)
  note all = ledger_add_fresh [OF fresh]
  have "position_cost p \<le> all_in'"
    using bounds(1) dadd_mono [OF first(2) second(2)] by (simp add: position_cost_def principal_cost_def)
  then have "total_notional (ledger_all (ledger_add p l)) \<le> usd_limit (ec_max_total_notional_usd c)"
    using bounds(2) dadd_mono [of "total_notional (ledger_all l)" "total_notional (ledger_all l)" "position_cost p" all_in']
    by (simp add: all total_notional_def dsum_append)
  moreover have "get_or (venue_exposure (ledger_all (ledger_add p l))) v 0 \<le> usd_limit (ec_max_venue_exposure_usd c)" for v
  proof -
    let ?e = "get_or (venue_exposure (ledger_all l)) v 0"
    have e: "get_or (venue_exposure (ledger_all (ledger_add p l))) v 0 = foldl dadd ?e (venue_costs v p)"
      by (simp add: venue_exposure_get all dsum_def)
    have "?e \<le> usd_limit (ec_max_venue_exposure_usd c)" using ok by (simp add: within_limits_def)
    then show ?thesis
      using labels bounds(3,4) dadd_mono [of ?e ?e "first_cost p"] dadd_mono [of ?e ?e "second_cost p"] first second
      unfolding e venue_costs_def by (auto intro: order_trans)
  qed
  moreover have "costs_ok (ledger_add p l)"
    using ok first(1) second(1) all by (auto simp: within_limits_def costs_ok_def ledger_add_def)
  ultimately show ?thesis by (simp add: within_limits_def)
qed

lemma portfolio_closed:
  assumes ok: "within_limits c l"
  shows "within_limits c (ledger_remove key l)"
proof -
  have d: "dict_ok l" using ok by (simp add: within_limits_def costs_ok_def)
  from ledger_remove_split [OF d, of key] show ?thesis
  proof (elim disjE exE conjE)
    fix xs p ys
    assume l: "ledger_all l = xs @ p # ys" "ledger_all (ledger_remove key l) = xs @ ys"
    have pos: "\<forall>q \<in> set (xs @ p # ys). 0 \<le> first_cost q \<and> 0 \<le> second_cost q"
      using ok l by (simp add: within_limits_def costs_ok_def)
    have "\<forall>x \<in> set (map position_cost xs @ position_cost p # map position_cost ys). 0 \<le> x"
      using pos position_cost_nonneg by auto
    from dsum_remove [OF this] have "total_notional (xs @ ys) \<le> total_notional (xs @ p # ys)"
      by (simp add: total_notional_def)
    moreover have "get_or (venue_exposure (xs @ ys)) v 0 \<le> get_or (venue_exposure (xs @ p # ys)) v 0" for v
    proof -
      have "\<forall>x \<in> set (concat (map (venue_costs v) xs) @ venue_costs v p @ concat (map (venue_costs v) ys)). 0 \<le> x"
        using pos by (auto simp: venue_costs_def)
      from dsum_remove_list [OF this] show ?thesis by (simp add: venue_exposure_get)
    qed
    ultimately show ?thesis
      using ok l d pos unfolding within_limits_def costs_ok_def
      by (auto simp: ledger_remove_def intro: order_trans)
  qed (use ok in simp)
qed

lemma within_limits_step: "portfolio_step c l l' \<Longrightarrow> within_limits c l \<Longrightarrow> within_limits c l'"
  by (induction rule: portfolio_step.induct) (blast intro: portfolio_opened portfolio_closed)+

lemma within_limits_empty:
  "0 \<le> ec_max_total_notional_usd c \<Longrightarrow> 0 \<le> ec_max_venue_exposure_usd c \<Longrightarrow> within_limits c []"
  by (simp add: within_limits_def costs_ok_def ledger_all_def dict_values_def total_notional_def dsum_def
      venue_exposure_def get_or_def usd_limit_def RISK_USD_EPSILON_def)

interpretation portfolio: invariant_system
  "\<lambda>l. l = [] \<and> 0 \<le> ec_max_total_notional_usd c \<and> 0 \<le> ec_max_venue_exposure_usd c" "portfolio_step c" "within_limits c" for c
  by unfold_locales (auto intro: within_limits_empty within_limits_step)

subsection \<open>Reservations\<close>

definition grid_amount :: "dec \<Rightarrow> bool" where
  "grid_amount x \<longleftrightarrow> on_grid x \<and> 0 \<le> x"

lemma grid_dsub:
  assumes "grid_amount x" and "grid_amount y"
  shows "dsub x y = x - y" and "y \<le> x \<Longrightarrow> grid_amount (x - y)"
proof -
  have "\<bar>x + (- y)\<bar> \<le> 10 ^ 10"
    using assms on_grid_le [of x] on_grid_le [of y] by (auto simp: grid_amount_def)
  then have "on_grid (x - y)" using on_grid_add [of x "- y"] assms by (simp add: grid_amount_def on_grid_minus)
  then show "dsub x y = x - y" "y \<le> x \<Longrightarrow> grid_amount (x - y)"
    by (simp_all add: dsub_def dec_round_grid grid_amount_def)
qed

lemma grid_dadd:
  assumes "grid_amount x" and "grid_amount y" and "x + y \<le> 10 ^ 10"
  shows "dadd x y = x + y" and "grid_amount (x + y)"
proof -
  have "on_grid (x + y)" using on_grid_add [of x y] assms by (simp add: grid_amount_def)
  then show "dadd x y = x + y" "grid_amount (x + y)"
    using assms by (simp_all add: dadd_def dec_round_grid grid_amount_def)
qed

text \<open>Every amount of a venue is on the grid, and no reservation is dust.\<close>

definition venue_exact :: "balances \<Rightarrow> string \<Rightarrow> bool" where
  "venue_exact b v \<longleftrightarrow> grid_amount (get_or (bl_cache b) v 0) \<and> grid_amount (get_or (bl_debits b) v 0) \<and>
     grid_amount (get_or (bl_reserved b) v 0) \<and> (get_or (bl_reserved b) v 0 = 0 \<or> dec_eps < get_or (bl_reserved b) v 0)"

lemma effective_grid: "venue_exact b v \<Longrightarrow> grid_amount (effective_balance v b)"
proof -
  assume "venue_exact b v"
  then have g: "grid_amount (get_or (bl_cache b) v 0)" "grid_amount (get_or (bl_debits b) v 0)"
    by (simp_all add: venue_exact_def)
  show ?thesis
    using grid_dsub [OF g] unfolding effective_balance_def by (auto simp: max_def grid_amount_def)
qed

lemma reservation_fits:
  assumes "venue_exact b v" and "grid_amount r" and "\<not> available_balance v b < r"
  shows "dadd (get_or (bl_reserved b) v 0) r = get_or (bl_reserved b) v 0 + r \<and>
    get_or (bl_reserved b) v 0 + r \<le> effective_balance v b \<and> grid_amount (get_or (bl_reserved b) v 0 + r)"
proof -
  have e: "grid_amount (effective_balance v b)" "grid_amount (get_or (bl_reserved b) v 0)"
    using assms(1) effective_grid by (auto simp: venue_exact_def)
  have le: "get_or (bl_reserved b) v 0 + r \<le> effective_balance v b"
    using assms(3) grid_dsub(1) [OF e] by (simp add: available_balance_def)
  then have "get_or (bl_reserved b) v 0 + r \<le> 10 ^ 10" using e(1) on_grid_le by (fastforce simp: grid_amount_def)
  with grid_dadd [OF e(2) assms(2)] le show ?thesis by simp
qed

lemma released_reservation:
  assumes "venue_exact b v" and "grid_amount r" and "grid_amount (get_or (bl_reserved b) v 0 + r)"
  shows "(if max 0 (dsub (get_or (bl_reserved b) v 0 + r) r) \<le> dec_eps then 0
    else max 0 (dsub (get_or (bl_reserved b) v 0 + r) r)) = get_or (bl_reserved b) v 0"
  using assms grid_dsub(1) [OF assms(3,2)] by (auto simp: venue_exact_def grid_amount_def)

lemma release_get:
  "get_or (bl_reserved (release_venue w a b)) v 0 =
     (if v = w then (if max 0 (dsub (get_or (bl_reserved b) w 0) a) \<le> dec_eps then 0
        else max 0 (dsub (get_or (bl_reserved b) w 0) a)) else get_or (bl_reserved b) v 0)"
  by (simp add: release_venue_def set_or_pop_def)

lemma release_signal_get:
  assumes "f \<noteq> g"
  shows "get_or (bl_reserved (release_signal_capital f g s b)) v 0 =
    (if v = f then (if max 0 (dsub (get_or (bl_reserved b) f 0) (first_required s)) \<le> dec_eps then 0
        else max 0 (dsub (get_or (bl_reserved b) f 0) (first_required s)))
     else if v = g then (if max 0 (dsub (get_or (bl_reserved b) g 0) (second_required s)) \<le> dec_eps then 0
        else max 0 (dsub (get_or (bl_reserved b) g 0) (second_required s)))
     else get_or (bl_reserved b) v 0)"
  using assms by (simp add: release_signal_capital_def dict_set_def release_get)

section \<open>Properties\<close>

text \<open>C19. The order budget is a sliding window: whatever calls came before, a call is admitted if and only
  if the orders admitted at times within the last sixty seconds and its own stay within the limit,
  although the coordinator keeps no more than the orders that have not expired.\<close>

theorem order_budget_is_sliding_window:
  assumes "budget_start b0" and "budget_step\<^sup>*\<^sup>* b0 b" and "bu_clock b \<le> now"
    and "reserve_order_attempts now n max_orders (bu_queue b) = Inr (ok, queue)"
  shows "ok \<longleftrightarrow> int (length (filter (\<lambda>t. \<not> 60 \<le> fsub now t) (bu_log b))) + n \<le> max_orders"
proof -
  have "budget_ok b" by (rule order_budget.inv_reachable [OF assms(1,2)])
  from window_of_log [OF this assms(3)] assms(4) show ?thesis
    by (auto simp: reserve_order_attempts_def raise_if_Inr_iff Let_def expired_def split: if_splits)
qed

theorem order_budget_is_sliding_window_witness:
  "\<not> (int (length (filter (\<lambda>t. \<not> 60 \<le> fsub 10 t) [0, 0])) + 2 \<le> 3)"
proof -
  have "budget_step \<lparr>bu_clock = 0, bu_queue = [], bu_log = []\<rparr>
      \<lparr>bu_clock = 0, bu_queue = [0, 0], bu_log = [] @ (if True then replicate (nat 2) 0 else [])\<rparr>"
    using budget_step.call [of "\<lparr>bu_clock = 0, bu_queue = [], bu_log = []\<rparr>" 0 2 3 True "[0, 0]"]
    by (simp add: reserve_order_attempts_def numeral_2_eq_2)
  then have step: "budget_step\<^sup>*\<^sup>* \<lparr>bu_clock = 0, bu_queue = [], bu_log = []\<rparr>
      \<lparr>bu_clock = 0, bu_queue = [0, 0], bu_log = [0, 0]\<rparr>"
    by (simp add: numeral_2_eq_2 r_into_rtranclp)
  have refused: "reserve_order_attempts 10 2 3 [0, 0] = Inr (False, [0, 0])"
    by (simp add: reserve_order_attempts_def expired_def fsub_def flt_round_eval)
  show ?thesis
    using order_budget_is_sliding_window [OF _ step, of 10 2 3 False "[0, 0]"] refused by (simp add: budget_start_def)
qed

definition sample_policy :: spread_policy where
  "sample_policy = \<lparr>sp_route_floors = [(''polymarket_predict'', 0)], sp_min_expected_profit_usd = 0, sp_depth_buffer = 1,
     sp_adverse_move = 0, sp_adverse_move_by_route = [], sp_safety_buffer = 0, sp_fixed_chain_cost = 0,
     sp_fixed_chain_cost_by_route = [], sp_gas_units_by_route = [], sp_native_ceiling = [], sp_gas_price_multiplier = 1,
     sp_gas_quote_ttl = 15, sp_require_live_gas = False\<rparr>"

definition sample_config :: exec_config where
  "sample_config = \<lparr>ec_mode = LIVE, ec_is_test = False, ec_funded_routes = [''polymarket_predict''], ec_position_size_usd = 20,
     ec_min_net_spread = 0, ec_max_open_positions = 2, ec_max_total_notional_usd = 20, ec_max_market_exposure_usd = 20,
     ec_max_venue_exposure_usd = 20, ec_max_unresolved_exposure_usd = 20, ec_max_orders_per_minute = 4,
     ec_max_production_price_impact = 1, ec_polymarket_slippage = 0, ec_predict_fun_slippage = 0, ec_sx_bet_slippage = 0,
     ec_myriad_slippage = 0, ec_polymarket_fee_pct = 0, ec_predict_fun_fee_bps = 0, ec_sx_bet_fee_bps = 0,
     ec_myriad_fee_pct = 0, ec_policy = sample_policy\<rparr>"

definition sample_signal :: arbitrage_signal where
  "sample_signal = \<lparr>s_market = sample_market,
     s_plan = \<lparr>pl_polymarket_contracts = 10, pl_polymarket_capital_usd = 4, pl_predict_fun_contracts = 10,
       pl_predict_fun_capital_usd = 5, pl_payout_contracts = 10, pl_total_cost_usd = 9, pl_polymarket_fee_usd = 0,
       pl_predict_fun_fee_usd = 0\<rparr>,
     s_metrics = \<lparr>sm_gross_spread = 0, sm_net_spread = 0, sm_expected_net_profit_usd = 1, sm_polymarket_slippage = 0,
       sm_predict_fun_slippage = 0, sm_combined_cost_per_payout = 0, sm_fixed_chain_cost_usd = 0\<rparr>,
     s_polymarket_price = 0, s_predict_fun_price = 0, s_discovery_generation = None\<rparr>"

lemma sample_twenty: "flt_repr 20 = 20"
  by code_simp

lemma sample_allowed: "risk_limits_allow sample_config ''Polymarket'' ''Predict.fun'' [] sample_signal (Some 9)"
  by (simp add: risk_limits_allow_def sample_config_def sample_signal_def principal_cost_def dadd_def dec_round_eval
      sample_twenty usd_limit_def RISK_USD_EPSILON_def total_notional_def dsum_def venue_exposure_def dict_set_def get_or_def)

text \<open>C20. The portfolio stays within its limits: as long as every position that is opened was admitted by the
  risk limits and costs no more than its plan, the total notional and the exposure of every venue
  stay within the configured bounds (with the tolerance of 1e-9), whatever is opened and closed.\<close>

theorem portfolio_stays_within_limits:
  assumes "(portfolio_step c)\<^sup>*\<^sup>* [] l"
    and "0 \<le> ec_max_total_notional_usd c" and "0 \<le> ec_max_venue_exposure_usd c"
  shows "total_notional (ledger_all l) \<le> dadd (flt_repr (ec_max_total_notional_usd c)) (1 / 10 ^ 9) \<and>
    get_or (venue_exposure (ledger_all l)) v 0 \<le> dadd (flt_repr (ec_max_venue_exposure_usd c)) (1 / 10 ^ 9)"
proof -
  have "within_limits c l" using portfolio.inv_reachable [OF _ assms(1)] assms(2,3) by simp
  then show ?thesis by (simp add: within_limits_def usd_limit_def RISK_USD_EPSILON_def)
qed

theorem portfolio_stays_within_limits_witness:
  "total_notional (ledger_all (ledger_add sample_position [])) \<le> dadd (flt_repr 20) (1 / 10 ^ 9)"
proof -
  have "portfolio_step sample_config [] (ledger_add sample_position [])"
    using sample_allowed
    by (intro opened [where s = sample_signal and all_in = "Some 9" and first_label = "''Polymarket''" and second_label = "''Predict.fun''"])
      (simp_all add: ledger_all_def dict_values_def ledger_has_def first_cost_def second_cost_def sample_market_def
        market_spec_default_def sample_position_def open_position_default_def sample_signal_def dmul_def dec_round_eval)
  from portfolio_stays_within_limits [OF r_into_rtranclp, OF this] show ?thesis by (simp add: sample_config_def)
qed

text \<open>C21. Capital is never promised twice: when a reservation is granted, everything reserved on either venue
  fits the effective balance there, what other venues hold is untouched, and releasing the same
  signal restores the reservations exactly (amounts on the 18-decimal grid).\<close>

theorem reservation_fits_and_is_released:
  assumes "reserve_signal_capital f g fetched s b = (True, b')" and "bl_cache b \<noteq> []" and "f \<noteq> g"
    and "venue_exact b f" and "venue_exact b g" and "grid_amount (first_required s)" and "grid_amount (second_required s)"
  shows "get_or (bl_reserved b') f 0 \<le> effective_balance f b' \<and> get_or (bl_reserved b') g 0 \<le> effective_balance g b' \<and>
    (v \<notin> {f, g} \<longrightarrow> get_or (bl_reserved b') v 0 = get_or (bl_reserved b) v 0) \<and>
    get_or (bl_reserved (release_signal_capital f g s b')) v 0 = get_or (bl_reserved b) v 0"
proof -
  have enough: "\<not> available_balance f b < first_required s" "\<not> available_balance g b < second_required s"
    and b': "b' = add_reservation g (second_required s) (add_reservation f (first_required s) b)"
    using assms(1,2) by (auto simp: reserve_signal_capital_def Let_def split: if_splits)
  note ff = reservation_fits [OF assms(4,6) enough(1)] and gg = reservation_fits [OF assms(5,7) enough(2)]
  have eff: "effective_balance w b' = effective_balance w b" for w
    by (simp add: b' add_reservation_def effective_balance_def)
  have res: "get_or (bl_reserved b') w 0 = (if w = g then get_or (bl_reserved b) g 0 + second_required s
      else if w = f then get_or (bl_reserved b) f 0 + first_required s else get_or (bl_reserved b) w 0)" for w
    using ff gg assms(3) by (simp add: b' add_reservation_def)
  have "get_or (bl_reserved (release_signal_capital f g s b')) v 0 = get_or (bl_reserved b) v 0"
  proof -
    have res_f: "get_or (bl_reserved b') f 0 = get_or (bl_reserved b) f 0 + first_required s"
      and res_g: "get_or (bl_reserved b') g 0 = get_or (bl_reserved b) g 0 + second_required s"
      using assms(3) by (simp_all add: res)
    show ?thesis
      unfolding release_signal_get [OF assms(3)] res_f res_g
        released_reservation [OF assms(4,6) ff [THEN conjunct2, THEN conjunct2]]
        released_reservation [OF assms(5,7) gg [THEN conjunct2, THEN conjunct2]]
      by (simp add: res)
  qed
  with ff gg assms(3) show ?thesis by (simp add: eff res)
qed

definition sample_balances :: balances where
  "sample_balances = \<lparr>bl_cache = [(''Polymarket'', 7), (''Predict.fun'', 6)], bl_debits = [], bl_reserved = [(''Polymarket'', 3)]\<rparr>"

lemma sample_reserved:
  "reserve_signal_capital ''Polymarket'' ''Predict.fun'' None sample_signal sample_balances =
     (True, sample_balances\<lparr>bl_reserved := [(''Polymarket'', 7), (''Predict.fun'', 5)]\<rparr>)"
  by (simp add: reserve_signal_capital_def sample_balances_def sample_signal_def available_balance_def effective_balance_def
      first_required_def second_required_def add_reservation_def get_or_def dict_set_def dict_get_def dadd_def dsub_def dec_round_eval)

theorem reservation_fits_and_is_released_witness:
  "get_or (bl_reserved (release_signal_capital ''Polymarket'' ''Predict.fun'' sample_signal
      (sample_balances\<lparr>bl_reserved := [(''Polymarket'', 7), (''Predict.fun'', 5)]\<rparr>))) ''Polymarket'' 0 = 3"
proof -
  have exact: "venue_exact sample_balances ''Polymarket''" "venue_exact sample_balances ''Predict.fun''"
    by (simp_all add: venue_exact_def sample_balances_def get_or_def dict_get_def grid_amount_def on_grid_numeral dec_eps_def)
  have req: "grid_amount (first_required sample_signal)" "grid_amount (second_required sample_signal)"
    by (simp_all add: first_required_def second_required_def sample_signal_def dadd_def dec_round_eval grid_amount_def on_grid_numeral)
  from reservation_fits_and_is_released [OF sample_reserved _ _ exact req, of "''Polymarket''"] show ?thesis
    by (simp add: sample_balances_def get_or_def dict_get_def)
qed

end
