(* ===== verification/Preflight.thy ===== *)
theory Preflight
  imports Entry_Gates
begin

text \<open>
  The live gas estimate of \<^verbatim>\<open>chain_cost.py\<close> and the pre-submission guard of \<^verbatim>\<open>execution.py\<close>
  (\<^verbatim>\<open>_preflight_price_guard\<close>): fresh books, depth, full-depth quotes, live fees and gas, signed
  previews, and the worst-case economics of what was signed. What the venues answer is an argument.
  The lemmas show that an entry that passes is profitable by the configured margin even in its
  worst case.
\<close>

section \<open>Gas\<close>

record gas_component =
  gc_chain_id :: int
  gc_gas_units :: int
  gc_gas_price_wei :: int
  gc_native_ceiling :: dec
  gc_estimated_cost_usd :: dec

record chain_quote =
  cq_route :: string
  cq_configured_floor_usd :: dec
  cq_live_estimate_usd :: dec
  cq_reserved_cost_usd :: dec
  cq_multiplier :: dec
  cq_live :: bool
  cq_components :: "gas_component list"

text \<open>\<open>gas\<close> is the answer of the RPC endpoints of a chain; every failure is \<^verbatim>\<open>LiveChainCostUnavailable\<close>, here \<^verbatim>\<open>None\<close>.\<close>

definition estimate_chain :: "spread_policy \<Rightarrow> (int \<Rightarrow> int option) \<Rightarrow> dec \<Rightarrow> int \<times> int \<Rightarrow> gas_component option" where
  "estimate_chain sp gas multiplier chain_units = (case chain_units of (chain_id, units) \<Rightarrow>
     (case dict_get (sp_native_ceiling sp) chain_id of
        None \<Rightarrow> None
      | Some native \<Rightarrow>
          if native \<le> 0 then None
          else (case gas chain_id of
              None \<Rightarrow> None
            | Some price_wei \<Rightarrow>
                if price_wei \<le> 0 then None
                else Some \<lparr>gc_chain_id = chain_id, gc_gas_units = units, gc_gas_price_wei = price_wei,
                  gc_native_ceiling = flt_repr native,
                  gc_estimated_cost_usd = ddiv (dmul (dmul (dmul (of_int price_wei) (of_int units)) (flt_repr native))
                    multiplier) (10 ^ 18)\<rparr>)))"

type_synonym gas_cache = "(string, flt \<times> chain_quote) dict"

definition estimate_cost ::
  "spread_policy \<Rightarrow> (int \<Rightarrow> int option) \<Rightarrow> flt \<Rightarrow> string \<Rightarrow> bool \<Rightarrow> gas_cache \<Rightarrow> chain_quote option \<times> gas_cache" where
  "estimate_cost sp gas now route require_live cache =
     (let floor = flt_repr (fixed_chain_cost_for sp route);
          units = get_or (sp_gas_units_by_route sp) route [];
          multiplier = flt_repr (sp_gas_price_multiplier sp);
          fresh = (if units = [] then
              (if require_live then (None, cache)
               else (Some \<lparr>cq_route = route, cq_configured_floor_usd = floor, cq_live_estimate_usd = 0,
                 cq_reserved_cost_usd = floor, cq_multiplier = 1, cq_live = False, cq_components = []\<rparr>, cache))
            else let components = map (estimate_chain sp gas multiplier) units in
              if None \<in> set components then (None, cache)
              else (let live = dsum (map (\<lambda>c. gc_estimated_cost_usd (the c)) components);
                        quote = \<lparr>cq_route = route, cq_configured_floor_usd = floor, cq_live_estimate_usd = live,
                          cq_reserved_cost_usd = max floor live, cq_multiplier = multiplier, cq_live = True,
                          cq_components = map the components\<rparr>
                    in (Some quote, dict_set route (now, quote) cache)))
      in case dict_get cache route of
           Some (at_time, quote) \<Rightarrow> if fsub now at_time \<le> sp_gas_quote_ttl sp then (Some quote, cache) else fresh
         | None \<Rightarrow> fresh)"

section \<open>The inputs of the guard\<close>

text \<open>
  What the venues answer during one preflight. A query that raises is \<^verbatim>\<open>Inl\<close>; \<open>vi_fresh\<close> is the
  freshness test of the connector, \<open>vi_tick_text\<close> the text of the tick size, and \<open>vi_preview\<close> the
  signed preview for a number of contracts and a limit.
\<close>

record venue_inputs =
  vi_book :: "order_book res"
  vi_fresh :: bool
  vi_constraints :: "market_constraints option res"
  vi_tick_text :: string
  vi_fee_quote :: "dec \<Rightarrow> market_constraints \<Rightarrow> venue_fee_quote option res"
  vi_preview :: "dec \<Rightarrow> dec \<Rightarrow> order_preview res"

record prepared_entry =
  pe_signal :: arbitrage_signal
  pe_all_in_cost_usd :: dec
  pe_first_order_fingerprint :: string
  pe_second_order_fingerprint :: string

text \<open>\<^verbatim>\<open>except ValueError: return None\<close>.\<close>

definition or_reject :: "'a res \<Rightarrow> ('a \<Rightarrow> 'b option res) \<Rightarrow> 'b option res" where
  "or_reject m f = (case m of Inr x \<Rightarrow> f x | Inl (ValueError _) \<Rightarrow> Inr None | Inl e \<Rightarrow> Inl e)"

lemma or_reject_iff: "or_reject m f = Inr (Some y) \<longleftrightarrow> (\<exists>x. m = Inr x \<and> f x = Inr (Some y))"
  by (auto simp: or_reject_def split: sum.splits py_error.splits)

section \<open>Worst-case fees\<close>

definition worst_case_fee_between ::
  "(dec \<Rightarrow> dec \<Rightarrow> dec) \<Rightarrow> venue_fee_quote \<Rightarrow> dec \<Rightarrow> dec \<Rightarrow> dec \<Rightarrow> dec res" where
  "worst_case_fee_between fp quote n average_price limit_price =
     (let low = min average_price limit_price; high = max average_price limit_price;
          prices = [low, high] @ (if low \<le> 1/2 \<and> 1/2 \<le> high then [1/2] else [])
      in rbind (rmap (fee_for_fill fp quote n) prices) (\<lambda>fees. Inr (Max (set fees))))"

section \<open>Books and quotes\<close>

definition books_acceptable :: "order_book \<Rightarrow> order_book \<Rightarrow> bool \<Rightarrow> bool \<Rightarrow> flt \<Rightarrow> bool" where
  "books_acceptable first second first_fresh second_fresh required_depth \<longleftrightarrow>
     asks first \<noteq> [] \<and> asks second \<noteq> [] \<and> ob_status first = MD_VALID \<and> ob_status second = MD_VALID \<and>
     first_fresh \<and> second_fresh \<and>
     flt_repr required_depth \<le> top_of_book_ask_depth_usd first \<and>
     flt_repr required_depth \<le> top_of_book_ask_depth_usd second"

definition submit_limit :: "flt \<Rightarrow> flt \<Rightarrow> dec" where
  "submit_limit best cap = min (999999 / 1000000) (dmul (flt_repr best) (dadd 1 (flt_repr cap)))"

text \<open>Live constraints and verified fee quotes of both venues, or a \<^verbatim>\<open>ValueError\<close> that rejects.\<close>

definition live_fees ::
  "venue_inputs \<Rightarrow> venue_inputs \<Rightarrow> fill_quote \<Rightarrow> fill_quote \<Rightarrow>
    (market_constraints \<times> market_constraints \<times> venue_fee_quote \<times> venue_fee_quote) res" where
  "live_fees v1 v2 q1 q2 =
     rbind (vi_constraints v1) (\<lambda>c1. rbind (vi_constraints v2) (\<lambda>c2.
       (case (c1, c2) of
          (Some c1, Some c2) \<Rightarrow>
            rbind (vi_fee_quote v1 (flt_repr (avg_price q1)) c1) (\<lambda>f1.
            rbind (vi_fee_quote v2 (flt_repr (avg_price q2)) c2) (\<lambda>f2.
              (case (f1, f2) of
                 (Some f1, Some f2) \<Rightarrow>
                   if fq_verified f1 \<and> fq_verified f2 then Inr (c1, c2, f1, f2)
                   else Inl (ValueError ''live fee metadata is unavailable'')
               | _ \<Rightarrow> Inl (ValueError ''live fee metadata is unavailable''))))
        | _ \<Rightarrow> Inl (ValueError ''live market constraints are unavailable''))))"

section \<open>The economics of the signed previews\<close>

definition guaranteed :: "order_preview \<Rightarrow> dec" where
  "guaranteed p = (case op_guaranteed_contracts p of Some g \<Rightarrow> g | None \<Rightarrow> op_requested_contracts p)"

definition worst_capital :: "order_preview \<Rightarrow> dec" where
  "worst_capital p = (case op_maximum_notional_usd p of
     Some n \<Rightarrow> n | None \<Rightarrow> dmul (op_requested_contracts p) (op_limit_price p))"

definition worst_fee :: "(dec \<Rightarrow> dec \<Rightarrow> dec) \<Rightarrow> order_preview \<Rightarrow> venue_fee_quote \<Rightarrow> dec res" where
  "worst_fee fp p q = (case op_maximum_fee_usd p of
     Some f \<Rightarrow> Inr f
   | None \<Rightarrow> worst_case_fee_between fp q (op_requested_contracts p) (op_average_price p) (op_limit_price p))"

text \<open>
  The assessment of two executable previews: \<^verbatim>\<open>None\<close> when no payout is guaranteed, otherwise the
  plan, the metrics and the all-in cost, when no reason to reject came up.
\<close>

definition assess_previews ::
  "(dec \<Rightarrow> dec \<Rightarrow> dec) \<Rightarrow> spread_policy \<Rightarrow> flt \<Rightarrow> flt \<Rightarrow> dec \<Rightarrow> order_preview \<Rightarrow> order_preview \<Rightarrow>
    (position_plan \<times> spread_metrics \<times> dec) option res" where
  "assess_previews fp sp target threshold chain_cost p1 p2 =
     (if guaranteed p1 \<le> 0 \<or> guaranteed p2 \<le> 0 then Inr None
      else case (op_fee_quote p1, op_fee_quote p2) of
        (Some q1, Some q2) \<Rightarrow>
           (let payout = min (guaranteed p1) (guaranteed p2);
                capital1 = worst_capital p1; capital2 = worst_capital p2
            in rbind (worst_fee fp p1 q1) (\<lambda>fee1. rbind (worst_fee fp p2 q2) (\<lambda>fee2.
              (let variable_cost = dadd fee1 fee2;
                   minimum_profit = max (flt_repr (sp_min_expected_profit_usd sp)) (dmul variable_cost 2);
                   all_in = dadd (dadd (dadd capital1 capital2) variable_cost) chain_cost;
                   profit = dsub payout all_in;
                   net_spread = ddiv profit payout
               in if op_price_impact_pct p1 \<noteq> 0 \<or> op_price_impact_pct p2 \<noteq> 0 \<or>
                     op_requested_contracts p1 \<noteq> op_requested_contracts p2 \<or>
                     flt_repr target < capital1 \<or> flt_repr target < capital2 \<or>
                     net_spread < flt_repr threshold \<or> profit < minimum_profit
                  then Inr None
                  else Inr (Some
                    (\<lparr>pl_polymarket_contracts = op_requested_contracts p1, pl_polymarket_capital_usd = capital1,
                      pl_predict_fun_contracts = op_requested_contracts p2, pl_predict_fun_capital_usd = capital2,
                      pl_payout_contracts = payout,
                      pl_total_cost_usd = dadd (dadd (dadd capital1 capital2) fee1) fee2,
                      pl_polymarket_fee_usd = fee1, pl_predict_fun_fee_usd = fee2\<rparr>,
                     \<lparr>sm_gross_spread = flt_round (ddiv (dsub (dsub payout capital1) capital2) payout),
                      sm_net_spread = flt_round net_spread, sm_expected_net_profit_usd = flt_round profit,
                      sm_polymarket_slippage = flt_round (op_price_impact_pct p1),
                      sm_predict_fun_slippage = flt_round (op_price_impact_pct p2),
                      sm_combined_cost_per_payout = flt_round (ddiv all_in payout),
                      sm_fixed_chain_cost_usd = flt_round chain_cost\<rparr>,
                     all_in))))))
      | _ \<Rightarrow> Inl (AssertionError []))"

definition prepared_market :: "string \<Rightarrow> string \<Rightarrow> string \<Rightarrow> string \<Rightarrow> market_spec \<Rightarrow> market_spec" where
  "prepared_market first_label second_label tick1 tick2 m =
     (let m1 = (if first_label = ''Polymarket'' then m\<lparr>m_tick_size := Some tick1\<rparr> else m)
      in if second_label = ''Polymarket'' then m1\<lparr>m_tick_size := Some tick2\<rparr> else m1)"

section \<open>The guard\<close>

definition refreshed_metrics ::
  "(dec \<Rightarrow> dec \<Rightarrow> dec) \<Rightarrow> exec_config \<Rightarrow> string \<Rightarrow> market_spec \<Rightarrow> flt \<Rightarrow> flt \<Rightarrow> flt \<Rightarrow> flt \<Rightarrow> chain_quote \<Rightarrow>
    order_book \<Rightarrow> order_book \<Rightarrow> venue_fee_quote \<Rightarrow> venue_fee_quote \<Rightarrow> spread_metrics res" where
  "refreshed_metrics fp c route m target required cap1 cap2 cq b1 b2 f1 f2 =
     rbind (first_leg_side_for_route m route) (\<lambda>side1.
     rbind (second_leg_side_for_route m route) (\<lambda>side2.
       calculate_spread_metrics fp
         \<lparr>pi_first_book = Some b1, pi_second_book = Some b2, pi_max_order_size = target,
          pi_max_slippage = min cap1 cap2, pi_max_price_impact = ec_max_production_price_impact c,
          pi_first_pool = None, pi_first_side = side1, pi_second_pool = None, pi_second_side = side2,
          pi_first_fee_pct = 0, pi_second_fee_pct = 0, pi_first_fee_quote = Some f1, pi_second_fee_quote = Some f2,
          pi_required_depth = Some required\<rparr> (flt_round (cq_reserved_cost_usd cq))))"

text \<open>What the guard does with the two signed previews, and the entry it prepares from them.\<close>

definition preview_entry ::
  "(dec \<Rightarrow> dec \<Rightarrow> dec) \<Rightarrow> spread_policy \<Rightarrow> string \<Rightarrow> string \<Rightarrow> flt \<Rightarrow> flt \<Rightarrow> dec \<Rightarrow> venue_inputs \<Rightarrow> venue_inputs \<Rightarrow>
    arbitrage_signal \<Rightarrow> order_preview res \<Rightarrow> order_preview res \<Rightarrow> prepared_entry option res" where
  "preview_entry fp sp first_label second_label target threshold chain_cost v1 v2 s r1 r2 =
     (case (r1, r2) of
        (Inr p1, Inr p2) \<Rightarrow>
          if \<not> preview_executable p1 \<or> \<not> preview_executable p2 then Inr None
          else rbind (assess_previews fp sp target threshold chain_cost p1 p2) (\<lambda>r. (case r of
              None \<Rightarrow> Inr None
            | Some (plan, metrics, all_in) \<Rightarrow>
                (case (op_payload_fingerprint p1, op_payload_fingerprint p2) of
                   (Some h1, Some h2) \<Rightarrow>
                     if h1 \<noteq> [] \<and> h2 \<noteq> []
                     then Inr (Some \<lparr>pe_signal = s\<lparr>
                            s_market := prepared_market first_label second_label (vi_tick_text v1) (vi_tick_text v2) (s_market s),
                            s_plan := plan, s_metrics := metrics, s_polymarket_price := flt_round (op_limit_price p1),
                            s_predict_fun_price := flt_round (op_limit_price p2)\<rparr>,
                          pe_all_in_cost_usd = all_in, pe_first_order_fingerprint = h1, pe_second_order_fingerprint = h2\<rparr>)
                     else Inl (AssertionError [])
                 | _ \<Rightarrow> Inl (AssertionError []))))
      | _ \<Rightarrow> Inr None)"

text \<open>The live quotes, fees and metrics; \<^verbatim>\<open>None\<close> when one of them is missing, wrong or too poor.\<close>

definition live_quotes ::
  "(dec \<Rightarrow> dec \<Rightarrow> dec) \<Rightarrow> exec_config \<Rightarrow> string \<Rightarrow> flt \<Rightarrow> flt \<Rightarrow> flt \<Rightarrow> flt \<Rightarrow> flt \<Rightarrow> chain_quote \<Rightarrow> venue_inputs \<Rightarrow> venue_inputs \<Rightarrow>
    arbitrage_signal \<Rightarrow> order_book \<Rightarrow> order_book \<Rightarrow> fill_quote \<Rightarrow> fill_quote \<Rightarrow> (dec \<times> dec \<times> dec) option res" where
  "live_quotes fp c route target required threshold cap1 cap2 cq v1 v2 s b1 b2 q1 q2 =
     rbind (best_ask b1) (\<lambda>best1. rbind (best_ask b2) (\<lambda>best2.
     let limit1 = fmul (s_polymarket_price s) (fadd 1 cap1); limit2 = fmul (s_predict_fun_price s) (fadd 1 cap2);
         submit1 = submit_limit (price best1) cap1; submit2 = submit_limit (price best2) cap2
     in or_reject (rbind (live_fees v1 v2 q1 q2) (\<lambda>(c1, c2, f1, f2).
           rbind (refreshed_metrics fp c route (s_market s) target required cap1 cap2 cq b1 b2 f1 f2)
             (\<lambda>m. Inr (f1, f2, m))))
        (\<lambda>(f1, f2, m).
           rbind (div_dec (flt_repr target) submit1) (\<lambda>n1. rbind (div_dec (flt_repr target) submit2) (\<lambda>n2.
           let payout = min (min (min (flt_repr (contracts q1)) (flt_repr (contracts q2))) n1) n2 in
           rbind (fee_for_fill fp f1 payout (flt_repr (avg_price q1))) (\<lambda>cost1.
           rbind (fee_for_fill fp f2 payout (flt_repr (avg_price q2))) (\<lambda>cost2.
           if limit1 < price best1 \<or> limit2 < price best2 \<or> sm_net_spread m < threshold \<or>
              flt_repr (sm_expected_net_profit_usd m)
                < max (flt_repr (sp_min_expected_profit_usd (ec_policy c))) (dmul (dadd cost1 cost2) 2)
           then Inr None
           else Inr (Some (payout, submit1, submit2)))))))))"

definition preflight_price_guard ::
  "(dec \<Rightarrow> dec \<Rightarrow> dec) \<Rightarrow> exec_config \<Rightarrow> string \<Rightarrow> string \<Rightarrow> chain_quote option \<Rightarrow> venue_inputs \<Rightarrow> venue_inputs \<Rightarrow>
    arbitrage_signal \<Rightarrow> prepared_entry option res" where
  "preflight_price_guard fp c first_label second_label chain v1 v2 s =
     (let sp = ec_policy c; route = route_key first_label second_label;
          target = fdiv (ec_position_size_usd c) 2; required = fmul target (sp_depth_buffer sp);
          threshold = max (ec_min_net_spread c) (threshold_for sp route)
      in case (vi_book v1, vi_book v2) of
        (Inr b1, Inr b2) \<Rightarrow>
          if \<not> books_acceptable b1 b2 (vi_fresh v1) (vi_fresh v2) required then Inr None
          else
          or_reject (rbind (orderbook_buy_quote b1 target) (\<lambda>q1. rbind (orderbook_buy_quote b2 target) (\<lambda>q2. Inr (q1, q2))))
            (\<lambda>(q1, q2).
          rbind (venue_slippage_cap c first_label) (\<lambda>cap1.
          rbind (venue_slippage_cap c second_label) (\<lambda>cap2.
          (case chain of None \<Rightarrow> Inr None | Some cq \<Rightarrow>
            rbind (live_quotes fp c route target required threshold cap1 cap2 cq v1 v2 s b1 b2 q1 q2) (\<lambda>r. (case r of
                None \<Rightarrow> Inr None
              | Some (payout, submit1, submit2) \<Rightarrow>
                  preview_entry fp sp first_label second_label target threshold (cq_reserved_cost_usd cq) v1 v2 s
                    (vi_preview v1 payout submit1) (vi_preview v2 payout submit2)))))))
      | _ \<Rightarrow> Inr None)"

section \<open>What a prepared entry guarantees\<close>

text \<open>The economics of a prepared entry: \<open>ok_economics\<close> is what the assessment of the previews establishes.\<close>

definition ok_economics :: "spread_policy \<Rightarrow> flt \<Rightarrow> flt \<Rightarrow> dec \<Rightarrow> position_plan \<Rightarrow> dec \<Rightarrow> bool" where
  "ok_economics sp target threshold chain_cost p all_in \<longleftrightarrow>
     pl_polymarket_contracts p = pl_predict_fun_contracts p \<and> 0 < pl_payout_contracts p \<and>
     pl_polymarket_capital_usd p \<le> flt_repr target \<and> pl_predict_fun_capital_usd p \<le> flt_repr target \<and>
     all_in = dadd (dadd (dadd (pl_polymarket_capital_usd p) (pl_predict_fun_capital_usd p))
       (dadd (pl_polymarket_fee_usd p) (pl_predict_fun_fee_usd p))) chain_cost \<and>
     flt_repr threshold \<le> ddiv (dsub (pl_payout_contracts p) all_in) (pl_payout_contracts p) \<and>
     flt_repr (sp_min_expected_profit_usd sp) \<le> dsub (pl_payout_contracts p) all_in \<and>
     dmul (dadd (pl_polymarket_fee_usd p) (pl_predict_fun_fee_usd p)) 2 \<le> dsub (pl_payout_contracts p) all_in"

lemma assess_previews_sound:
  assumes "assess_previews fp sp target threshold chain_cost p1 p2 = Inr (Some (plan, metrics, all_in))"
  shows "ok_economics sp target threshold chain_cost plan all_in"
  using assms
  by (auto simp: assess_previews_def ok_economics_def res_simps Let_def not_less not_le split: if_splits option.splits)

lemma preview_entryE:
  assumes "preview_entry fp sp f g target threshold chain_cost v1 v2 s r1 r2 = Inr (Some pe)"
  obtains p1 p2 plan metrics all_in h1 h2 where "r1 = Inr p1" "r2 = Inr p2" "preview_executable p1" "preview_executable p2"
    "assess_previews fp sp target threshold chain_cost p1 p2 = Inr (Some (plan, metrics, all_in))"
    "op_payload_fingerprint p1 = Some h1" "op_payload_fingerprint p2 = Some h2" "h1 \<noteq> []" "h2 \<noteq> []"
    "s_plan (pe_signal pe) = plan" "pe_all_in_cost_usd pe = all_in"
    "pe_first_order_fingerprint pe = h1" "pe_second_order_fingerprint pe = h2"
proof -
  obtain p1 p2 where r: "r1 = Inr p1" "r2 = Inr p2"
    using assms by (cases r1; cases r2) (simp_all add: preview_entry_def)
  with assms have x: "preview_executable p1" "preview_executable p2"
    by (auto simp: preview_entry_def split: if_splits)
  obtain a where a: "assess_previews fp sp target threshold chain_cost p1 p2 = Inr a"
    using assms r x by (cases "assess_previews fp sp target threshold chain_cost p1 p2") (simp_all add: preview_entry_def)
  obtain plan metrics all_in where q: "assess_previews fp sp target threshold chain_cost p1 p2 = Inr (Some (plan, metrics, all_in))"
    using assms r x a by (cases a) (auto simp: preview_entry_def)
  obtain h1 h2 where h: "op_payload_fingerprint p1 = Some h1" "op_payload_fingerprint p2 = Some h2"
    using assms r x q
    by (cases "op_payload_fingerprint p1"; cases "op_payload_fingerprint p2") (simp_all add: preview_entry_def)
  have "h1 \<noteq> [] \<and> h2 \<noteq> []"
    using assms r x q h by (auto simp: preview_entry_def split: if_splits)
  with assms r x q h show thesis
    by (intro that [OF r x q h]) (auto simp: preview_entry_def)
qed

text \<open>How far the guard got when it returned an entry.\<close>

lemma preflight_price_guardE:
  assumes "preflight_price_guard fp c f g chain v1 v2 s = Inr (Some pe)"
  obtains b1 b2 cq payout submit1 submit2 where "vi_book v1 = Inr b1" "vi_book v2 = Inr b2"
    "books_acceptable b1 b2 (vi_fresh v1) (vi_fresh v2)
      (fmul (fdiv (ec_position_size_usd c) 2) (sp_depth_buffer (ec_policy c)))"
    "chain = Some cq"
    "preview_entry fp (ec_policy c) f g (fdiv (ec_position_size_usd c) 2)
      (max (ec_min_net_spread c) (threshold_for (ec_policy c) (route_key f g))) (cq_reserved_cost_usd cq) v1 v2 s
      (vi_preview v1 payout submit1) (vi_preview v2 payout submit2) = Inr (Some pe)"
proof -
  obtain b1 b2 where b: "vi_book v1 = Inr b1" "vi_book v2 = Inr b2"
    using assms by (cases "vi_book v1"; cases "vi_book v2") (simp_all add: preflight_price_guard_def Let_def)
  with assms have ok: "books_acceptable b1 b2 (vi_fresh v1) (vi_fresh v2)
      (fmul (fdiv (ec_position_size_usd c) 2) (sp_depth_buffer (ec_policy c)))"
    by (auto simp: preflight_price_guard_def Let_def split: if_splits)
  obtain cq where chain: "chain = Some cq"
    using assms b ok
    by (cases chain) (auto simp: preflight_price_guard_def Let_def or_reject_iff rbind_Inr_iff)
  from assms b ok chain obtain payout submit1 submit2 where
    "preview_entry fp (ec_policy c) f g (fdiv (ec_position_size_usd c) 2)
      (max (ec_min_net_spread c) (threshold_for (ec_policy c) (route_key f g))) (cq_reserved_cost_usd cq) v1 v2 s
      (vi_preview v1 payout submit1) (vi_preview v2 payout submit2) = Inr (Some pe)"
    by (fastforce simp: preflight_price_guard_def Let_def or_reject_iff rbind_Inr_iff split: option.split_asm prod.split_asm)
  with b ok chain show thesis by (rule that)
qed

text \<open>No slippage cap is configured for Opinion, and the lookup raises: a route with that venue never gets an entry.\<close>

lemma opinion_route_never_prepared:
  "preflight_price_guard fp c f ''Opinion'' chain v1 v2 s \<noteq> Inr (Some pe)"
proof
  assume a: "preflight_price_guard fp c f ''Opinion'' chain v1 v2 s = Inr (Some pe)"
  have "\<exists>e. venue_slippage_cap c ''Opinion'' = Inl e" by (simp add: venue_slippage_cap_def)
  with a show False
    by (auto simp: preflight_price_guard_def Let_def or_reject_iff rbind_Inr_iff split: sum.split_asm if_split_asm)
qed

section \<open>A sample entry\<close>

definition sample_preview :: "dec \<Rightarrow> dec \<Rightarrow> order_preview" where
  "sample_preview n limit = \<lparr>op_venue = ''Polymarket'', op_token_id = ''t'', op_side = YES, op_requested_contracts = n,
     op_limit_price = limit, op_average_price = limit, op_notional_usd = dmul n limit, op_available_depth_usd = 100,
     op_price_impact_pct = 0, op_expected_fee_usd = 0,
     op_fee_quote = Some \<lparr>fq_venue = ''Polymarket'', fq_fee_rate_bps = 0, fq_model = ''zero_fee'', fq_source = ''live'',
       fq_verified = True, fq_fee_exponent = 1, fq_fee_rate_fraction = None, fq_minimum_fee_usd = 0\<rparr>,
     op_constraints = None, op_signing_validated = True, op_payload_fingerprint = Some ''ab'', op_blockers = [],
     op_guaranteed_contracts = None, op_maximum_notional_usd = None, op_maximum_fee_usd = None\<rparr>"

definition sample_venue :: "flt \<Rightarrow> venue_inputs" where
  "sample_venue p = \<lparr>vi_book = Inr (sample_book p), vi_fresh = True,
     vi_constraints = Inr (Some \<lparr>fee_rate_bps = 0, tick_size = 1 / 100, lot_size = 1, minimum_notional = 1, mc_fee_exponent = 1\<rparr>),
     vi_tick_text = ''0.01'', vi_fee_quote = (\<lambda>_ _. Inr (op_fee_quote (sample_preview 1 1))),
     vi_preview = (\<lambda>n limit. Inr (sample_preview n limit))\<rparr>"

definition sample_chain_quote :: chain_quote where
  "sample_chain_quote = \<lparr>cq_route = ''polymarket_predict'', cq_configured_floor_usd = 0, cq_live_estimate_usd = 0,
     cq_reserved_cost_usd = 0, cq_multiplier = 1, cq_live = False, cq_components = []\<rparr>"

definition priced_signal :: arbitrage_signal where
  "priced_signal = sample_signal\<lparr>s_polymarket_price := 1/4, s_predict_fun_price := 1/2\<rparr>"

lemma sample_quotes:
  "orderbook_buy_quote (sample_book (1/4)) 10 = Inr \<lparr>avg_price = 1/4, contracts = 40, spent_usd = 10, slippage_pct = 0\<rparr>"
  "orderbook_buy_quote (sample_book (1/2)) 10 = Inr \<lparr>avg_price = 1/2, contracts = 20, spent_usd = 10, slippage_pct = 0\<rparr>"
  using sample_fills
  by (simp_all add: orderbook_buy_quote_def best_ask_def sample_book_def sample_ops)

lemma sample_depths:
  "executable_depth_usd (sample_book (1/4)) = 25" "executable_depth_usd (sample_book (1/2)) = 50"
  "top_of_book_ask_depth_usd (sample_book (1/4)) = 25" "top_of_book_ask_depth_usd (sample_book (1/2)) = 50"
  by (simp_all add: executable_depth_usd_def top_of_book_ask_depth_usd_def valid_asks_def sample_book_def sample_reprs
      sample_fill_ops dsum_def dadd_def dec_round_eval)

definition sample_fee :: venue_fee_quote where
  "sample_fee = the (op_fee_quote (sample_preview 1 1))"

lemma sample_fee_quote: "op_fee_quote (sample_preview n l) = Some sample_fee" "fq_verified sample_fee"
  by (simp_all add: sample_fee_def sample_preview_def)

lemma sample_fee_zero: "0 \<le> p \<Longrightarrow> p \<le> 1 \<Longrightarrow> fee_for_fill fp sample_fee n p = Inr 0"
  by (simp add: fee_for_fill_def sample_fee_def sample_preview_def fee_rate_def ddiv_def dec_round_eval)

lemma sample_best: "best_ask (sample_book p) = Inr \<lparr>price = p, lsize = 100\<rparr>"
  by (simp add: best_ask_def sample_book_def)

lemma sample_route: "require_known_route ''polymarket_predict'' reason = Inr ()"
  by (simp add: require_known_route_def EXECUTION_ROUTES_def)

lemma sample_metrics_refreshed:
  "refreshed_metrics fp sample_config ''polymarket_predict'' (s_market priced_signal) 10 10 0 0 sample_chain_quote
     (sample_book (1/4)) (sample_book (1/2)) sample_fee sample_fee = Inr sample_metrics"
  using sample_fills sample_quotes sample_depths sample_fee_zero
  by (simp add: refreshed_metrics_def calculate_spread_metrics_def build_position_plan_def quote_with_liquidity_guard_def
      leg_quote_def depth_guard_def leg_fee_def first_leg_side_for_route_def second_leg_side_for_route_def
      sample_route sample_best Let_def sample_config_def sample_chain_quote_def sample_reprs sample_ops flt.rnd_0
      best_leg_price_def leg_slippage_def sample_metrics_def)

lemma sample_five: "flt_repr 5 = 5" "flt_repr 0 = 0"
  by code_simp+

lemma sample_live_quotes:
  "live_quotes fp sample_config ''polymarket_predict'' 10 10 0 0 0 sample_chain_quote (sample_venue (1/4)) (sample_venue (1/2))
     priced_signal (sample_book (1/4)) (sample_book (1/2)) \<lparr>avg_price = 1/4, contracts = 40, spent_usd = 10, slippage_pct = 0\<rparr>
     \<lparr>avg_price = 1/2, contracts = 20, spent_usd = 10, slippage_pct = 0\<rparr> = Inr (Some (20, 1/4, 1/2))"
  using sample_metrics_refreshed sample_fee_zero
  by (simp add: live_quotes_def sample_best live_fees_def sample_venue_def sample_fee_quote or_reject_def submit_limit_def
      sample_reprs sample_five Let_def div_dec_def dmul_def dadd_def ddiv_def fadd_def fmul_def dec_round_eval flt_round_eval
      priced_signal_def sample_metrics_def sample_config_def sample_policy_def)

lemma sample_assessed:
  "assess_previews fp sample_policy 10 0 0 (sample_preview 20 (1/4)) (sample_preview 20 (1/2)) =
     Inr (Some (sample_plan, sample_metrics, 15))"
  using sample_fee_zero
  by (simp add: assess_previews_def sample_fee_quote guaranteed_def worst_capital_def worst_fee_def worst_case_fee_between_def
      sample_preview_def sample_plan_def sample_metrics_def Let_def sample_policy_def sample_five sample_reprs
      dadd_def dsub_def dmul_def ddiv_def dec_round_eval flt_round_eval sample_fee_def fee_for_fill_def fee_rate_def)

definition sample_entry :: prepared_entry where
  "sample_entry = \<lparr>pe_signal = priced_signal\<lparr>s_market := prepared_market ''Polymarket'' ''Predict.fun'' ''0.01'' ''0.01''
       (s_market priced_signal), s_plan := sample_plan, s_metrics := sample_metrics\<rparr>,
     pe_all_in_cost_usd = 15, pe_first_order_fingerprint = ''ab'', pe_second_order_fingerprint = ''ab''\<rparr>"

lemma sample_preview_facts:
  "preview_executable (sample_preview n l)" "op_payload_fingerprint (sample_preview n l) = Some ''ab''"
  "op_limit_price (sample_preview n l) = l"
  by (simp_all add: preview_executable_def sample_preview_def)

lemma sample_route_key: "route_key ''Polymarket'' ''Predict.fun'' = ''polymarket_predict''"
  by code_simp

lemma sample_setting:
  "fdiv 20 2 = 10" "fmul 10 1 = 10"
  "threshold_for sample_policy ''polymarket_predict'' = 0" "venue_slippage_cap sample_config ''Polymarket'' = Inr 0"
  "venue_slippage_cap sample_config ''Predict.fun'' = Inr 0" "ec_position_size_usd sample_config = 20"
  "ec_min_net_spread sample_config = 0" "ec_policy sample_config = sample_policy" "sp_depth_buffer sample_policy = 1"
  "cq_reserved_cost_usd sample_chain_quote = 0" "vi_book (sample_venue p) = Inr (sample_book p)" "vi_fresh (sample_venue p)"
  "vi_preview (sample_venue p) n l = Inr (sample_preview n l)" "vi_tick_text (sample_venue p) = ''0.01''"
  by (simp_all add: fdiv_def fmul_def fadd_def flt_round_eval flt.rnd_0 threshold_for_def venue_slippage_cap_def
      sample_config_def sample_policy_def get_or_def dict_get_def sample_chain_quote_def sample_venue_def)

lemma sample_books_acceptable: "books_acceptable (sample_book (1/4)) (sample_book (1/2)) True True 10"
  using sample_depths by (simp add: books_acceptable_def sample_reprs) (simp add: sample_book_def)

lemma sample_entry_prepared:
  "preflight_price_guard fp sample_config ''Polymarket'' ''Predict.fun'' (Some sample_chain_quote) (sample_venue (1/4))
     (sample_venue (1/2)) priced_signal = Inr (Some sample_entry)"
  using sample_live_quotes sample_quotes sample_assessed sample_books_acceptable
  by (simp add: preflight_price_guard_def sample_setting sample_route_key Let_def or_reject_def preview_entry_def sample_preview_facts
      sample_entry_def priced_signal_def flt_round_eval)

section \<open>Property\<close>

text \<open>C22. An entry that leaves the preflight guard pays even in its worst case: both books were live, valid and
  deep enough; the two legs hold the same number of contracts; neither commits more than half of
  the position size; the recorded cost is exactly capital, fees and gas; and what remains of the
  guaranteed payout is at least the minimum profit, twice the fees, and the threshold of the route.\<close>

theorem prepared_entry_pays_in_worst_case:
  assumes "preflight_price_guard fp c f g chain v1 v2 s = Inr (Some pe)"
  shows "\<exists>b1 b2 cq. vi_book v1 = Inr b1 \<and> vi_book v2 = Inr b2 \<and> chain = Some cq \<and>
    books_acceptable b1 b2 (vi_fresh v1) (vi_fresh v2)
      (fmul (fdiv (ec_position_size_usd c) 2) (sp_depth_buffer (ec_policy c))) \<and>
    pl_polymarket_contracts (s_plan (pe_signal pe)) = pl_predict_fun_contracts (s_plan (pe_signal pe)) \<and>
    pl_polymarket_capital_usd (s_plan (pe_signal pe)) \<le> flt_repr (fdiv (ec_position_size_usd c) 2) \<and>
    pl_predict_fun_capital_usd (s_plan (pe_signal pe)) \<le> flt_repr (fdiv (ec_position_size_usd c) 2) \<and>
    pe_all_in_cost_usd pe =
      dadd (dadd (dadd (pl_polymarket_capital_usd (s_plan (pe_signal pe))) (pl_predict_fun_capital_usd (s_plan (pe_signal pe))))
        (dadd (pl_polymarket_fee_usd (s_plan (pe_signal pe))) (pl_predict_fun_fee_usd (s_plan (pe_signal pe)))))
        (cq_reserved_cost_usd cq) \<and>
    flt_repr (sp_min_expected_profit_usd (ec_policy c))
      \<le> dsub (pl_payout_contracts (s_plan (pe_signal pe))) (pe_all_in_cost_usd pe) \<and>
    dmul (dadd (pl_polymarket_fee_usd (s_plan (pe_signal pe))) (pl_predict_fun_fee_usd (s_plan (pe_signal pe)))) 2
      \<le> dsub (pl_payout_contracts (s_plan (pe_signal pe))) (pe_all_in_cost_usd pe) \<and>
    flt_repr (max (ec_min_net_spread c) (threshold_for (ec_policy c) (route_key f g)))
      \<le> ddiv (dsub (pl_payout_contracts (s_plan (pe_signal pe))) (pe_all_in_cost_usd pe)) (pl_payout_contracts (s_plan (pe_signal pe)))"
  using assms
proof (rule preflight_price_guardE)
  fix b1 b2 cq payout submit1 submit2
  assume *: "vi_book v1 = Inr b1" "vi_book v2 = Inr b2" "chain = Some cq"
    "books_acceptable b1 b2 (vi_fresh v1) (vi_fresh v2)
      (fmul (fdiv (ec_position_size_usd c) 2) (sp_depth_buffer (ec_policy c)))"
    and "preview_entry fp (ec_policy c) f g (fdiv (ec_position_size_usd c) 2)
      (max (ec_min_net_spread c) (threshold_for (ec_policy c) (route_key f g))) (cq_reserved_cost_usd cq) v1 v2 s
      (vi_preview v1 payout submit1) (vi_preview v2 payout submit2) = Inr (Some pe)"
  from this(5) show ?thesis
    by (rule preview_entryE) (use * in \<open>auto dest!: assess_previews_sound simp: ok_economics_def\<close>)
qed

theorem prepared_entry_pays_in_worst_case_witness:
  "pe_all_in_cost_usd sample_entry = 15 \<and>
    0 \<le> dsub (pl_payout_contracts (s_plan (pe_signal sample_entry))) (pe_all_in_cost_usd sample_entry)"
  using prepared_entry_pays_in_worst_case [OF sample_entry_prepared]
  by (auto simp: sample_setting sample_policy_def sample_five) (simp add: sample_entry_def)

end
