(* ===== verification/Actions.thy ===== *)
theory Actions
  imports Lab_Prelude
begin

text \<open>
  Computations that read and write a state and may raise: what an \<^verbatim>\<open>async\<close> method does between its
  first statement and its return. The state that an exception leaves behind is kept, since the
  \<^verbatim>\<open>except\<close> and \<^verbatim>\<open>finally\<close> clauses of the code go on from it. \<open>hoare P m Q E\<close> states that from
  a state with \<open>P\<close> a return satisfies \<open>Q\<close> and an exception satisfies \<open>E\<close>; the rules in
  \<open>act_rules\<close> compute preconditions backwards.
\<close>

named_theorems act_rules \<open>preconditions of the computations\<close>

section \<open>Computations\<close>

type_synonym ('s, 'e, 'a) act = "'s \<Rightarrow> ('e + 'a) \<times> 's"

definition ret :: "'a \<Rightarrow> ('s, 'e, 'a) act" where
  "ret x = (\<lambda>s. (Inr x, s))"

definition raise :: "'e \<Rightarrow> ('s, 'e, 'a) act" where
  "raise e = (\<lambda>s. (Inl e, s))"

definition andthen :: "('s, 'e, 'a) act \<Rightarrow> ('a \<Rightarrow> ('s, 'e, 'b) act) \<Rightarrow> ('s, 'e, 'b) act" where
  "andthen m f = (\<lambda>s. case m s of (Inl e, s') \<Rightarrow> (Inl e, s') | (Inr x, s') \<Rightarrow> f x s')"

definition andalso :: "('s, 'e, unit) act \<Rightarrow> ('s, 'e, 'b) act \<Rightarrow> ('s, 'e, 'b) act" where
  "andalso m m' = andthen m (\<lambda>_. m')"

text \<open>\<^verbatim>\<open>try: m except e: h e\<close>.\<close>

definition catch :: "('s, 'e, 'a) act \<Rightarrow> ('e \<Rightarrow> ('s, 'e, 'a) act) \<Rightarrow> ('s, 'e, 'a) act" where
  "catch m h = (\<lambda>s. case m s of (Inl e, s') \<Rightarrow> h e s' | (Inr x, s') \<Rightarrow> (Inr x, s'))"

text \<open>\<^verbatim>\<open>try: m finally: f\<close>, where the clause cannot raise.\<close>

definition finally_do :: "('s, 'e, 'a) act \<Rightarrow> ('s \<Rightarrow> 's) \<Rightarrow> ('s, 'e, 'a) act" where
  "finally_do m f = (\<lambda>s. case m s of (r, s') \<Rightarrow> (r, f s'))"

text \<open>\<^verbatim>\<open>try: m finally: f\<close>, where the clause may raise: its exception replaces what \<open>m\<close> did.\<close>

definition ensure :: "('s, 'e, 'a) act \<Rightarrow> ('s, 'e, unit) act \<Rightarrow> ('s, 'e, 'a) act" where
  "ensure m f = (\<lambda>s. case m s of (r, s') \<Rightarrow> (case f s' of (Inl e, t) \<Rightarrow> (Inl e, t) | (Inr _, t) \<Rightarrow> (r, t)))"

text \<open>One coroutine of \<^verbatim>\<open>gather(..., return_exceptions=True)\<close>: its exception is a value.\<close>

definition gathered :: "('s, 'e, 'a) act \<Rightarrow> ('s, 'e, 'e + 'a) act" where
  "gathered m = (\<lambda>s. case m s of (r, s') \<Rightarrow> (Inr r, s'))"

definition gets :: "('s \<Rightarrow> 'a) \<Rightarrow> ('s, 'e, 'a) act" where
  "gets f = (\<lambda>s. (Inr (f s), s))"

definition modify :: "('s \<Rightarrow> 's) \<Rightarrow> ('s, 'e, unit) act" where
  "modify f = (\<lambda>s. (Inr (), f s))"

definition when_do :: "bool \<Rightarrow> ('s, 'e, unit) act \<Rightarrow> ('s, 'e, unit) act" where
  "when_do c m = (if c then m else ret ())"

definition of_result :: "'e + 'a \<Rightarrow> ('s, 'e, 'a) act" where
  "of_result r = (\<lambda>s. (r, s))"

text \<open>\<^verbatim>\<open>for x in xs: m x\<close>, with the exceptions of the body.\<close>

primrec for_each :: "('a \<Rightarrow> ('s, 'e, unit) act) \<Rightarrow> 'a list \<Rightarrow> ('s, 'e, unit) act" where
  "for_each m [] = ret ()"
| "for_each m (x # xs) = andalso (m x) (for_each m xs)"

lemmas act_defs = ret_def raise_def andthen_def andalso_def catch_def finally_do_def gets_def modify_def when_do_def of_result_def
  ensure_def gathered_def

lemma andthen_ret [simp]: "andthen (ret x) f = f x"
  by (simp add: andthen_def ret_def)

lemma andthen_assoc: "andthen (andthen m f) g = andthen m (\<lambda>x. andthen (f x) g)"
  by (auto simp: andthen_def split: prod.splits sum.splits)

section \<open>Triples\<close>

definition hoare :: "('s \<Rightarrow> bool) \<Rightarrow> ('s, 'e, 'a) act \<Rightarrow> ('a \<Rightarrow> 's \<Rightarrow> bool) \<Rightarrow> ('e \<Rightarrow> 's \<Rightarrow> bool) \<Rightarrow> bool" where
  "hoare P m Q E \<longleftrightarrow> (\<forall>s. P s \<longrightarrow> (case m s of (Inl e, s') \<Rightarrow> E e s' | (Inr x, s') \<Rightarrow> Q x s'))"

lemma hoareD_return: "hoare P m Q E \<Longrightarrow> P s \<Longrightarrow> m s = (Inr x, s') \<Longrightarrow> Q x s'"
  by (auto simp: hoare_def)

lemma hoareD_raise: "hoare P m Q E \<Longrightarrow> P s \<Longrightarrow> m s = (Inl e, s') \<Longrightarrow> E e s'"
  by (auto simp: hoare_def)

lemma hoare_weaken:
  "hoare P' m Q' E' \<Longrightarrow> (\<And>s. P s \<Longrightarrow> P' s) \<Longrightarrow> (\<And>x s. Q' x s \<Longrightarrow> Q x s) \<Longrightarrow> (\<And>e s. E' e s \<Longrightarrow> E e s) \<Longrightarrow> hoare P m Q E"
  by (fastforce simp: hoare_def split: prod.splits sum.splits)

lemma hoare_pre: "hoare P' m Q E \<Longrightarrow> (\<And>s. P s \<Longrightarrow> P' s) \<Longrightarrow> hoare P m Q E"
  by (rule hoare_weaken)

lemma hoare_ret [act_rules]: "hoare (Q x) (ret x) Q E"
  by (simp add: hoare_def ret_def)

lemma hoare_raise [act_rules]: "hoare (E e) (raise e) Q E"
  by (simp add: hoare_def raise_def)

lemma hoare_gets [act_rules]: "hoare (\<lambda>s. Q (f s) s) (gets f) Q E"
  by (simp add: hoare_def gets_def)

lemma hoare_modify [act_rules]: "hoare (\<lambda>s. Q () (f s)) (modify f) Q E"
  by (simp add: hoare_def modify_def)

lemma hoare_andthen:
  "(\<And>x. hoare (R x) (f x) Q E) \<Longrightarrow> hoare P m R E \<Longrightarrow> hoare P (andthen m f) Q E"
  by (fastforce simp: hoare_def andthen_def split: prod.splits sum.splits)

lemma hoare_andalso: "hoare R m' Q E \<Longrightarrow> hoare P m (\<lambda>_. R) E \<Longrightarrow> hoare P (andalso m m') Q E"
  unfolding andalso_def by (rule hoare_andthen)

lemma hoare_catch: "(\<And>e. hoare (E' e) (h e) Q E) \<Longrightarrow> hoare P m Q E' \<Longrightarrow> hoare P (catch m h) Q E"
  by (fastforce simp: hoare_def catch_def split: prod.splits sum.splits)

lemma hoare_finally: "hoare P m (\<lambda>x s. Q x (f s)) (\<lambda>e s. E e (f s)) \<Longrightarrow> hoare P (finally_do m f) Q E"
  by (fastforce simp: hoare_def finally_do_def split: prod.splits sum.splits)

lemma hoare_when: "hoare P m Q E \<Longrightarrow> hoare (\<lambda>s. if c then P s else Q () s) (when_do c m) Q E"
  by (auto simp: hoare_def when_do_def ret_def)

lemma hoare_if: "hoare P m Q E \<Longrightarrow> hoare P' m' Q E \<Longrightarrow> hoare (\<lambda>s. if c then P s else P' s) (if c then m else m') Q E"
  by (auto simp: hoare_def)

lemma hoare_of_result [act_rules]:
  "hoare (\<lambda>s. (\<forall>x. r = Inr x \<longrightarrow> Q x s) \<and> (\<forall>e. r = Inl e \<longrightarrow> E e s)) (of_result r) Q E"
  by (auto simp: hoare_def of_result_def split: sum.splits)

lemma hoare_conj: "hoare P m Q E \<Longrightarrow> hoare P' m Q' E' \<Longrightarrow>
    hoare (\<lambda>s. P s \<and> P' s) m (\<lambda>x s. Q x s \<and> Q' x s) (\<lambda>e s. E e s \<and> E' e s)"
  by (fastforce simp: hoare_def split: prod.splits sum.splits)

text \<open>A computation keeps a predicate however it ends.\<close>

definition keeps :: "('s \<Rightarrow> bool) \<Rightarrow> ('s, 'e, 'a) act \<Rightarrow> bool" where
  "keeps I m \<longleftrightarrow> (\<forall>s. I s \<longrightarrow> I (snd (m s)))"

lemma keeps_hoare: "keeps I m \<longleftrightarrow> hoare I m (\<lambda>_. I) (\<lambda>_. I)"
proof -
  have "(case m s of (Inl e, s') \<Rightarrow> I s' | (Inr x, s') \<Rightarrow> I s') = I (snd (m s))" for s
    by (simp split: prod.split sum.split)
  then show ?thesis by (simp add: keeps_def hoare_def)
qed

lemma keeps_basic [simp, intro]:
  "keeps I (ret x)" "keeps I (raise e)" "keeps I (gets f)" "keeps I (of_result r)"
  by (simp_all add: keeps_def act_defs)

lemma keeps_modify [intro]: "(\<And>s. I s \<Longrightarrow> I (f s)) \<Longrightarrow> keeps I (modify f)"
  by (simp add: keeps_def modify_def)

lemma keeps_andthen [intro]: "keeps I m \<Longrightarrow> (\<And>x. keeps I (f x)) \<Longrightarrow> keeps I (andthen m f)"
  by (auto simp: keeps_def andthen_def split: prod.splits sum.splits)

lemma keeps_andalso [intro]: "keeps I m \<Longrightarrow> keeps I m' \<Longrightarrow> keeps I (andalso m m')"
  unfolding andalso_def by (rule keeps_andthen)

lemma keeps_catch [intro]: "keeps I m \<Longrightarrow> (\<And>e. keeps I (h e)) \<Longrightarrow> keeps I (catch m h)"
  by (auto simp: keeps_def catch_def split: prod.splits sum.splits)

lemma keeps_finally [intro]: "keeps I m \<Longrightarrow> (\<And>s. I s \<Longrightarrow> I (f s)) \<Longrightarrow> keeps I (finally_do m f)"
  by (auto simp: keeps_def finally_do_def split: prod.splits)

lemma keeps_when [intro]: "keeps I m \<Longrightarrow> keeps I (when_do c m)"
  by (simp add: keeps_def when_do_def ret_def)

lemma keeps_if [intro]: "keeps I m \<Longrightarrow> keeps I m' \<Longrightarrow> keeps I (if c then m else m')"
  by simp

lemma keeps_for_each [intro]: "(\<And>x. x \<in> set xs \<Longrightarrow> keeps I (m x)) \<Longrightarrow> keeps I (for_each m xs)"
  by (induction xs) auto

lemma keeps_run: "keeps I m \<Longrightarrow> I s \<Longrightarrow> m s = (r, s') \<Longrightarrow> I s'"
  by (metis keeps_def snd_conv)

section \<open>Effects\<close>

text \<open>
  \<open>effect_in R m\<close>: however the computation ends, it leaves a state that \<open>R\<close> relates to the one it
  started from. Every preorder on states gives a calculus of effects.
\<close>

definition effect_in :: "('s \<Rightarrow> 's \<Rightarrow> bool) \<Rightarrow> ('s, 'e, 'a) act \<Rightarrow> bool" where
  "effect_in R m \<longleftrightarrow> (\<forall>s. R s (snd (m s)))"

lemma effect_inD: "effect_in R m \<Longrightarrow> m s = (r, s') \<Longrightarrow> R s s'"
  by (metis effect_in_def snd_conv)

lemma effect_in_if [intro]: "effect_in R m \<Longrightarrow> effect_in R m' \<Longrightarrow> effect_in R (if c then m else m')"
  by simp

lemma effect_in_pair [intro]: "(\<And>a b. effect_in R (f a b)) \<Longrightarrow> effect_in R (case x of (a, b) \<Rightarrow> f a b)"
  by (cases x) simp

lemma effect_in_modify: "(\<And>s. R s (f s)) \<Longrightarrow> effect_in R (modify f)"
  by (simp add: effect_in_def modify_def)

locale effect_order =
  fixes R :: "'s \<Rightarrow> 's \<Rightarrow> bool"
  assumes R_refl: "R s s" and R_trans: "R s t \<Longrightarrow> R t u \<Longrightarrow> R s u"
begin

lemma basic [intro]: "effect_in R (ret x)" "effect_in R (raise e)" "effect_in R (gets f)" "effect_in R (of_result r)"
  by (simp_all add: effect_in_def act_defs R_refl)

lemma bind [intro]: "effect_in R m \<Longrightarrow> (\<And>x. effect_in R (f x)) \<Longrightarrow> effect_in R (andthen m f)"
  unfolding effect_in_def andthen_def
  by (auto split: prod.splits sum.splits) (metis R_trans snd_conv)+

lemma seq [intro]: "effect_in R m \<Longrightarrow> effect_in R m' \<Longrightarrow> effect_in R (andalso m m')"
  unfolding andalso_def by (rule bind)

lemma handler [intro]: "effect_in R m \<Longrightarrow> (\<And>e. effect_in R (h e)) \<Longrightarrow> effect_in R (catch m h)"
  unfolding effect_in_def catch_def
  by (auto split: prod.splits sum.splits) (metis R_trans snd_conv)+

lemma cleanup [intro]: "effect_in R m \<Longrightarrow> (\<And>s. R s (f s)) \<Longrightarrow> effect_in R (finally_do m f)"
  unfolding effect_in_def finally_do_def
  by (auto split: prod.splits) (metis R_trans snd_conv)

lemma ensured [intro]: "effect_in R m \<Longrightarrow> effect_in R f \<Longrightarrow> effect_in R (ensure m f)"
  unfolding effect_in_def ensure_def
  by (auto split: prod.splits sum.splits) (metis R_trans snd_conv)+

lemma gathering [intro]: "effect_in R m \<Longrightarrow> effect_in R (gathered m)"
  unfolding effect_in_def gathered_def by (auto split: prod.splits) (metis snd_conv)

lemma loop [intro]: "(\<And>x. x \<in> set xs \<Longrightarrow> effect_in R (m x)) \<Longrightarrow> effect_in R (for_each m xs)"
  by (induction xs) (auto intro: seq)

lemma conditional [intro]: "effect_in R m \<Longrightarrow> effect_in R (when_do c m)"
  by (simp add: effect_in_def when_do_def ret_def R_refl)

end

end
