(* ===== verification/Order_Legs.thy ===== *)
theory Order_Legs
  imports Repository Preflight Actions
begin

text \<open>
  One order from its durable intent to its resolution: \<^verbatim>\<open>_submit_entry_leg\<close> and
  \<^verbatim>\<open>_submit_exit_leg\<close> of \<^verbatim>\<open>execution.py\<close> with their callbacks, their \<^verbatim>\<open>except\<close> and
  \<^verbatim>\<open>finally\<close> clauses, and the state of the router they change. What a connector does during a
  submission is a script; clocks, readiness answers and failures of the two stores come from the
  \<open>world\<close>, indexed by the number of queries made so far. The lemmas show that a leg that returns
  leaves its intent either resolved or unknown under a paused controller.
\<close>

section \<open>The router\<close>

text \<open>
  The exceptions a leg distinguishes. \<open>Submission_Rejected\<close>, \<open>Transaction_Timeout\<close> and
  \<open>Other_Failure\<close> carry the \<^verbatim>\<open>order_id\<close> attribute that \<^verbatim>\<open>getattr\<close> looks up; \<open>Cancelled\<close> is
  \<^verbatim>\<open>asyncio.CancelledError\<close>, which no \<^verbatim>\<open>except Exception\<close> catches.
\<close>

datatype leg_error =
    Submission_Rejected string "string option"
  | Residual_Exposure execution_report dec
  | Transaction_Timeout string "string option"
  | Other_Failure string "string option"
  | Cancelled

record world =
  w_now :: "nat \<Rightarrow> datetime"
  w_clock :: "nat \<Rightarrow> flt"
  w_ready :: "nat \<Rightarrow> bool"
  w_db :: "nat \<Rightarrow> leg_error option"
  w_saved :: "nat \<Rightarrow> bool"
  w_today :: "nat \<Rightarrow> int"
  w_deadline :: "flt option"

text \<open>\<open>rt_active\<close> holds the venue and the id of the active orders, \<open>rt_tick\<close> counts the queries to the world.\<close>

record router =
  rt_db :: repository
  rt_book :: position_ledger
  rt_risk :: controller
  rt_bal :: balances
  rt_active :: "(string \<times> string) list"
  rt_pending :: "string list"
  rt_api_errors :: int
  rt_tick :: nat

record leg_state = router +
  ls_order_id :: string
  ls_deadline_hit :: bool

type_synonym ('z, 'a) router_act = "('z router_scheme, leg_error, 'a) act"

definition bump :: "'z router_scheme \<Rightarrow> 'z router_scheme" where
  "bump s = s\<lparr>rt_tick := rt_tick s + 1\<rparr>"

definition failure_of :: "py_error \<Rightarrow> leg_error" where
  "failure_of e = (case e of
     ValueError m \<Rightarrow> Other_Failure m None | RuntimeError m \<Rightarrow> Other_Failure m None | KeyError m \<Rightarrow> Other_Failure m None
   | TypeError m \<Rightarrow> Other_Failure m None | IntegrityError m \<Rightarrow> Other_Failure m None
   | AttributeError m \<Rightarrow> Other_Failure m None | ZeroDivisionError m \<Rightarrow> Other_Failure m None
   | AssertionError m \<Rightarrow> Other_Failure m None | InvalidOperation m \<Rightarrow> Other_Failure m None)"

text \<open>A transaction: the world may make it fail, and it may raise by itself.\<close>

definition db_do :: "world \<Rightarrow> (repository \<Rightarrow> 'a tx) \<Rightarrow> ('z, 'a) router_act" where
  "db_do w f = (\<lambda>s. case w_db w (rt_tick s) of
     Some e \<Rightarrow> (Inl e, bump s)
   | None \<Rightarrow> (case f (rt_db s) of
       Inl e \<Rightarrow> (Inl (failure_of e), bump s)
     | Inr (x, db) \<Rightarrow> (Inr x, (bump s)\<lparr>rt_db := db\<rparr>)))"

definition new_intent :: "world \<Rightarrow> order_intent \<Rightarrow> ('z, unit) router_act" where
  "new_intent w i = db_do w (create_order_intent i)"

definition set_intent ::
  "world \<Rightarrow> string \<Rightarrow> order_intent_status \<Rightarrow> string option \<Rightarrow> string option \<Rightarrow> ('z, unit) router_act" where
  "set_intent w cid st vid err = (\<lambda>s. db_do w (update_order_intent (w_now w (rt_tick s)) cid st vid err) s)"

text \<open>The telemetry row of the balances; its contents are \<open>runtime_balance_state\<close>.\<close>

definition persist_runtime_balance_state :: "world \<Rightarrow> ('z, unit) router_act" where
  "persist_runtime_balance_state w = db_do w (\<lambda>db. Inr ((), db))"

text \<open>
  The callback that the router registers with the controller. The cancellations are best effort,
  and a failure of the telemetry write is logged by the controller.
\<close>

definition cancel_active_orders_and_clear_pending :: "'z router_scheme \<Rightarrow> 'z router_scheme" where
  "cancel_active_orders_and_clear_pending s =
     bump (s\<lparr>rt_active := [], rt_pending := [], rt_bal := (rt_bal s)\<lparr>bl_reserved := []\<rparr>\<rparr>)"

definition controlled :: "(bool \<Rightarrow> controller \<Rightarrow> outcome) \<Rightarrow> world \<Rightarrow> ('z, bool) router_act" where
  "controlled f w = (\<lambda>s. let oc = f (w_saved w (rt_tick s)) (rt_risk s); s' = (bump s)\<lparr>rt_risk := oc_controller oc\<rparr>;
       s'' = (if oc_callbacks_ran oc then cancel_active_orders_and_clear_pending s' else s')
     in (case oc_result oc of Inl e \<Rightarrow> (Inl (failure_of e), s'') | Inr b \<Rightarrow> (Inr b, s'')))"

definition risk_pause :: "string \<Rightarrow> world \<Rightarrow> ('z, unit) router_act" where
  "risk_pause reason w = andthen (controlled (pause reason) w) (\<lambda>_. ret ())"

definition risk_record_api_error :: "world \<Rightarrow> ('z, unit) router_act" where
  "risk_record_api_error w = andalso (modify (\<lambda>s. s\<lparr>rt_api_errors := rt_api_errors s + 1\<rparr>))
     (andthen (controlled record_api_error w) (\<lambda>_. ret ()))"

definition risk_realized :: "dec \<Rightarrow> world \<Rightarrow> ('z, unit) router_act" where
  "risk_realized profit w = (\<lambda>s. andthen (controlled (record_realized_result (w_today w (rt_tick s)) profit 0) w) (\<lambda>_. ret ()) s)"

section \<open>Guards\<close>

definition canary_window_open :: "world \<Rightarrow> ('z, bool) router_act" where
  "canary_window_open w = (\<lambda>s. (Inr (funded_canary_window_open (w_deadline w) (w_clock w (rt_tick s))), bump s))"

definition canary_guard :: "world \<Rightarrow> ('z, bool) router_act" where
  "canary_guard w = andthen (canary_window_open w) (\<lambda>ok.
     if ok then ret True else andalso (risk_pause ''funded_canary_window_complete'' w) (ret False))"

text \<open>\<^verbatim>\<open>_entry_runtime_ready\<close>: the readiness callbacks are asked only when the controller is not paused.\<close>

definition entry_runtime_ready :: "world \<Rightarrow> ('z, bool) router_act" where
  "entry_runtime_ready w = (\<lambda>s. if rk_paused (rc_state (rt_risk s)) then (Inr False, s)
     else (Inr (w_ready w (rt_tick s)), bump s))"

section \<open>Requests, scripts and results\<close>

definition NO_ORDER :: string where
  "NO_ORDER = ''failed-before-order''"

text \<open>
  A leg to submit; \<open>lr_persists_first\<close> is \<^verbatim>\<open>persists_order_id_before_submission\<close> of its connector
  and \<open>lr_capital\<close> the capital reserved for an entry.
\<close>

record leg_request =
  lr_client_order_id :: string
  lr_route :: string
  lr_market :: market_spec
  lr_venue :: string
  lr_token_id :: string
  lr_side :: binary_side
  lr_contracts :: dec
  lr_price :: dec
  lr_capital :: dec
  lr_persists_first :: bool

text \<open>
  What the connector does with a submission: the callbacks it makes, in order (an exception of a
  callback ends the submission), then an order id or an exception. \<open>vs_wait\<close> answers
  \<^verbatim>\<open>wait_filled\<close> after the acknowledgement, \<open>vs_cancel_wait\<close> the one in \<^verbatim>\<open>_cancel_and_reconcile\<close> and
  \<open>vs_rewait\<close> the one after an exception; one leg may come to all three.
\<close>

datatype connector_call = Persist_Id string | Check_Transport

record venue_script =
  vs_calls :: "connector_call list"
  vs_result :: "leg_error + string"
  vs_wait :: "leg_error + execution_report"
  vs_cancel_wait :: "leg_error + execution_report"
  vs_rewait :: "leg_error + execution_report"

record leg_result =
  lg_order_id :: string
  lg_report :: "execution_report option"
  lg_error :: "leg_error option"

definition error_order_id :: "leg_error \<Rightarrow> string option" where
  "error_order_id e = (case e of
     Submission_Rejected _ i \<Rightarrow> i | Residual_Exposure r _ \<Rightarrow> Some (er_order_id r)
   | Transaction_Timeout _ i \<Rightarrow> i | Other_Failure _ i \<Rightarrow> i | Cancelled \<Rightarrow> None)"

definition error_text :: "leg_error \<Rightarrow> string" where
  "error_text e = (case e of Submission_Rejected m _ \<Rightarrow> m | Transaction_Timeout m _ \<Rightarrow> m | Other_Failure m _ \<Rightarrow> m
     | Residual_Exposure _ _ \<Rightarrow> ''residual opposite exposure'' | Cancelled \<Rightarrow> [])"

definition is_rejection :: "leg_error \<Rightarrow> bool" where
  "is_rejection e = (case e of Submission_Rejected _ _ \<Rightarrow> True | _ \<Rightarrow> False)"

definition is_residual :: "leg_error \<Rightarrow> bool" where
  "is_residual e = (case e of Residual_Exposure _ _ \<Rightarrow> True | _ \<Rightarrow> False)"

definition known_id :: "string \<Rightarrow> string option" where
  "known_id oid = (if oid = NO_ORDER then None else Some oid)"

definition zero_report :: "string \<Rightarrow> dec \<Rightarrow> execution_report" where
  "zero_report oid n = from_amounts oid n 0 (Inr ES_CANCELLED) 0"

definition stamped :: "string \<Rightarrow> string \<Rightarrow> execution_report \<Rightarrow> execution_report" where
  "stamped cid oid r = r\<lparr>er_client_order_id := Some cid, er_venue_order_id := Some oid\<rparr>"

definition fresh_intent :: "string \<Rightarrow> leg_request \<Rightarrow> datetime \<Rightarrow> order_intent" where
  "fresh_intent action r now = \<lparr>oi_client_order_id = lr_client_order_id r, oi_route = lr_route r,
     oi_market_key = position_key (lr_market r), oi_venue = lr_venue r, oi_token_id = lr_token_id r,
     oi_binary_side = lr_side r, oi_action = action, oi_quantity = lr_contracts r, oi_limit_price = lr_price r,
     oi_status = PREPARED, oi_venue_order_id = None, oi_created_at = now, oi_updated_at = now\<rparr>"

definition create_intent :: "world \<Rightarrow> string \<Rightarrow> leg_request \<Rightarrow> ('z, unit) router_act" where
  "create_intent w action r = (\<lambda>s. new_intent w (fresh_intent action r (w_now w (rt_tick s))) s)"

section \<open>The callbacks of a submission\<close>

type_synonym 'a leg_act = "(leg_state, leg_error, 'a) act"

definition set_order_id :: "string \<Rightarrow> unit leg_act" where
  "set_order_id oid = modify (\<lambda>s. s\<lparr>ls_order_id := oid\<rparr>)"

definition persist_order_id :: "world \<Rightarrow> bool \<Rightarrow> leg_request \<Rightarrow> string \<Rightarrow> unit leg_act" where
  "persist_order_id w entry r oid =
     (if oid = [] then raise (Other_Failure (lr_venue r @ '' returned an empty venue order id'') None)
      else andalso (set_order_id oid)
       (andalso (set_intent w (lr_client_order_id r) SUBMITTING (Some oid) None)
       (when_do (entry \<and> lr_persists_first r)
         (andthen (canary_guard w) (\<lambda>ok. if \<not> ok
            then raise (Submission_Rejected ''funded canary entry deadline elapsed during order-id persistence'' (Some oid))
            else andthen (entry_runtime_ready w) (\<lambda>ready. if \<not> ready
              then raise (Submission_Rejected ''entry readiness lost during pre-submit order-id persistence'' (Some oid))
              else ret ()))))))"

definition assert_pre_transport_ready :: "world \<Rightarrow> unit leg_act" where
  "assert_pre_transport_ready w = andthen (gets ls_order_id) (\<lambda>oid. andthen (canary_window_open w) (\<lambda>ok.
     if \<not> ok
     then andalso (modify (\<lambda>s. s\<lparr>ls_deadline_hit := True\<rparr>))
       (raise (Submission_Rejected ''funded canary entry deadline elapsed immediately before transport'' (known_id oid)))
     else andthen (entry_runtime_ready w) (\<lambda>ready. if \<not> ready
       then raise (Submission_Rejected ''entry readiness lost immediately before transport'' (known_id oid))
       else ret ())))"

text \<open>Only a purchase carries a transport guard.\<close>

fun run_calls :: "world \<Rightarrow> bool \<Rightarrow> leg_request \<Rightarrow> connector_call list \<Rightarrow> unit leg_act" where
  "run_calls w entry r [] = ret ()"
| "run_calls w entry r (Persist_Id oid # cs) = andalso (persist_order_id w entry r oid) (run_calls w entry r cs)"
| "run_calls w entry r (Check_Transport # cs) =
     andalso (when_do entry (assert_pre_transport_ready w)) (run_calls w entry r cs)"

definition submit :: "world \<Rightarrow> bool \<Rightarrow> leg_request \<Rightarrow> venue_script \<Rightarrow> string leg_act" where
  "submit w entry r v = andalso (run_calls w entry r (vs_calls v)) (of_result (vs_result v))"

text \<open>
  \<^verbatim>\<open>_cancel_and_reconcile\<close>: the cancellation is best effort, and every exception of the second
  wait leaves the first report.
\<close>

definition cancel_and_reconcile :: "venue_script \<Rightarrow> execution_report \<Rightarrow> execution_report leg_act" where
  "cancel_and_reconcile v previous = (case vs_cancel_wait v of
     Inr current \<Rightarrow> ret (if er_amount_filled previous \<le> er_amount_filled current then current else previous)
   | Inl Cancelled \<Rightarrow> raise Cancelled
   | Inl _ \<Rightarrow> ret previous)"

definition of_res :: "'a res \<Rightarrow> ('z, 'a) router_act" where
  "of_res r = (case r of Inl e \<Rightarrow> raise (failure_of e) | Inr x \<Rightarrow> ret x)"

definition debit_fill :: "exec_config \<Rightarrow> leg_request \<Rightarrow> execution_report \<Rightarrow> ('z, unit) router_act" where
  "debit_fill c r rep = (\<lambda>s. andthen (of_res (debit_reported_fill c (lr_venue r) (lr_market r) rep (lr_capital r) (rt_bal s)))
     (\<lambda>b. modify (\<lambda>s. s\<lparr>rt_bal := b\<rparr>)) s)"

definition pause_unknown :: "world \<Rightarrow> leg_request \<Rightarrow> order_intent_status \<Rightarrow> ('z, unit) router_act" where
  "pause_unknown w r st = when_do (st = OI_UNKNOWN)
     (risk_pause (''unknown order outcome: '' @ lr_venue r @ '' client_order_id='' @ lr_client_order_id r) w)"

definition activate :: "leg_request \<Rightarrow> string \<Rightarrow> ('z, unit) router_act" where
  "activate r oid = modify (\<lambda>s. s\<lparr>rt_active := List.insert (lr_venue r, oid) (rt_active s)\<rparr>)"

text \<open>The part that both legs share, from the submission to the final status of the intent.\<close>

definition acknowledged_report :: "world \<Rightarrow> bool \<Rightarrow> leg_request \<Rightarrow> venue_script \<Rightarrow> execution_report leg_act" where
  "acknowledged_report w entry r v = andthen (submit w entry r v) (\<lambda>returned. andthen (gets ls_order_id) (\<lambda>oid.
     if oid = NO_ORDER \<or> lower returned \<noteq> lower oid
     then raise (Other_Failure (lr_venue r @ '' did not persist the submitted venue order id'') None)
     else andalso (set_order_id returned)
      (andalso (set_intent w (lr_client_order_id r) ACKNOWLEDGED (Some returned) None)
      (andalso (activate r returned)
      (andthen (of_result (vs_wait v)) (\<lambda>rep.
       andthen (if is_filled rep then ret rep else cancel_and_reconcile v rep) (\<lambda>rep.
       andalso (set_intent w (lr_client_order_id r) (intent_status_from_report rep) (Some returned) None)
      (andalso (pause_unknown w r (intent_status_from_report rep))
       (ret (stamped (lr_client_order_id r) returned rep))))))))))"

definition forget_active :: "leg_request \<Rightarrow> leg_state \<Rightarrow> leg_state" where
  "forget_active r s = (if ls_order_id s = NO_ORDER then s
     else s\<lparr>rt_active := filter (\<lambda>k. k \<noteq> (lr_venue r, ls_order_id s)) (rt_active s)\<rparr>)"

section \<open>Entry legs\<close>

definition rejected_result :: "string \<Rightarrow> leg_request \<Rightarrow> string \<Rightarrow> leg_result" where
  "rejected_result oid r reason = \<lparr>lg_order_id = oid, lg_report = Some (zero_report oid (lr_contracts r)),
     lg_error = Some (Submission_Rejected reason None)\<rparr>"

definition reject_before_venue_submit :: "world \<Rightarrow> leg_request \<Rightarrow> string \<Rightarrow> leg_result leg_act" where
  "reject_before_venue_submit w r reason = andthen (gets ls_order_id) (\<lambda>oid.
     andalso (set_intent w (lr_client_order_id r) OI_CANCELLED None (Some reason)) (ret (rejected_result oid r reason)))"

definition entry_body :: "world \<Rightarrow> exec_config \<Rightarrow> leg_request \<Rightarrow> venue_script \<Rightarrow> leg_result leg_act" where
  "entry_body w c r v = andthen (canary_guard w) (\<lambda>ok.
     if \<not> ok then raise (Submission_Rejected ''funded canary entry deadline elapsed'' None)
     else andthen (entry_runtime_ready w) (\<lambda>ready.
       if \<not> ready then reject_before_venue_submit w r ''entry readiness lost immediately before venue submission''
       else andthen (acknowledged_report w True r v) (\<lambda>rep.
         andalso (debit_fill c r rep)
         (andalso (persist_runtime_balance_state w)
         (andthen (gets ls_order_id) (\<lambda>oid. ret \<lparr>lg_order_id = oid, lg_report = Some rep, lg_error = None\<rparr>))))))"

text \<open>The order id an exception brings along, and what the venue says about the order after it.\<close>

definition learn_order_id :: "leg_error \<Rightarrow> unit leg_act" where
  "learn_order_id e = andthen (gets ls_order_id) (\<lambda>oid. case error_order_id e of
     Some i \<Rightarrow> when_do (oid = NO_ORDER \<and> i \<noteq> []) (set_order_id i) | None \<Rightarrow> ret ())"

definition reconciled_after_error :: "leg_request \<Rightarrow> venue_script \<Rightarrow> leg_error \<Rightarrow> execution_report option leg_act" where
  "reconciled_after_error r v e = andthen (gets ls_order_id) (\<lambda>oid.
     if is_rejection e then ret (Some (stamped (lr_client_order_id r) oid (zero_report oid (lr_contracts r))))
     else if oid = NO_ORDER then ret None
     else (case vs_rewait v of
         Inr rep \<Rightarrow> ret (Some (stamped (lr_client_order_id r) oid rep))
       | Inl Cancelled \<Rightarrow> raise Cancelled
       | Inl _ \<Rightarrow> ret None))"

definition status_after_error :: "leg_error \<Rightarrow> execution_report option \<Rightarrow> order_intent_status" where
  "status_after_error e rep = (if is_rejection e then OI_CANCELLED
     else case rep of Some r \<Rightarrow> intent_status_from_report r | None \<Rightarrow> OI_UNKNOWN)"

definition entry_failed :: "world \<Rightarrow> exec_config \<Rightarrow> leg_request \<Rightarrow> venue_script \<Rightarrow> leg_error \<Rightarrow> leg_result leg_act" where
  "entry_failed w c r v e = andthen (gets ls_deadline_hit) (\<lambda>hit.
     andalso (when_do hit (risk_pause ''funded_canary_window_complete'' w))
     (andalso (learn_order_id e)
     (andthen (reconciled_after_error r v e) (\<lambda>rep.
      andalso (case rep of Some x \<Rightarrow> andalso (debit_fill c r x) (persist_runtime_balance_state w) | None \<Rightarrow> ret ())
      (andthen (gets ls_order_id) (\<lambda>oid.
       andalso (set_intent w (lr_client_order_id r) (status_after_error e rep) (known_id oid) (Some (error_text e)))
       (andalso (pause_unknown w r (status_after_error e rep))
       (ret \<lparr>lg_order_id = oid, lg_report = rep, lg_error = Some e\<rparr>))))))))"

definition leg_cancelled :: "world \<Rightarrow> leg_request \<Rightarrow> string \<Rightarrow> leg_result leg_act" where
  "leg_cancelled w r reason = andthen (gets ls_order_id) (\<lambda>oid.
     andalso (set_intent w (lr_client_order_id r) OI_UNKNOWN (known_id oid) (Some reason)) (raise Cancelled))"

definition entry_guarded :: "world \<Rightarrow> exec_config \<Rightarrow> leg_request \<Rightarrow> venue_script \<Rightarrow> leg_result leg_act" where
  "entry_guarded w c r v = finally_do (catch (entry_body w c r v) (\<lambda>e.
     if e = Cancelled then leg_cancelled w r ''entry submission cancelled during shutdown''
     else entry_failed w c r v e)) (forget_active r)"

definition entry_leg :: "world \<Rightarrow> exec_config \<Rightarrow> leg_request \<Rightarrow> venue_script \<Rightarrow> leg_result leg_act" where
  "entry_leg w c r v = andthen (canary_guard w) (\<lambda>ok.
     if \<not> ok then ret (rejected_result NO_ORDER r ''funded canary entry deadline elapsed'')
     else andalso (create_intent w ''BUY'' r)
      (andthen (entry_runtime_ready w) (\<lambda>ready.
       if \<not> ready then reject_before_venue_submit w r ''entry readiness lost after durable intent creation''
       else andalso (set_intent w (lr_client_order_id r) SUBMITTING None None)
        (andthen (entry_runtime_ready w) (\<lambda>ready.
         if \<not> ready then reject_before_venue_submit w r ''entry readiness lost before venue submission''
         else entry_guarded w c r v)))))"

text \<open>The local variables of a leg live as long as the leg.\<close>

definition with_locals :: "'a leg_act \<Rightarrow> (router, leg_error, 'a) act" where
  "with_locals m = (\<lambda>s. case m (router.extend s (leg_state.fields NO_ORDER False)) of (x, s') \<Rightarrow> (x, router.truncate s'))"

definition submit_entry_leg :: "world \<Rightarrow> exec_config \<Rightarrow> leg_request \<Rightarrow> venue_script \<Rightarrow> (router, leg_error, leg_result) act" where
  "submit_entry_leg w c r v = with_locals (entry_leg w c r v)"

section \<open>Exit legs\<close>

text \<open>\<^verbatim>\<open>except Exception: log\<close> around the update of a residual exit.\<close>

definition best_effort :: "('s, leg_error, unit) act \<Rightarrow> ('s, leg_error, unit) act" where
  "best_effort m = catch m (\<lambda>e. if e = Cancelled then raise Cancelled else ret ())"

definition pause_residual :: "world \<Rightarrow> leg_request \<Rightarrow> ('z, unit) router_act" where
  "pause_residual w r =
     risk_pause (''residual opposite exposure: '' @ lr_venue r @ '' client_order_id='' @ lr_client_order_id r) w"

definition exit_residual :: "world \<Rightarrow> leg_request \<Rightarrow> execution_report \<Rightarrow> leg_error \<Rightarrow> leg_result leg_act" where
  "exit_residual w r rep e = andalso (set_order_id (er_order_id rep))
     (andalso (best_effort (set_intent w (lr_client_order_id r) OI_MANUAL_REVIEW (Some (er_order_id rep)) (Some (error_text e))))
     (andalso (pause_residual w r)
     (ret \<lparr>lg_order_id = er_order_id rep, lg_report = Some (stamped (lr_client_order_id r) (er_order_id rep) rep), lg_error = Some e\<rparr>)))"

text \<open>The report and the error after the reconciliation of a failed exit: the second wait may find a residual exposure.\<close>

definition exit_reconciled :: "leg_request \<Rightarrow> venue_script \<Rightarrow> leg_error \<Rightarrow> (execution_report option \<times> leg_error) leg_act" where
  "exit_reconciled r v e = andthen (gets ls_order_id) (\<lambda>oid.
     if oid = NO_ORDER then ret (None, e)
     else (case vs_rewait v of
         Inr rep \<Rightarrow> ret (Some (stamped (lr_client_order_id r) oid rep), e)
       | Inl Cancelled \<Rightarrow> raise Cancelled
       | Inl (Residual_Exposure rep n) \<Rightarrow> ret (Some (stamped (lr_client_order_id r) oid rep), Residual_Exposure rep n)
       | Inl _ \<Rightarrow> ret (None, e)))"

definition exit_status :: "leg_error \<Rightarrow> execution_report option \<Rightarrow> order_intent_status" where
  "exit_status e rep = (if is_residual e then OI_MANUAL_REVIEW
     else case rep of Some r \<Rightarrow> intent_status_from_report r | None \<Rightarrow> OI_UNKNOWN)"

definition exit_failed :: "world \<Rightarrow> leg_request \<Rightarrow> venue_script \<Rightarrow> leg_error \<Rightarrow> leg_result leg_act" where
  "exit_failed w r v e = andalso (learn_order_id e)
     (andthen (exit_reconciled r v e) (\<lambda>(rep, err).
      andthen (gets ls_order_id) (\<lambda>oid.
       andalso ((if is_residual err then best_effort else (\<lambda>m. m))
         (set_intent w (lr_client_order_id r) (exit_status err rep) (known_id oid) (Some (error_text err))))
       (andalso (pause_unknown w r (exit_status err rep))
       (andalso (when_do (is_residual err) (pause_residual w r))
       (ret \<lparr>lg_order_id = oid, lg_report = rep, lg_error = Some err\<rparr>))))))"

definition exit_guarded :: "world \<Rightarrow> leg_request \<Rightarrow> venue_script \<Rightarrow> leg_result leg_act" where
  "exit_guarded w r v = finally_do (catch
     (andthen (acknowledged_report w False r v) (\<lambda>rep. andthen (gets ls_order_id) (\<lambda>oid.
       ret \<lparr>lg_order_id = oid, lg_report = Some rep, lg_error = None\<rparr>)))
     (\<lambda>e. case e of
        Residual_Exposure rep n \<Rightarrow> exit_residual w r rep e
      | Cancelled \<Rightarrow> leg_cancelled w r ''exit submission cancelled during shutdown''
      | _ \<Rightarrow> exit_failed w r v e)) (forget_active r)"

definition exit_leg :: "world \<Rightarrow> bool \<Rightarrow> leg_request \<Rightarrow> venue_script \<Rightarrow> leg_result leg_act" where
  "exit_leg w already_closed r v =
     (if already_closed then ret \<lparr>lg_order_id = ''already-closed'', lg_report = None, lg_error = None\<rparr>
      else andalso (create_intent w ''SELL'' r)
       (andalso (set_intent w (lr_client_order_id r) SUBMITTING None None)
       (exit_guarded w r v)))"

definition submit_exit_leg :: "world \<Rightarrow> bool \<Rightarrow> leg_request \<Rightarrow> venue_script \<Rightarrow> (router, leg_error, leg_result) act" where
  "submit_exit_leg w already_closed r v = with_locals (exit_leg w already_closed r v)"

text \<open>\<^verbatim>\<open>_normalize_entry_result\<close> and \<^verbatim>\<open>_normalize_exit_result\<close> on what \<^verbatim>\<open>gather\<close> collected.\<close>

definition normalize_result :: "leg_error + leg_result \<Rightarrow> (router, leg_error, leg_result) act" where
  "normalize_result x = (case x of
     Inr res \<Rightarrow> ret res
   | Inl Cancelled \<Rightarrow> raise Cancelled
   | Inl e \<Rightarrow> ret \<lparr>lg_order_id = NO_ORDER, lg_report = None, lg_error = Some e\<rparr>)"

section \<open>What a leg leaves behind\<close>

definition intent_of :: "'z router_scheme \<Rightarrow> string \<Rightarrow> order_intent_status option" where
  "intent_of s cid = map_option (\<lambda>row. oi_status (ir_intent row)) (dict_get (db_intents (rt_db s)) cid)"

definition paused :: "'z router_scheme \<Rightarrow> bool" where
  "paused s = rk_paused (rc_state (rt_risk s))"

text \<open>\<open>others s0 cid s\<close>: since \<open>s0\<close> no other intent, no position changed.\<close>

definition others :: "'y router_scheme \<Rightarrow> string \<Rightarrow> 'z router_scheme \<Rightarrow> bool" where
  "others s0 cid s \<longleftrightarrow> (\<forall>k. k \<noteq> cid \<longrightarrow> dict_get (db_intents (rt_db s)) k = dict_get (db_intents (rt_db s0)) k) \<and>
     db_positions (rt_db s) = db_positions (rt_db s0) \<and> rt_book s = rt_book s0"

text \<open>\<open>live\<close>: the intent exists, and while the database works it is not resolved.\<close>

definition live :: "world \<Rightarrow> string \<Rightarrow> 'z router_scheme \<Rightarrow> bool" where
  "live w cid s \<longleftrightarrow> intent_of s cid \<noteq> None \<and>
     ((\<forall>n. w_db w n = None) \<longrightarrow> intent_of s cid \<notin> {Some OI_FILLED, Some OI_CANCELLED})"

definition ongoing :: "world \<Rightarrow> 'y router_scheme \<Rightarrow> string \<Rightarrow> 'z router_scheme \<Rightarrow> bool" where
  "ongoing w s0 cid s \<longleftrightarrow> others s0 cid s \<and> live w cid s"

subsection \<open>Computations that do not touch the stores\<close>

definition same_stores :: "'z router_scheme \<Rightarrow> 'z router_scheme \<Rightarrow> bool" where
  "same_stores s s' \<longleftrightarrow> rt_db s' = rt_db s \<and> rt_book s' = rt_book s"

interpretation stores: effect_order "same_stores :: 'z router_scheme \<Rightarrow> 'z router_scheme \<Rightarrow> bool"
  by unfold_locales (auto simp: same_stores_def)

abbreviation storeless :: "('z router_scheme, 'e, 'a) act \<Rightarrow> bool" where
  "storeless m \<equiv> effect_in same_stores m"

declare stores.basic [simp]

definition on_stores :: "('z router_scheme \<Rightarrow> bool) \<Rightarrow> bool" where
  "on_stores I \<longleftrightarrow> (\<forall>s s'. same_stores s s' \<longrightarrow> I s \<longrightarrow> I s')"

lemma storeless_keeps: "storeless m \<Longrightarrow> on_stores I \<Longrightarrow> keeps I m"
  by (auto simp: effect_in_def on_stores_def keeps_def)

lemma on_stores_facts [simp]:
  "on_stores (others s0 cid)" "on_stores (live w cid)" "on_stores (ongoing w s0 cid)" "on_stores (\<lambda>s. intent_of s cid = x)"
  by (simp_all add: on_stores_def same_stores_def others_def live_def intent_of_def ongoing_def)

lemma on_stores_conj [simp]: "on_stores I \<Longrightarrow> on_stores J \<Longrightarrow> on_stores (\<lambda>s. I s \<and> J s)"
  by (auto simp: on_stores_def)

lemma bump_simps [simp]:
  "rt_db (bump s) = rt_db s" "rt_book (bump s) = rt_book s" "rt_risk (bump s) = rt_risk s" "rt_bal (bump s) = rt_bal s"
  "rt_active (bump s) = rt_active s" "rt_pending (bump s) = rt_pending s" "rt_tick (bump s) = rt_tick s + 1"
  by (simp_all add: bump_def)

lemma storeless_controlled [intro]: "storeless (controlled f w)"
  by (auto simp: effect_in_def same_stores_def controlled_def cancel_active_orders_and_clear_pending_def Let_def split: sum.splits)

lemma storeless_query [intro]: "storeless (canary_window_open w)" "storeless (entry_runtime_ready w)"
  by (auto simp: effect_in_def same_stores_def canary_window_open_def entry_runtime_ready_def)

lemma storeless_local [intro]: "storeless (activate r oid)" "storeless (set_order_id oid)"
  by (simp_all add: effect_in_def same_stores_def activate_def set_order_id_def modify_def)

lemma storeless_pause [intro]: "storeless (risk_pause reason w)"
  unfolding risk_pause_def by (intro stores.bind storeless_controlled stores.basic)

lemma storeless_pauses [intro]: "storeless (pause_unknown w r st)" "storeless (pause_residual w r)"
  unfolding pause_unknown_def pause_residual_def by (intro stores.conditional storeless_pause)+

lemma storeless_canary_guard [intro]: "storeless (canary_guard w)"
  unfolding canary_guard_def by (intro stores.bind storeless_query effect_in_if stores.basic stores.seq storeless_pause)

lemma storeless_learn [intro]: "storeless (learn_order_id e)"
  unfolding learn_order_id_def
  by (intro stores.bind stores.basic) (simp split: option.split add: stores.conditional storeless_local)

lemma storeless_of_res [intro]: "storeless (of_res r)"
  by (simp add: of_res_def split: sum.split)

lemma storeless_debit [intro]: "storeless (debit_fill c r rep)"
  by (auto simp: debit_fill_def effect_in_def same_stores_def of_res_def act_defs split: sum.splits)

lemma storeless_reconcile [intro]: "storeless (cancel_and_reconcile v rep)"
  by (simp add: cancel_and_reconcile_def split: sum.split leg_error.split)

lemma storeless_reconciled [intro]: "storeless (reconciled_after_error r v e)" "storeless (exit_reconciled r v e)"
  unfolding reconciled_after_error_def exit_reconciled_def
  by (intro stores.bind stores.basic; simp split: sum.split leg_error.split)+

lemma storeless_transport [intro]: "storeless (assert_pre_transport_ready w)"
  unfolding assert_pre_transport_ready_def
  by (intro stores.bind storeless_query effect_in_if stores.basic stores.seq effect_in_modify)
    (simp add: same_stores_def)

subsection \<open>The intent under the operations of a leg\<close>

lemma set_intent_ongoing:
  "hoare (ongoing w s0 cid) (set_intent w cid st vid err) (\<lambda>_ s. others s0 cid s \<and> intent_of s cid = Some st) (\<lambda>_. ongoing w s0 cid)"
  by (auto simp: hoare_def set_intent_def db_do_def update_order_intent_def ongoing_def others_def live_def intent_of_def
      dict_get_set split: option.splits)

lemma set_intent_keeps:
  assumes "st \<notin> {OI_FILLED, OI_CANCELLED}"
  shows "keeps (ongoing w s0 cid) (set_intent w cid st vid err)"
  unfolding keeps_hoare
  by (rule hoare_weaken [OF set_intent_ongoing]) (use assms in \<open>auto simp: ongoing_def live_def\<close>)

lemma create_intent_ongoing:
  "hoare (\<lambda>s. others s0 (lr_client_order_id r) s \<and> intent_of s (lr_client_order_id r) = None) (create_intent w action r)
     (\<lambda>_. ongoing w s0 (lr_client_order_id r))
     (\<lambda>_ s. others s0 (lr_client_order_id r) s \<and> intent_of s (lr_client_order_id r) = None)"
  by (auto simp: hoare_def create_intent_def new_intent_def db_do_def create_order_intent_def ongoing_def others_def live_def
      intent_of_def dict_get_set fresh_intent_def split: option.splits)

lemma persist_balances_keeps: "keeps (\<lambda>s. others s0 cid s \<and> intent_of s cid = st) (persist_runtime_balance_state w)"
  by (auto simp: keeps_def persist_runtime_balance_state_def db_do_def others_def intent_of_def split: option.splits)

lemma persist_balances_ongoing: "keeps (ongoing w s0 cid) (persist_runtime_balance_state w)"
  by (auto simp: keeps_def persist_runtime_balance_state_def db_do_def others_def intent_of_def ongoing_def live_def split: option.splits)

lemma ongoing_storeless: "storeless m \<Longrightarrow> keeps (ongoing w s0 cid) m"
  by (rule storeless_keeps) simp_all

lemma persist_order_id_keeps: "keeps (ongoing w s0 (lr_client_order_id r)) (persist_order_id w entry r oid)"
  unfolding persist_order_id_def
  by (intro keeps_if keeps_andalso keeps_andthen keeps_when set_intent_keeps keeps_basic ongoing_storeless
      storeless_local storeless_canary_guard storeless_query) simp

lemma run_calls_keeps: "keeps (ongoing w s0 (lr_client_order_id r)) (run_calls w entry r cs)"
proof (induction cs)
  case (Cons x cs)
  then show ?case
    by (cases x) (auto intro!: keeps_andalso [OF persist_order_id_keeps] keeps_andalso [OF keeps_when [OF ongoing_storeless]])
qed simp

lemma submit_keeps: "keeps (ongoing w s0 (lr_client_order_id r)) (submit w entry r v)"
  unfolding submit_def by (intro keeps_andalso run_calls_keeps keeps_basic)

subsection \<open>Pausing\<close>

lemma risk_pause_paused: "hoare (\<lambda>_. True) (risk_pause reason w) (\<lambda>_ s. paused s) (\<lambda>_ _. True)"
  by (auto simp: hoare_def risk_pause_def andthen_def ret_def controlled_def pause_def finish_def persist_external_def persist_def
      set_state_def Let_def paused_def cancel_active_orders_and_clear_pending_def split: option.splits sum.splits if_splits)

text \<open>\<open>settled\<close>: the intent has the status, and an unknown outcome has paused the controller.\<close>

definition settled :: "'y router_scheme \<Rightarrow> string \<Rightarrow> order_intent_status \<Rightarrow> 'z router_scheme \<Rightarrow> bool" where
  "settled s0 cid st s \<longleftrightarrow> others s0 cid s \<and> intent_of s cid = Some st \<and> (st = OI_UNKNOWN \<longrightarrow> paused s)"

lemma hoare_storeless: "storeless m \<Longrightarrow> on_stores I \<Longrightarrow> hoare I m (\<lambda>_. I) (\<lambda>_. I)"
  using storeless_keeps keeps_hoare by blast

lemma hoare_storeless_weak:
  "storeless m \<Longrightarrow> on_stores I \<Longrightarrow> (\<And>e s. I s \<Longrightarrow> E e s) \<Longrightarrow> hoare I m (\<lambda>_. I) E"
  by (rule hoare_weaken [OF hoare_storeless])

lemma pause_unknown_settled:
  "hoare (\<lambda>s. others s0 cid s \<and> intent_of s cid = Some st) (pause_unknown w r st) (\<lambda>_. settled s0 cid st)
     (\<lambda>_. ongoing w s0 cid)"
proof (cases "st = OI_UNKNOWN")
  case True
  have "hoare (\<lambda>s. (others s0 cid s \<and> intent_of s cid = Some st) \<and> True) (pause_unknown w r st)
      (\<lambda>_ s. (others s0 cid s \<and> intent_of s cid = Some st) \<and> paused s)
      (\<lambda>_ s. (others s0 cid s \<and> intent_of s cid = Some st) \<and> True)"
    by (rule hoare_conj [OF hoare_storeless]) (use True risk_pause_paused in \<open>auto simp: pause_unknown_def when_do_def\<close>)
  then show ?thesis
    by (rule hoare_weaken) (auto simp: settled_def ongoing_def live_def True)
next
  case False
  then show ?thesis
    by (auto simp: hoare_def pause_unknown_def when_do_def ret_def settled_def)
qed

lemma settled_cases: "settled s0 cid st s \<Longrightarrow> st \<notin> {OI_FILLED, OI_CANCELLED} \<Longrightarrow> ongoing w s0 cid s"
  by (auto simp: settled_def ongoing_def live_def)

lemma stamped_status [simp]: "intent_status_from_report (stamped cid oid rep) = intent_status_from_report rep"
  by (simp add: stamped_def intent_status_from_report_def is_filled_def has_fill_def)

lemma keepsD: "keeps I m \<Longrightarrow> hoare I m (\<lambda>_. I) (\<lambda>_. I)"
  by (simp add: keeps_hoare)

lemma hoare_if_same: "hoare P m Q E \<Longrightarrow> hoare P m' Q E \<Longrightarrow> hoare P (if c then m else m') Q E"
  by simp

lemma hoare_ret': "(\<And>s. P s \<Longrightarrow> Q x s) \<Longrightarrow> hoare P (ret x) Q E"
  by (simp add: hoare_def ret_def)

lemma hoare_raise': "(\<And>s. P s \<Longrightarrow> E e s) \<Longrightarrow> hoare P (raise e) Q E"
  by (simp add: hoare_def raise_def)

lemma hoare_gets_same: "hoare P (gets f) (\<lambda>_. P) E"
  by (simp add: hoare_def gets_def)

text \<open>The final update and the pause that follows it.\<close>

lemma final_status_settled:
  assumes "\<And>s. settled s0 cid st s \<Longrightarrow> Q x s"
  shows "hoare (ongoing w s0 cid) (andalso (set_intent w cid st vid err) (andalso (pause_unknown w r st) (ret x))) Q
     (\<lambda>_. ongoing w s0 cid)"
  by (rule hoare_andalso [OF hoare_andalso [OF hoare_ret' pause_unknown_settled] set_intent_ongoing]) (rule assms)

lemma acknowledged_report_settled:
  "hoare (ongoing w s0 (lr_client_order_id r)) (acknowledged_report w entry r v)
     (\<lambda>rep. settled s0 (lr_client_order_id r) (intent_status_from_report rep)) (\<lambda>_. ongoing w s0 (lr_client_order_id r))"
  unfolding acknowledged_report_def
  by (intro hoare_andthen [OF _ keepsD [OF submit_keeps]] hoare_andthen [OF _ keepsD [OF keeps_basic(3)]] hoare_if_same
      hoare_andalso [OF _ keepsD [OF ongoing_storeless]] hoare_andalso [OF _ keepsD [OF set_intent_keeps]]
      hoare_andthen [OF _ keepsD [OF keeps_basic(4)]] hoare_andthen [OF _ keepsD [OF keeps_if]]
      final_status_settled hoare_raise' keeps_basic ongoing_storeless storeless_local storeless_reconcile) simp_all

subsection \<open>Entry legs\<close>

text \<open>How the status of the intent follows from the result of a leg.\<close>

definition explained :: "order_intent_status \<Rightarrow> leg_result \<Rightarrow> bool" where
  "explained st x \<longleftrightarrow> (case lg_error x of
     Some (Submission_Rejected _ _) \<Rightarrow> st = OI_CANCELLED
   | _ \<Rightarrow> (case lg_report x of Some rep \<Rightarrow> st = intent_status_from_report rep | None \<Rightarrow> st = OI_UNKNOWN))"

definition leg_done :: "'y router_scheme \<Rightarrow> string \<Rightarrow> leg_result \<Rightarrow> 'z router_scheme \<Rightarrow> bool" where
  "leg_done s0 cid x s \<longleftrightarrow> (\<exists>st. settled s0 cid st s \<and> explained st x)"

lemma reject_done:
  "hoare (ongoing w s0 (lr_client_order_id r)) (reject_before_venue_submit w r reason)
     (leg_done s0 (lr_client_order_id r)) (\<lambda>_. ongoing w s0 (lr_client_order_id r))"
  unfolding reject_before_venue_submit_def
  by (intro hoare_andthen [OF _ keepsD [OF keeps_basic(3)]] hoare_andalso [OF _ set_intent_ongoing] hoare_ret')
    (auto simp: leg_done_def settled_def explained_def rejected_result_def)

lemma debit_fill_settled:
  assumes "venue_fee_pct c (lr_venue r) (lr_market r) = Inr fee"
  shows "hoare (settled s0 cid st) (debit_fill c r rep) (\<lambda>_. settled s0 cid st) E"
  using assms by (auto simp: hoare_def debit_fill_def of_res_def debit_reported_fill_def act_defs settled_def others_def intent_of_def
      paused_def)

lemma persist_balances_settled:
  "hoare (settled s0 cid st) (persist_runtime_balance_state w) (\<lambda>_. settled s0 cid st) (\<lambda>_. ongoing w s0 cid)"
  by (auto simp: hoare_def persist_runtime_balance_state_def db_do_def settled_def others_def intent_of_def ongoing_def
      live_def paused_def split: option.splits)

lemma entry_body_done:
  assumes "venue_fee_pct c (lr_venue r) (lr_market r) = Inr fee"
  shows "hoare (ongoing w s0 (lr_client_order_id r)) (entry_body w c r v)
     (leg_done s0 (lr_client_order_id r)) (\<lambda>_. ongoing w s0 (lr_client_order_id r))"
  unfolding entry_body_def
  by (intro hoare_andthen [OF _ keepsD [OF ongoing_storeless [OF storeless_canary_guard]]] hoare_if_same hoare_raise' reject_done
      hoare_andthen [OF _ keepsD [OF ongoing_storeless [OF storeless_query(2)]]]
      hoare_andthen [OF _ acknowledged_report_settled] hoare_andalso [OF _ debit_fill_settled [OF assms]]
      hoare_andalso [OF _ persist_balances_settled] hoare_andthen [OF hoare_ret' hoare_gets_same])
    (auto simp: leg_done_def explained_def)

lemma andalso_ret: "andalso (ret ()) m = m"
  by (simp add: andalso_def)

lemma explained_after_error: "explained (status_after_error e rep) \<lparr>lg_order_id = oid, lg_report = rep, lg_error = Some e\<rparr>"
  by (auto simp: explained_def status_after_error_def is_rejection_def split: leg_error.split option.split)

lemma entry_failed_done:
  "hoare (ongoing w s0 (lr_client_order_id r)) (entry_failed w c r v e)
     (leg_done s0 (lr_client_order_id r)) (\<lambda>_. ongoing w s0 (lr_client_order_id r))"
proof -
  have noted: "keeps (ongoing w s0 (lr_client_order_id r))
      (case rep of Some x \<Rightarrow> andalso (debit_fill c r x) (persist_runtime_balance_state w) | None \<Rightarrow> ret ())" for rep
    by (cases rep) (simp_all add: keeps_andalso persist_balances_ongoing ongoing_storeless storeless_debit)
  have final: "hoare (ongoing w s0 (lr_client_order_id r))
      (andalso (set_intent w (lr_client_order_id r) (status_after_error e rep) (known_id oid) (Some (error_text e)))
       (andalso (pause_unknown w r (status_after_error e rep))
       (ret \<lparr>lg_order_id = oid, lg_report = rep, lg_error = Some e\<rparr>)))
      (leg_done s0 (lr_client_order_id r)) (\<lambda>_. ongoing w s0 (lr_client_order_id r))" for rep oid
    by (rule final_status_settled) (use explained_after_error in \<open>auto simp: leg_done_def\<close>)
  show ?thesis
    unfolding entry_failed_def
    by (intro hoare_andthen [OF _ hoare_gets_same] hoare_andthen [OF _ keepsD [OF ongoing_storeless [OF storeless_reconciled(1)]]]
        hoare_andalso [OF _ keepsD [OF ongoing_storeless [OF stores.conditional [OF storeless_pause]]]]
        hoare_andalso [OF _ keepsD [OF ongoing_storeless [OF storeless_learn]]]
        hoare_andalso [OF _ keepsD [OF noted]] final)
qed

lemma leg_cancelled_ongoing:
  "hoare (ongoing w s0 (lr_client_order_id r)) (leg_cancelled w r reason) Q (\<lambda>_. ongoing w s0 (lr_client_order_id r))"
  unfolding leg_cancelled_def
  by (intro hoare_andthen [OF _ keepsD [OF keeps_basic(3)]] hoare_andalso [OF _ keepsD [OF set_intent_keeps]] hoare_raise') simp_all

lemma forget_active_stores [simp]:
  "rt_db (forget_active r s) = rt_db s" "rt_book (forget_active r s) = rt_book s" "rt_risk (forget_active r s) = rt_risk s"
  by (simp_all add: forget_active_def)

lemma forget_active_views [simp]:
  "others s0 cid (forget_active r s) = others s0 cid s" "intent_of (forget_active r s) cid = intent_of s cid"
  "paused (forget_active r s) = paused s" "settled s0 cid st (forget_active r s) = settled s0 cid st s"
  by (simp_all add: others_def intent_of_def paused_def settled_def)

lemma forget_active_facts [simp]:
  "ongoing w s0 cid (forget_active r s) = ongoing w s0 cid s" "leg_done s0 cid x (forget_active r s) = leg_done s0 cid x s"
  by (simp_all add: ongoing_def others_def live_def intent_of_def leg_done_def settled_def paused_def)

lemma entry_guarded_done:
  assumes "venue_fee_pct c (lr_venue r) (lr_market r) = Inr fee"
  shows "hoare (ongoing w s0 (lr_client_order_id r)) (entry_guarded w c r v)
     (leg_done s0 (lr_client_order_id r)) (\<lambda>_. ongoing w s0 (lr_client_order_id r))"
  unfolding entry_guarded_def
  by (rule hoare_finally, simp, rule hoare_catch [OF hoare_if_same entry_body_done [OF assms]])
    (rule leg_cancelled_ongoing entry_failed_done)+

definition refused_early :: "string \<Rightarrow> leg_result \<Rightarrow> 'z router_scheme \<Rightarrow> bool" where
  "refused_early cid x s \<longleftrightarrow> intent_of s cid = None \<and>
     lg_error x = Some (Submission_Rejected ''funded canary entry deadline elapsed'' None)"

lemma entry_leg_done:
  assumes "venue_fee_pct c (lr_venue r) (lr_market r) = Inr fee" and "cid = lr_client_order_id r"
  shows "hoare (\<lambda>s. others s0 cid s \<and> intent_of s cid = None) (entry_leg w c r v)
     (\<lambda>x s. others s0 cid s \<and> (leg_done s0 cid x s \<or> refused_early cid x s))
     (\<lambda>_ s. others s0 cid s \<and> (intent_of s cid = None \<or> ongoing w s0 cid s))"
proof -
  have body: "hoare (ongoing w s0 cid) m (leg_done s0 cid) (\<lambda>_. ongoing w s0 cid) \<Longrightarrow>
      hoare (ongoing w s0 cid) m (\<lambda>x s. others s0 cid s \<and> (leg_done s0 cid x s \<or> refused_early cid x s))
        (\<lambda>_ s. others s0 cid s \<and> (intent_of s cid = None \<or> ongoing w s0 cid s))" for m :: "leg_result leg_act"
    by (erule hoare_weaken) (auto simp: leg_done_def settled_def ongoing_def)
  have inner: "hoare (ongoing w s0 cid)
      (andthen (entry_runtime_ready w) (\<lambda>ready.
       if \<not> ready then reject_before_venue_submit w r ''entry readiness lost after durable intent creation''
       else andalso (set_intent w (lr_client_order_id r) SUBMITTING None None)
        (andthen (entry_runtime_ready w) (\<lambda>ready.
         if \<not> ready then reject_before_venue_submit w r ''entry readiness lost before venue submission''
         else entry_guarded w c r v)))) (leg_done s0 cid) (\<lambda>_. ongoing w s0 cid)"
    unfolding assms(2)
    by (intro hoare_andthen [OF _ keepsD [OF ongoing_storeless [OF storeless_query(2)]]] hoare_if_same reject_done
        hoare_andalso [OF _ keepsD [OF set_intent_keeps]] entry_guarded_done [OF assms(1)]) simp
  have early: "hoare (\<lambda>s. others s0 cid s \<and> intent_of s cid = None)
      (ret (rejected_result NO_ORDER r ''funded canary entry deadline elapsed''))
      (\<lambda>x s. others s0 cid s \<and> (leg_done s0 cid x s \<or> refused_early cid x s))
      (\<lambda>_ s. others s0 cid s \<and> (intent_of s cid = None \<or> ongoing w s0 cid s))"
    by (rule hoare_ret') (simp add: refused_early_def rejected_result_def)
  have create: "hoare (\<lambda>s. others s0 cid s \<and> intent_of s cid = None) (create_intent w ''BUY'' r) (\<lambda>_. ongoing w s0 cid)
      (\<lambda>_ s. others s0 cid s \<and> (intent_of s cid = None \<or> ongoing w s0 cid s))"
    unfolding assms(2) by (rule hoare_weaken [OF create_intent_ongoing]) auto
  show ?thesis
    unfolding entry_leg_def
    by (rule hoare_andthen [OF hoare_if_same [OF early hoare_andalso [OF body [OF inner] create]]
        hoare_storeless_weak [OF storeless_canary_guard]]) simp_all
qed

subsection \<open>Exit legs\<close>

text \<open>A residual exposure pauses the controller and, while the database works, sends the intent to manual review.\<close>

definition exit_done :: "world \<Rightarrow> 'y router_scheme \<Rightarrow> string \<Rightarrow> leg_result \<Rightarrow> 'z router_scheme \<Rightarrow> bool" where
  "exit_done w s0 cid x s \<longleftrightarrow> (case lg_error x of
     Some (Residual_Exposure _ _) \<Rightarrow> others s0 cid s \<and> paused s \<and>
       ((\<forall>n. w_db w n = None) \<longrightarrow> intent_of s cid = Some OI_MANUAL_REVIEW)
   | _ \<Rightarrow> (\<exists>st. settled s0 cid st s \<and>
       (case lg_report x of Some rep \<Rightarrow> st = intent_status_from_report rep | None \<Rightarrow> st = OI_UNKNOWN)))"

lemma best_effort_review:
  "hoare (ongoing w s0 cid) (best_effort (set_intent w cid OI_MANUAL_REVIEW vid err))
     (\<lambda>_ s. ongoing w s0 cid s \<and> ((\<forall>n. w_db w n = None) \<longrightarrow> intent_of s cid = Some OI_MANUAL_REVIEW)) (\<lambda>_. ongoing w s0 cid)"
  by (auto simp: hoare_def best_effort_def catch_def set_intent_def db_do_def update_order_intent_def ongoing_def others_def
      live_def intent_of_def dict_get_set ret_def raise_def failure_of_def split: option.splits py_error.splits)

lemma pause_residual_paused:
  assumes "on_stores I" and "\<And>s. I s \<Longrightarrow> ongoing w s0 cid s"
  shows "hoare I (pause_residual w r) (\<lambda>_ s. I s \<and> paused s) (\<lambda>_. ongoing w s0 cid)"
proof -
  have "hoare (\<lambda>s. I s \<and> True) (pause_residual w r) (\<lambda>_ s. I s \<and> paused s) (\<lambda>_ s. I s \<and> True)"
    by (rule hoare_conj [OF hoare_storeless]) (use assms(1) risk_pause_paused in \<open>auto simp: pause_residual_def\<close>)
  then show ?thesis by (rule hoare_weaken) (use assms(2) in auto)
qed

lemma reviewed_on_stores: "on_stores (\<lambda>s. ongoing w s0 cid s \<and> ((\<forall>n. w_db w n = None) \<longrightarrow> intent_of s cid = Some OI_MANUAL_REVIEW))"
  by (auto simp: on_stores_def same_stores_def ongoing_def others_def live_def intent_of_def)

lemmas review_then_pause = hoare_andalso [OF hoare_andalso [OF hoare_ret' pause_residual_paused [OF reviewed_on_stores]] best_effort_review]

lemma exit_residual_done:
  "hoare (ongoing w s0 (lr_client_order_id r)) (exit_residual w r rep (Residual_Exposure rep n))
     (exit_done w s0 (lr_client_order_id r)) (\<lambda>_. ongoing w s0 (lr_client_order_id r))"
  unfolding exit_residual_def
  by (rule hoare_andalso [OF review_then_pause keepsD [OF ongoing_storeless [OF storeless_local(2)]]])
    (auto simp: exit_done_def ongoing_def)

lemma hoare_pair: "(\<And>a b. hoare P (f a b) Q E) \<Longrightarrow> hoare P (case x of (a, b) \<Rightarrow> f a b) Q E"
  by (cases x) simp

lemma exit_failed_done:
  "hoare (ongoing w s0 (lr_client_order_id r)) (exit_failed w r v e)
     (exit_done w s0 (lr_client_order_id r)) (\<lambda>_. ongoing w s0 (lr_client_order_id r))"
proof -
  have final: "hoare (ongoing w s0 (lr_client_order_id r))
      (andalso ((if is_residual err then best_effort else (\<lambda>m. m))
         (set_intent w (lr_client_order_id r) (exit_status err rep) (known_id oid) (Some (error_text err))))
       (andalso (pause_unknown w r (exit_status err rep))
       (andalso (when_do (is_residual err) (pause_residual w r))
       (ret \<lparr>lg_order_id = oid, lg_report = rep, lg_error = Some err\<rparr>))))
      (exit_done w s0 (lr_client_order_id r)) (\<lambda>_. ongoing w s0 (lr_client_order_id r))" for rep err oid
  proof (cases "is_residual err")
    case True
    then have st: "exit_status err rep = OI_MANUAL_REVIEW" by (simp add: exit_status_def)
    show ?thesis
      unfolding st pause_unknown_def when_do_def using True
      by (simp add: andalso_ret) (rule review_then_pause,
        auto simp: exit_done_def ongoing_def is_residual_def split: leg_error.splits)
  next
    case False
    show ?thesis
      using False
      by (simp add: when_do_def andalso_ret) (rule final_status_settled,
        auto simp: exit_done_def is_residual_def exit_status_def split: leg_error.splits option.splits)
  qed
  show ?thesis
    unfolding exit_failed_def
    by (intro hoare_andthen [OF _ keepsD [OF ongoing_storeless [OF storeless_reconciled(2)]]]
        hoare_andalso [OF _ keepsD [OF ongoing_storeless [OF storeless_learn]]] hoare_pair hoare_andthen [OF _ hoare_gets_same] final)
qed

lemma exit_guarded_done:
  "hoare (ongoing w s0 (lr_client_order_id r)) (exit_guarded w r v)
     (exit_done w s0 (lr_client_order_id r)) (\<lambda>_. ongoing w s0 (lr_client_order_id r))"
proof -
  have forget: "exit_done w s0 cid x (forget_active r s) = exit_done w s0 cid x s" for cid x s
    unfolding exit_done_def forget_active_views ..
  have body: "hoare (ongoing w s0 (lr_client_order_id r))
      (andthen (acknowledged_report w False r v) (\<lambda>rep. andthen (gets ls_order_id) (\<lambda>oid.
        ret \<lparr>lg_order_id = oid, lg_report = Some rep, lg_error = None\<rparr>)))
      (exit_done w s0 (lr_client_order_id r)) (\<lambda>_. ongoing w s0 (lr_client_order_id r))"
    by (intro hoare_andthen [OF _ acknowledged_report_settled] hoare_andthen [OF hoare_ret' hoare_gets_same])
      (auto simp: exit_done_def)
  show ?thesis
    unfolding exit_guarded_def
  proof (rule hoare_finally, unfold forget forget_active_facts, rule hoare_catch [OF _ body])
    fix e
    show "hoare (ongoing w s0 (lr_client_order_id r))
      (case e of Residual_Exposure rep n \<Rightarrow> exit_residual w r rep e
       | Cancelled \<Rightarrow> leg_cancelled w r ''exit submission cancelled during shutdown'' | _ \<Rightarrow> exit_failed w r v e)
      (exit_done w s0 (lr_client_order_id r)) (\<lambda>_. ongoing w s0 (lr_client_order_id r))"
      by (cases e) (simp_all add: exit_residual_done leg_cancelled_ongoing exit_failed_done)
  qed
qed

lemma exit_leg_done:
  assumes "cid = lr_client_order_id r"
  shows "hoare (\<lambda>s. others s0 cid s \<and> intent_of s cid = None) (exit_leg w False r v)
     (\<lambda>x s. others s0 cid s \<and> exit_done w s0 cid x s)
     (\<lambda>_ s. others s0 cid s \<and> (intent_of s cid = None \<or> ongoing w s0 cid s))"
proof -
  have inner: "hoare (ongoing w s0 cid) (andalso (set_intent w cid SUBMITTING None None) (exit_guarded w r v))
      (\<lambda>x s. others s0 cid s \<and> exit_done w s0 cid x s)
      (\<lambda>_ s. others s0 cid s \<and> (intent_of s cid = None \<or> ongoing w s0 cid s))"
    unfolding assms
    by (rule hoare_weaken [OF hoare_andalso [OF exit_guarded_done keepsD [OF set_intent_keeps]]])
      (auto simp: exit_done_def settled_def ongoing_def split: option.splits leg_error.splits)
  have create: "hoare (\<lambda>s. others s0 cid s \<and> intent_of s cid = None) (create_intent w ''SELL'' r) (\<lambda>_. ongoing w s0 cid)
      (\<lambda>_ s. others s0 cid s \<and> (intent_of s cid = None \<or> ongoing w s0 cid s))"
    unfolding assms by (rule hoare_weaken [OF create_intent_ongoing]) auto
  show ?thesis
    unfolding exit_leg_def using hoare_andalso [OF inner create] assms by simp
qed

text \<open>A leg that ends without an error heard none from the submission and none from the first wait.\<close>

lemma hoare_heard: "hoare (\<lambda>_. A) m (\<lambda>_ _. A) (\<lambda>_ _. True)"
  by (auto simp: hoare_def split: prod.splits sum.splits)

lemma hoare_answered: "(\<And>x. r = Inr x \<Longrightarrow> A \<Longrightarrow> B) \<Longrightarrow> hoare (\<lambda>_. A) (of_result r) (\<lambda>_ _. B) (\<lambda>_ _. True)"
  by (auto simp: hoare_def of_result_def ret_def raise_def split: sum.splits)

definition heard_no_error :: "venue_script \<Rightarrow> bool" where
  "heard_no_error v \<longleftrightarrow> (\<exists>oid. vs_result v = Inr oid) \<and> (\<exists>rep. vs_wait v = Inr rep)"

lemma acknowledged_report_heard:
  "hoare (\<lambda>_. True) (acknowledged_report w entry r v) (\<lambda>_ _. heard_no_error v) (\<lambda>_ _. True)"
proof -
  let ?A = "\<exists>oid. vs_result v = Inr oid"
  have submitted: "hoare (\<lambda>_. True) (submit w entry r v) (\<lambda>_ _. ?A) (\<lambda>_ _. True)"
    unfolding submit_def by (rule hoare_andalso [OF hoare_answered hoare_heard]) blast
  have waited: "hoare (\<lambda>_. ?A) (andthen (of_result (vs_wait v)) f) (\<lambda>_ _. heard_no_error v) (\<lambda>_ _. True)"
    for f :: "execution_report \<Rightarrow> execution_report leg_act"
    by (rule hoare_andthen [OF hoare_heard hoare_answered]) (simp add: heard_no_error_def)
  show ?thesis
    unfolding acknowledged_report_def
    by (rule hoare_andthen [OF _ submitted], rule hoare_andthen [OF _ hoare_heard], rule hoare_if_same)
      (rule hoare_raise', simp, intro hoare_andalso [OF _ hoare_heard] waited)
qed

definition exit_heard :: "venue_script \<Rightarrow> leg_result \<Rightarrow> bool" where
  "exit_heard v x \<longleftrightarrow> (lg_error x = None \<longrightarrow> heard_no_error v)"

lemma exit_failed_heard: "hoare (\<lambda>_. True) (exit_failed w r v e) (\<lambda>x _. exit_heard v x) (\<lambda>_ _. True)"
  unfolding exit_failed_def
  by (intro hoare_andalso [OF _ hoare_heard] hoare_andthen [OF _ hoare_heard] hoare_pair hoare_ret') (simp add: exit_heard_def)

lemma exit_leg_heard: "hoare (\<lambda>_. True) (exit_leg w False r v) (\<lambda>x _. exit_heard v x) (\<lambda>_ _. True)"
proof -
  have body: "hoare (\<lambda>_. True) (andthen (acknowledged_report w False r v) (\<lambda>rep. andthen (gets ls_order_id) (\<lambda>oid.
        ret \<lparr>lg_order_id = oid, lg_report = Some rep, lg_error = None\<rparr>))) (\<lambda>x _. exit_heard v x) (\<lambda>_ _. True)"
    by (rule hoare_andthen [OF hoare_andthen [OF hoare_ret' hoare_heard] acknowledged_report_heard]) (simp add: exit_heard_def)
  have residual: "hoare (\<lambda>_. True) (exit_residual w r rep e) (\<lambda>x _. exit_heard v x) (\<lambda>_ _. True)" for rep e
    unfolding exit_residual_def by (intro hoare_andalso [OF _ hoare_heard] hoare_ret') (simp add: exit_heard_def)
  have cancelled: "hoare (\<lambda>_. True) (leg_cancelled w r reason) (\<lambda>x _. exit_heard v x) (\<lambda>_ _. True)" for reason
    unfolding leg_cancelled_def by (intro hoare_andthen [OF _ hoare_heard] hoare_andalso [OF _ hoare_heard] hoare_raise') simp
  have "hoare (\<lambda>_. True) (exit_guarded w r v) (\<lambda>x _. exit_heard v x) (\<lambda>_ _. True)"
    unfolding exit_guarded_def
  proof (rule hoare_finally, rule hoare_catch [OF _ body])
    fix e
    show "hoare (\<lambda>_. True) (case e of Residual_Exposure rep n \<Rightarrow> exit_residual w r rep e
       | Cancelled \<Rightarrow> leg_cancelled w r ''exit submission cancelled during shutdown'' | _ \<Rightarrow> exit_failed w r v e)
      (\<lambda>x _. exit_heard v x) (\<lambda>_ _. True)"
      by (cases e) (simp_all add: residual cancelled exit_failed_heard)
  qed
  then show ?thesis
    unfolding exit_leg_def by (simp add: hoare_andalso [OF hoare_andalso [OF _ hoare_heard] hoare_heard])
qed

subsection \<open>The locals go out of scope\<close>

lemma local_scope [simp]:
  "rt_db (router.extend s f) = rt_db s" "rt_book (router.extend s f) = rt_book s" "rt_risk (router.extend s f) = rt_risk s"
  "rt_db (router.truncate t) = rt_db t" "rt_book (router.truncate t) = rt_book t" "rt_risk (router.truncate t) = rt_risk t"
  by (simp_all add: router.defs)

lemma with_locals_result:
  assumes "with_locals m s = (x, s')"
  obtains t where "m (router.extend s (leg_state.fields NO_ORDER False)) = (x, t)" "s' = router.truncate t"
  using assms by (auto simp: with_locals_def split: prod.splits)

section \<open>A sample router\<close>

definition sample_world :: world where
  "sample_world = \<lparr>w_now = (\<lambda>_. Aware 0), w_clock = (\<lambda>_. 0), w_ready = (\<lambda>_. True), w_db = (\<lambda>_. None),
     w_saved = (\<lambda>_. True), w_today = (\<lambda>_. 0), w_deadline = None\<rparr>"

definition sample_router :: router where
  "sample_router = \<lparr>rt_db = empty_repository, rt_book = [], rt_risk = sample_controller,
     rt_bal = sample_balances, rt_active = [], rt_pending = [], rt_api_errors = 0, rt_tick = 0\<rparr>"

definition sample_leg :: leg_request where
  "sample_leg = \<lparr>lr_client_order_id = ''c1'', lr_route = ''polymarket_predict'', lr_market = sample_market,
     lr_venue = ''Polymarket'', lr_token_id = ''t'', lr_side = YES, lr_contracts = 10, lr_price = 1 / 2, lr_capital = 5,
     lr_persists_first = True\<rparr>"

definition sample_report :: execution_report where
  "sample_report = \<lparr>er_order_id = ''o1'', er_status = ES_FILLED, er_amount_requested = 10, er_amount_filled = 10,
     er_remaining_amount = 0, er_avg_price = 0, er_client_order_id = None, er_venue_order_id = Some ''o1'',
     er_cumulative_filled = Some 10\<rparr>"

definition sample_script :: venue_script where
  "sample_script = \<lparr>vs_calls = [Persist_Id ''o1'', Check_Transport], vs_result = Inr ''o1'', vs_wait = Inr sample_report,
     vs_cancel_wait = Inl (Other_Failure ''timeout'' None), vs_rewait = Inl (Other_Failure ''timeout'' None)\<rparr>"

lemma sample_entry_filled:
  "(case submit_entry_leg sample_world sample_config sample_leg sample_script sample_router of
     (Inr x, s') \<Rightarrow> lg_error x = None \<and> intent_of s' ''c1'' = Some OI_FILLED | _ \<Rightarrow> False)"
  by code_simp

text \<open>
  What the code gets wrong here: a residual exposure that the second wait reports is dropped, and
  two failures of the telemetry write make a filled order look as if it had never been submitted.
\<close>

lemma residual_dropped_by_reconcile:
  "cancel_and_reconcile (v\<lparr>vs_cancel_wait := Inl (Residual_Exposure rep n)\<rparr>) previous = ret previous"
  by (simp add: cancel_and_reconcile_def)

lemma filled_order_forgotten:
  "(case submit_entry_leg (sample_world\<lparr>w_db := (\<lambda>n. if n \<in> {14, 15} then Some (Other_Failure ''database'' None) else None)\<rparr>)
      sample_config sample_leg (sample_script\<lparr>vs_rewait := Inr sample_report\<rparr>) sample_router of
     (Inl e, s') \<Rightarrow> normalize_result (Inl e) s' = (Inr \<lparr>lg_order_id = NO_ORDER, lg_report = None, lg_error = Some e\<rparr>, s') \<and>
       intent_of s' ''c1'' = Some OI_FILLED \<and> \<not> paused s' | _ \<Rightarrow> False)"
  by code_simp

section \<open>Properties\<close>

text \<open>C23. An entry leg leaves no order in doubt: when it returns, its intent was never written (the canary window had
  closed), or its status is what the returned report says, cancelled if the venue rejected it, and an
  unknown outcome has paused the controller; when it raises with a working database, the intent is not
  resolved. No other intent and no position changes.\<close>

theorem entry_leg_resolved_or_paused:
  assumes "submit_entry_leg w c r v s = (res, s')" and "dict_get (db_intents (rt_db s)) (lr_client_order_id r) = None"
    and "venue_fee_pct c (lr_venue r) (lr_market r) = Inr fee"
  shows "(k \<noteq> lr_client_order_id r \<longrightarrow> dict_get (db_intents (rt_db s')) k = dict_get (db_intents (rt_db s)) k) \<and>
    rt_book s' = rt_book s \<and>
    (case res of
       Inr x \<Rightarrow> (intent_of s' (lr_client_order_id r) = None \<and>
           lg_error x = Some (Submission_Rejected ''funded canary entry deadline elapsed'' None)) \<or>
         (\<exists>st. intent_of s' (lr_client_order_id r) = Some st \<and> (st = OI_UNKNOWN \<longrightarrow> paused s') \<and>
            (case lg_error x of
               Some (Submission_Rejected _ _) \<Rightarrow> st = OI_CANCELLED
             | _ \<Rightarrow> (case lg_report x of Some rep \<Rightarrow> st = intent_status_from_report rep | None \<Rightarrow> st = OI_UNKNOWN)))
     | Inl e \<Rightarrow> (\<forall>n. w_db w n = None) \<longrightarrow> intent_of s' (lr_client_order_id r) \<notin> {Some OI_FILLED, Some OI_CANCELLED})"
proof -
  let ?cid = "lr_client_order_id r" and ?s = "router.extend s (leg_state.fields NO_ORDER False)"
  obtain t where t: "entry_leg w c r v ?s = (res, t)" "s' = router.truncate t"
    using assms(1) by (auto simp: submit_entry_leg_def elim: with_locals_result)
  have start: "others s ?cid ?s \<and> intent_of ?s ?cid = None"
    using assms(2) by (simp add: others_def intent_of_def)
  note leg = entry_leg_done [OF assms(3) refl, of s w v]
  have moved: "rt_db t = rt_db s'" "rt_book t = rt_book s'" "others s ?cid t = others s ?cid s'" "intent_of t ?cid = intent_of s' ?cid" "paused t = paused s'"
    by (simp_all add: t(2) others_def intent_of_def paused_def)
  show ?thesis
  proof (cases res)
    case (Inl e)
    from hoareD_raise [OF leg start t(1) [unfolded Inl]] show ?thesis
      by (auto simp: Inl moved others_def ongoing_def live_def)
  next
    case (Inr x)
    from hoareD_return [OF leg start t(1) [unfolded Inr]]
    have "others s ?cid s'" and "leg_done s ?cid x t \<or> refused_early ?cid x t" by (simp_all add: moved)
    then show ?thesis
      by (auto simp: Inr moved others_def leg_done_def settled_def explained_def refused_early_def)
  qed
qed

theorem entry_leg_resolved_or_paused_witness:
  "intent_of (snd (submit_entry_leg sample_world sample_config sample_leg sample_script sample_router)) ''c1'' = Some OI_FILLED \<and>
   rt_book (snd (submit_entry_leg sample_world sample_config sample_leg sample_script sample_router)) = []"
proof -
  obtain x s' where x: "submit_entry_leg sample_world sample_config sample_leg sample_script sample_router = (Inr x, s')"
    and filled: "intent_of s' ''c1'' = Some OI_FILLED"
    using sample_entry_filled by (auto split: prod.splits sum.splits)
  have fee: "venue_fee_pct sample_config (lr_venue sample_leg) (lr_market sample_leg) = Inr 0"
    by (simp add: venue_fee_pct_def sample_config_def sample_leg_def)
  have "rt_book s' = rt_book sample_router"
    using entry_leg_resolved_or_paused [OF x _ fee] by (simp add: sample_router_def empty_repository_def dict_get_def)
  then show ?thesis by (simp add: x filled) (simp add: sample_router_def)
qed

text \<open>C24. An exit leg that reports an exposure leaves it under review: when it returns with a residual
  opposite exposure as its error, the controller is paused and, with a working database, the intent
  is in manual review; otherwise the status is what the returned report says, unknown without a
  report, and an unknown outcome has paused the controller. A leg that returns without an error heard
  no exposure from the submission nor from the wait after it; only the wait after a cancellation can
  report one that is dropped (\<open>residual_dropped_by_reconcile\<close>). When the leg raises with a working database, the
  intent is not resolved. No position changes.\<close>

theorem exit_leg_reviewed_or_paused:
  assumes "submit_exit_leg w False r v s = (res, s')" and "dict_get (db_intents (rt_db s)) (lr_client_order_id r) = None"
  shows "db_positions (rt_db s') = db_positions (rt_db s) \<and> rt_book s' = rt_book s \<and>
    (case res of
       Inr x \<Rightarrow> (case lg_error x of
           Some (Residual_Exposure _ _) \<Rightarrow> paused s' \<and>
             ((\<forall>n. w_db w n = None) \<longrightarrow> intent_of s' (lr_client_order_id r) = Some OI_MANUAL_REVIEW)
         | _ \<Rightarrow> \<exists>st. intent_of s' (lr_client_order_id r) = Some st \<and> (st = OI_UNKNOWN \<longrightarrow> paused s') \<and>
             (case lg_report x of Some rep \<Rightarrow> st = intent_status_from_report rep | None \<Rightarrow> st = OI_UNKNOWN)) \<and>
         (lg_error x = None \<longrightarrow> (\<exists>oid. vs_result v = Inr oid) \<and> (\<exists>rep. vs_wait v = Inr rep))
     | Inl e \<Rightarrow> (\<forall>n. w_db w n = None) \<longrightarrow> intent_of s' (lr_client_order_id r) \<notin> {Some OI_FILLED, Some OI_CANCELLED})"
proof -
  let ?cid = "lr_client_order_id r" and ?s = "router.extend s (leg_state.fields NO_ORDER False)"
  obtain t where t: "exit_leg w False r v ?s = (res, t)" "s' = router.truncate t"
    using assms(1) by (auto simp: submit_exit_leg_def elim: with_locals_result)
  have start: "others s ?cid ?s \<and> intent_of ?s ?cid = None"
    using assms(2) by (simp add: others_def intent_of_def)
  note leg = exit_leg_done [OF refl, of s r w v]
  have moved: "rt_db t = rt_db s'" "rt_book t = rt_book s'" "intent_of t ?cid = intent_of s' ?cid" "paused t = paused s'"
    by (simp_all add: t(2) intent_of_def paused_def)
  show ?thesis
  proof (cases res)
    case (Inl e)
    from hoareD_raise [OF leg start t(1) [unfolded Inl]] show ?thesis
      by (auto simp: Inl moved others_def ongoing_def live_def)
  next
    case (Inr x)
    from hoareD_return [OF leg start t(1) [unfolded Inr]] have "others s ?cid t" and "exit_done w s ?cid x t" by simp_all
    moreover have "lg_error x = None \<longrightarrow> (\<exists>oid. vs_result v = Inr oid) \<and> (\<exists>rep. vs_wait v = Inr rep)"
      using hoareD_return [OF exit_leg_heard TrueI t(1) [unfolded Inr]] by (simp add: exit_heard_def heard_no_error_def)
    ultimately show ?thesis
      by (auto simp: Inr moved others_def exit_done_def settled_def split: option.splits leg_error.splits)
  qed
qed

definition residual_script :: venue_script where
  "residual_script = \<lparr>vs_calls = [Persist_Id ''o1''], vs_result = Inr ''o1'', vs_wait = Inl (Residual_Exposure sample_report 2),
     vs_cancel_wait = Inl Cancelled, vs_rewait = Inl Cancelled\<rparr>"

lemma sample_exit_residual:
  "(case submit_exit_leg sample_world False sample_leg residual_script sample_router of
     (Inr x, s') \<Rightarrow> lg_error x = Some (Residual_Exposure sample_report 2) | _ \<Rightarrow> False)"
  by code_simp

theorem exit_leg_reviewed_or_paused_witness:
  "paused (snd (submit_exit_leg sample_world False sample_leg residual_script sample_router)) \<and>
   intent_of (snd (submit_exit_leg sample_world False sample_leg residual_script sample_router)) ''c1'' = Some OI_MANUAL_REVIEW"
proof -
  obtain x s' where x: "submit_exit_leg sample_world False sample_leg residual_script sample_router = (Inr x, s')"
    and e: "lg_error x = Some (Residual_Exposure sample_report 2)"
    using sample_exit_residual by (auto split: prod.splits sum.splits)
  have cid: "lr_client_order_id sample_leg = ''c1''" and working: "\<forall>n. w_db sample_world n = None"
    and fresh: "dict_get (db_intents (rt_db sample_router)) (lr_client_order_id sample_leg) = None"
    by (simp_all add: sample_leg_def sample_world_def sample_router_def empty_repository_def dict_get_def)
  show ?thesis
    using exit_leg_reviewed_or_paused [OF x fresh] e working by (simp add: x cid)
qed

end
