(* ===== verification/Executor.thy ===== *)
theory Executor
  imports Order_Legs
begin

text \<open>
  The router of \<^verbatim>\<open>execution.py\<close> above its legs: opening a pair (\<^verbatim>\<open>_execute_production\<close>), the
  automatic sale of unmatched contracts, the retries of a pending sale, closing a pair, and the
  gates around all of it (\<^verbatim>\<open>_handle_signal_locked\<close>). The two legs of a pair, which the code submits
  concurrently, run one after the other. The lemmas follow every contract from the fill to the
  ledger and every reservation to its release.
\<close>

section \<open>Positions in the two stores\<close>

definition store_position :: "world \<Rightarrow> open_position \<Rightarrow> ('z, unit) router_act" where
  "store_position w p = andalso (db_do w (\<lambda>db. Inr ((), save_position (position_key (p_market p)) p db)))
     (modify (\<lambda>s. s\<lparr>rt_book := ledger_add p (rt_book s)\<rparr>))"

definition erase_position :: "world \<Rightarrow> string \<Rightarrow> ('z, unit) router_act" where
  "erase_position w key = andalso (db_do w (\<lambda>db. Inr ((), remove_position key db)))
     (modify (\<lambda>s. s\<lparr>rt_book := ledger_remove key (rt_book s)\<rparr>))"

text \<open>\<^verbatim>\<open>OpenPosition(...)\<close> with the optional fields that \<open>f\<close> sets.\<close>

definition new_position ::
  "world \<Rightarrow> arbitrage_signal \<Rightarrow> string \<Rightarrow> string \<Rightarrow> dec \<Rightarrow> dec \<Rightarrow> dec \<Rightarrow> dec \<Rightarrow> (open_position \<Rightarrow> open_position) \<Rightarrow>
    ('z, open_position) router_act" where
  "new_position w s id1 id2 n1 price1 n2 price2 f = gets (\<lambda>st. f (open_position_default (s_market s) n1 price1 n2 price2
     (w_now w (rt_tick st)) id1 id2))"

definition save_entry_pending :: "world \<Rightarrow> arbitrage_signal \<Rightarrow> ('z, unit) router_act" where
  "save_entry_pending w s = andthen (new_position w s ''pending'' ''pending'' (pl_polymarket_contracts (s_plan s)) 0
     (pl_predict_fun_contracts (s_plan s)) 0 (\<lambda>p. p\<lparr>p_status := ''entry_pending''\<rparr>)) (store_position w)"

definition save_unpriced_entry_pending ::
  "world \<Rightarrow> arbitrage_signal \<Rightarrow> string \<Rightarrow> string \<Rightarrow> dec \<Rightarrow> dec \<Rightarrow> dec \<Rightarrow> dec \<Rightarrow> ('z, unit) router_act" where
  "save_unpriced_entry_pending w s id1 id2 filled1 filled2 price1 price2 =
     andthen (new_position w s id1 id2 filled1 price1 filled2 price2 (\<lambda>p. p\<lparr>p_status := ''entry_pending''\<rparr>)) (store_position w)"

definition save_unwind_pending ::
  "world \<Rightarrow> arbitrage_signal \<Rightarrow> string \<Rightarrow> string \<Rightarrow> dec \<Rightarrow> dec \<Rightarrow> dec \<Rightarrow> dec \<Rightarrow> dec \<Rightarrow> ('z, unit) router_act" where
  "save_unwind_pending w s id1 id2 matched unmatched1 unmatched2 price1 price2 =
     andthen (new_position w s id1 id2 (dadd matched unmatched1) price1 (dadd matched unmatched2) price2
       (\<lambda>p. p\<lparr>p_status := ''unwind_pending'', p_unwind_attempts := 1, p_unmatched_first_contracts := unmatched1,
          p_unmatched_second_contracts := unmatched2\<rparr>)) (store_position w)"

definition open_position_from_amounts ::
  "world \<Rightarrow> arbitrage_signal \<Rightarrow> string \<Rightarrow> string \<Rightarrow> dec \<Rightarrow> dec \<Rightarrow> dec \<Rightarrow> ('z, open_position) router_act" where
  "open_position_from_amounts w s id1 id2 matched price1 price2 = new_position w s id1 id2 matched price1 matched price2 (\<lambda>p. p)"

section \<open>Requests\<close>

record route_setup =
  rs_config :: exec_config
  rs_first :: string
  rs_second :: string
  rs_first_persists :: bool
  rs_second_persists :: bool

definition route_of :: "route_setup \<Rightarrow> string" where
  "route_of rs = route_key (rs_first rs) (rs_second rs)"

definition leg_label :: "route_setup \<Rightarrow> bool \<Rightarrow> string" where
  "leg_label rs first = (if first then rs_first rs else rs_second rs)"

definition request_for :: "route_setup \<Rightarrow> bool \<Rightarrow> string \<Rightarrow> market_spec \<Rightarrow> dec \<Rightarrow> dec \<Rightarrow> dec \<Rightarrow> leg_request res" where
  "request_for rs first cid m n limit capital =
     rbind ((if first then first_leg_token_for_route else second_leg_token_for_route) m (route_of rs)) (\<lambda>token.
     rbind ((if first then first_leg_side_for_route else second_leg_side_for_route) m (route_of rs)) (\<lambda>side.
       Inr \<lparr>lr_client_order_id = cid, lr_route = route_of rs, lr_market = m, lr_venue = leg_label rs first,
         lr_token_id = token, lr_side = side, lr_contracts = n, lr_price = limit, lr_capital = capital,
         lr_persists_first = (if first then rs_first_persists rs else rs_second_persists rs)\<rparr>))"

section \<open>Selling unmatched contracts\<close>

text \<open>What a sale meets: the best bid (or an empty side, or a failure), a fresh client order id and the connector.\<close>

record sale_inputs =
  sa_bid :: "leg_error + flt option"
  sa_cid :: string
  sa_script :: venue_script

definition unwind_price :: "flt \<Rightarrow> flt" where
  "unwind_price bid = max (flt_round (1 / 100)) (fsub bid (flt_round (1 / 100)))"

definition record_unwind_pnl ::
  "world \<Rightarrow> route_setup \<Rightarrow> bool \<Rightarrow> market_spec \<Rightarrow> dec \<Rightarrow> dec \<Rightarrow> dec \<Rightarrow> ('z, unit) router_act" where
  "record_unwind_pnl w rs first m entry_price exit_price n =
     (if n \<le> 0 then ret ()
      else andthen (of_res (venue_fee_pct (rs_config rs) (leg_label rs first) m)) (\<lambda>fee.
        let f = flt_repr fee;
            profit = dmul n (dsub (dmul exit_price (dsub 1 f)) (dmul entry_price (dadd 1 f)))
        in when_do (profit < 0) (risk_realized profit w)))"

text \<open>The sale itself and its accounting; \<^verbatim>\<open>report.avg_price or target\<close> falls back on a zero price.\<close>

definition sell_unmatched ::
  "world \<Rightarrow> route_setup \<Rightarrow> bool \<Rightarrow> sale_inputs \<Rightarrow> market_spec \<Rightarrow> dec \<Rightarrow> dec \<Rightarrow> (router, leg_error, dec) act" where
  "sell_unmatched w rs first sa m entry_price requested =
     andthen (of_result (sa_bid sa)) (\<lambda>best. case best of
       None \<Rightarrow> ret 0
     | Some bid \<Rightarrow>
         andthen (of_res (request_for rs first (sa_cid sa) m requested (flt_repr (unwind_price bid)) 0)) (\<lambda>r.
         andthen (submit_exit_leg w False r (sa_script sa)) (\<lambda>x. case lg_report x of
           None \<Rightarrow> ret 0
         | Some rep \<Rightarrow>
             andalso (record_unwind_pnl w rs first m entry_price
               (if er_avg_price rep = 0 then flt_repr (unwind_price bid) else er_avg_price rep)
               (min requested (er_amount_filled rep)))
             (ret (min requested (er_amount_filled rep))))))"

text \<open>\<^verbatim>\<open>_try_unwind_first_leg\<close> and \<^verbatim>\<open>_try_unwind_second_leg\<close>: every failure counts as nothing sold.\<close>

definition try_unwind_leg ::
  "world \<Rightarrow> route_setup \<Rightarrow> bool \<Rightarrow> sale_inputs \<Rightarrow> market_spec \<Rightarrow> dec \<Rightarrow> dec \<Rightarrow> (router, leg_error, dec) act" where
  "try_unwind_leg w rs first sa m entry_price requested =
     catch (sell_unmatched w rs first sa m entry_price requested) (\<lambda>e. if e = Cancelled then raise Cancelled else ret 0)"

definition unwind_legs ::
  "world \<Rightarrow> route_setup \<Rightarrow> sale_inputs \<Rightarrow> sale_inputs \<Rightarrow> market_spec \<Rightarrow> dec \<Rightarrow> dec \<Rightarrow> dec \<Rightarrow> dec \<Rightarrow>
    (router, leg_error, dec \<times> dec) act" where
  "unwind_legs w rs sa1 sa2 m entry1 entry2 n1 n2 =
     andthen (if dec_eps < n1 then try_unwind_leg w rs True sa1 m entry1 n1 else ret 0) (\<lambda>u1.
     andthen (if dec_eps < n2 then try_unwind_leg w rs False sa2 m entry2 n2 else ret 0) (\<lambda>u2. ret (u1, u2)))"

section \<open>Opening a pair\<close>

record entry_inputs =
  ei_first_claim :: "leg_error option"
  ei_second_claim :: "leg_error option"
  ei_first_cid :: string
  ei_second_cid :: string
  ei_first_script :: venue_script
  ei_second_script :: venue_script
  ei_first_sale :: sale_inputs
  ei_second_sale :: sale_inputs

definition claimed :: "leg_error option \<Rightarrow> ('z, unit) router_act" where
  "claimed c = (case c of None \<Rightarrow> ret () | Some e \<Rightarrow> raise e)"

definition submit_both ::
  "world \<Rightarrow> route_setup \<Rightarrow> entry_inputs \<Rightarrow> arbitrage_signal \<Rightarrow> (router, leg_error, leg_result \<times> leg_result) act" where
  "submit_both w rs inp s =
     andthen (of_res (request_for rs True (ei_first_cid inp) (s_market s) (pl_polymarket_contracts (s_plan s))
       (flt_repr (s_polymarket_price s)) (first_required s))) (\<lambda>r1.
     andthen (of_res (request_for rs False (ei_second_cid inp) (s_market s) (pl_predict_fun_contracts (s_plan s))
       (flt_repr (s_predict_fun_price s)) (second_required s))) (\<lambda>r2.
     andthen (gathered (submit_entry_leg w (rs_config rs) r1 (ei_first_script inp))) (\<lambda>x1.
     andthen (gathered (submit_entry_leg w (rs_config rs) r2 (ei_second_script inp))) (\<lambda>x2.
     andthen (normalize_result x1) (\<lambda>first. andthen (normalize_result x2) (\<lambda>second. ret (first, second)))))))"

text \<open>Until the legs have answered; \<^verbatim>\<open>None\<close> when a gate closed on the way.\<close>

definition guarded_entry ::
  "world \<Rightarrow> route_setup \<Rightarrow> entry_inputs \<Rightarrow> arbitrage_signal \<Rightarrow> (router, leg_error, (leg_result \<times> leg_result) option) act" where
  "guarded_entry w rs inp s =
     andalso (save_entry_pending w s)
     (andthen (canary_guard w) (\<lambda>ok. if \<not> ok then andalso (erase_position w (position_key (s_market s))) (ret None)
      else andthen (entry_runtime_ready w) (\<lambda>ready.
        if \<not> ready then andalso (erase_position w (position_key (s_market s))) (ret None)
        else andthen (submit_both w rs inp s) (\<lambda>x. ret (Some x)))))"

definition filled_by :: "leg_result \<Rightarrow> dec" where
  "filled_by x = (case lg_report x of Some rep \<Rightarrow> er_amount_filled rep | None \<Rightarrow> 0)"

definition reported_price :: "leg_result \<Rightarrow> dec" where
  "reported_price x = (case lg_report x of Some rep \<Rightarrow> er_avg_price rep | None \<Rightarrow> 0)"

definition price_missing :: "leg_result \<Rightarrow> bool" where
  "price_missing x \<longleftrightarrow> dec_eps < filled_by x \<and> reported_price x \<le> 0"

definition entry_price :: "leg_result \<Rightarrow> dec" where
  "entry_price x = (if dec_eps < filled_by x then reported_price x else 0)"

definition matched_of :: "leg_result \<Rightarrow> leg_result \<Rightarrow> dec" where
  "matched_of first second = min (filled_by first) (filled_by second)"

definition unmatched_of :: "leg_result \<Rightarrow> dec \<Rightarrow> dec" where
  "unmatched_of x matched = max 0 (dsub (filled_by x) matched)"

text \<open>What is stored when \<open>u1\<close> and \<open>u2\<close> of the unmatched contracts have been sold.\<close>

definition store_outcome ::
  "world \<Rightarrow> arbitrage_signal \<Rightarrow> leg_result \<Rightarrow> leg_result \<Rightarrow> dec \<Rightarrow> dec \<Rightarrow> ('z, unit) router_act" where
  "store_outcome w s first second u1 u2 =
     (let matched = matched_of first second;
          pending1 = max 0 (dsub (unmatched_of first matched) u1); pending2 = max 0 (dsub (unmatched_of second matched) u2)
      in if dec_eps < pending1 \<or> dec_eps < pending2
         then save_unwind_pending w s (lg_order_id first) (lg_order_id second) matched pending1 pending2
           (entry_price first) (entry_price second)
         else if matched \<le> dec_eps then erase_position w (position_key (s_market s))
         else andthen (open_position_from_amounts w s (lg_order_id first) (lg_order_id second) matched
           (entry_price first) (entry_price second)) (store_position w))"

definition settle_results ::
  "world \<Rightarrow> route_setup \<Rightarrow> entry_inputs \<Rightarrow> arbitrage_signal \<Rightarrow> leg_result \<Rightarrow> leg_result \<Rightarrow> (router, leg_error, unit) act" where
  "settle_results w rs inp s first second =
     andalso (when_do (lg_error first \<noteq> None \<or> lg_error second \<noteq> None) (risk_record_api_error w))
     (if price_missing first \<or> price_missing second
      then andalso (save_unpriced_entry_pending w s (lg_order_id first) (lg_order_id second) (filled_by first) (filled_by second)
          (max 0 (reported_price first)) (max 0 (reported_price second)))
        (risk_pause ''filled execution report missing avg_price'' w)
      else andthen (unwind_legs w rs (ei_first_sale inp) (ei_second_sale inp) (s_market s)
          (flt_repr (s_polymarket_price s)) (flt_repr (s_predict_fun_price s))
          (unmatched_of first (matched_of first second)) (unmatched_of second (matched_of first second)))
        (\<lambda>(u1, u2). store_outcome w s first second u1 u2))"

definition execute_production ::
  "world \<Rightarrow> route_setup \<Rightarrow> entry_inputs \<Rightarrow> arbitrage_signal \<Rightarrow> (router, leg_error, unit) act" where
  "execute_production w rs inp s =
     andthen (canary_guard w) (\<lambda>ok. if \<not> ok then ret () else
     andthen (entry_runtime_ready w) (\<lambda>ready. if \<not> ready then ret () else
     andalso (claimed (ei_first_claim inp))
     (andalso (claimed (ei_second_claim inp))
     (andthen (guarded_entry w rs inp s) (\<lambda>r. case r of
        None \<Rightarrow> ret () | Some (first, second) \<Rightarrow> settle_results w rs inp s first second)))))"

section \<open>Retrying a pending sale\<close>

text \<open>The position after a retry that sold \<open>u1\<close> and \<open>u2\<close>; \<^verbatim>\<open>None\<close> when nothing is left of it.\<close>

definition after_unwind :: "open_position \<Rightarrow> dec \<Rightarrow> dec \<Rightarrow> open_position option" where
  "after_unwind p u1 u2 =
     (let left1 = max 0 (dsub (p_unmatched_first_contracts p) u1); left2 = max 0 (dsub (p_unmatched_second_contracts p) u2);
          n1 = max 0 (dsub (p_polymarket_contracts p) u1); n2 = max 0 (dsub (p_predict_fun_contracts p) u2);
          attempts = p_unwind_attempts p + 1
      in if left1 \<le> dec_eps \<and> left2 \<le> dec_eps
         then (if dec_eps < min n1 n2
           then Some (p\<lparr>p_polymarket_contracts := min n1 n2, p_predict_fun_contracts := min n1 n2, p_status := ''open'',
             p_unwind_attempts := attempts, p_unmatched_first_contracts := 0, p_unmatched_second_contracts := 0\<rparr>)
           else None)
         else Some (p\<lparr>p_polymarket_contracts := n1, p_predict_fun_contracts := n2, p_unwind_attempts := attempts,
           p_unmatched_first_contracts := left1, p_unmatched_second_contracts := left2\<rparr>))"

definition retry_pending_unwind ::
  "world \<Rightarrow> route_setup \<Rightarrow> sale_inputs \<Rightarrow> sale_inputs \<Rightarrow> open_position \<Rightarrow> (router, leg_error, unit) act" where
  "retry_pending_unwind w rs sa1 sa2 p =
     (if p_status p \<noteq> ''unwind_pending'' then ret ()
      else andthen (unwind_legs w rs sa1 sa2 (p_market p) (flt_repr (flt_round (p_polymarket_entry_price p))) 0
          (p_unmatched_first_contracts p) (p_unmatched_second_contracts p))
        (\<lambda>(u1, u2). case after_unwind p u1 u2 of
           None \<Rightarrow> erase_position w (position_key (p_market p))
         | Some q \<Rightarrow> andthen (of_res (position_post_init q)) (store_position w)))"

section \<open>Closing a pair\<close>

record close_inputs =
  ci_first_cid :: string
  ci_second_cid :: string
  ci_first_script :: venue_script
  ci_second_script :: venue_script

definition exit_legs ::
  "world \<Rightarrow> route_setup \<Rightarrow> close_inputs \<Rightarrow> open_position \<Rightarrow> dec \<Rightarrow> dec \<Rightarrow> (router, leg_error, leg_result \<times> leg_result) act" where
  "exit_legs w rs ci p price1 price2 =
     andthen (of_res (request_for rs True (ci_first_cid ci) (p_market p)
       (max 0 (dsub (p_polymarket_contracts p) (p_polymarket_closed_contracts p))) price1 0)) (\<lambda>r1.
     andthen (of_res (request_for rs False (ci_second_cid ci) (p_market p)
       (max 0 (dsub (p_predict_fun_contracts p) (p_predict_fun_closed_contracts p))) price2 0)) (\<lambda>r2.
     andthen (gathered (submit_exit_leg w (p_polymarket_closed p) r1 (ci_first_script ci))) (\<lambda>x1.
     andthen (gathered (submit_exit_leg w (p_predict_fun_closed p) r2 (ci_second_script ci))) (\<lambda>x2.
     andthen (normalize_result x1) (\<lambda>first. andthen (normalize_result x2) (\<lambda>second. ret (first, second)))))))"

definition residual_of :: "leg_result \<Rightarrow> (execution_report \<times> dec) option" where
  "residual_of x = (case lg_error x of Some (Residual_Exposure rep n) \<Rightarrow> Some (rep, n) | _ \<Rightarrow> None)"

definition new_fill :: "leg_result \<Rightarrow> dec" where
  "new_fill x = (if residual_of x = None then filled_by x else 0)"

definition exit_fill_price :: "leg_result \<Rightarrow> dec \<Rightarrow> dec" where
  "exit_fill_price x limit = (if 0 < reported_price x then reported_price x else limit)"

text \<open>A leg that failed after it may have reached the venue, without a terminal report.\<close>

definition needs_review :: "leg_result \<Rightarrow> bool" where
  "needs_review x \<longleftrightarrow> residual_of x \<noteq> None \<or>
     (lg_error x \<noteq> None \<and> lg_order_id x \<noteq> NO_ORDER \<and>
      (case lg_report x of None \<Rightarrow> True | Some rep \<Rightarrow> er_status rep \<in> {ES_OPEN, ES_PARTIAL}))"

text \<open>The accounting of one leg: the contracts closed so far, the proceeds, whether it is closed, the average price.\<close>

definition closed_leg :: "flt \<Rightarrow> dec \<Rightarrow> dec \<Rightarrow> dec \<Rightarrow> bool \<Rightarrow> leg_result \<Rightarrow> dec \<Rightarrow> dec \<times> dec \<times> bool \<times> dec option" where
  "closed_leg fee amount closed_before proceeds_before was_closed x limit =
     (let n = min amount (dadd closed_before (new_fill x));
          proceeds = dadd proceeds_before (dmul (dmul (new_fill x) (exit_fill_price x limit)) (dsub 1 (flt_repr fee)))
      in (n, proceeds, was_closed \<or> dsub amount dec_eps \<le> n, (if dec_eps < n then Some (ddiv proceeds n) else None)))"

definition exit_snapshot :: "execution_report \<Rightarrow> dec \<Rightarrow> residual_exit_snapshot res" where
  "exit_snapshot rep n = mk_snapshot \<lparr>rs_venue_order_id = er_order_id rep, rs_requested_contracts = er_amount_requested rep,
     rs_closed_contracts = er_amount_filled rep,
     rs_exit_proceeds_usd = dmul (er_amount_filled rep) (er_avg_price rep), rs_residual_contracts = n\<rparr>"

definition apply_residual :: "string \<Rightarrow> leg_result \<Rightarrow> open_position \<Rightarrow> open_position res" where
  "apply_residual venue x p = (case residual_of x of None \<Rightarrow> Inr p
     | Some (rep, n) \<Rightarrow> rbind (exit_snapshot rep n) (\<lambda>snap. apply_residual_exit_snapshot p venue snap))"

definition closed_position ::
  "route_setup \<Rightarrow> open_position \<Rightarrow> leg_result \<Rightarrow> leg_result \<Rightarrow> dec \<Rightarrow> dec \<Rightarrow> (open_position \<times> bool \<times> bool) res" where
  "closed_position rs p first second price1 price2 =
     rbind (venue_fee_pct (rs_config rs) (rs_first rs) (p_market p)) (\<lambda>fee1.
     rbind (venue_fee_pct (rs_config rs) (rs_second rs) (p_market p)) (\<lambda>fee2.
     let (n1, usd1, done1, avg1) = closed_leg fee1 (p_polymarket_contracts p) (p_polymarket_closed_contracts p)
           (p_polymarket_exit_proceeds_usd p) (p_polymarket_closed p) first price1;
         (n2, usd2, done2, avg2) = closed_leg fee2 (p_predict_fun_contracts p) (p_predict_fun_closed_contracts p)
           (p_predict_fun_exit_proceeds_usd p) (p_predict_fun_closed p) second price2;
         review = needs_review first \<or> needs_review second
     in rbind (position_post_init (p\<lparr>p_status := (if review then ''manual_review''
              else if done1 \<and> done2 then ''closed'' else ''partial_exit_pending''),
            p_polymarket_closed := done1, p_predict_fun_closed := done2,
            p_polymarket_exit_price := avg1, p_predict_fun_exit_price := avg2,
            p_polymarket_closed_contracts := n1, p_predict_fun_closed_contracts := n2,
            p_polymarket_exit_proceeds_usd := usd1, p_predict_fun_exit_proceeds_usd := usd2\<rparr>)) (\<lambda>q.
        rbind (apply_residual (rs_first rs) first q) (\<lambda>q.
        rbind (apply_residual (rs_second rs) second q) (\<lambda>q. Inr (q, review, done1 \<and> done2))))))"

definition realized_profit :: "route_setup \<Rightarrow> open_position \<Rightarrow> open_position \<Rightarrow> dec res" where
  "realized_profit rs p q =
     rbind (venue_fee_pct (rs_config rs) (rs_first rs) (p_market p)) (\<lambda>fee1.
     rbind (venue_fee_pct (rs_config rs) (rs_second rs) (p_market p)) (\<lambda>fee2.
     rbind (calculate_realized_position_profit_decimal
        (dadd (dmul (p_polymarket_contracts p) (dmul (p_polymarket_entry_price p) (dadd 1 (flt_repr fee1))))
              (dmul (p_predict_fun_contracts p) (dmul (p_predict_fun_entry_price p) (dadd 1 (flt_repr fee2)))))
        (dadd (p_polymarket_exit_proceeds_usd q) (p_predict_fun_exit_proceeds_usd q))) (\<lambda>(pct, usd). Inr usd)))"

definition settle_exit ::
  "world \<Rightarrow> route_setup \<Rightarrow> open_position \<Rightarrow> leg_result \<Rightarrow> leg_result \<Rightarrow> dec \<Rightarrow> dec \<Rightarrow> (router, leg_error, unit) act" where
  "settle_exit w rs p first second price1 price2 =
     andthen (of_res (closed_position rs p first second price1 price2)) (\<lambda>(q, review, all_closed).
       if review \<or> \<not> all_closed then store_position w q
       else andalso (erase_position w (position_key (p_market p)))
        (andthen (of_res (realized_profit rs p q)) (\<lambda>profit. when_do (profit < 0) (risk_realized profit w))))"

definition close_position_legs ::
  "world \<Rightarrow> route_setup \<Rightarrow> close_inputs \<Rightarrow> open_position \<Rightarrow> dec \<Rightarrow> dec \<Rightarrow> (router, leg_error, unit) act" where
  "close_position_legs w rs ci p price1 price2 =
     andthen (exit_legs w rs ci p price1 price2) (\<lambda>(first, second). settle_exit w rs p first second price1 price2)"

text \<open>\<^verbatim>\<open>handle_exit_signal\<close> in the modes that submit orders.\<close>

definition handle_exit_signal :: "world \<Rightarrow> route_setup \<Rightarrow> close_inputs \<Rightarrow> exit_signal \<Rightarrow> (router, leg_error, unit) act" where
  "handle_exit_signal w rs ci x = (if \<not> submits_orders (ec_mode (rs_config rs)) then ret ()
     else close_position_legs w rs ci (x_position x) (x_polymarket_exit_price x) (x_predict_fun_exit_price x))"

text \<open>\<open>bid1\<close> and \<open>bid2\<close> are the best bids a retry fetches for the legs that are still open.\<close>

definition retry_partial_exit ::
  "world \<Rightarrow> route_setup \<Rightarrow> close_inputs \<Rightarrow> leg_error + flt \<Rightarrow> leg_error + flt \<Rightarrow> open_position \<Rightarrow> (router, leg_error, unit) act" where
  "retry_partial_exit w rs ci bid1 bid2 p =
     (if p_status p \<noteq> ''partial_exit_pending'' then ret ()
      else andthen (if p_polymarket_closed p then ret (p_polymarket_exit_price p)
          else andthen (of_result bid1) (\<lambda>b. ret (Some (flt_repr b)))) (\<lambda>price1.
        andthen (if p_predict_fun_closed p then ret (p_predict_fun_exit_price p)
          else andthen (of_result bid2) (\<lambda>b. ret (Some (flt_repr b)))) (\<lambda>price2.
        close_position_legs w rs ci p
          (case price1 of Some x \<Rightarrow> if x = 0 then 1 / 100 else x | None \<Rightarrow> 1 / 100)
          (case price2 of Some x \<Rightarrow> if x = 0 then 1 / 100 else x | None \<Rightarrow> 1 / 100))))"

section \<open>From a signal to an execution\<close>

definition constraints_allow :: "market_constraints option \<times> market_constraints option \<Rightarrow> arbitrage_signal \<Rightarrow> bool" where
  "constraints_allow cs s = (case cs of
     (Some c1, Some c2) \<Rightarrow>
        lot_size c1 \<le> pl_polymarket_contracts (s_plan s) \<and> minimum_notional c1 \<le> pl_polymarket_capital_usd (s_plan s) \<and>
        lot_size c2 \<le> pl_predict_fun_contracts (s_plan s) \<and> minimum_notional c2 \<le> pl_predict_fun_capital_usd (s_plan s)
   | _ \<Rightarrow> False)"

text \<open>
  What a signal meets on its way: the constraints (\<^verbatim>\<open>None\<close> when a lookup fails), the outcome of the
  preflight, the balances a refresh would fetch, the answer of the order budget shared by all
  routers, and the legs.
\<close>

record signal_inputs =
  si_constraints :: "(market_constraints option \<times> market_constraints option) option"
  si_preflight :: "prepared_entry option res"
  si_fetched :: "(dec \<times> dec) option"
  si_budget_ok :: bool
  si_entry :: entry_inputs

definition cutoff_guard :: "world \<Rightarrow> route_setup \<Rightarrow> arbitrage_signal \<Rightarrow> ('z, bool) router_act" where
  "cutoff_guard w rs s = (\<lambda>st. (Inr (entry_submission_window_open (s_market s) (''SX Bet'' \<in> {rs_first rs, rs_second rs})
     (as_utc (w_now w (rt_tick st)))), bump st))"

definition has_open_market :: "string \<Rightarrow> position_ledger \<Rightarrow> bool" where
  "has_open_market key l = list_ex (\<lambda>p. m_symbol (p_market p) = key) (ledger_all l)"

definition active_markets :: "'z router_scheme \<Rightarrow> string set" where
  "active_markets st = set (map (\<lambda>p. m_symbol (p_market p)) (ledger_all (rt_book st))) \<union> set (rt_pending st)"

definition capacity_allows :: "route_setup \<Rightarrow> arbitrage_signal \<Rightarrow> 'z router_scheme \<Rightarrow> bool" where
  "capacity_allows rs s st \<longleftrightarrow>
     \<not> rk_paused (rc_state (rt_risk st)) \<and> \<not> ledger_has (position_key (s_market s)) (rt_book st) \<and>
     \<not> has_open_market (m_symbol (s_market s)) (rt_book st) \<and>
     int (card (active_markets st)) < ec_max_open_positions (rs_config rs) \<and> m_symbol (s_market s) \<notin> set (rt_pending st) \<and>
     risk_limits_allow (rs_config rs) (rs_first rs) (rs_second rs) (ledger_all (rt_book st)) s None"

definition reserve_capital :: "world \<Rightarrow> route_setup \<Rightarrow> signal_inputs \<Rightarrow> arbitrage_signal \<Rightarrow> ('z, bool) router_act" where
  "reserve_capital w rs si s = andthen (gets (\<lambda>st. reserve_signal_capital (rs_first rs) (rs_second rs) (si_fetched si) s (rt_bal st)))
     (\<lambda>(ok, b). andalso (modify (\<lambda>st. st\<lparr>rt_bal := b\<rparr>))
       (if ok then andalso (persist_runtime_balance_state w) (ret True) else ret False))"

text \<open>
  The submission proper, with its count of API errors. The body of the \<^verbatim>\<open>try\<close> tells whether it
  ran to its end: only then its \<^verbatim>\<open>else\<close> clause, outside the handler, resets the count.
\<close>

definition guarded_execution ::
  "world \<Rightarrow> route_setup \<Rightarrow> signal_inputs \<Rightarrow> arbitrage_signal \<Rightarrow> (router, leg_error, bool) act" where
  "guarded_execution w rs si s =
     andthen (canary_guard w) (\<lambda>ok. if \<not> ok then ret False else
     andthen (entry_runtime_ready w) (\<lambda>ready. if \<not> ready \<or> \<not> si_budget_ok si then ret False else
     andthen (entry_runtime_ready w) (\<lambda>ready. if \<not> ready then ret False else
       andalso (execute_production w rs (si_entry si) s) (ret True))))"

definition settle_api_errors :: "world \<Rightarrow> int \<Rightarrow> ('z, unit) router_act" where
  "settle_api_errors w before = andthen (gets rt_api_errors) (\<lambda>after. when_do (after = before)
     (andalso (modify (\<lambda>st. st\<lparr>rt_api_errors := 0\<rparr>)) (andthen (controlled reset_api_errors w) (\<lambda>_. ret ()))))"

definition counted_execution ::
  "world \<Rightarrow> route_setup \<Rightarrow> signal_inputs \<Rightarrow> arbitrage_signal \<Rightarrow> (router, leg_error, unit) act" where
  "counted_execution w rs si s = andthen (gets rt_api_errors) (\<lambda>before.
     andthen (catch (guarded_execution w rs si s)
       (\<lambda>e. if e = Cancelled then raise Cancelled else andalso (risk_record_api_error w) (raise e)))
     (\<lambda>completed. if completed then settle_api_errors w before else ret ()))"

text \<open>The checks up to the reservation of the capital: the signal to execute, or \<^verbatim>\<open>None\<close>.\<close>

definition prepare_signal ::
  "world \<Rightarrow> route_setup \<Rightarrow> signal_inputs \<Rightarrow> arbitrage_signal \<Rightarrow> ('z, arbitrage_signal option) router_act" where
  "prepare_signal w rs si s =
     (case si_constraints si of
        None \<Rightarrow> ret None
      | Some cs \<Rightarrow> if \<not> constraints_allow cs s then ret None else
          andthen (of_res (si_preflight si)) (\<lambda>prepared. case prepared of
            None \<Rightarrow> ret None
          | Some pe \<Rightarrow> andthen (gets (\<lambda>st. risk_limits_allow (rs_config rs) (rs_first rs) (rs_second rs)
                (ledger_all (rt_book st)) (pe_signal pe) (Some (pe_all_in_cost_usd pe)))) (\<lambda>allowed. if \<not> allowed then ret None else
              andthen (reserve_capital w rs si (pe_signal pe)) (\<lambda>ok. ret (if ok then Some (pe_signal pe) else None)))))"

definition discard_pending :: "string \<Rightarrow> ('z, unit) router_act" where
  "discard_pending key = modify (\<lambda>st. st\<lparr>rt_pending := removeAll key (rt_pending st)\<rparr>)"

text \<open>
  The \<^verbatim>\<open>finally\<close> clause: after a reservation it releases the capital and records the balances
  before it discards the pending market.
\<close>

definition release_capital :: "world \<Rightarrow> route_setup \<Rightarrow> arbitrage_signal \<Rightarrow> ('z, unit) router_act" where
  "release_capital w rs s = andalso (modify (\<lambda>st. st\<lparr>rt_bal := release_signal_capital (rs_first rs) (rs_second rs) s (rt_bal st)\<rparr>))
     (persist_runtime_balance_state w)"

definition funded_execution ::
  "world \<Rightarrow> route_setup \<Rightarrow> signal_inputs \<Rightarrow> arbitrage_signal \<Rightarrow> (router, leg_error, unit) act" where
  "funded_execution w rs si s =
     andthen (gets (\<lambda>st. rk_paused (rc_state (rt_risk st)))) (\<lambda>stopped. if stopped then ret () else
     andthen (cutoff_guard w rs s) (\<lambda>ok. if \<not> ok then ret () else counted_execution w rs si s))"

definition reserved_execution ::
  "world \<Rightarrow> route_setup \<Rightarrow> signal_inputs \<Rightarrow> arbitrage_signal \<Rightarrow> (router, leg_error, unit) act" where
  "reserved_execution w rs si s =
     andthen (catch (prepare_signal w rs si s) (\<lambda>e. andalso (discard_pending (m_symbol (s_market s))) (raise e))) (\<lambda>r. case r of
        None \<Rightarrow> discard_pending (m_symbol (s_market s))
      | Some s' \<Rightarrow> ensure (funded_execution w rs si s')
          (andalso (release_capital w rs s') (discard_pending (m_symbol (s_market s)))))"

definition handle_signal_locked ::
  "world \<Rightarrow> route_setup \<Rightarrow> signal_inputs \<Rightarrow> arbitrage_signal \<Rightarrow> (router, leg_error, unit) act" where
  "handle_signal_locked w rs si s =
     andthen (cutoff_guard w rs s) (\<lambda>ok. if \<not> ok then ret () else
     andthen (gets (capacity_allows rs s)) (\<lambda>ok. if \<not> ok then ret () else
     andalso (modify (\<lambda>st. st\<lparr>rt_pending := rt_pending st @ [m_symbol (s_market s)]\<rparr>)) (reserved_execution w rs si s)))"

definition handle_signal :: "world \<Rightarrow> route_setup \<Rightarrow> signal_inputs \<Rightarrow> arbitrage_signal \<Rightarrow> (router, leg_error, unit) act" where
  "handle_signal w rs si s =
     (if \<not> submits_orders (ec_mode (rs_config rs)) \<or> route_of rs \<notin> set (ec_funded_routes (rs_config rs)) then ret ()
      else andthen (gets (\<lambda>st. rk_paused (rc_state (rt_risk st)))) (\<lambda>stopped. if stopped then ret () else
       andthen (canary_guard w) (\<lambda>ok. if \<not> ok then ret () else
       if \<not> is_binary_signal_allowed (s_metrics s)
          (max (ec_min_net_spread (rs_config rs)) (threshold_for (ec_policy (rs_config rs)) (route_of rs)))
       then ret () else handle_signal_locked w rs si s)))"

section \<open>Reservations under everything a leg does\<close>

text \<open>
  Nothing below the reservation touches the pending markets or the reservations, except the
  callback of a pause, which clears both.
\<close>

definition same_reserves :: "'z router_scheme \<Rightarrow> 'z router_scheme \<Rightarrow> bool" where
  "same_reserves s s' \<longleftrightarrow>
     (rt_pending s' = rt_pending s \<and> bl_reserved (rt_bal s') = bl_reserved (rt_bal s)) \<or>
     (rt_pending s' = [] \<and> bl_reserved (rt_bal s') = [])"

interpretation reserves: effect_order "same_reserves :: 'z router_scheme \<Rightarrow> 'z router_scheme \<Rightarrow> bool"
  by unfold_locales (auto simp: same_reserves_def)

abbreviation reserving :: "('z router_scheme, 'e, 'a) act \<Rightarrow> bool" where
  "reserving m \<equiv> effect_in same_reserves m"

declare reserves.basic [simp]

lemmas reserves_rules = reserves.basic reserves.bind reserves.seq reserves.handler reserves.conditional reserves.gathering
  effect_in_if effect_in_pair

lemma reserving_db [simp]: "reserving (db_do w f)"
  by (auto simp: effect_in_def same_reserves_def db_do_def split: option.split sum.split)

lemma reserving_intents [simp]:
  "reserving (new_intent w i)" "reserving (set_intent w cid st vid err)" "reserving (create_intent w action r)"
  "reserving (persist_runtime_balance_state w)"
  using reserving_db by (auto simp: effect_in_def new_intent_def set_intent_def create_intent_def persist_runtime_balance_state_def)

lemma reserving_controlled [simp]: "reserving (controlled f w)"
  by (auto simp: effect_in_def same_reserves_def controlled_def cancel_active_orders_and_clear_pending_def Let_def split: sum.split)

lemma reserving_risk [simp]:
  "reserving (risk_pause reason w)" "reserving (risk_record_api_error w)"
  "reserving (risk_realized profit w :: ('z, unit) router_act)"
proof -
  show "reserving (risk_pause reason w)" unfolding risk_pause_def by (intro reserves_rules) simp
  show "reserving (risk_record_api_error w)"
    unfolding risk_record_api_error_def by (intro reserves_rules effect_in_modify) (simp_all add: same_reserves_def)
  have "reserving (andthen (controlled (record_realized_result d profit 0) w) (\<lambda>_. ret ()) :: ('z, unit) router_act)" for d
    by (intro reserves_rules) simp
  then show "reserving (risk_realized profit w :: ('z, unit) router_act)" by (simp add: risk_realized_def effect_in_def)
qed

lemma reserving_queries [simp]: "reserving (canary_window_open w)" "reserving (entry_runtime_ready w)" "reserving (cutoff_guard w rs s)"
  by (auto simp: effect_in_def same_reserves_def canary_window_open_def entry_runtime_ready_def cutoff_guard_def)

lemma reserving_canary [simp]: "reserving (canary_guard w)"
  unfolding canary_guard_def by (intro reserves_rules) simp_all

lemma reserving_locals [simp]: "reserving (activate r oid)" "reserving (set_order_id oid)"
  by (simp_all add: effect_in_def same_reserves_def activate_def set_order_id_def modify_def)

lemma reserving_of_res [simp]: "reserving (of_res r)"
  by (simp add: of_res_def split: sum.split)

lemma reserving_debit [simp]: "reserving (debit_fill c r rep)"
  by (auto simp: effect_in_def same_reserves_def debit_fill_def of_res_def debit_reported_fill_def debit_cached_balance_def
      act_defs res_simps rbind_def split: sum.split)

lemma reserving_pauses [simp]: "reserving (pause_unknown w r st)" "reserving (pause_residual w r)"
  unfolding pause_unknown_def pause_residual_def by (intro reserves_rules | simp)+

lemma reserving_learn [simp]: "reserving (learn_order_id e)"
  unfolding learn_order_id_def by (intro reserves_rules) (simp split: option.split add: reserves.conditional)

lemma reserving_reconciliations [simp]:
  "reserving (cancel_and_reconcile v rep)" "reserving (reconciled_after_error r v e)" "reserving (exit_reconciled r v e)"
  unfolding cancel_and_reconcile_def reconciled_after_error_def exit_reconciled_def
  by ((intro reserves_rules)?, simp split: sum.split leg_error.split)+

lemma reserving_transport [simp]: "reserving (assert_pre_transport_ready w)"
  unfolding assert_pre_transport_ready_def
  by (intro reserves_rules effect_in_modify) (simp_all add: same_reserves_def)

lemma reserving_persist_id [simp]: "reserving (persist_order_id w entry r oid)"
  unfolding persist_order_id_def by (intro reserves_rules) simp_all

lemma reserving_calls [simp]: "reserving (run_calls w entry r cs)"
proof (induction cs)
  case (Cons x cs)
  then show ?case by (cases x) (auto intro!: reserves.seq reserves.conditional)
qed simp

lemma reserving_submit [simp]: "reserving (submit w entry r v)"
  unfolding submit_def by (intro reserves_rules) simp

lemma reserving_acknowledged [simp]: "reserving (acknowledged_report w entry r v)"
  unfolding acknowledged_report_def by (intro reserves_rules) simp_all

lemma reserving_reject [simp]: "reserving (reject_before_venue_submit w r reason)"
  unfolding reject_before_venue_submit_def by (intro reserves_rules) simp_all

lemma reserving_entry_body [simp]: "reserving (entry_body w c r v)"
  unfolding entry_body_def by (intro reserves_rules) simp_all

lemma reserving_cancelled [simp]: "reserving (leg_cancelled w r reason)"
  unfolding leg_cancelled_def by (intro reserves_rules) simp_all

lemma reserving_entry_failed [simp]: "reserving (entry_failed w c r v e)"
  unfolding entry_failed_def
  by (intro reserves_rules) (simp_all split: option.split add: reserves.seq)

lemma reserving_forget: "same_reserves s (forget_active r s)"
  by (simp add: same_reserves_def forget_active_def)

lemma reserving_entry_leg [simp]: "reserving (entry_leg w c r v)"
  unfolding entry_leg_def entry_guarded_def
  by (intro reserves_rules reserves.cleanup reserving_forget) simp_all

lemma reserving_best_effort: "reserving m \<Longrightarrow> reserving (best_effort m)"
  unfolding best_effort_def by (intro reserves_rules) simp_all

lemma reserving_exit_residual [simp]: "reserving (exit_residual w r rep e)"
  unfolding exit_residual_def by (intro reserves_rules reserving_best_effort) simp_all

lemma reserving_exit_failed [simp]: "reserving (exit_failed w r v e)"
  unfolding exit_failed_def by (intro reserves_rules) (simp_all add: reserving_best_effort)

lemma reserving_exit_leg [simp]: "reserving (exit_leg w b r v)"
proof -
  have handler: "reserving (case e of Residual_Exposure rep n \<Rightarrow> exit_residual w r rep e
      | Cancelled \<Rightarrow> leg_cancelled w r ''exit submission cancelled during shutdown'' | _ \<Rightarrow> exit_failed w r v e)" for e
    by (cases e) simp_all
  show ?thesis
    unfolding exit_leg_def exit_guarded_def
    by (intro reserves_rules reserves.cleanup reserving_forget handler) simp_all
qed

lemma local_scope_reserves [simp]:
  "rt_pending (router.extend s f) = rt_pending s" "rt_bal (router.extend s f) = rt_bal s"
  "rt_pending (router.truncate t) = rt_pending t" "rt_bal (router.truncate t) = rt_bal t"
  by (simp_all add: router.defs)

lemma reserving_with_locals:
  assumes "reserving m"
  shows "reserving (with_locals m)"
  unfolding effect_in_def
proof
  fix s
  obtain x t where t: "m (router.extend s (leg_state.fields NO_ORDER False)) = (x, t)" by fastforce
  have "same_reserves (router.extend s (leg_state.fields NO_ORDER False)) t"
    using effect_inD [OF assms t] .
  then show "same_reserves s (snd (with_locals m s))"
    by (simp add: with_locals_def t same_reserves_def)
qed

lemma reserving_submissions [simp]: "reserving (submit_entry_leg w c r v)" "reserving (submit_exit_leg w b r v)"
  unfolding submit_entry_leg_def submit_exit_leg_def by (simp_all add: reserving_with_locals)

lemma reserving_stores [simp]: "reserving (store_position w p)" "reserving (erase_position w key)" "reserving (new_position w s a b c d e f g)"
  unfolding store_position_def erase_position_def new_position_def
  by (intro reserves_rules effect_in_modify; simp add: same_reserves_def)+

lemma reserving_saves [simp]:
  "reserving (save_entry_pending w s)" "reserving (save_unpriced_entry_pending w s a b c d e f)"
  "reserving (save_unwind_pending w s a b c d e g h)" "reserving (open_position_from_amounts w s a b c d e)"
  unfolding save_entry_pending_def save_unpriced_entry_pending_def save_unwind_pending_def open_position_from_amounts_def
  by ((intro reserves_rules)?, simp)+

lemma reserving_pnl [simp]: "reserving (record_unwind_pnl w rs first m a b n)"
  unfolding record_unwind_pnl_def Let_def by (intro reserves_rules) simp_all

lemma reserving_sale [simp]: "reserving (sell_unmatched w rs first sa m a n)"
  unfolding sell_unmatched_def
  by (intro reserves_rules) (simp split: option.split, intro allI impI reserves_rules, simp_all split: option.split add: reserves.seq)

lemma reserving_unwind [simp]: "reserving (unwind_legs w rs sa1 sa2 m a b n1 n2)"
  unfolding unwind_legs_def try_unwind_leg_def by (intro reserves_rules) simp_all

lemma reserving_execution [simp]: "reserving (execute_production w rs inp s)"
proof -
  have normalized: "reserving (normalize_result x)" for x
    by (simp add: normalize_result_def split: sum.split leg_error.split)
  have claims: "reserving (claimed x :: (router, leg_error, unit) act)" for x by (simp add: claimed_def split: option.split)
  have entry: "reserving (guarded_entry w rs inp s)"
    unfolding guarded_entry_def submit_both_def by (intro reserves_rules normalized) simp_all
  have outcome: "reserving (store_outcome w s first second u1 u2 :: (router, leg_error, unit) act)" for first second u1 u2
    unfolding store_outcome_def Let_def by (intro reserves_rules) simp_all
  have settled: "reserving (settle_results w rs inp s first second)" for first second
    unfolding settle_results_def by (intro reserves_rules outcome) simp_all
  show ?thesis
    unfolding execute_production_def
    by (intro reserves_rules claims entry) (simp_all split: option.split add: settled)
qed

lemma reserving_funded [simp]: "reserving (funded_execution w rs si s)"
  unfolding funded_execution_def counted_execution_def guarded_execution_def settle_api_errors_def
  by (intro reserves_rules effect_in_modify) (simp_all add: same_reserves_def)

subsection \<open>Reserving and releasing\<close>

lemma reservation_granted:
  assumes "reserve_signal_capital f g fetched s b = (True, b')" and "bl_cache b \<noteq> []" and "f \<noteq> g"
    and "venue_exact b f" and "venue_exact b g" and "grid_amount (first_required s)" and "grid_amount (second_required s)"
  shows "get_or (bl_reserved b') v 0 = (if v = g then get_or (bl_reserved b) g 0 + second_required s
      else if v = f then get_or (bl_reserved b) f 0 + first_required s else get_or (bl_reserved b) v 0)"
    and "grid_amount (get_or (bl_reserved b) f 0 + first_required s)" "grid_amount (get_or (bl_reserved b) g 0 + second_required s)"
proof -
  have enough: "\<not> available_balance f b < first_required s" "\<not> available_balance g b < second_required s"
    and b': "b' = add_reservation g (second_required s) (add_reservation f (first_required s) b)"
    using assms(1,2) by (auto simp: reserve_signal_capital_def Let_def split: if_splits)
  note ff = reservation_fits [OF assms(4,6) enough(1)] and gg = reservation_fits [OF assms(5,7) enough(2)]
  show "get_or (bl_reserved b') v 0 = (if v = g then get_or (bl_reserved b) g 0 + second_required s
      else if v = f then get_or (bl_reserved b) f 0 + first_required s else get_or (bl_reserved b) v 0)"
    using ff gg assms(3) by (simp add: b' add_reservation_def)
  show "grid_amount (get_or (bl_reserved b) f 0 + first_required s)" "grid_amount (get_or (bl_reserved b) g 0 + second_required s)"
    using ff gg by simp_all
qed

lemma release_undoes_reservation:
  assumes "reserve_signal_capital f g fetched s b = (True, b')" and "bl_cache b \<noteq> []" and "f \<noteq> g"
    and "venue_exact b f" and "venue_exact b g" and "grid_amount (first_required s)" and "grid_amount (second_required s)"
    and "bl_reserved b2 = bl_reserved b'"
  shows "get_or (bl_reserved (release_signal_capital f g s b2)) v 0 = get_or (bl_reserved b) v 0"
proof -
  note granted = reservation_granted [OF assms(1-7)]
  have res_f: "get_or (bl_reserved b2) f 0 = get_or (bl_reserved b) f 0 + first_required s"
    and res_g: "get_or (bl_reserved b2) g 0 = get_or (bl_reserved b) g 0 + second_required s"
    using granted(1) assms(3,8) by simp_all
  show ?thesis
    unfolding release_signal_get [OF assms(3)] res_f res_g released_reservation [OF assms(4,6) granted(2)]
      released_reservation [OF assms(5,7) granted(3)]
    using granted(1) [of v] assms(8) by simp
qed

lemma release_of_nothing:
  assumes "bl_reserved b = []" and "f \<noteq> g" and "grid_amount (first_required s)" and "grid_amount (second_required s)"
  shows "get_or (bl_reserved (release_signal_capital f g s b)) v 0 = 0"
proof -
  have none: "get_or (bl_reserved b) w 0 = 0" for w using assms(1) by (simp add: get_or_def dict_get_def)
  have "max 0 (dsub 0 (first_required s)) = 0" "max 0 (dsub 0 (second_required s)) = 0"
    using grid_dsub(1) [of 0 "first_required s"] grid_dsub(1) [of 0 "second_required s"] assms(3,4)
    by (simp_all add: grid_amount_def)
  then show ?thesis by (simp add: release_signal_get [OF assms(2)] none)
qed

lemma reservation_refused:
  "reserve_signal_capital f g fetched s b = (False, b') \<Longrightarrow> bl_cache b \<noteq> [] \<Longrightarrow> b' = b"
  by (auto simp: reserve_signal_capital_def Let_def split: if_splits)

text \<open>What became of the pending markets and the reservations: as they were, or cleared by a pause.\<close>

definition reserves_restored :: "'y router_scheme \<Rightarrow> string list \<Rightarrow> 'z router_scheme \<Rightarrow> bool" where
  "reserves_restored st pending st' \<longleftrightarrow>
     (rt_pending st' = pending \<and> (\<forall>v. get_or (bl_reserved (rt_bal st')) v 0 = get_or (bl_reserved (rt_bal st)) v 0)) \<or>
     (rt_pending st' = [] \<and> (\<forall>v. get_or (bl_reserved (rt_bal st')) v 0 = 0))"

lemma persist_balances_working:
  "\<forall>n. w_db w n = None \<Longrightarrow> persist_runtime_balance_state w st = (Inr (), (bump st)\<lparr>rt_db := rt_db st\<rparr>)"
  by (simp add: persist_runtime_balance_state_def db_do_def)

definition balances_exact :: "route_setup \<Rightarrow> signal_inputs \<Rightarrow> balances \<Rightarrow> bool" where
  "balances_exact rs si b \<longleftrightarrow> bl_cache b \<noteq> [] \<and> rs_first rs \<noteq> rs_second rs \<and> venue_exact b (rs_first rs) \<and>
     venue_exact b (rs_second rs) \<and> (\<forall>pe. si_preflight si = Inr (Some pe) \<longrightarrow>
       grid_amount (first_required (pe_signal pe)) \<and> grid_amount (second_required (pe_signal pe)))"

lemma prepare_signal_cases:
  assumes "prepare_signal w rs si s st = (r, st')" and "\<forall>n. w_db w n = None" and "bl_cache (rt_bal st) \<noteq> []"
  shows "rt_pending st' = rt_pending st \<and>
    (case r of
       Inr (Some s') \<Rightarrow> (\<exists>pe. si_preflight si = Inr (Some pe) \<and> s' = pe_signal pe \<and>
         reserve_signal_capital (rs_first rs) (rs_second rs) (si_fetched si) s' (rt_bal st) = (True, rt_bal st'))
     | _ \<Rightarrow> rt_bal st' = rt_bal st)"
proof (cases "\<exists>cs pe. si_constraints si = Some cs \<and> constraints_allow cs s \<and> si_preflight si = Inr (Some pe) \<and>
    risk_limits_allow (rs_config rs) (rs_first rs) (rs_second rs) (ledger_all (rt_book st)) (pe_signal pe) (Some (pe_all_in_cost_usd pe))")
  case True
  then obtain cs pe where cs: "si_constraints si = Some cs" "constraints_allow cs s" "si_preflight si = Inr (Some pe)"
    "risk_limits_allow (rs_config rs) (rs_first rs) (rs_second rs) (ledger_all (rt_book st)) (pe_signal pe) (Some (pe_all_in_cost_usd pe))"
    by blast
  obtain ok b where r: "reserve_signal_capital (rs_first rs) (rs_second rs) (si_fetched si) (pe_signal pe) (rt_bal st) = (ok, b)"
    by fastforce
  show ?thesis
    using assms(1) r cs reservation_refused [OF _ assms(3)]
    by (cases ok) (auto simp: prepare_signal_def of_res_def andthen_def andalso_def ret_def gets_def modify_def reserve_capital_def
        persist_balances_working [OF assms(2)])
next
  case False
  then show ?thesis
    using assms(1)
    by (auto simp: prepare_signal_def of_res_def andthen_def andalso_def ret_def raise_def gets_def
        split: option.splits if_splits sum.splits)
qed

lemma ensure_release:
  assumes "ensure (funded_execution w rs si s') (andalso (release_capital w rs s') (discard_pending key)) st2 = (res, st')"
    and "\<forall>n. w_db w n = None"
  obtains st3 where "same_reserves st2 st3" "rt_pending st' = removeAll key (rt_pending st3)"
    "rt_bal st' = release_signal_capital (rs_first rs) (rs_second rs) s' (rt_bal st3)"
proof -
  obtain r st3 where f: "funded_execution w rs si s' st2 = (r, st3)" by fastforce
  have "same_reserves st2 st3" using effect_inD [OF reserving_funded f] .
  moreover have "rt_pending st' = removeAll key (rt_pending st3) \<and>
      rt_bal st' = release_signal_capital (rs_first rs) (rs_second rs) s' (rt_bal st3)"
    using assms(1) by (auto simp: ensure_def f release_capital_def andalso_def andthen_def modify_def discard_pending_def
        persist_balances_working [OF assms(2)])
  ultimately show thesis using that by blast
qed

lemma reserved_execution_restores:
  assumes "reserved_execution w rs si s st1 = (res, st')" and "\<forall>n. w_db w n = None" and "balances_exact rs si (rt_bal st1)"
  shows "reserves_restored st1 (removeAll (m_symbol (s_market s)) (rt_pending st1)) st'"
proof -
  let ?key = "m_symbol (s_market s)"
  have cache: "bl_cache (rt_bal st1) \<noteq> []" using assms(3) by (simp add: balances_exact_def)
  obtain r st2 where p: "prepare_signal w rs si s st1 = (r, st2)" by fastforce
  note cases = prepare_signal_cases [OF p assms(2) cache]
  show ?thesis
  proof (cases "\<exists>s'. r = Inr (Some s')")
    case True
    then obtain s' where r: "r = Inr (Some s')" by blast
    with cases obtain pe where pe: "si_preflight si = Inr (Some pe)" "s' = pe_signal pe" "rt_pending st2 = rt_pending st1"
      and granted: "reserve_signal_capital (rs_first rs) (rs_second rs) (si_fetched si) s' (rt_bal st1) = (True, rt_bal st2)"
      by auto
    have exact: "rs_first rs \<noteq> rs_second rs" "venue_exact (rt_bal st1) (rs_first rs)" "venue_exact (rt_bal st1) (rs_second rs)"
      "grid_amount (first_required s')" "grid_amount (second_required s')"
      using assms(3) pe by (simp_all add: balances_exact_def)
    have "ensure (funded_execution w rs si s') (andalso (release_capital w rs s') (discard_pending ?key)) st2 = (res, st')"
      using assms(1) by (simp add: reserved_execution_def catch_def andthen_def p r)
    from ensure_release [OF this assms(2)] obtain st3 where st3: "same_reserves st2 st3"
      "rt_pending st' = removeAll ?key (rt_pending st3)"
      "rt_bal st' = release_signal_capital (rs_first rs) (rs_second rs) s' (rt_bal st3)" .
    from st3(1) show ?thesis
      unfolding same_reserves_def reserves_restored_def
      using st3(2,3) pe(3) release_undoes_reservation [OF granted cache exact] release_of_nothing [OF _ exact(1,4,5)] by auto
  next
    case False
    then have "rt_pending st2 = rt_pending st1" "rt_bal st2 = rt_bal st1"
      using cases by (auto split: sum.splits option.splits)
    moreover have "rt_pending st' = removeAll ?key (rt_pending st2) \<and> rt_bal st' = rt_bal st2"
      using assms(1) False
      by (auto simp: reserved_execution_def catch_def andthen_def p andalso_def discard_pending_def modify_def raise_def
          split: sum.splits option.splits)
    ultimately show ?thesis by (simp add: reserves_restored_def)
  qed
qed

lemma canary_guard_open: "canary_guard w st = (Inr True, st') \<Longrightarrow> st' = bump st"
  by (auto simp: canary_guard_def canary_window_open_def andthen_def ret_def andalso_def split: if_splits prod.splits sum.splits)

lemma restored_by_reserving: "same_reserves st st' \<Longrightarrow> reserves_restored st (rt_pending st) st'"
  by (auto simp: same_reserves_def reserves_restored_def get_or_def dict_get_def)

lemma handle_signal_locked_restores:
  assumes "handle_signal_locked w rs si s st = (res, st')" and "\<forall>n. w_db w n = None" and "balances_exact rs si (rt_bal st)"
  shows "reserves_restored st (rt_pending st) st'"
proof (cases "entry_submission_window_open (s_market s) (''SX Bet'' \<in> {rs_first rs, rs_second rs}) (as_utc (w_now w (rt_tick st))) \<and>
    capacity_allows rs s (bump st)")
  case True
  then have fresh: "m_symbol (s_market s) \<notin> set (rt_pending st)" by (simp add: capacity_allows_def)
  let ?st1 = "(bump st)\<lparr>rt_pending := rt_pending st @ [m_symbol (s_market s)]\<rparr>"
  have run: "reserved_execution w rs si s ?st1 = (res, st')"
    using assms(1) True
    by (simp add: handle_signal_locked_def cutoff_guard_def andthen_def andalso_def gets_def modify_def)
  have "balances_exact rs si (rt_bal ?st1)" using assms(3) by simp
  from reserved_execution_restores [OF run assms(2) this] fresh show ?thesis
    by (simp add: reserves_restored_def)
next
  case False
  then have "st' = bump st"
    using assms(1) by (auto simp: handle_signal_locked_def cutoff_guard_def andthen_def gets_def ret_def split: if_splits)
  then show ?thesis by (simp add: reserves_restored_def)
qed

lemma handle_signal_restores:
  assumes "handle_signal w rs si s st = (res, st')" and "\<forall>n. w_db w n = None" and "balances_exact rs si (rt_bal st)"
  shows "reserves_restored st (rt_pending st) st'"
proof (cases "\<exists>st1. canary_guard w st = (Inr True, st1) \<and> handle_signal_locked w rs si s st1 = (res, st')")
  case True
  then obtain st1 where "canary_guard w st = (Inr True, st1)" and run: "handle_signal_locked w rs si s st1 = (res, st')" by blast
  then have st1: "st1 = bump st" by (simp add: canary_guard_open)
  with handle_signal_locked_restores [OF run assms(2)] assms(3) show ?thesis by (simp add: reserves_restored_def)
next
  case False
  obtain r st1 where c: "canary_guard w st = (r, st1)" by fastforce
  have "same_reserves st st1" using effect_inD [OF reserving_canary c] .
  moreover have "st' = st \<or> st' = st1"
    using assms(1) False c by (auto simp: handle_signal_def andthen_def gets_def ret_def split: if_splits sum.splits)
  ultimately show ?thesis using restored_by_reserving reserves.R_refl by blast
qed

section \<open>Where the filled contracts go\<close>

text \<open>The amounts a connector can report for a sale.\<close>

definition sale_amounts :: "venue_script \<Rightarrow> dec set" where
  "sale_amounts v = er_amount_filled ` ({rep. Inr rep \<in> {vs_wait v, vs_cancel_wait v, vs_rewait v}} \<union>
     {rep. \<exists>n. Inl (Residual_Exposure rep n) \<in> {vs_wait v, vs_rewait v}} \<union> {rep. \<exists>n. vs_result v = Inl (Residual_Exposure rep n)})"

definition amount_known :: "venue_script \<Rightarrow> leg_result \<Rightarrow> bool" where
  "amount_known v x \<longleftrightarrow> (\<forall>rep. lg_report x = Some rep \<longrightarrow> er_amount_filled rep \<in> sale_amounts v)"

definition residual_known :: "venue_script \<Rightarrow> leg_error \<Rightarrow> bool" where
  "residual_known v e \<longleftrightarrow> (\<forall>rep n. e = Residual_Exposure rep n \<longrightarrow> er_amount_filled rep \<in> sale_amounts v)"

abbreviation raising_known :: "venue_script \<Rightarrow> ('s, leg_error, 'a) act \<Rightarrow> bool" where
  "raising_known v m \<equiv> hoare (\<lambda>_. True) m (\<lambda>_ _. True) (\<lambda>e _. residual_known v e)"

lemma failure_known [simp]: "residual_known v (failure_of e)" "residual_known v (Submission_Rejected a b)"
  "residual_known v (Other_Failure a b)" "residual_known v Cancelled"
  by (auto simp: residual_known_def failure_of_def split: py_error.splits)

lemma known_db: "\<forall>n. w_db w n = None \<Longrightarrow> raising_known v (db_do w f)"
  by (auto simp: hoare_def db_do_def split: sum.splits)

lemma known_set_intent: "\<forall>n. w_db w n = None \<Longrightarrow> raising_known v (set_intent w cid st vid err)"
  by (auto simp: hoare_def set_intent_def db_do_def split: sum.splits)

lemma known_pause: "raising_known v (risk_pause reason w)"
  by (auto simp: hoare_def risk_pause_def andthen_def ret_def controlled_def Let_def split: sum.splits)

lemma known_plain: "raising_known v (gets f)" "raising_known v (modify g)" "raising_known v (ret x)"
  by (simp_all add: hoare_def act_defs)

lemma known_bind: "(\<And>x. raising_known v (f x)) \<Longrightarrow> raising_known v m \<Longrightarrow> raising_known v (andthen m f)"
  by (rule hoare_andthen)

lemma known_seq: "raising_known v m' \<Longrightarrow> raising_known v m \<Longrightarrow> raising_known v (andalso m m')"
  by (rule hoare_andalso)

lemma known_raise: "residual_known v e \<Longrightarrow> raising_known v (raise e)"
  by (rule hoare_raise')

lemma known_when: "raising_known v m \<Longrightarrow> raising_known v (when_do c m)"
  by (simp add: when_do_def hoare_def ret_def)

lemma known_queries: "raising_known v (canary_window_open w)" "raising_known v (entry_runtime_ready w)"
  by (auto simp: hoare_def canary_window_open_def entry_runtime_ready_def)

lemmas known_rules = known_bind known_seq known_when known_plain known_pause known_queries hoare_if_same known_raise

lemma known_canary: "raising_known v (canary_guard w)"
  unfolding canary_guard_def by (intro known_rules)

lemma known_persist: "\<forall>n. w_db w n = None \<Longrightarrow> raising_known v (persist_order_id w entry r oid)"
  unfolding persist_order_id_def set_order_id_def by (intro known_rules known_canary known_set_intent) simp_all

lemma known_calls: "\<forall>n. w_db w n = None \<Longrightarrow> raising_known v (run_calls w entry r cs)"
proof (induction cs)
  case (Cons x cs)
  have "raising_known v (assert_pre_transport_ready w)"
    unfolding assert_pre_transport_ready_def by (intro known_rules) simp_all
  with Cons show ?case by (cases x) (auto intro!: known_seq known_when known_persist)
qed (simp add: known_plain)

lemma exit_report_known:
  assumes "\<forall>n. w_db w n = None"
  shows "hoare (\<lambda>_. True) (acknowledged_report w entry r v) (\<lambda>rep _. er_amount_filled rep \<in> sale_amounts v) (\<lambda>e _. residual_known v e)"
proof -
  have submit: "raising_known v (submit w entry r v)"
    unfolding submit_def by (intro known_seq known_calls assms)
      (auto simp: hoare_def of_result_def residual_known_def sale_amounts_def split: sum.split)
  have wait: "hoare (\<lambda>_. True) (of_result (vs_wait v)) (\<lambda>rep _. er_amount_filled rep \<in> sale_amounts v) (\<lambda>e _. residual_known v e)"
    by (auto simp: hoare_def of_result_def residual_known_def sale_amounts_def split: sum.split)
  have reconcile: "hoare (\<lambda>_. er_amount_filled rep \<in> sale_amounts v) (if is_filled rep then ret rep else cancel_and_reconcile v rep)
      (\<lambda>rep _. er_amount_filled rep \<in> sale_amounts v) (\<lambda>e _. residual_known v e)" for rep
    by (auto simp: hoare_def cancel_and_reconcile_def ret_def raise_def sale_amounts_def split: sum.splits leg_error.splits)
  have keep: "hoare (\<lambda>_. A) m (\<lambda>_ _. A) (\<lambda>e _. residual_known v e)" if "raising_known v m" for A and m :: "unit leg_act"
    using that by (auto simp: hoare_def split: prod.splits sum.splits)
  have unknown: "raising_known v (pause_unknown w r st)" for st
    unfolding pause_unknown_def by (intro known_rules)
  have local_moves: "raising_known v (set_order_id oid :: unit leg_act)" "raising_known v (activate r oid :: unit leg_act)" for oid
    by (simp_all add: set_order_id_def activate_def known_plain)
  show ?thesis
    unfolding acknowledged_report_def
    by (intro hoare_andthen [OF _ submit] hoare_andthen [OF _ hoare_gets_same] hoare_if_same hoare_raise'
        hoare_andalso [OF _ local_moves(1)] hoare_andalso [OF _ local_moves(2)]
        hoare_andalso [OF _ known_set_intent [OF assms]] hoare_andthen [OF _ wait] hoare_andthen [OF _ reconcile]
        hoare_andalso [OF _ keep [OF known_set_intent [OF assms]]] hoare_andalso [OF _ keep [OF unknown]] hoare_ret')
      (simp_all add: stamped_def)
qed

text \<open>A precondition that does not mention the state passes every computation.\<close>

lemma any_bind: "(\<And>x. hoare (\<lambda>_. A) (f x) Q (\<lambda>_ _. True)) \<Longrightarrow> hoare (\<lambda>_. A) (andthen m f) Q (\<lambda>_ _. True)"
  by (rule hoare_andthen [where R = "\<lambda>_ _. A"]) (auto simp: hoare_def split: prod.splits sum.splits)

lemma any_seq: "hoare (\<lambda>_. A) m' Q (\<lambda>_ _. True) \<Longrightarrow> hoare (\<lambda>_. A) (andalso m m') Q (\<lambda>_ _. True)"
  unfolding andalso_def by (rule any_bind)

lemma exit_failed_known: "hoare (\<lambda>_. True) (exit_failed w r v e) (\<lambda>x _. amount_known v x) (\<lambda>_ _. True)"
proof -
  have reconciled: "hoare (\<lambda>_. True) (exit_reconciled r v e)
      (\<lambda>(rep, err) _. \<forall>x. rep = Some x \<longrightarrow> er_amount_filled x \<in> sale_amounts v) (\<lambda>_ _. True)"
    unfolding exit_reconciled_def
    by (intro any_bind) (auto simp: hoare_def ret_def raise_def sale_amounts_def stamped_def split: sum.splits leg_error.splits)
  have final: "hoare (\<lambda>_. \<forall>x. rep = Some x \<longrightarrow> er_amount_filled x \<in> sale_amounts v) (andthen (gets ls_order_id) (\<lambda>oid.
       andalso ((if is_residual err then best_effort else (\<lambda>m. m))
         (set_intent w (lr_client_order_id r) (exit_status err rep) (known_id oid) (Some (error_text err))))
       (andalso (pause_unknown w r (exit_status err rep))
       (andalso (when_do (is_residual err) (pause_residual w r))
       (ret \<lparr>lg_order_id = oid, lg_report = rep, lg_error = Some err\<rparr>))))) (\<lambda>x _. amount_known v x) (\<lambda>_ _. True)" for rep err
    by (intro any_bind any_seq hoare_ret') (simp add: amount_known_def)
  show ?thesis
    unfolding exit_failed_def
    by (rule any_seq, rule hoare_andthen [OF _ reconciled]) (simp add: final split: prod.split)
qed

lemma exit_leg_known:
  assumes "\<forall>n. w_db w n = None"
  shows "hoare (\<lambda>_. True) (exit_leg w False r v) (\<lambda>x _. amount_known v x) (\<lambda>_ _. True)"
proof -
  have body: "hoare (\<lambda>_. True) (andthen (acknowledged_report w False r v) (\<lambda>rep. andthen (gets ls_order_id) (\<lambda>oid.
       ret \<lparr>lg_order_id = oid, lg_report = Some rep, lg_error = None\<rparr>)))
      (\<lambda>x _. amount_known v x) (\<lambda>e _. residual_known v e)"
    by (intro hoare_andthen [OF _ exit_report_known [OF assms]] hoare_andthen [OF hoare_ret' hoare_gets_same])
      (simp add: amount_known_def)
  have handler: "hoare (\<lambda>_. residual_known v e) (case e of Residual_Exposure rep n \<Rightarrow> exit_residual w r rep e
      | Cancelled \<Rightarrow> leg_cancelled w r ''exit submission cancelled during shutdown'' | _ \<Rightarrow> exit_failed w r v e)
      (\<lambda>x _. amount_known v x) (\<lambda>_ _. True)" for e
  proof (cases e)
    case (Residual_Exposure rep n)
    then show ?thesis
      by (cases "residual_known v e")
        (simp_all add: hoare_def exit_residual_def andalso_def andthen_def ret_def amount_known_def residual_known_def stamped_def
          split: prod.splits sum.splits)
  next
    case Cancelled
    then show ?thesis
      by (auto simp: leg_cancelled_def hoare_def andthen_def andalso_def gets_def raise_def split: prod.splits sum.splits)
  qed (use hoare_pre [OF exit_failed_known] in auto)
  have guarded: "hoare (\<lambda>_. True) (exit_guarded w r v) (\<lambda>x _. amount_known v x) (\<lambda>_ _. True)"
    unfolding exit_guarded_def by (rule hoare_finally, rule hoare_catch [OF handler body])
  show ?thesis
    unfolding exit_leg_def by (simp add: any_seq guarded)
qed

lemma submit_exit_known:
  assumes "\<forall>n. w_db w n = None" and "submit_exit_leg w False r v s = (Inr x, s')"
  shows "amount_known v x"
proof -
  obtain t where "exit_leg w False r v (router.extend s (leg_state.fields NO_ORDER False)) = (Inr x, t)"
    using assms(2) by (auto simp: submit_exit_leg_def elim: with_locals_result)
  from hoareD_return [OF exit_leg_known [OF assms(1)] TrueI this] show ?thesis .
qed

subsection \<open>What a sale can sell\<close>

definition sale_exact :: "sale_inputs \<Rightarrow> bool" where
  "sale_exact sa \<longleftrightarrow> (\<forall>a \<in> sale_amounts (sa_script sa). grid_amount a)"

definition sold_within :: "dec \<Rightarrow> dec \<Rightarrow> bool" where
  "sold_within n u \<longleftrightarrow> grid_amount u \<and> u \<le> n"

lemma grid_0 [simp]: "grid_amount 0"
  by (simp add: grid_amount_def)

lemma sell_unmatched_within:
  assumes "\<forall>n. w_db w n = None" and "sale_exact sa" and "grid_amount n"
    and "sell_unmatched w rs first sa m entry n st = (Inr u, st')"
  shows "sold_within n u"
proof -
  have zero: "sold_within n 0" using assms(3) by (simp add: sold_within_def grid_amount_def)
  obtain bid where bid: "sa_bid sa = Inr bid"
    using assms(4) by (auto simp: sell_unmatched_def andthen_def of_result_def split: sum.splits)
  show ?thesis
  proof (cases bid)
    case None
    then show ?thesis using assms(4) bid zero by (auto simp: sell_unmatched_def andthen_def of_result_def ret_def)
  next
    case (Some b)
    obtain r where r: "request_for rs first (sa_cid sa) m n (flt_repr (unwind_price b)) 0 = Inr r"
      using assms(4) bid Some
      by (auto simp: sell_unmatched_def andthen_def of_result_def of_res_def raise_def split: sum.splits)
    obtain x st1 where x: "submit_exit_leg w False r (sa_script sa) st = (Inr x, st1)"
      using assms(4) bid Some r
      by (auto simp: sell_unmatched_def andthen_def of_result_def of_res_def ret_def split: sum.splits prod.splits)
    show ?thesis
    proof (cases "lg_report x")
      case None
      then show ?thesis
        using assms(4) bid Some r x zero by (auto simp: sell_unmatched_def andthen_def of_result_def of_res_def ret_def)
    next
      case (Some rep)
      then have "u = min n (er_amount_filled rep)"
        using assms(4) bid \<open>bid = Some b\<close> r x
        by (auto simp: sell_unmatched_def andthen_def andalso_def of_result_def of_res_def ret_def split: sum.splits prod.splits)
      moreover have "grid_amount (er_amount_filled rep)"
        using submit_exit_known [OF assms(1) x] Some assms(2) by (auto simp: amount_known_def sale_exact_def)
      ultimately show ?thesis using assms(3) by (auto simp: sold_within_def min_def)
    qed
  qed
qed

lemma try_unwind_within:
  assumes "\<forall>n. w_db w n = None" and "sale_exact sa" and "grid_amount n"
    and "try_unwind_leg w rs first sa m entry n st = (Inr u, st')"
  shows "sold_within n u"
  using assms(4) sell_unmatched_within [OF assms(1-3)] assms(3)
  by (auto simp: try_unwind_leg_def catch_def ret_def raise_def sold_within_def grid_amount_def
      split: prod.splits sum.splits if_splits)

lemma unwind_legs_within:
  assumes "\<forall>n. w_db w n = None" and "sale_exact sa1" and "sale_exact sa2" and "grid_amount n1" and "grid_amount n2"
    and "unwind_legs w rs sa1 sa2 m entry1 entry2 n1 n2 st = (Inr (u1, u2), st')"
  shows "sold_within n1 u1 \<and> sold_within n2 u2"
proof -
  have zero: "sold_within n1 0" "sold_within n2 0" using assms(4,5) by (simp_all add: sold_within_def grid_amount_def)
  obtain st1 where 1: "(if dec_eps < n1 then try_unwind_leg w rs True sa1 m entry1 n1 else ret 0) st = (Inr u1, st1)"
    and 2: "(if dec_eps < n2 then try_unwind_leg w rs False sa2 m entry2 n2 else ret 0) st1 = (Inr u2, st')"
    using assms(6) by (auto simp: unwind_legs_def andthen_def ret_def split: prod.splits sum.splits if_splits)
  show ?thesis
    using 1 2 zero try_unwind_within [OF assms(1,2,4)] try_unwind_within [OF assms(1,3,5)]
    by (auto simp: ret_def split: if_splits)
qed

subsection \<open>The stores\<close>

lemma store_position_working:
  assumes "\<forall>n. w_db w n = None"
  shows "store_position w p st = (Inr (), (bump st)\<lparr>rt_db := save_position (position_key (p_market p)) p (rt_db st),
    rt_book := ledger_add p (rt_book st)\<rparr>)"
  using assms by (simp add: store_position_def andalso_def andthen_def db_do_def modify_def)

lemma erase_position_working:
  assumes "\<forall>n. w_db w n = None"
  shows "erase_position w key st = (Inr (), (bump st)\<lparr>rt_db := remove_position key (rt_db st), rt_book := ledger_remove key (rt_book st)\<rparr>)"
  using assms by (simp add: erase_position_def andalso_def andthen_def db_do_def modify_def)

lemma book_after_add: "dict_get (ledger_add p l) (position_key (p_market p)) = Some p"
  by (simp add: ledger_add_def dict_get_set)

lemma book_after_remove: "dict_get (ledger_remove key l) key = None"
  by (simp add: ledger_remove_def)

subsection \<open>The amounts in the ledger\<close>

text \<open>
  A pair of amounts is held: nothing beyond dust, or a position with these contracts, open and
  matched, or with the part that is still to be sold marked as unmatched.
\<close>

definition held_as :: "open_position option \<Rightarrow> dec \<Rightarrow> dec \<Rightarrow> dec \<Rightarrow> bool" where
  "held_as entry n1 n2 matched \<longleftrightarrow> (case entry of
     None \<Rightarrow> n1 \<le> 2 * dec_eps \<and> n2 \<le> 2 * dec_eps
   | Some p \<Rightarrow> \<bar>p_polymarket_contracts p - n1\<bar> \<le> dec_eps \<and> \<bar>p_predict_fun_contracts p - n2\<bar> \<le> dec_eps \<and>
      (if p_status p = ''open'' then p_polymarket_contracts p = p_predict_fun_contracts p
       else p_status p = ''unwind_pending'' \<and> p_unmatched_first_contracts p = p_polymarket_contracts p - matched \<and>
         p_unmatched_second_contracts p = p_predict_fun_contracts p - matched))"


lemma left_exact:
  assumes "grid_amount n" and "sold_within n u"
  shows "max 0 (dsub n u) = n - u" and "grid_amount (n - u)"
  using grid_dsub [of n u] assms by (auto simp: sold_within_def)




subsection \<open>Retries\<close>

text \<open>A position that waits for the sale of its unmatched contracts, as the router stores it.\<close>

definition awaiting_sale :: "string \<Rightarrow> open_position \<Rightarrow> bool" where
  "awaiting_sale key p \<longleftrightarrow> position_key (p_market p) = key \<and> p_status p = ''unwind_pending'' \<and>
     grid_amount (p_polymarket_contracts p) \<and> grid_amount (p_predict_fun_contracts p) \<and>
     grid_amount (p_unmatched_first_contracts p) \<and> grid_amount (p_unmatched_second_contracts p) \<and>
     p_unmatched_first_contracts p \<le> p_polymarket_contracts p \<and> p_unmatched_second_contracts p \<le> p_predict_fun_contracts p \<and>
     p_polymarket_contracts p - p_unmatched_first_contracts p = p_predict_fun_contracts p - p_unmatched_second_contracts p \<and>
     position_post_init p = Inr p"

text \<open>The lists of residual exits are what the constructor normalises.\<close>

lemma post_init_amounts:
  "position_post_init p = Inr p \<Longrightarrow> position_post_init (p\<lparr>p_polymarket_contracts := a, p_predict_fun_contracts := b, p_status := c,
     p_unwind_attempts := d, p_unmatched_first_contracts := e, p_unmatched_second_contracts := f\<rparr>) =
   Inr (p\<lparr>p_polymarket_contracts := a, p_predict_fun_contracts := b, p_status := c,
     p_unwind_attempts := d, p_unmatched_first_contracts := e, p_unmatched_second_contracts := f\<rparr>)"
  by (cases p) (auto simp: position_post_init_def res_simps)

lemma record_shape:
  "p\<lparr>p_polymarket_contracts := a, p_predict_fun_contracts := b, p_unwind_attempts := d, p_unmatched_first_contracts := e,
     p_unmatched_second_contracts := f\<rparr> = p\<lparr>p_polymarket_contracts := a, p_predict_fun_contracts := b, p_status := p_status p,
     p_unwind_attempts := d, p_unmatched_first_contracts := e, p_unmatched_second_contracts := f\<rparr>"
  by (cases p) simp

lemma after_unwind_cases:
  assumes "awaiting_sale key p" and "sold_within (p_unmatched_first_contracts p) u1" and "sold_within (p_unmatched_second_contracts p) u2"
  shows "case after_unwind p u1 u2 of
     None \<Rightarrow> p_unmatched_first_contracts p - u1 \<le> dec_eps \<and> p_unmatched_second_contracts p - u2 \<le> dec_eps \<and>
       p_polymarket_contracts p - u1 \<le> 2 * dec_eps \<and> p_predict_fun_contracts p - u2 \<le> 2 * dec_eps
   | Some q \<Rightarrow> position_post_init q = Inr q \<and> position_key (p_market q) = key \<and>
      held_as (Some q) (p_polymarket_contracts p - u1) (p_predict_fun_contracts p - u2)
        (p_polymarket_contracts p - p_unmatched_first_contracts p) \<and>
      (if p_unmatched_first_contracts p - u1 \<le> dec_eps \<and> p_unmatched_second_contracts p - u2 \<le> dec_eps
       then p_status q = ''open''
       else awaiting_sale key q \<and> p_unmatched_first_contracts q = p_unmatched_first_contracts p - u1 \<and>
         p_unmatched_second_contracts q = p_unmatched_second_contracts p - u2)"
proof -
  have g: "grid_amount (p_polymarket_contracts p)" "grid_amount (p_predict_fun_contracts p)"
    "grid_amount (p_unmatched_first_contracts p)" "grid_amount (p_unmatched_second_contracts p)"
    and le: "p_unmatched_first_contracts p \<le> p_polymarket_contracts p" "p_unmatched_second_contracts p \<le> p_predict_fun_contracts p"
    and matched: "p_polymarket_contracts p - p_unmatched_first_contracts p = p_predict_fun_contracts p - p_unmatched_second_contracts p"
    and post: "position_post_init p = Inr p" and key: "position_key (p_market p) = key" and st: "p_status p = ''unwind_pending''"
    using assms(1) by (simp_all add: awaiting_sale_def)
  note l1 = left_exact [OF g(3) assms(2)] and l2 = left_exact [OF g(4) assms(3)]
  have w1: "sold_within (p_polymarket_contracts p) u1" and w2: "sold_within (p_predict_fun_contracts p) u2"
    using assms(2,3) le by (auto simp: sold_within_def)
  note n1 = left_exact [OF g(1) w1] and n2 = left_exact [OF g(2) w2]
  note run = after_unwind_def [of p u1 u2, unfolded Let_def l1(1) l2(1) n1(1) n2(1)]
  show ?thesis
  proof (cases "p_unmatched_first_contracts p - u1 \<le> dec_eps \<and> p_unmatched_second_contracts p - u2 \<le> dec_eps")
    case True
    with matched le assms(2,3) show ?thesis
      by (auto simp: run key held_as_def post_init_amounts [OF post] sold_within_def grid_amount_def min_def)
  next
    case False
    with matched le l1(2) l2(2) n1(2) n2(2) show ?thesis
      by (auto simp: run key st held_as_def record_shape post_init_amounts [OF post] awaiting_sale_def)
  qed
qed

text \<open>The sales a retry makes, seen from the position it starts with.\<close>

definition retry_sales ::
  "world \<Rightarrow> route_setup \<Rightarrow> sale_inputs \<times> sale_inputs \<Rightarrow> open_position \<Rightarrow> (router, leg_error, dec \<times> dec) act" where
  "retry_sales w rs sas p = unwind_legs w rs (fst sas) (snd sas) (p_market p) (flt_repr (flt_round (p_polymarket_entry_price p)))
     0 (p_unmatched_first_contracts p) (p_unmatched_second_contracts p)"

lemma retry_step:
  assumes "\<forall>n. w_db w n = None" and "sale_exact (fst sas)" and "sale_exact (snd sas)" and "awaiting_sale key p"
    and "retry_sales w rs sas p st = (Inr (u1, u2), st1)"
  shows "retry_pending_unwind w rs (fst sas) (snd sas) p st = (Inr (), snd (retry_pending_unwind w rs (fst sas) (snd sas) p st))"
    and "dict_get (rt_book (snd (retry_pending_unwind w rs (fst sas) (snd sas) p st))) key = after_unwind p u1 u2"
    and "sold_within (p_unmatched_first_contracts p) u1" and "sold_within (p_unmatched_second_contracts p) u2"
proof -
  have g: "grid_amount (p_unmatched_first_contracts p)" "grid_amount (p_unmatched_second_contracts p)"
    and st: "p_status p = ''unwind_pending''" and key: "position_key (p_market p) = key"
    using assms(4) by (simp_all add: awaiting_sale_def)
  have "sold_within (p_unmatched_first_contracts p) u1 \<and> sold_within (p_unmatched_second_contracts p) u2"
    using unwind_legs_within [OF assms(1-3) g assms(5) [unfolded retry_sales_def]] .
  then show u: "sold_within (p_unmatched_first_contracts p) u1" "sold_within (p_unmatched_second_contracts p) u2" by simp_all
  note run = assms(5) [unfolded retry_sales_def]
  have "retry_pending_unwind w rs (fst sas) (snd sas) p st = (Inr (), snd (retry_pending_unwind w rs (fst sas) (snd sas) p st)) \<and>
    dict_get (rt_book (snd (retry_pending_unwind w rs (fst sas) (snd sas) p st))) key = after_unwind p u1 u2"
  proof (cases "after_unwind p u1 u2")
    case None
    then show ?thesis
      by (simp add: retry_pending_unwind_def st andthen_def run erase_position_working [OF assms(1)] key book_after_remove)
  next
    case (Some q)
    with after_unwind_cases [OF assms(4) u] have "position_post_init q = Inr q" "position_key (p_market q) = key" by simp_all
    then show ?thesis
      using book_after_add [of q "rt_book st1"]
      by (simp add: retry_pending_unwind_def st andthen_def run Some of_res_def ret_def store_position_working [OF assms(1)])
  qed
  then show "retry_pending_unwind w rs (fst sas) (snd sas) p st = (Inr (), snd (retry_pending_unwind w rs (fst sas) (snd sas) p st))"
    and "dict_get (rt_book (snd (retry_pending_unwind w rs (fst sas) (snd sas) p st))) key = after_unwind p u1 u2" by simp_all
qed

text \<open>
  What the position manager does with one market over its ticks: it looks the position up and
  retries it while it waits for a sale.
\<close>

fun retries :: "world \<Rightarrow> route_setup \<Rightarrow> string \<Rightarrow> (sale_inputs \<times> sale_inputs) list \<Rightarrow> router \<Rightarrow> router" where
  "retries w rs key [] st = st"
| "retries w rs key (sas # rest) st = (case dict_get (rt_book st) key of
     None \<Rightarrow> retries w rs key rest st
   | Some p \<Rightarrow> retries w rs key rest (snd (retry_pending_unwind w rs (fst sas) (snd sas) p st)))"

text \<open>Every retry sells \<open>d\<close> contracts of what waits on a leg, or all of it.\<close>

fun delivering :: "world \<Rightarrow> route_setup \<Rightarrow> string \<Rightarrow> dec \<Rightarrow> (sale_inputs \<times> sale_inputs) list \<Rightarrow> router \<Rightarrow> bool" where
  "delivering w rs key d [] st = True"
| "delivering w rs key d (sas # rest) st = (case dict_get (rt_book st) key of
     None \<Rightarrow> True
   | Some p \<Rightarrow> p_status p \<noteq> ''unwind_pending'' \<or>
      (case retry_sales w rs sas p st of
         (Inr (u1, u2), _) \<Rightarrow>
           (p_unmatched_first_contracts p \<le> dec_eps \<or> min d (p_unmatched_first_contracts p) \<le> u1) \<and>
           (p_unmatched_second_contracts p \<le> dec_eps \<or> min d (p_unmatched_second_contracts p) \<le> u2) \<and>
           delivering w rs key d rest (snd (retry_pending_unwind w rs (fst sas) (snd sas) p st))
       | _ \<Rightarrow> False))"

definition resolved :: "string \<Rightarrow> router \<Rightarrow> bool" where
  "resolved key st \<longleftrightarrow> (case dict_get (rt_book st) key of None \<Rightarrow> True | Some p \<Rightarrow> p_status p \<noteq> ''unwind_pending'')"

lemma retries_resolved: "resolved key st \<Longrightarrow> resolved key (retries w rs key sales st)"
  by (induction sales) (auto simp: resolved_def retry_pending_unwind_def ret_def split: option.splits)

definition covered :: "dec \<Rightarrow> nat \<Rightarrow> dec \<Rightarrow> bool" where
  "covered n k d \<longleftrightarrow> n \<le> of_nat k * d \<or> n \<le> dec_eps"

lemma covered_step:
  assumes "covered n (Suc k) d" and "n \<le> dec_eps \<or> min d n \<le> u" and "0 \<le> u"
  shows "covered (n - u) k d"
proof (cases "n \<le> dec_eps")
  case True
  then show ?thesis using assms(3) by (auto simp: covered_def)
next
  case False
  then have "n \<le> of_nat k * d + d" "min d n \<le> u" using assms(1,2) by (auto simp: covered_def algebra_simps)
  then show ?thesis by (cases "d \<le> n") (auto simp: covered_def min_def intro: order_trans [OF _ less_imp_le [OF dec_eps_pos(1)]])
qed

lemma retries_resolve:
  assumes "\<forall>n. w_db w n = None" and "\<forall>(sa1, sa2) \<in> set sales. sale_exact sa1 \<and> sale_exact sa2"
    and "delivering w rs key d sales st" and "dict_get (rt_book st) key = Some p" and "awaiting_sale key p"
    and "sales \<noteq> []" and "covered (p_unmatched_first_contracts p) (length sales) d"
    and "covered (p_unmatched_second_contracts p) (length sales) d"
  shows "resolved key (retries w rs key sales st)"
  using assms(2-8)
proof (induction sales arbitrary: st p)
  case Nil
  then show ?case by simp
next
  case (Cons sas rest)
  let ?st' = "snd (retry_pending_unwind w rs (fst sas) (snd sas) p st)"
  have pending: "p_status p = ''unwind_pending''" using Cons.prems(4) by (simp add: awaiting_sale_def)
  from Cons.prems(2,3) pending obtain u1 u2 st1 where sold: "retry_sales w rs sas p st = (Inr (u1, u2), st1)"
    and d1: "p_unmatched_first_contracts p \<le> dec_eps \<or> min d (p_unmatched_first_contracts p) \<le> u1"
    and d2: "p_unmatched_second_contracts p \<le> dec_eps \<or> min d (p_unmatched_second_contracts p) \<le> u2"
    and next_run: "delivering w rs key d rest ?st'"
    by (auto split: prod.splits sum.splits)
  have exact: "sale_exact (fst sas)" "sale_exact (snd sas)" using Cons.prems(1) by (auto split: prod.splits)
  note step = retry_step [OF assms(1) exact Cons.prems(4) sold]
  note cases = after_unwind_cases [OF Cons.prems(4) step(3,4)]
  have pos: "0 \<le> u1" "0 \<le> u2" using step(3,4) by (simp_all add: sold_within_def grid_amount_def)
  have run: "retries w rs key (sas # rest) st = retries w rs key rest ?st'" using Cons.prems(3) by simp
  have cov: "covered (p_unmatched_first_contracts p - u1) (length rest) d" "covered (p_unmatched_second_contracts p - u2) (length rest) d"
    using covered_step [OF _ d1 pos(1)] covered_step [OF _ d2 pos(2)] Cons.prems(6,7) by simp_all
  show ?case
  proof (cases "\<exists>q. after_unwind p u1 u2 = Some q \<and> p_status q = ''unwind_pending''")
    case False
    then have "resolved key ?st'" using step(2) by (auto simp: resolved_def split: option.splits)
    then show ?thesis unfolding run by (rule retries_resolved)
  next
    case True
    then obtain q where q: "after_unwind p u1 u2 = Some q" "p_status q = ''unwind_pending''" by blast
    with cases have left: "\<not> (p_unmatched_first_contracts p - u1 \<le> dec_eps \<and> p_unmatched_second_contracts p - u2 \<le> dec_eps)"
      and await: "awaiting_sale key q" "p_unmatched_first_contracts q = p_unmatched_first_contracts p - u1"
      "p_unmatched_second_contracts q = p_unmatched_second_contracts p - u2"
      by (auto split: if_splits)
    have "rest \<noteq> []" using left cov by (auto simp: covered_def intro: order_trans [OF _ less_imp_le [OF dec_eps_pos(1)]])
    then show ?thesis
      unfolding run using Cons.IH [OF _ next_run _ await(1)] step(2) q(1) Cons.prems(1) cov await(2,3) by simp
  qed
qed

subsection \<open>Closing\<close>

definition leg_closed_now :: "dec \<Rightarrow> dec \<Rightarrow> bool \<Rightarrow> leg_result \<Rightarrow> bool" where
  "leg_closed_now amount closed_before was_closed x \<longleftrightarrow>
     was_closed \<or> dsub amount dec_eps \<le> min amount (dadd closed_before (filled_by x))"

lemma post_init_exit:
  "position_post_init p = Inr p \<Longrightarrow> position_post_init (p\<lparr>p_status := a, p_polymarket_closed := b, p_predict_fun_closed := c,
     p_polymarket_exit_price := d, p_predict_fun_exit_price := e, p_polymarket_closed_contracts := f,
     p_predict_fun_closed_contracts := g, p_polymarket_exit_proceeds_usd := h, p_predict_fun_exit_proceeds_usd := i\<rparr>) =
   Inr (p\<lparr>p_status := a, p_polymarket_closed := b, p_predict_fun_closed := c,
     p_polymarket_exit_price := d, p_predict_fun_exit_price := e, p_polymarket_closed_contracts := f,
     p_predict_fun_closed_contracts := g, p_polymarket_exit_proceeds_usd := h, p_predict_fun_exit_proceeds_usd := i\<rparr>)"
  by (cases p) (auto simp: position_post_init_def res_simps)

lemma closed_position_plain:
  assumes "residual_of first = None" and "residual_of second = None" and "position_post_init p = Inr p"
    and "closed_position rs p first second price1 price2 = Inr (q, review, all_closed)"
  shows "review \<longleftrightarrow> needs_review first \<or> needs_review second"
    and "all_closed \<longleftrightarrow> leg_closed_now (p_polymarket_contracts p) (p_polymarket_closed_contracts p) (p_polymarket_closed p) first \<and>
      leg_closed_now (p_predict_fun_contracts p) (p_predict_fun_closed_contracts p) (p_predict_fun_closed p) second"
    and "p_market q = p_market p"
    and "p_status q = (if needs_review first \<or> needs_review second then ''manual_review''
      else if all_closed then ''closed'' else ''partial_exit_pending'')"
    and "p_polymarket_closed_contracts q = min (p_polymarket_contracts p) (dadd (p_polymarket_closed_contracts p) (filled_by first))"
    and "p_predict_fun_closed_contracts q = min (p_predict_fun_contracts p) (dadd (p_predict_fun_closed_contracts p) (filled_by second))"
proof -
  obtain fee1 where fee1: "venue_fee_pct (rs_config rs) (rs_first rs) (p_market p) = Inr fee1"
    using assms(4) by (cases "venue_fee_pct (rs_config rs) (rs_first rs) (p_market p)") (simp_all add: closed_position_def)
  obtain fee2 where fee2: "venue_fee_pct (rs_config rs) (rs_second rs) (p_market p) = Inr fee2"
    using assms(4) fee1 by (cases "venue_fee_pct (rs_config rs) (rs_second rs) (p_market p)") (simp_all add: closed_position_def)
  have fills: "new_fill first = filled_by first" "new_fill second = filled_by second"
    using assms(1,2) by (simp_all add: new_fill_def)
  note run = assms(4) [unfolded closed_position_def fee1 fee2 rbind_simps closed_leg_def Let_def prod.case
      post_init_exit [OF assms(3)] apply_residual_def assms(1,2) option.case fills]
  note parts = run [unfolded sum.inject prod.inject]
  note q = parts [THEN conjunct1, symmetric]
    and flags = parts [THEN conjunct2, THEN conjunct1, symmetric] parts [THEN conjunct2, THEN conjunct2, symmetric]
  show "p_market q = p_market p" unfolding q by simp
  show "review \<longleftrightarrow> needs_review first \<or> needs_review second" by (simp only: flags)
  show "all_closed \<longleftrightarrow> leg_closed_now (p_polymarket_contracts p) (p_polymarket_closed_contracts p) (p_polymarket_closed p) first \<and>
      leg_closed_now (p_predict_fun_contracts p) (p_predict_fun_closed_contracts p) (p_predict_fun_closed p) second"
    by (simp only: flags leg_closed_now_def)
  show "p_status q = (if needs_review first \<or> needs_review second then ''manual_review''
      else if all_closed then ''closed'' else ''partial_exit_pending'')"
    unfolding q flags by simp
  show "p_polymarket_closed_contracts q = min (p_polymarket_contracts p) (dadd (p_polymarket_closed_contracts p) (filled_by first))"
    and "p_predict_fun_closed_contracts q = min (p_predict_fun_contracts p) (dadd (p_predict_fun_closed_contracts p) (filled_by second))"
    unfolding q by simp_all
qed

subsection \<open>What goes wrong\<close>

text \<open>
  An exit whose order is still open after the cancellation has an unknown outcome, and yet it
  needs no review: the position stays in the automatic retries.
\<close>

lemma open_exit_needs_no_review:
  assumes "lg_error x = None" and "lg_report x = Some rep" and "er_status rep = ES_OPEN"
  shows "intent_status_from_report rep = OI_UNKNOWN \<and> \<not> needs_review x"
  using assms by (simp add: intent_status_from_report_def needs_review_def residual_of_def)

text \<open>A failure of the telemetry write in the \<^verbatim>\<open>finally\<close> clause leaves the market pending.\<close>

lemma failed_telemetry_keeps_market_pending:
  "w_db w (rt_tick st) = Some e \<Longrightarrow>
   rt_pending (snd (andalso (release_capital w rs s) (discard_pending key) st)) = rt_pending st"
  by (simp add: release_capital_def andalso_def andthen_def modify_def persist_runtime_balance_state_def db_do_def)

text \<open>
  A failure of the telemetry write right after a reservation leaves the capital reserved: the
  caller does not know yet that there is something to release.
\<close>

lemma failed_telemetry_leaks_reservation:
  assumes "reserve_signal_capital (rs_first rs) (rs_second rs) (si_fetched si) s (rt_bal st) = (True, b)"
    and "w_db w (rt_tick st) = Some e"
  shows "fst (reserve_capital w rs si s st) = Inl e \<and> rt_bal (snd (reserve_capital w rs si s st)) = b"
  using assms by (simp add: reserve_capital_def andalso_def andthen_def gets_def modify_def persist_runtime_balance_state_def db_do_def)

text \<open>A sale that fills counts as nothing sold when its loss cannot be recorded.\<close>

lemma sold_contracts_forgotten:
  assumes "sa_bid sa = Inr (Some bid)" and "request_for rs first (sa_cid sa) m n (flt_repr (unwind_price bid)) 0 = Inr r"
    and "submit_exit_leg w False r (sa_script sa) st = (Inr x, st1)" and "lg_report x = Some rep"
    and "record_unwind_pnl w rs first m entry (if er_avg_price rep = 0 then flt_repr (unwind_price bid) else er_avg_price rep)
      (min n (er_amount_filled rep)) st1 = (Inl e, st2)" and "e \<noteq> Cancelled"
  shows "try_unwind_leg w rs first sa m entry n st = (Inr 0, st2)"
  using assms by (simp add: try_unwind_leg_def sell_unmatched_def catch_def andthen_def andalso_def of_result_def of_res_def ret_def)

section \<open>A sample setup\<close>

definition sample_setup :: route_setup where
  "sample_setup = \<lparr>rs_config = sample_config, rs_first = ''Polymarket'', rs_second = ''Predict.fun'',
     rs_first_persists = True, rs_second_persists = False\<rparr>"

definition sample_sale :: "string \<Rightarrow> sale_inputs" where
  "sample_sale cid = \<lparr>sa_bid = Inr (Some (1/2)), sa_cid = cid,
     sa_script = \<lparr>vs_calls = [Persist_Id ''o1''], vs_result = Inr ''o1'', vs_wait = Inr (sample_report\<lparr>er_avg_price := 1/4\<rparr>),
       vs_cancel_wait = Inl (Other_Failure ''timeout'' None), vs_rewait = Inl (Other_Failure ''timeout'' None)\<rparr>\<rparr>"

section \<open>Properties\<close>

text \<open>C25. Whatever becomes of a signal, it gives back what it reserved: while the database works, after
  \<open>handle_signal\<close> the pending markets and the reservations of every venue are what they were before, or a
  pause has cleared them all, whether the call returned or raised.\<close>

theorem signal_gives_back_its_reservations:
  assumes "handle_signal w rs si s st = (res, st')" and "\<forall>n. w_db w n = None"
    and "bl_cache (rt_bal st) \<noteq> []" and "rs_first rs \<noteq> rs_second rs"
    and "venue_exact (rt_bal st) (rs_first rs)" and "venue_exact (rt_bal st) (rs_second rs)"
    and "\<forall>pe. si_preflight si = Inr (Some pe) \<longrightarrow>
      grid_amount (first_required (pe_signal pe)) \<and> grid_amount (second_required (pe_signal pe))"
  shows "(rt_pending st' = rt_pending st \<and>
      (\<forall>v. get_or (bl_reserved (rt_bal st')) v 0 = get_or (bl_reserved (rt_bal st)) v 0)) \<or>
    (rt_pending st' = [] \<and> (\<forall>v. get_or (bl_reserved (rt_bal st')) v 0 = 0))"
  using handle_signal_restores [OF assms(1,2)] assms(3-7) by (simp add: balances_exact_def reserves_restored_def)

definition sample_entry_inputs :: entry_inputs where
  "sample_entry_inputs = \<lparr>ei_first_claim = None, ei_second_claim = None, ei_first_cid = ''c1'', ei_second_cid = ''c2'',
     ei_first_script = sample_script, ei_second_script = sample_script, ei_first_sale = sample_sale ''c3'',
     ei_second_sale = sample_sale ''c4''\<rparr>"

definition sample_signal_inputs :: signal_inputs where
  "sample_signal_inputs = \<lparr>si_constraints = Some (Some \<lparr>fee_rate_bps = 0, tick_size = 1 / 100, lot_size = 1,
       minimum_notional = 1, mc_fee_exponent = 1\<rparr>, Some \<lparr>fee_rate_bps = 0, tick_size = 1 / 100, lot_size = 1,
       minimum_notional = 1, mc_fee_exponent = 1\<rparr>),
     si_preflight = Inr (Some \<lparr>pe_signal = sample_signal, pe_all_in_cost_usd = 9, pe_first_order_fingerprint = ''ab'',
       pe_second_order_fingerprint = ''ab''\<rparr>), si_fetched = None, si_budget_ok = True, si_entry = sample_entry_inputs\<rparr>"

theorem signal_gives_back_its_reservations_witness:
  "(let st' = snd (handle_signal sample_world sample_setup sample_signal_inputs sample_signal sample_router) in
    rt_pending st' = [] \<and>
    ((\<forall>v. get_or (bl_reserved (rt_bal st')) v 0 = get_or [(''Polymarket'', 3)] v 0) \<or>
     (\<forall>v. get_or (bl_reserved (rt_bal st')) v 0 = 0)))"
proof -
  obtain res st' where run: "handle_signal sample_world sample_setup sample_signal_inputs sample_signal sample_router = (res, st')"
    by fastforce
  have labels: "rs_first sample_setup = ''Polymarket''" "rs_second sample_setup = ''Predict.fun''"
    and bal: "rt_bal sample_router = sample_balances" "rt_pending sample_router = []"
    by (simp_all add: sample_setup_def sample_router_def)
  have exact: "venue_exact sample_balances ''Polymarket''" "venue_exact sample_balances ''Predict.fun''"
    by (simp_all add: venue_exact_def sample_balances_def get_or_def dict_get_def grid_amount_def on_grid_numeral dec_eps_def)
  have req: "grid_amount (first_required sample_signal)" "grid_amount (second_required sample_signal)"
    by (simp_all add: first_required_def second_required_def sample_signal_def dadd_def dec_round_eval grid_amount_def on_grid_numeral)
  show ?thesis
    using signal_gives_back_its_reservations [OF run] exact req
    by (simp add: run labels bal) (auto simp: sample_world_def sample_balances_def sample_signal_inputs_def)
qed



definition sample_leg_result :: "dec \<Rightarrow> leg_result" where
  "sample_leg_result avg = \<lparr>lg_order_id = ''o1'', lg_report = Some (sample_report\<lparr>er_avg_price := avg\<rparr>), lg_error = None\<rparr>"

lemma sample_sale_amounts: "sale_amounts (sa_script (sample_sale cid)) = {10}"
  by (auto simp: sale_amounts_def sample_sale_def sample_report_def)

lemma sample_sale_exact: "sale_exact (sample_sale cid)"
  by (simp add: sale_exact_def sample_sale_amounts grid_amount_def on_grid_numeral)

lemma sample_world_working: "\<forall>n. w_db sample_world n = None"
  by (simp add: sample_world_def)





text \<open>C27. A pending sale gets done: if every retry sells \<open>d\<close> of the contracts that wait on a leg, or all of them, then
  after as many retries as \<open>d\<close> fits into the larger pending amount the position no longer waits: it is open
  and matched, or gone.\<close>

theorem pending_sale_gets_done:
  assumes "\<forall>n. w_db w n = None" and "\<forall>(sa1, sa2) \<in> set sales. sale_exact sa1 \<and> sale_exact sa2"
    and "dict_get (rt_book st) key = Some p" and "awaiting_sale key p" and "delivering w rs key d sales st"
    and "sales \<noteq> []" and "p_unmatched_first_contracts p \<le> of_nat (length sales) * d"
    and "p_unmatched_second_contracts p \<le> of_nat (length sales) * d"
  shows "case dict_get (rt_book (retries w rs key sales st)) key of
    None \<Rightarrow> True | Some q \<Rightarrow> p_status q \<noteq> ''unwind_pending''"
  using retries_resolve [OF assms(1,2,5,3,4,6)] assms(7,8) by (simp add: covered_def resolved_def)

definition waiting_position :: open_position where
  "waiting_position = (open_position_default sample_market 10 0 0 0 (Aware 0) ''a'' ''b'')
     \<lparr>p_status := ''unwind_pending'', p_unwind_attempts := 1, p_unmatched_first_contracts := 10\<rparr>"

definition waiting_router :: router where
  "waiting_router = sample_router\<lparr>rt_book := [(position_key sample_market, waiting_position)]\<rparr>"

lemma waiting_sale:
  "(case request_for sample_setup True ''x1'' sample_market 10 (flt_repr (unwind_price (1/2))) 0 of
     Inl _ \<Rightarrow> False
   | Inr r \<Rightarrow> (case submit_exit_leg sample_world False r (sa_script (sample_sale ''x1'')) waiting_router of
        (Inr x, _) \<Rightarrow> (case lg_report x of Some rep \<Rightarrow> er_amount_filled rep = 10 \<and> er_avg_price rep = 1/4 | None \<Rightarrow> False)
      | _ \<Rightarrow> False))"
  by code_simp

lemma waiting_sold:
  "\<exists>st1. retry_sales sample_world sample_setup (sample_sale ''x1'', sample_sale ''x2'') waiting_position waiting_router = (Inr (10, 0), st1)"
proof -
  from waiting_sale obtain r x st1 rep
    where r: "request_for sample_setup True ''x1'' sample_market 10 (flt_repr (unwind_price (1/2))) 0 = Inr r"
    and x: "submit_exit_leg sample_world False r (sa_script (sample_sale ''x1'')) waiting_router = (Inr x, st1)"
    and rep: "lg_report x = Some rep" "er_amount_filled rep = 10" "er_avg_price rep = 1/4"
    by (auto split: sum.splits prod.splits option.splits)
  have pnl: "record_unwind_pnl sample_world sample_setup True sample_market 0 (1/4) 10 st1 = (Inr (), st1)"
    by (simp add: record_unwind_pnl_def leg_label_def sample_setup_def venue_fee_pct_def sample_config_def of_res_def andthen_def
        ret_def when_do_def sample_five dsub_def dmul_def dadd_def dec_round_eval)
  have sale: "sa_bid (sample_sale ''x1'') = Inr (Some (1/2))" "sa_cid (sample_sale ''x1'') = ''x1''"
    by (simp_all add: sample_sale_def)
  have "try_unwind_leg sample_world sample_setup True (sample_sale ''x1'') sample_market 0 10 waiting_router = (Inr 10, st1)"
    by (simp add: try_unwind_leg_def catch_def sell_unmatched_def andthen_def andalso_def of_result_def sale of_res_def r ret_def x rep pnl)
  moreover have "flt_repr (flt_round 0) = 0" by (simp add: flt.rnd_0 sample_five)
  ultimately show ?thesis
    by (simp add: retry_sales_def unwind_legs_def waiting_position_def open_position_default_def andthen_def ret_def dec_eps_def)
qed

theorem pending_sale_gets_done_witness:
  "case dict_get (rt_book (retries sample_world sample_setup (position_key sample_market)
     [(sample_sale ''x1'', sample_sale ''x2'')] waiting_router)) (position_key sample_market) of
    None \<Rightarrow> True | Some q \<Rightarrow> p_status q \<noteq> ''unwind_pending''"
proof -
  have stored: "dict_get (rt_book waiting_router) (position_key sample_market) = Some waiting_position"
    by (simp add: waiting_router_def dict_get_def)
  have awaiting: "awaiting_sale (position_key sample_market) waiting_position"
    by (simp add: awaiting_sale_def waiting_position_def open_position_default_def grid_amount_def on_grid_numeral
        position_post_init_def snapshot_ids_def normalize_order_ids_def)
  have unmatched: "p_unmatched_first_contracts waiting_position = 10" "p_unmatched_second_contracts waiting_position = 0"
    by (simp_all add: waiting_position_def open_position_default_def)
  have delivers: "delivering sample_world sample_setup (position_key sample_market) 10
      [(sample_sale ''x1'', sample_sale ''x2'')] waiting_router"
    using waiting_sold by (auto simp: stored unmatched)
  have exact: "\<forall>(sa1, sa2) \<in> set [(sample_sale ''x1'', sample_sale ''x2'')]. sale_exact sa1 \<and> sale_exact sa2"
    by (simp add: sample_sale_exact)
  show ?thesis
    by (rule pending_sale_gets_done [OF sample_world_working exact stored awaiting delivers]) (simp_all add: unmatched)
qed

text \<open>C28. A pair is closed exactly when both legs are: after the exits of a stored pair have been settled, without a residual
  exposure, the pair leaves the ledger if and only if no leg needs review and both legs have sold
  all their contracts up to dust; otherwise it stays, under manual review or for another
  retry, with the contracts sold so far, which never exceed its size.\<close>

theorem pair_closed_when_both_legs_are:
  assumes "settle_exit w rs p first second price1 price2 st = (Inr (), st')" and "\<forall>n. w_db w n = None"
    and "residual_of first = None" and "residual_of second = None" and "position_post_init p = Inr p"
  shows "case dict_get (rt_book st') (position_key (p_market p)) of
    None \<Rightarrow> \<not> needs_review first \<and> \<not> needs_review second \<and>
      leg_closed_now (p_polymarket_contracts p) (p_polymarket_closed_contracts p) (p_polymarket_closed p) first \<and>
      leg_closed_now (p_predict_fun_contracts p) (p_predict_fun_closed_contracts p) (p_predict_fun_closed p) second
  | Some q \<Rightarrow> \<not> (\<not> needs_review first \<and> \<not> needs_review second \<and>
      leg_closed_now (p_polymarket_contracts p) (p_polymarket_closed_contracts p) (p_polymarket_closed p) first \<and>
      leg_closed_now (p_predict_fun_contracts p) (p_predict_fun_closed_contracts p) (p_predict_fun_closed p) second) \<and>
      p_status q = (if needs_review first \<or> needs_review second then ''manual_review'' else ''partial_exit_pending'') \<and>
      p_polymarket_closed_contracts q =
        min (p_polymarket_contracts p) (dadd (p_polymarket_closed_contracts p) (filled_by first)) \<and>
      p_predict_fun_closed_contracts q =
        min (p_predict_fun_contracts p) (dadd (p_predict_fun_closed_contracts p) (filled_by second))"
proof -
  obtain q review all_closed where q: "closed_position rs p first second price1 price2 = Inr (q, review, all_closed)"
    using assms(1) by (cases "closed_position rs p first second price1 price2")
      (auto simp: settle_exit_def andthen_def of_res_def raise_def ret_def)
  note facts = closed_position_plain [OF assms(3-5) q]
  show ?thesis
  proof (cases "review \<or> \<not> all_closed")
    case True
    then have "dict_get (rt_book st') (position_key (p_market p)) = Some q"
      using assms(1) book_after_add [of q "rt_book st"] facts(3)
      by (auto simp: settle_exit_def andthen_def of_res_def ret_def q store_position_working [OF assms(2)])
    with True facts show ?thesis by auto
  next
    case False
    then have erased: "andalso (erase_position w (position_key (p_market p)))
        (andthen (of_res (realized_profit rs p q)) (\<lambda>profit. when_do (profit < 0) (risk_realized profit w))) st = (Inr (), st')"
      using assms(1) by (simp add: settle_exit_def andthen_def of_res_def ret_def q)
    have later: "storeless (andthen (of_res (realized_profit rs p q)) (\<lambda>profit. when_do (profit < 0) (risk_realized profit w)))"
    proof -
      have "storeless (risk_realized profit w)" for profit
        by (auto simp: effect_in_def risk_realized_def same_stores_def andthen_def controlled_def ret_def Let_def
            cancel_active_orders_and_clear_pending_def split: sum.splits)
      then show ?thesis by (intro stores.bind stores.conditional storeless_of_res)
    qed
    have "andthen (of_res (realized_profit rs p q)) (\<lambda>profit. when_do (profit < 0) (risk_realized profit w))
        ((bump st)\<lparr>rt_db := remove_position (position_key (p_market p)) (rt_db st),
           rt_book := ledger_remove (position_key (p_market p)) (rt_book st)\<rparr>) = (Inr (), st')"
      using erased by (simp add: andalso_def andthen_def [of "erase_position w (position_key (p_market p))"]
          erase_position_working [OF assms(2)])
    from effect_inD [OF later this] have "dict_get (rt_book st') (position_key (p_market p)) = None"
      by (simp add: same_stores_def book_after_remove)
    with False facts(1,2) show ?thesis by simp
  qed
qed

definition exiting_router :: router where
  "exiting_router = sample_router\<lparr>rt_book := [(position_key sample_market, sample_position)]\<rparr>"

theorem pair_closed_when_both_legs_are_witness:
  "dict_get (rt_book (snd (settle_exit sample_world sample_setup sample_position (sample_leg_result (1/2)) (sample_leg_result (1/2))
     (1/2) (1/2) exiting_router))) (position_key sample_market) = None"
proof -
  have legs: "filled_by (sample_leg_result (1/2)) = 10" "residual_of (sample_leg_result (1/2)) = None"
    "reported_price (sample_leg_result (1/2)) = 1/2" "\<not> needs_review (sample_leg_result (1/2))"
    by (simp_all add: filled_by_def residual_of_def reported_price_def needs_review_def sample_leg_result_def sample_report_def)
  have fees: "venue_fee_pct sample_config ''Polymarket'' m = Inr 0"
    "venue_fee_pct sample_config ''Predict.fun'' sample_market = Inr (bps_fraction 0)" for m
    by (simp_all add: venue_fee_pct_def sample_config_def sample_market_def market_spec_default_def)
  have free: "flt_repr (bps_fraction 0) = 0" by code_simp
  have post: "position_post_init sample_position = Inr sample_position"
    by (simp add: position_post_init_def sample_position_def open_position_default_def snapshot_ids_def normalize_order_ids_def)
  have mkt: "p_market sample_position = sample_market" by (simp add: sample_position_def open_position_default_def)
  have leg: "closed_leg fee 10 0 0 False (sample_leg_result (1/2)) (1/2) = (10, 5, True, Some (ddiv 5 10))" if "flt_repr fee = 0" for fee
    by (simp add: closed_leg_def that new_fill_def exit_fill_price_def legs dadd_def dsub_def dmul_def dec_round_eval dec_eps_def)
  have amounts: "p_polymarket_contracts sample_position = 10" "p_polymarket_closed_contracts sample_position = 0"
    "p_polymarket_exit_proceeds_usd sample_position = 0" "p_polymarket_closed sample_position = False"
    "p_predict_fun_contracts sample_position = 10" "p_predict_fun_closed_contracts sample_position = 0"
    "p_predict_fun_exit_proceeds_usd sample_position = 0" "p_predict_fun_closed sample_position = False"
    "p_polymarket_entry_price sample_position = 2/5" "p_predict_fun_entry_price sample_position = 1/2"
    by (simp_all add: sample_position_def open_position_default_def)
  define q where "q = sample_position\<lparr>p_status := ''closed'', p_polymarket_closed := True, p_predict_fun_closed := True,
     p_polymarket_exit_price := Some (ddiv 5 10), p_predict_fun_exit_price := Some (ddiv 5 10),
     p_polymarket_closed_contracts := 10, p_predict_fun_closed_contracts := 10,
     p_polymarket_exit_proceeds_usd := 5, p_predict_fun_exit_proceeds_usd := 5\<rparr>"
  have q: "closed_position sample_setup sample_position (sample_leg_result (1/2)) (sample_leg_result (1/2)) (1/2) (1/2) =
      Inr (q, False, True)"
    unfolding closed_position_def sample_setup_def route_setup.simps mkt fees rbind_simps amounts leg [OF free] leg [OF sample_five(2)]
      Let_def prod.case post_init_exit [OF post] apply_residual_def legs(2) option.case q_def
    by (simp add: legs(4) post_init_exit [OF post])
  have proceeds: "p_polymarket_exit_proceeds_usd q = 5" "p_predict_fun_exit_proceeds_usd q = 5" by (simp_all add: q_def)
  have money: "dadd 1 0 = 1" "dmul (2/5) 1 = 2/5" "dmul (1/2) 1 = 1/2" "dmul 10 (2/5) = 4" "dmul 10 (1/2) = 5" "dadd 4 5 = 9"
    "dadd 5 5 = 10" "dsub 10 9 = 1"
    by (simp_all add: dadd_def dsub_def dmul_def dec_round_eval)
  have fees_free: "flt_repr (0 :: flt) = 0" by (rule sample_five(2))
  have profit: "realized_profit sample_setup sample_position q = Inr 1"
    unfolding realized_profit_def sample_setup_def route_setup.simps mkt fees rbind_simps amounts free fees_free money proceeds
      calculate_realized_position_profit_decimal_def Let_def
    by (simp add: raise_if_def)
  obtain st' where run: "settle_exit sample_world sample_setup sample_position (sample_leg_result (1/2)) (sample_leg_result (1/2))
     (1/2) (1/2) exiting_router = (Inr (), st')"
    by (simp add: settle_exit_def q profit of_res_def andthen_def ret_def when_do_def
        erase_position_working [OF sample_world_working] andalso_def)
  have "leg_closed_now (p_polymarket_contracts sample_position) (p_polymarket_closed_contracts sample_position)
      (p_polymarket_closed sample_position) (sample_leg_result (1/2))"
    "leg_closed_now (p_predict_fun_contracts sample_position) (p_predict_fun_closed_contracts sample_position)
      (p_predict_fun_closed sample_position) (sample_leg_result (1/2))"
    by (simp_all add: leg_closed_now_def legs amounts dadd_def dsub_def dec_round_eval dec_eps_def)
  with pair_closed_when_both_legs_are [OF run sample_world_working legs(2) legs(2) post] legs(4) show ?thesis
    by (simp add: run mkt split: option.splits)
qed

end
