(* ===== verification/Settlement.thy ===== *)
theory Settlement
  imports Executor
begin

text \<open>
  \<^verbatim>\<open>settlement.py\<close>: expired positions are redeemed on both venues and leave the ledger when both
  redemptions are confirmed; everything that is not clear goes to manual review under a paused
  controller. The answers of the connectors are inputs, and the state logs every redemption that
  is handed to a connector. The lemmas show that nothing is handed over twice.
\<close>

section \<open>Names\<close>

definition settlement_status_value :: "settlement_status \<Rightarrow> string" where
  "settlement_status_value st = (case st of ST_OPEN \<Rightarrow> ''OPEN'' | RESOLVED \<Rightarrow> ''RESOLVED'' | VOID \<Rightarrow> ''VOID''
     | REDEEM_PENDING \<Rightarrow> ''REDEEM_PENDING'' | SETTLED \<Rightarrow> ''SETTLED'' | ST_MANUAL_REVIEW \<Rightarrow> ''MANUAL_REVIEW'')"

definition redemption_status_value :: "redemption_status \<Rightarrow> string" where
  "redemption_status_value st = (case st of RD_PENDING \<Rightarrow> ''PENDING'' | RD_SUBMITTED \<Rightarrow> ''SUBMITTED''
     | RD_CONFIRMED \<Rightarrow> ''CONFIRMED'' | RD_UNKNOWN \<Rightarrow> ''UNKNOWN'' | RD_FAILED \<Rightarrow> ''FAILED'' | RD_MANUAL_REVIEW \<Rightarrow> ''MANUAL_REVIEW'')"

text \<open>A list of strings as Python prints it.\<close>

fun quoted_items :: "string list \<Rightarrow> string" where
  "quoted_items [] = []"
| "quoted_items [x] = CHR 0x27 # x @ [CHR 0x27]"
| "quoted_items (x # y # zs) = (CHR 0x27 # x @ [CHR 0x27]) @ '', '' @ quoted_items (y # zs)"

section \<open>Requests\<close>

definition settlement_request_for :: "open_position \<Rightarrow> string \<Rightarrow> dec \<Rightarrow> settlement_request option" where
  "settlement_request_for p venue n =
     (let m = p_market p;
          ids = (if venue = m_venue_a_label m then
              Some (or_else (m_polymarket_market_id m) (m_condition_id m),
                if venue = ''Polymarket'' then m_condition_id m else m_polymarket_market_id m, '''')
            else if venue = ''Predict.fun'' then Some (m_predict_fun_market_id m, m_predict_fun_market_id m, '''')
            else if venue \<in> {''SX Bet'', ''Opinion''} then Some (m_predict_fun_market_id m, m_predict_fun_market_id m, '''')
            else if venue = ''Myriad'' then Some (m_myriad_market_id m, m_myriad_market_id m,
              case m_myriad_collateral_token m of Some c \<Rightarrow> c | None \<Rightarrow> '''')
            else None)
      in case ids of
           None \<Rightarrow> None
         | Some (market_id, condition_id, collateral) \<Rightarrow>
             if \<not> truthy market_id \<or> \<not> truthy condition_id then None
             else Some \<lparr>sr_position_key = position_key m, sr_venue = venue, sr_market_id = the market_id,
               sr_condition_id = the condition_id, sr_collateral_token = collateral, sr_expected_contracts = n,
               sr_index_sets = [1, 2]\<rparr>)"

section \<open>The world of the service\<close>

text \<open>
  What a connector answers for a position: whether it is configured, how it completes the request,
  the status of the market, what becomes of a transaction and of a submission. \<open>ro_id\<close> is the
  fresh id of a redemption. \<open>se_handed\<close> logs the calls of \<^verbatim>\<open>redeem_position\<close>.
\<close>

record redemption_io =
  ro_known :: bool
  ro_prepared :: "settlement_request \<Rightarrow> leg_error + settlement_request"
  ro_status :: "leg_error + settlement_status"
  ro_id :: string
  ro_reconciled :: "leg_error + redemption_report"
  ro_redeemed :: "leg_error + redemption_report"

record settling = router +
  se_handed :: "(settlement_request \<times> string) list"

definition REDEMPTION_PENDING_TIMEOUT :: int where
  "REDEMPTION_PENDING_TIMEOUT = seconds 180"

definition audit :: "world \<Rightarrow> ('z, unit) router_act" where
  "audit w = db_do w (\<lambda>db. Inr ((), db))"

definition current_time :: "world \<Rightarrow> ('z, int) router_act" where
  "current_time w = (\<lambda>s. (Inr (as_utc (w_now w (rt_tick s))), bump s))"

definition find_redemption :: "world \<Rightarrow> settlement_request \<Rightarrow> ('z, redemption_intent option) router_act" where
  "find_redemption w r = db_do w (\<lambda>db. Inr (get_redemption_intent (sr_position_key r) (sr_venue r) (sr_condition_id r) db, db))"

definition set_redemption ::
  "world \<Rightarrow> string \<Rightarrow> redemption_status \<Rightarrow> string option \<Rightarrow> string option \<Rightarrow> ('z, redemption_intent) router_act" where
  "set_redemption w rid st tx err = (\<lambda>s. db_do w (update_redemption_intent (w_now w (rt_tick s)) rid st tx err) s)"

section \<open>Manual review\<close>

definition manual_review :: "world \<Rightarrow> open_position \<Rightarrow> string \<Rightarrow> ('z, unit) router_act" where
  "manual_review w p reason =
     andthen (of_res (position_post_init (p\<lparr>p_status := ''manual_review''\<rparr>))) (\<lambda>q.
     andalso (db_do w (\<lambda>db. Inr ((), save_position (position_key (p_market p)) q db)))
     (andalso (audit w)
     (andalso (modify (\<lambda>s. s\<lparr>rt_book := ledger_add q (rt_book s)\<rparr>))
       (risk_pause (''settlement manual review required for '' @ m_symbol (p_market p) @ '': '' @ reason) w))))"

definition mark_unknown :: "world \<Rightarrow> open_position \<Rightarrow> redemption_intent \<Rightarrow> string \<Rightarrow> ('z, unit) router_act" where
  "mark_unknown w p i reason =
     andthen (set_redemption w (ri_redemption_id i) RD_UNKNOWN (ri_tx_hash i) (Some reason)) (\<lambda>_.
       manual_review w p (''UNKNOWN redemption for '' @ ri_venue i @ '': '' @ reason))"

section \<open>One redemption\<close>

definition new_redemption :: "settlement_request \<Rightarrow> string \<Rightarrow> datetime \<Rightarrow> redemption_intent" where
  "new_redemption r rid now = \<lparr>ri_redemption_id = rid, ri_position_key = sr_position_key r, ri_venue = sr_venue r,
     ri_market_id = sr_market_id r, ri_condition_id = sr_condition_id r, ri_collateral_token = sr_collateral_token r,
     ri_expected_contracts = sr_expected_contracts r, ri_status = RD_PENDING, ri_tx_hash = None, ri_last_error = None,
     ri_created_at = now, ri_updated_at = now\<rparr>"

definition open_redemption :: "world \<Rightarrow> settlement_request \<Rightarrow> string \<Rightarrow> ('z, redemption_intent option) router_act" where
  "open_redemption w r rid = andthen (find_redemption w r) (\<lambda>found. case found of
     Some i \<Rightarrow> ret (Some i)
   | None \<Rightarrow> andthen (\<lambda>s. db_do w (\<lambda>db. Inr (create_redemption_intent (new_redemption r rid (w_now w (rt_tick s))) db)) s)
       (\<lambda>_. find_redemption w r))"

definition hand_over :: "redemption_io \<Rightarrow> settlement_request \<Rightarrow> string \<Rightarrow> (settling, leg_error, redemption_report) act" where
  "hand_over io r rid = andalso (modify (\<lambda>s. s\<lparr>se_handed := se_handed s @ [(r, rid)]\<rparr>)) (of_result (ro_redeemed io))"

text \<open>A failure of a call that is not a cancellation ends in manual review; \<^verbatim>\<open>None\<close> then.\<close>

definition or_unknown ::
  "world \<Rightarrow> open_position \<Rightarrow> redemption_intent \<Rightarrow> string \<Rightarrow> (settling, leg_error, redemption_report) act \<Rightarrow>
    (settling, leg_error, redemption_report option) act" where
  "or_unknown w p i what m = catch (andthen m (\<lambda>rep. ret (Some rep)))
     (\<lambda>e. if e = Cancelled then raise Cancelled else andalso (mark_unknown w p i (what @ error_text e)) (ret None))"

definition submit_redemption ::
  "world \<Rightarrow> redemption_io \<Rightarrow> open_position \<Rightarrow> settlement_request \<Rightarrow> redemption_intent \<Rightarrow> (settling, leg_error, bool) act" where
  "submit_redemption w io p r pending =
     andthen (set_redemption w (ri_redemption_id pending) RD_UNKNOWN None
       (Some ''submission entered ambiguity window; blind retry is forbidden'')) (\<lambda>i.
     andthen (or_unknown w p i ''redemption submission failed ambiguously: '' (hand_over io r (ri_redemption_id i))) (\<lambda>rep.
     case rep of None \<Rightarrow> ret False | Some rep \<Rightarrow>
     andthen (set_redemption w (ri_redemption_id i) (rp_status rep) (rp_tx_hash rep) (rp_error rep)) (\<lambda>_.
       if rp_status rep = RD_CONFIRMED then ret True
       else if rp_status rep = RD_SUBMITTED \<and> truthy (rp_tx_hash rep) then ret False
       else if rp_status rep \<in> {RD_FAILED, RD_MANUAL_REVIEW}
       then andalso (manual_review w p (''redemption submission is '' @ redemption_status_value (rp_status rep) @ '' for '' @
           sr_venue r @ '': '' @ the (or_else (rp_error rep) (Some ''unknown'')))) (ret False)
       else andalso (mark_unknown w p (i\<lparr>ri_tx_hash := or_else (rp_tx_hash rep) (ri_tx_hash i)\<rparr>)
         (the (or_else (rp_error rep) (Some ''redemption submission result is ambiguous'')))) (ret False))))"

definition reconcile_submitted ::
  "world \<Rightarrow> redemption_io \<Rightarrow> open_position \<Rightarrow> redemption_intent \<Rightarrow> (settling, leg_error, bool) act" where
  "reconcile_submitted w io p i =
     (if \<not> truthy (ri_tx_hash i)
      then andalso (mark_unknown w p i ''transaction hash unavailable; blind retry forbidden'') (ret False)
      else andthen (or_unknown w p i ''receipt reconciliation failed: '' (of_result (ro_reconciled io))) (\<lambda>rep.
        case rep of None \<Rightarrow> ret False | Some rep \<Rightarrow>
        if rp_status rep = RD_CONFIRMED
        then andthen (set_redemption w (ri_redemption_id i) RD_CONFIRMED (rp_tx_hash rep) None) (\<lambda>_. ret True)
        else andthen (current_time w) (\<lambda>now.
          if rp_status rep = RD_UNKNOWN \<and> \<not> truthy (rp_error rep) \<and>
             now - as_utc (ri_updated_at i) < REDEMPTION_PENDING_TIMEOUT then ret False
          else andalso (mark_unknown w p i
            (the (or_else (rp_error rep) (Some ''redemption receipt unresolved after timeout'')))) (ret False))))"

definition process_redemption ::
  "world \<Rightarrow> redemption_io \<Rightarrow> open_position \<Rightarrow> settlement_request \<Rightarrow> (settling, leg_error, bool) act" where
  "process_redemption w io p r = andthen (open_redemption w r (ro_id io)) (\<lambda>found. case found of
     None \<Rightarrow> andalso (manual_review w p (''could not persist redemption intent for '' @ sr_venue r)) (ret False)
   | Some i \<Rightarrow>
       if ri_status i = RD_CONFIRMED then ret True
       else if ri_status i \<in> {RD_FAILED, RD_MANUAL_REVIEW}
       then andalso (manual_review w p (''redemption is '' @ redemption_status_value (ri_status i) @ '' for '' @ sr_venue r)) (ret False)
       else if ri_status i \<in> {RD_SUBMITTED, RD_UNKNOWN} then reconcile_submitted w io p i
       else submit_redemption w io p r i)"

section \<open>One position\<close>

fun settlement_requests ::
  "world \<Rightarrow> (string \<Rightarrow> redemption_io) \<Rightarrow> open_position \<Rightarrow> (string \<times> dec) list \<Rightarrow>
    (settling, leg_error, settlement_request list option) act" where
  "settlement_requests w io p [] = ret (Some [])"
| "settlement_requests w io p ((venue, n) # legs) =
     (case (ro_known (io venue), settlement_request_for p venue n) of
        (True, Some r) \<Rightarrow> (case ro_prepared (io venue) r of
            Inl e \<Rightarrow> andalso (manual_review w p (''invalid settlement configuration for '' @ venue @ '': '' @ error_text e)) (ret None)
          | Inr r' \<Rightarrow> andthen (settlement_requests w io p legs) (\<lambda>rs. ret (map_option ((#) r') rs)))
      | _ \<Rightarrow> andalso (manual_review w p (''settlement metadata or connector unavailable for '' @ venue)) (ret None))"

fun settlement_statuses :: "(string \<Rightarrow> redemption_io) \<Rightarrow> string list \<Rightarrow> leg_error + settlement_status list" where
  "settlement_statuses io [] = Inr []"
| "settlement_statuses io (venue # venues) = (case ro_status (io venue) of Inl e \<Rightarrow> Inl e
     | Inr st \<Rightarrow> (case settlement_statuses io venues of Inl e \<Rightarrow> Inl e | Inr sts \<Rightarrow> Inr (st # sts)))"

text \<open>Whether all redemptions are confirmed; \<^verbatim>\<open>None\<close> when the controller was paused on the way.\<close>

fun process_all ::
  "world \<Rightarrow> (string \<Rightarrow> redemption_io) \<Rightarrow> open_position \<Rightarrow> (string \<times> settlement_request) list \<Rightarrow>
    (settling, leg_error, bool option) act" where
  "process_all w io p [] = ret (Some True)"
| "process_all w io p ((venue, r) # rest) =
     andthen (process_redemption w (io venue) p r) (\<lambda>confirmed.
     andthen (gets (\<lambda>s. rk_paused (rc_state (rt_risk s)))) (\<lambda>stopped. if stopped then ret None else
     andthen (process_all w io p rest) (\<lambda>others. ret (map_option (\<lambda>c. confirmed \<and> c) others))))"

definition reconcile_position :: "world \<Rightarrow> (string \<Rightarrow> redemption_io) \<Rightarrow> open_position \<Rightarrow> (settling, leg_error, unit) act" where
  "reconcile_position w io p =
     (let venues = [m_venue_a_label (p_market p), m_venue_b_label (p_market p)] in
      andthen (settlement_requests w io p (zip venues [p_polymarket_contracts p, p_predict_fun_contracts p])) (\<lambda>rs.
      case rs of None \<Rightarrow> ret () | Some rs \<Rightarrow>
      (case settlement_statuses io venues of
         Inl e \<Rightarrow> if e = Cancelled then raise Cancelled
           else manual_review w p (''settlement status lookup failed: '' @ error_text e)
       | Inr sts \<Rightarrow>
           if ST_OPEN \<in> set sts then ret ()
           else if list_ex (\<lambda>st. st \<in> {VOID, ST_MANUAL_REVIEW}) sts
           then manual_review w p (''unsupported or conflicting payout: ['' @ quoted_items (map settlement_status_value sts) @ '']'')
           else andthen (process_all w io p (zip venues rs)) (\<lambda>confirmed.
             when_do (confirmed = Some True) (andalso (audit w) (erase_position w (position_key (p_market p))))))))"

section \<open>The service\<close>

definition due_for_settlement :: "int \<Rightarrow> open_position \<Rightarrow> bool" where
  "due_for_settlement now p = (case m_expires_at (p_market p) of None \<Rightarrow> False
     | Some t \<Rightarrow> as_utc t \<le> now \<and> p_status p \<notin> {''closed'', ''settled'', ''manual_review''})"

definition settle_once :: "world \<Rightarrow> (string \<Rightarrow> string \<Rightarrow> redemption_io) \<Rightarrow> (settling, leg_error, unit) act" where
  "settle_once w io = andthen (current_time w) (\<lambda>now. andthen (gets (\<lambda>s. ledger_all (rt_book s))) (\<lambda>ps.
     for_each (\<lambda>p. when_do (due_for_settlement now p) (reconcile_position w (io (position_key (p_market p))) p)) ps))"

section \<open>Lemmas\<close>

subsection \<open>What a step does to the redemptions\<close>

text \<open>
  Every step but \<^verbatim>\<open>redeem_position\<close> keeps the log and the consistency of the repository, and never
  reopens a redemption that is no longer pending.
\<close>

definition settled_rows_kept :: "repository \<Rightarrow> repository \<Rightarrow> bool" where
  "settled_rows_kept db db' \<longleftrightarrow> (repository_ok db \<longrightarrow> repository_ok db') \<and>
     (\<forall>rid row. dict_get (db_redemptions db) rid = Some row \<and> ri_status row \<noteq> RD_PENDING \<longrightarrow>
       (\<exists>row'. dict_get (db_redemptions db') rid = Some row' \<and> ri_status row' \<noteq> RD_PENDING \<and> same_redemption row row'))"

definition redemptions_progress :: "settling \<Rightarrow> settling \<Rightarrow> bool" where
  "redemptions_progress s s' \<longleftrightarrow> se_handed s' = se_handed s \<and> settled_rows_kept (rt_db s) (rt_db s')"

lemma settled_rows_kept_refl [simp]: "settled_rows_kept db db"
  by (auto simp: settled_rows_kept_def)

lemma settled_rows_kept_trans: "settled_rows_kept a b \<Longrightarrow> settled_rows_kept b c \<Longrightarrow> settled_rows_kept a c"
  unfolding settled_rows_kept_def same_redemption_def by metis

interpretation progress: effect_order redemptions_progress
  by unfold_locales (auto simp: redemptions_progress_def intro: settled_rows_kept_trans)

abbreviation progressing :: "(settling, leg_error, 'a) act \<Rightarrow> bool" where
  "progressing m \<equiv> effect_in redemptions_progress m"

declare progress.basic [simp]

lemma bump_handed [simp]: "se_handed (bump s) = se_handed s"
  by (simp add: bump_def)

lemma progressing_db:
  assumes "\<And>db x db'. f db = Inr (x, db') \<Longrightarrow> settled_rows_kept db db'"
  shows "progressing (db_do w f)"
  using assms by (auto simp: effect_in_def db_do_def redemptions_progress_def split: option.splits sum.splits)

lemma progressing_reads [simp]: "progressing (db_do w (\<lambda>db. Inr (f db, db)))"
  by (rule progressing_db) simp

lemma progressing_plain [simp]:
  "progressing (audit w)" "progressing (current_time w)" "progressing (find_redemption w r)" "progressing (of_res x)"
  by (simp_all add: audit_def find_redemption_def)
    (auto simp: of_res_def effect_in_def current_time_def redemptions_progress_def raise_def ret_def split: sum.splits)

lemma progressing_pause [simp]: "progressing (risk_pause reason w)"
  unfolding risk_pause_def
  by (intro progress.bind progress.basic)
    (auto simp: effect_in_def controlled_def redemptions_progress_def cancel_active_orders_and_clear_pending_def Let_def split: sum.splits)

lemma same_rows_kept: "repo_step db db' \<Longrightarrow> db_redemptions db' = db_redemptions db \<Longrightarrow> settled_rows_kept db db'"
  by (auto simp: settled_rows_kept_def intro: repository_ok_step)

lemma positions_kept: "settled_rows_kept db (save_position key p db)" "settled_rows_kept db (remove_position key db)"
  by (rule same_rows_kept [OF repo_step.position_saved] same_rows_kept [OF repo_step.position_removed];
      simp add: save_position_def remove_position_def)+

lemma progressing_save [simp]: "progressing (db_do w (\<lambda>db. Inr ((), save_position key p db)))"
  by (rule progressing_db) (use positions_kept in auto)

lemma progressing_erase [simp]: "progressing (erase_position w key)"
proof -
  have "progressing (db_do w (\<lambda>db. Inr ((), remove_position key db)))"
    by (rule progressing_db) (use positions_kept in auto)
  then show ?thesis
    unfolding erase_position_def by (intro progress.seq effect_in_modify) (simp_all add: redemptions_progress_def)
qed

lemma progressing_review [simp]: "progressing (manual_review w p reason)"
  unfolding manual_review_def
  by (intro progress.bind progress.seq effect_in_modify) (simp_all add: redemptions_progress_def)

lemma set_redemption_kept:
  assumes "update_redemption_intent now rid st tx err db = Inr (row, db')" and "st \<noteq> RD_PENDING"
  shows "settled_rows_kept db db'"
  unfolding settled_rows_kept_def
proof (intro conjI impI allI)
  show "repository_ok db'" if "repository_ok db"
    using repo_step.redemption_updated [OF assms(1)] that by (rule repository_ok_step)
next
  fix rid' row'
  assume "dict_get (db_redemptions db) rid' = Some row' \<and> ri_status row' \<noteq> RD_PENDING"
  with assms show "\<exists>r'. dict_get (db_redemptions db') rid' = Some r' \<and> ri_status r' \<noteq> RD_PENDING \<and> same_redemption row' r'"
    by (auto simp: update_redemption_intent_def Let_def dict_get_set same_redemption_def split: option.splits)
qed

lemma progressing_set: "st \<noteq> RD_PENDING \<Longrightarrow> progressing (set_redemption w rid st tx err)"
proof -
  assume "st \<noteq> RD_PENDING"
  then have "progressing (db_do w (update_redemption_intent now rid st tx err))" for now
    by (intro progressing_db) (rule set_redemption_kept)
  then show ?thesis by (simp add: set_redemption_def effect_in_def)
qed

lemma progressing_unknown [simp]: "progressing (mark_unknown w p i reason)"
  unfolding mark_unknown_def by (intro progress.bind progressing_set progressing_review) simp

lemma progressing_or_unknown: "progressing m \<Longrightarrow> progressing (or_unknown w p i what m)"
  unfolding or_unknown_def by (intro progress.handler progress.bind effect_in_if progress.seq) simp_all

lemma create_redemption_kept: "create_redemption_intent i db = (b, db') \<Longrightarrow> settled_rows_kept db db'"
  unfolding settled_rows_kept_def
  using repo_step.redemption_created [of i db b db']
  by (auto intro: repository_ok_step simp: create_redemption_intent_def dict_get_set split: if_splits)

lemma progressing_create:
  "progressing (\<lambda>s. db_do w (\<lambda>db. Inr (create_redemption_intent (new_redemption r rid (w_now w (rt_tick s))) db)) s)"
proof -
  have "progressing (db_do w (\<lambda>db. Inr (create_redemption_intent i db)))" for i
    by (rule progressing_db) (use create_redemption_kept in auto)
  then show ?thesis by (simp add: effect_in_def)
qed

subsection \<open>Nothing is handed over twice\<close>

definition redemption_key :: "settlement_request \<Rightarrow> string \<times> string \<times> string" where
  "redemption_key r = (sr_position_key r, sr_venue r, sr_condition_id r)"

definition row_for :: "settlement_request \<Rightarrow> redemption_intent \<Rightarrow> bool" where
  "row_for r i \<longleftrightarrow> (ri_position_key i, ri_venue i, ri_condition_id i) = redemption_key r"

text \<open>What was handed over has a row that is no longer pending.\<close>

definition handed_once :: "settling \<Rightarrow> bool" where
  "handed_once s \<longleftrightarrow> repository_ok (rt_db s) \<and>
     (\<forall>(r, rid) \<in> set (se_handed s). \<exists>row. dict_get (db_redemptions (rt_db s)) rid = Some row \<and>
       ri_status row \<noteq> RD_PENDING \<and> row_for r row) \<and>
     distinct (map (redemption_key \<circ> fst) (se_handed s))"

definition stored_row :: "redemption_intent \<Rightarrow> settling \<Rightarrow> bool" where
  "stored_row i s \<longleftrightarrow> dict_get (db_redemptions (rt_db s)) (ri_redemption_id i) = Some i"

lemma handed_once_progress:
  assumes "redemptions_progress s s'" and "handed_once s"
  shows "handed_once s'"
proof -
  have log: "se_handed s' = se_handed s" and rows: "settled_rows_kept (rt_db s) (rt_db s')"
    using assms(1) by (simp_all add: redemptions_progress_def)
  have "\<exists>row. dict_get (db_redemptions (rt_db s')) rid = Some row \<and> ri_status row \<noteq> RD_PENDING \<and> row_for r row"
    if logged: "(r, rid) \<in> set (se_handed s)" for r rid
  proof -
    obtain row where row: "dict_get (db_redemptions (rt_db s)) rid = Some row" "ri_status row \<noteq> RD_PENDING" "row_for r row"
      using assms(2) logged by (fastforce simp: handed_once_def)
    then obtain row' where "dict_get (db_redemptions (rt_db s')) rid = Some row'" "ri_status row' \<noteq> RD_PENDING"
        "same_redemption row row'"
      using rows by (auto simp: settled_rows_kept_def)
    with row(3) show ?thesis by (auto simp: row_for_def same_redemption_def)
  qed
  with assms(2) rows show ?thesis by (auto simp: handed_once_def log settled_rows_kept_def)
qed

lemma handed_once_keeps: "progressing m \<Longrightarrow> keeps handed_once m"
  unfolding keeps_def effect_in_def using handed_once_progress by blast

lemma handed_once_hoare: "progressing m \<Longrightarrow> hoare handed_once m (\<lambda>_. handed_once) (\<lambda>_. handed_once)"
  using handed_once_keeps keeps_hoare by blast

lemma new_key_is_fresh:
  assumes "handed_once s" and "stored_row i s" and "row_for r i" and "ri_status i = RD_PENDING"
  shows "redemption_key r \<notin> (redemption_key \<circ> fst) ` set (se_handed s)"
proof
  assume "redemption_key r \<in> (redemption_key \<circ> fst) ` set (se_handed s)"
  then obtain r' rid row where row: "dict_get (db_redemptions (rt_db s)) rid = Some row" "ri_status row \<noteq> RD_PENDING"
    "row_for r' row" "redemption_key r' = redemption_key r"
    using assms(1) by (fastforce simp: handed_once_def)
  then have "same_redemption i row" using assms(3) by (simp add: row_for_def same_redemption_def redemption_key_def)
  moreover have "repository_ok (rt_db s)" using assms(1) by (simp add: handed_once_def)
  ultimately have "rid = ri_redemption_id i"
    using repository_ok_unique(2) assms(2) row(1) unfolding stored_row_def by blast
  with row assms(2,4) show False by (simp add: stored_row_def)
qed

lemma redemption_stored:
  assumes "repository_ok db" and "i \<in> set (dict_values (db_redemptions db))"
  shows "dict_get (db_redemptions db) (ri_redemption_id i) = Some i"
proof -
  have ok: "dict_ok (db_redemptions db)" "table_all (\<lambda>k r. ri_redemption_id r = k) (db_redemptions db)"
    using assms(1) unfolding repository_ok_def by (blast, simp add: table_all_def)
  obtain k where k: "dict_get (db_redemptions db) k = Some i" using assms(2) dict_values_get [OF ok(1)] by blast
  with ok(2) show ?thesis by (simp add: table_all_def)
qed

lemma find_redemption_row:
  "hoare handed_once (find_redemption w r)
     (\<lambda>found s. handed_once s \<and> (case found of None \<Rightarrow> True | Some i \<Rightarrow> stored_row i s \<and> row_for r i)) (\<lambda>_. handed_once)"
proof -
  have row: "stored_row i s \<and> row_for r i"
    if "handed_once s" "get_redemption_intent (sr_position_key r) (sr_venue r) (sr_condition_id r) (rt_db s) = Some i" for i s
  proof -
    have ok: "repository_ok (rt_db s)" using that(1) by (simp add: handed_once_def)
    from that(2) find_Some_mem have i: "i \<in> set (dict_values (db_redemptions (rt_db s)))" "row_for r i"
      unfolding get_redemption_intent_def row_for_def redemption_key_def by (fast, force dest: find_Some_mem)
    with redemption_stored [OF ok] show ?thesis by (simp add: stored_row_def)
  qed
  have keep: "handed_once (snd (find_redemption w r s))" if "handed_once s" for s
    using handed_once_keeps [of "find_redemption w r"] that by (simp add: keeps_def)
  show ?thesis
    unfolding hoare_def
  proof (intro allI impI)
    fix s assume s: "handed_once s"
    show "case find_redemption w r s of (Inl e, t) \<Rightarrow> handed_once t
      | (Inr found, t) \<Rightarrow> handed_once t \<and> (case found of None \<Rightarrow> True | Some i \<Rightarrow> stored_row i t \<and> row_for r i)"
      using keep [OF s] row [OF s]
      by (auto simp: find_redemption_def db_do_def stored_row_def bump_def split: option.splits)
  qed
qed

text \<open>The state right before a submission: the row says that it may be under way.\<close>

definition submission_open :: "settlement_request \<Rightarrow> redemption_intent \<Rightarrow> settling \<Rightarrow> bool" where
  "submission_open r i s \<longleftrightarrow> handed_once s \<and> stored_row i s \<and> row_for r i \<and> ri_status i \<noteq> RD_PENDING \<and>
     redemption_key r \<notin> (redemption_key \<circ> fst) ` set (se_handed s)"

lemma ambiguity_window_opens:
  "hoare (\<lambda>s. handed_once s \<and> stored_row i s \<and> row_for r i \<and> ri_status i = RD_PENDING)
     (set_redemption w (ri_redemption_id i) RD_UNKNOWN None err) (submission_open r) (\<lambda>_. handed_once)"
  unfolding hoare_def
proof (intro allI impI, elim conjE)
  fix s assume s: "handed_once s" "stored_row i s" "row_for r i" "ri_status i = RD_PENDING"
  let ?m = "set_redemption w (ri_redemption_id i) RD_UNKNOWN None err :: (settling, leg_error, redemption_intent) act"
  have keep: "handed_once (snd (?m s))"
    using handed_once_keeps [OF progressing_set, of RD_UNKNOWN] s(1) by (simp add: keeps_def)
  have fresh: "redemption_key r \<notin> (redemption_key \<circ> fst) ` set (se_handed s)" by (rule new_key_is_fresh [OF s])
  show "case ?m s of (Inl e, t) \<Rightarrow> handed_once t | (Inr i', t) \<Rightarrow> submission_open r i' t"
    using keep fresh s(2,3)
    by (auto simp: set_redemption_def db_do_def update_redemption_intent_def stored_row_def submission_open_def row_for_def
        Let_def dict_get_set split: option.splits)
qed

lemma hand_over_once:
  assumes "\<And>rep. ro_redeemed io = Inr rep \<Longrightarrow> rp_status rep \<noteq> RD_PENDING"
  shows "hoare (submission_open r i) (hand_over io r (ri_redemption_id i))
    (\<lambda>rep s. handed_once s \<and> rp_status rep \<noteq> RD_PENDING) (\<lambda>_. handed_once)"
  using assms
  by (auto simp: hoare_def hand_over_def andalso_def andthen_def modify_def of_result_def submission_open_def handed_once_def
      stored_row_def split: sum.splits)

lemma or_unknown_once:
  assumes "hoare P m (\<lambda>x s. handed_once s \<and> Q x) (\<lambda>_. handed_once)"
  shows "hoare P (or_unknown w p i what m) (\<lambda>x s. handed_once s \<and> (case x of None \<Rightarrow> True | Some x \<Rightarrow> Q x)) (\<lambda>_. handed_once)"
  unfolding or_unknown_def
proof (rule hoare_catch)
  show "hoare P (andthen m (\<lambda>rep. ret (Some rep))) (\<lambda>x s. handed_once s \<and> (case x of None \<Rightarrow> True | Some x \<Rightarrow> Q x)) (\<lambda>_. handed_once)"
    by (rule hoare_andthen [OF _ assms]) (rule hoare_pre [OF hoare_ret], simp)
next
  fix e
  have "hoare handed_once (andalso (mark_unknown w p i (what @ error_text e)) (ret None))
      (\<lambda>x s. handed_once s \<and> (case x of None \<Rightarrow> True | Some x \<Rightarrow> Q x)) (\<lambda>_. handed_once)"
    by (rule hoare_andalso [OF _ handed_once_hoare [OF progressing_unknown]]) (rule hoare_pre [OF hoare_ret], simp)
  then show "hoare handed_once (if e = Cancelled then raise Cancelled else andalso (mark_unknown w p i (what @ error_text e)) (ret None))
      (\<lambda>x s. handed_once s \<and> (case x of None \<Rightarrow> True | Some x \<Rightarrow> Q x)) (\<lambda>_. handed_once)"
    using hoare_raise [of "\<lambda>_. handed_once" Cancelled] by (auto intro: hoare_if_same)
qed

lemma submit_once:
  assumes "\<And>rep. ro_redeemed io = Inr rep \<Longrightarrow> rp_status rep \<noteq> RD_PENDING"
  shows "hoare (\<lambda>s. handed_once s \<and> stored_row i s \<and> row_for r i \<and> ri_status i = RD_PENDING) (submit_redemption w io p r i)
    (\<lambda>_. handed_once) (\<lambda>_. handed_once)"
proof -
  have answered: "hoare (\<lambda>s. handed_once s \<and> (case x of None \<Rightarrow> True | Some rep \<Rightarrow> rp_status rep \<noteq> RD_PENDING)) (m x)
      (\<lambda>_. handed_once) (\<lambda>_. handed_once)"
    if "m None = ret False" "\<And>rep. rp_status rep \<noteq> RD_PENDING \<Longrightarrow> progressing (m (Some rep))"
    for x and m :: "redemption_report option \<Rightarrow> (settling, leg_error, bool) act"
  proof (cases x)
    case None
    with that(1) show ?thesis using hoare_pre [OF hoare_ret] by (simp add: hoare_def ret_def)
  next
    case (Some rep)
    then show ?thesis
      using handed_once_hoare [OF that(2), of rep] by (cases "rp_status rep = RD_PENDING") (auto simp: hoare_def)
  qed
  show ?thesis
    unfolding submit_redemption_def
  proof (rule hoare_andthen [OF hoare_andthen [OF answered or_unknown_once [OF hand_over_once [OF assms]]] ambiguity_window_opens])
  qed (auto intro!: progress.bind progressing_set progress.seq)
qed

definition answers_never_pending :: "redemption_io \<Rightarrow> bool" where
  "answers_never_pending io \<longleftrightarrow> (case ro_redeemed io of Inl _ \<Rightarrow> True | Inr rep \<Rightarrow> rp_status rep \<noteq> RD_PENDING)"

lemma reconcile_submitted_progress: "progressing (reconcile_submitted w io p i)"
  unfolding reconcile_submitted_def
  by (intro effect_in_if progress.seq progress.bind progressing_or_unknown) (auto intro!: progress.bind progress.seq progressing_set split: option.split)

lemma open_redemption_row:
  "hoare handed_once (open_redemption w r rid)
     (\<lambda>found s. handed_once s \<and> (case found of None \<Rightarrow> True | Some i \<Rightarrow> stored_row i s \<and> row_for r i)) (\<lambda>_. handed_once)"
  unfolding open_redemption_def
proof (rule hoare_andthen [OF _ find_redemption_row])
  fix found :: "redemption_intent option"
  show "hoare (\<lambda>s. handed_once s \<and> (case found of None \<Rightarrow> True | Some i \<Rightarrow> stored_row i s \<and> row_for r i))
     (case found of Some i \<Rightarrow> ret (Some i)
      | None \<Rightarrow> andthen (\<lambda>s. db_do w (\<lambda>db. Inr (create_redemption_intent (new_redemption r rid (w_now w (rt_tick s))) db)) s)
          (\<lambda>_. find_redemption w r))
     (\<lambda>found s. handed_once s \<and> (case found of None \<Rightarrow> True | Some i \<Rightarrow> stored_row i s \<and> row_for r i)) (\<lambda>_. handed_once)"
  proof (cases found)
    case None
    then show ?thesis
      using hoare_andthen [OF find_redemption_row handed_once_hoare [OF progressing_create]] by simp
  next
    case (Some i)
    then show ?thesis by (simp add: hoare_def ret_def)
  qed
qed

lemma process_redemption_once:
  assumes "answers_never_pending io"
  shows "keeps handed_once (process_redemption w io p r)"
proof -
  have answer: "ro_redeemed io = Inr rep \<Longrightarrow> rp_status rep \<noteq> RD_PENDING" for rep
    using assms by (simp add: answers_never_pending_def)
  have continued: "hoare (\<lambda>s. handed_once s \<and> (case found of None \<Rightarrow> True | Some i \<Rightarrow> stored_row i s \<and> row_for r i))
     (case found of
     None \<Rightarrow> andalso (manual_review w p (''could not persist redemption intent for '' @ sr_venue r)) (ret False)
   | Some i \<Rightarrow>
       if ri_status i = RD_CONFIRMED then ret True
       else if ri_status i \<in> {RD_FAILED, RD_MANUAL_REVIEW}
       then andalso (manual_review w p (''redemption is '' @ redemption_status_value (ri_status i) @ '' for '' @ sr_venue r)) (ret False)
       else if ri_status i \<in> {RD_SUBMITTED, RD_UNKNOWN} then reconcile_submitted w io p i
       else submit_redemption w io p r i) (\<lambda>_. handed_once) (\<lambda>_. handed_once)" for found
  proof (cases "\<exists>i. found = Some i \<and> ri_status i = RD_PENDING")
    case True
    then obtain i where i: "found = Some i" "ri_status i = RD_PENDING" by blast
    have "hoare (\<lambda>s. handed_once s \<and> stored_row i s \<and> row_for r i) (submit_redemption w io p r i) (\<lambda>_. handed_once) (\<lambda>_. handed_once)"
      by (rule hoare_pre [OF submit_once [OF answer]]) (simp_all add: i(2))
    with i show ?thesis by simp
  next
    case False
    then have "progressing (case found of
     None \<Rightarrow> andalso (manual_review w p (''could not persist redemption intent for '' @ sr_venue r)) (ret False)
   | Some i \<Rightarrow>
       if ri_status i = RD_CONFIRMED then ret True
       else if ri_status i \<in> {RD_FAILED, RD_MANUAL_REVIEW}
       then andalso (manual_review w p (''redemption is '' @ redemption_status_value (ri_status i) @ '' for '' @ sr_venue r)) (ret False)
       else if ri_status i \<in> {RD_SUBMITTED, RD_UNKNOWN} then reconcile_submitted w io p i
       else submit_redemption w io p r i)"
      by (cases found; cases "ri_status (the found)") (auto intro!: progress.seq reconcile_submitted_progress)
    from handed_once_hoare [OF this] show ?thesis by (rule hoare_pre) simp
  qed
  show ?thesis
    unfolding keeps_hoare process_redemption_def by (rule hoare_andthen [OF continued open_redemption_row])
qed

lemma settlement_requests_progress: "progressing (settlement_requests w io p legs)"
proof (induction legs)
  case (Cons leg legs)
  then show ?case by (cases leg) (auto intro!: progress.bind progress.seq split: bool.split option.split sum.split)
qed simp

lemma process_all_once:
  "(\<And>venue. answers_never_pending (io venue)) \<Longrightarrow> keeps handed_once (process_all w io p rs)"
  by (induction rs) (auto intro!: keeps_andthen process_redemption_once)

lemma reconcile_position_once:
  assumes "\<And>venue. answers_never_pending (io venue)"
  shows "keeps handed_once (reconcile_position w io p)"
proof -
  have processed: "keeps handed_once (andthen (process_all w io p rs) (\<lambda>confirmed.
      when_do (confirmed = Some True) (andalso (audit w) (erase_position w (position_key (p_market p))))))" for rs
    by (intro keeps_andthen keeps_when process_all_once assms handed_once_keeps progress.seq) simp_all
  show ?thesis
    unfolding reconcile_position_def Let_def
    by (intro keeps_andthen handed_once_keeps [OF settlement_requests_progress])
      (simp add: processed handed_once_keeps split: option.split sum.split del: settlement_requests.simps process_all.simps)
qed

lemma settle_once_keeps:
  assumes "\<And>key venue. answers_never_pending (io key venue)"
  shows "keeps handed_once (settle_once w io)"
  unfolding settle_once_def
  by (intro keeps_andthen keeps_for_each keeps_when reconcile_position_once assms) (auto intro: handed_once_keeps)

section \<open>Properties\<close>

text \<open>
  The life of the service: runs under any world and any answers, and restarts that lose the
  ledger, the controller and the rest of the memory, but not the repository.
\<close>

datatype settlement_event =
    Run world "string \<Rightarrow> string \<Rightarrow> redemption_io"
  | Restart position_ledger controller balances

fun settlement_step :: "settling \<Rightarrow> settlement_event \<Rightarrow> settling" where
  "settlement_step s (Run w io) = snd (settle_once w io s)"
| "settlement_step s (Restart book risk bal) = s\<lparr>rt_book := book, rt_risk := risk, rt_bal := bal, rt_active := [], rt_pending := []\<rparr>"

fun honest_event :: "settlement_event \<Rightarrow> bool" where
  "honest_event (Run w io) \<longleftrightarrow> (\<forall>key venue. answers_never_pending (io key venue))"
| "honest_event (Restart _ _ _) \<longleftrightarrow> True"

lemma settlement_steps_once: "\<forall>e \<in> set es. honest_event e \<Longrightarrow> handed_once s \<Longrightarrow> handed_once (foldl settlement_step s es)"
proof (induction es arbitrary: s)
  case (Cons e es)
  have "handed_once (settlement_step s e)"
  proof (cases e)
    case (Run w io)
    with Cons.prems have "keeps handed_once (settle_once w io)" by (intro settle_once_keeps) simp
    with Run Cons.prems(2) show ?thesis by (simp add: keeps_def)
  qed (use Cons.prems(2) in \<open>simp add: handed_once_def\<close>)
  with Cons show ?case by simp
qed simp

text \<open>C29. No redemption is submitted twice: however the database, the connectors and restarts behave, over any
  sequence of runs of the settlement service each condition of a position is handed to a venue's
  \<^verbatim>\<open>redeem_position\<close> at most once, as long as no connector reports a submission as still
  pending.\<close>

theorem no_redemption_submitted_twice:
  assumes "empty_tables (rt_db s)" and "se_handed s = []" and "\<forall>e \<in> set es. honest_event e"
  shows "distinct (map (\<lambda>(r, rid). (sr_position_key r, sr_venue r, sr_condition_id r)) (se_handed (foldl settlement_step s es)))"
proof -
  have "handed_once s" using assms(1,2) by (simp add: handed_once_def repository_ok_empty)
  from settlement_steps_once [OF assms(3) this] show ?thesis
    by (simp add: handed_once_def redemption_key_def case_prod_beta' comp_def)
qed

definition sample_answers :: "redemption_report \<Rightarrow> string \<Rightarrow> string \<Rightarrow> redemption_io" where
  "sample_answers rep key venue = \<lparr>ro_known = True, ro_prepared = Inr, ro_status = Inr RESOLVED, ro_id = key @ venue,
     ro_reconciled = Inr \<lparr>rp_status = RD_UNKNOWN, rp_tx_hash = Some ''0x1'', rp_error = None\<rparr>, ro_redeemed = Inr rep\<rparr>"

definition submitted_report :: redemption_report where
  "submitted_report = \<lparr>rp_status = RD_SUBMITTED, rp_tx_hash = Some ''0x1'', rp_error = None\<rparr>"

definition expired_position :: open_position where
  "expired_position = sample_position\<lparr>p_market := (p_market sample_position)\<lparr>m_expires_at := Some (Aware 0),
     m_condition_id := Some ''0xc0'', m_predict_fun_market_id := Some ''p-7''\<rparr>\<rparr>"

definition expired_state :: settling where
  "expired_state = router.extend (sample_router\<lparr>rt_book := [(position_key (p_market expired_position), expired_position)]\<rparr>)
     (settling.fields [])"

theorem no_redemption_submitted_twice_witness:
  "distinct (map (\<lambda>(r, rid). (sr_position_key r, sr_venue r, sr_condition_id r)) (se_handed (foldl settlement_step expired_state
     [Run sample_world (sample_answers submitted_report), Restart [] sample_controller sample_balances,
      Run sample_world (sample_answers submitted_report)])))"
proof (rule no_redemption_submitted_twice)
  show "empty_tables (rt_db expired_state)" and "se_handed expired_state = []"
    by (simp_all add: expired_state_def sample_router_def router.defs settling.defs empty_repository_tables)
qed (simp add: answers_never_pending_def sample_answers_def submitted_report_def)

end
