(* ===== verification/Windows.thy ===== *)
theory Windows
  imports Py_Num "HOL-Library.Multiset"
begin

text \<open>
  The evaluation windows of \<^verbatim>\<open>engine.py\<close>: which of the planned evaluations run in a cycle and which
  markets stay subscribed. Slots are dealt out to the routes by weight, a route keeps its window
  until it expires, recently executable markets come first and the rest rotates. The last loop of
  the selection has no bound of its own, so it is a partial function: the lemmas say when it ends.
\<close>

section \<open>The state\<close>

type_synonym targets = "(string \<times> string) list"

record 'r evaluation =
  ev_route :: string
  ev_targets :: targets
  ev_run :: 'r

record observation =
  ob_at :: flt
  ob_spread :: flt

text \<open>The settings per route, from the configuration.\<close>

record window_config =
  wc_limit :: "string \<Rightarrow> int"
  wc_weight :: "string \<Rightarrow> int"
  wc_prefetch :: "string \<Rightarrow> int"
  wc_hold :: "string \<Rightarrow> flt"
  wc_priority :: "string \<Rightarrow> flt"
  wc_exploration :: "string \<Rightarrow> flt"

record window_settings =
  ws_limit :: int
  ws_limit_by_route :: "(string, int) dict"
  ws_weight_by_route :: "(string, int) dict"
  ws_prefetch_by_route :: "(string, int) dict"
  ws_hold :: flt
  ws_hold_by_route :: "(string, flt) dict"
  ws_priority :: flt
  ws_priority_by_route :: "(string, flt) dict"
  ws_exploration :: flt
  ws_exploration_by_route :: "(string, flt) dict"

definition window_config_of :: "window_settings \<Rightarrow> window_config" where
  "window_config_of s =
     (let hold = (\<lambda>r. get_or (ws_hold_by_route s) r (ws_hold s)) in
      \<lparr>wc_limit = (\<lambda>r. get_or (ws_limit_by_route s) r (ws_limit s)),
       wc_weight = (\<lambda>r. get_or (ws_weight_by_route s) r 1),
       wc_prefetch = (\<lambda>r. get_or (ws_prefetch_by_route s) r 1),
       wc_hold = hold,
       wc_priority = (\<lambda>r. case dict_get (ws_priority_by_route s) r of Some t \<Rightarrow> t
         | None \<Rightarrow> if 0 < ws_priority s then ws_priority s else hold r),
       wc_exploration = (\<lambda>r. get_or (ws_exploration_by_route s) r (ws_exploration s))\<rparr>)"

record 'r windows =
  wn_planned :: "'r evaluation list"
  wn_by_route :: "(string, 'r evaluation list) dict"
  wn_cursors :: "(string, nat) dict"
  wn_active_cursors :: "(string, nat) dict"
  wn_route_cursor :: nat
  wn_held_keys :: "(string, targets list) dict"
  wn_held :: "(string, 'r evaluation list) dict"
  wn_expires :: "(string, flt) dict"
  wn_recent :: "(string \<times> targets, observation) dict"

definition empty_windows :: "'r windows" where
  "empty_windows = \<lparr>wn_planned = [], wn_by_route = [], wn_cursors = [], wn_active_cursors = [], wn_route_cursor = 0,
     wn_held_keys = [], wn_held = [], wn_expires = [], wn_recent = []\<rparr>"

definition group_by_route :: "'r evaluation list \<Rightarrow> (string, 'r evaluation list) dict" where
  "group_by_route es = foldl (\<lambda>d e. dict_set (ev_route e) (get_or d (ev_route e) [] @ [e]) d) [] es"

text \<open>A new plan is a new tuple, so the cached windows of the previous plan are dropped.\<close>

definition set_planned_evaluations :: "'r evaluation list \<Rightarrow> 'r windows \<Rightarrow> 'r windows" where
  "set_planned_evaluations es st = st\<lparr>wn_planned := es, wn_by_route := group_by_route es, wn_held := []\<rparr>"

definition planned_keys :: "'r windows \<Rightarrow> (string \<times> targets) set" where
  "planned_keys st = set (map (\<lambda>e. (ev_route e, ev_targets e)) (wn_planned st))"

definition mark_recent_executable :: "flt \<Rightarrow> string \<Rightarrow> targets \<Rightarrow> flt \<Rightarrow> 'r windows \<Rightarrow> 'r windows" where
  "mark_recent_executable now route ts spread st =
     st\<lparr>wn_recent := dict_set (route, ts) \<lparr>ob_at = now, ob_spread = spread\<rparr> (wn_recent st)\<rparr>"

section \<open>Slots\<close>

text \<open>\<^verbatim>\<open>for _ in range(weight)\<close> for one route: its slots and the number of slots dealt out so far.\<close>

fun take_slots :: "nat \<Rightarrow> nat \<Rightarrow> nat \<Rightarrow> nat \<times> nat \<Rightarrow> nat \<times> nat" where
  "take_slots 0 limit wanted (k, a) = (k, a)"
| "take_slots (Suc w) limit wanted (k, a) =
     (if limit \<le> k then (k, a) else if a + 1 = wanted then (k + 1, a + 1) else take_slots w limit wanted (k + 1, a + 1))"

fun allocation_pass ::
  "(string \<Rightarrow> nat) \<Rightarrow> (string \<Rightarrow> nat) \<Rightarrow> nat \<Rightarrow> string list \<Rightarrow> (string, nat) dict \<times> nat \<Rightarrow> (string, nat) dict \<times> nat" where
  "allocation_pass weight limit wanted [] (slots, a) = (slots, a)"
| "allocation_pass weight limit wanted (r # rs) (slots, a) =
     (let (k, a') = take_slots (weight r) (limit r) wanted (get_or slots r 0, a); slots' = dict_set r k slots
      in if a' = wanted then (slots', a') else allocation_pass weight limit wanted rs (slots', a'))"

lemma take_slots_grows: "a \<le> snd (take_slots w limit wanted (k, a))"
  by (induction w arbitrary: k a) (auto intro: order_trans [OF _ Suc_leD])

lemma allocation_pass_grows: "a \<le> snd (allocation_pass weight limit wanted rs (slots, a))"
proof (induction rs arbitrary: slots a)
  case (Cons r rs)
  obtain k a' where t: "take_slots (weight r) (limit r) wanted (get_or slots r 0, a) = (k, a')" by fastforce
  then have "a \<le> a'" using take_slots_grows [of a "weight r" "limit r" wanted] by (metis snd_conv)
  with order_trans [OF this Cons.IH] show ?case by (simp add: t Let_def)
qed simp

text \<open>The loop ends with a pass that deals out nothing, or when \<open>wanted\<close> slots are dealt out.\<close>

function allocate ::
  "(string \<Rightarrow> nat) \<Rightarrow> (string \<Rightarrow> nat) \<Rightarrow> nat \<Rightarrow> string list \<Rightarrow> (string, nat) dict \<times> nat \<Rightarrow> (string, nat) dict \<times> nat" where
  "allocate weight limit wanted rs (slots, a) =
     (if a < wanted
      then (let (slots', a') = allocation_pass weight limit wanted rs (slots, a)
            in if a' = a then (slots', a') else allocate weight limit wanted rs (slots', a'))
      else (slots, a))"
  by pat_completeness auto
termination
proof (relation "measure (\<lambda>(_, _, wanted, _, _, a). wanted - a)")
  show "((weight, limit, wanted, rs, slots', a'), weight, limit, wanted, rs, slots, a) \<in> measure (\<lambda>(_, _, wanted, _, _, a). wanted - a)"
    if "a < wanted" "x = allocation_pass weight limit wanted rs (slots, a)" "(slots', a') = x" "a' \<noteq> a"
    for weight limit wanted rs slots a x slots' a'
  proof -
    have "a \<le> a'" using allocation_pass_grows [of a weight limit wanted rs slots] that(2,3) by (metis snd_conv)
    with that(1,4) show ?thesis by simp
  qed
qed simp

declare allocate.simps [simp del]

section \<open>Choosing evaluations\<close>

text \<open>
  \<^verbatim>\<open>while examined < len(evaluations) and len(selected) < wanted\<close>, from the cursor on; the first
  argument counts the evaluations that have not been examined.
\<close>

fun explore :: "nat \<Rightarrow> 'r evaluation list \<Rightarrow> targets set \<Rightarrow> nat \<Rightarrow> nat \<Rightarrow> 'r evaluation list \<Rightarrow> 'r evaluation list \<times> nat" where
  "explore 0 es excluded wanted i selected = (selected, i)"
| "explore (Suc left) es excluded wanted i selected =
     (if wanted \<le> length selected then (selected, i)
      else let e = es ! (i mod length es)
           in explore left es excluded wanted (i + 1) (if ev_targets e \<in> excluded then selected else selected @ [e]))"

definition select_rotating_exploration ::
  "string \<Rightarrow> 'r evaluation list \<Rightarrow> targets set \<Rightarrow> int \<Rightarrow> (string, nat) dict \<Rightarrow> 'r evaluation list \<times> (string, nat) dict" where
  "select_rotating_exploration route es excluded wanted cursors =
     (if wanted \<le> 0 \<or> es = [] then ([], cursors)
      else let (selected, i) = explore (length es) es excluded (nat wanted) (get_or cursors route 0 mod length es) []
           in (selected, dict_set route (i mod length es) cursors))"

text \<open>\<^verbatim>\<open>sorted(..., reverse=True)\<close> by the spread and then by the time; it keeps the order of equal entries.\<close>

definition recent_executable_candidates ::
  "window_config \<Rightarrow> (string \<times> targets, observation) dict \<Rightarrow> string \<Rightarrow> 'r evaluation list \<Rightarrow> flt \<Rightarrow> 'r evaluation list" where
  "recent_executable_candidates c recent route es now =
     (if wc_priority c route \<le> 0 then []
      else let observed = (\<lambda>e. dict_get recent (route, ev_targets e));
               candidates = filter (\<lambda>e. case observed e of None \<Rightarrow> False
                 | Some ob \<Rightarrow> fsub now (ob_at ob) \<le> wc_priority c route) es
           in rev (sort_key (\<lambda>e. ob_spread (the (observed e))) (sort_key (\<lambda>e. ob_at (the (observed e))) (rev candidates))))"

definition exploration_count :: "window_config \<Rightarrow> string \<Rightarrow> nat \<Rightarrow> int" where
  "exploration_count c route wanted =
     (let fraction = wc_exploration c route;
          limit = (if 1 < wanted \<and> fraction < 1 then int wanted - 1 else int wanted)
      in min limit (max 1 \<lceil>fmul (of_nat wanted) fraction\<rceil>))"

text \<open>The evaluations that come first, and those that fill up the rest.\<close>

definition prioritized ::
  "window_config \<Rightarrow> (string \<times> targets, observation) dict \<Rightarrow> string \<Rightarrow> 'r evaluation list \<Rightarrow> nat \<Rightarrow> flt \<Rightarrow> (string, nat) dict \<Rightarrow>
    'r evaluation list \<times> (string, nat) dict" where
  "prioritized c recent route es wanted now cursors =
     (let candidates = recent_executable_candidates c recent route es now;
          reserve = candidates \<noteq> [] \<and> length candidates < length es;
          exploring = (if reserve then exploration_count c route wanted else 0);
          priority = take (nat (min (int (length candidates)) (max 0 (int wanted - exploring)))) candidates;
          (exploration, cursors') = select_rotating_exploration route es (set (map ev_targets priority))
            (int wanted - int (length priority)) cursors
      in (priority @ exploration, cursors'))"

section \<open>The window of a route\<close>

text \<open>\<^verbatim>\<open>popleft\<close> from the evaluations with the same targets.\<close>

fun take_match :: "targets \<Rightarrow> 'r evaluation list \<Rightarrow> ('r evaluation \<times> 'r evaluation list) option" where
  "take_match k [] = None"
| "take_match k (e # es) = (if ev_targets e = k then Some (e, es)
     else map_option (\<lambda>(x, rest). (x, e # rest)) (take_match k es))"

fun match_keys :: "targets list \<Rightarrow> 'r evaluation list \<Rightarrow> 'r evaluation list option" where
  "match_keys [] es = Some []"
| "match_keys (k # ks) es = (case take_match k es of None \<Rightarrow> None
     | Some (e, rest) \<Rightarrow> map_option ((#) e) (match_keys ks rest))"

definition restore_held_window ::
  "string \<Rightarrow> 'r evaluation list \<Rightarrow> nat \<Rightarrow> flt \<Rightarrow> 'r windows \<Rightarrow> 'r evaluation list option \<times> 'r windows" where
  "restore_held_window route es expected now st =
     (let keys = get_or (wn_held_keys st) route [] in
      if keys = [] \<or> get_or (wn_expires st) route 0 \<le> now
      then (None, st\<lparr>wn_held := dict_pop route (wn_held st)\<rparr>)
      else case (case dict_get (wn_held st) route of Some cached \<Rightarrow> Some cached | None \<Rightarrow> match_keys keys es) of
        None \<Rightarrow> (None, st)
      | Some held \<Rightarrow>
          if length held = expected then (Some held, st\<lparr>wn_held := dict_set route held (wn_held st)\<rparr>)
          else let kept = take expected held;
                   (extra, cursors) = select_rotating_exploration route es (set (map ev_targets kept))
                     (int expected - int (length kept)) (wn_cursors st);
                   held' = kept @ extra; st' = st\<lparr>wn_cursors := cursors\<rparr>
               in if length held' \<noteq> expected then (None, st')
                  else (Some held', st'\<lparr>wn_held_keys := dict_set route (map ev_targets held') (wn_held_keys st),
                    wn_held := dict_set route held' (wn_held st)\<rparr>))"

definition build_window ::
  "window_config \<Rightarrow> string \<Rightarrow> 'r evaluation list \<Rightarrow> nat \<Rightarrow> flt \<Rightarrow> 'r windows \<Rightarrow> 'r evaluation list \<times> 'r windows" where
  "build_window c route es wanted now st =
     (let (held, cursors) = prioritized c (wn_recent st) route es wanted now (wn_cursors st)
      in (held, st\<lparr>wn_cursors := cursors, wn_held_keys := dict_set route (map ev_targets held) (wn_held_keys st),
        wn_held := dict_set route held (wn_held st),
        wn_expires := dict_set route (fadd now (wc_hold c route)) (wn_expires st),
        wn_active_cursors := dict_set route 0 (wn_active_cursors st)\<rparr>))"

text \<open>The evaluations of a route that run in this cycle, and those that stay subscribed.\<close>

definition route_window ::
  "window_config \<Rightarrow> flt \<Rightarrow> string \<Rightarrow> 'r evaluation list \<Rightarrow> nat \<Rightarrow> 'r windows \<Rightarrow>
    'r evaluation list \<times> 'r evaluation list \<times> 'r windows" where
  "route_window c now route es active_count st =
     (if active_count = 0
      then ([], [], st\<lparr>wn_held_keys := dict_pop route (wn_held_keys st), wn_held := dict_pop route (wn_held st),
        wn_expires := dict_pop route (wn_expires st), wn_active_cursors := dict_pop route (wn_active_cursors st)\<rparr>)
      else let prefetch = min (length es) (active_count * nat (wc_prefetch c route));
               (held, st1) = (case restore_held_window route es prefetch now st of
                  (Some held, st1) \<Rightarrow> (held, st1)
                | (None, st1) \<Rightarrow> build_window c route es prefetch now st1);
               (active, cursors) = prioritized c (wn_recent st1) route held active_count now (wn_active_cursors st1)
           in (active, held, st1\<lparr>wn_active_cursors := cursors\<rparr>))"

fun route_windows ::
  "window_config \<Rightarrow> flt \<Rightarrow> (string, nat) dict \<Rightarrow> (string, 'r evaluation list) dict \<Rightarrow> 'r windows \<Rightarrow>
    (string, 'r evaluation list) dict \<times> (string, 'r evaluation list) dict \<times> 'r windows" where
  "route_windows c now slots [] st = ([], [], st)"
| "route_windows c now slots ((route, es) # rest) st =
     (let (active, held, st1) = route_window c now route es (get_or slots route 0) st;
          (actives, helds, st2) = route_windows c now slots rest st1
      in ((route, active) # actives, (route, held) # helds, st2))"

section \<open>Interleaving the routes\<close>

text \<open>One pass over the routes; what a route has not contributed yet stays in its queue.\<close>

fun interleave_pass :: "nat \<Rightarrow> 'r evaluation list list \<Rightarrow> 'r evaluation list \<Rightarrow> 'r evaluation list list \<times> 'r evaluation list" where
  "interleave_pass n [] active = ([], active)"
| "interleave_pass n (q # qs) active =
     (case q of
        [] \<Rightarrow> (let (qs', active') = interleave_pass n qs active in ([] # qs', active'))
      | e # q' \<Rightarrow>
          if length active + 1 = n then (q' # qs, active @ [e])
          else let (qs', active') = interleave_pass n qs (active @ [e]) in (q' # qs', active'))"

text \<open>\<^verbatim>\<open>while len(active_evaluations) < allocated\<close>: nothing in the loop makes it end.\<close>

partial_function (option) interleave :: "nat \<Rightarrow> 'r evaluation list list \<Rightarrow> 'r evaluation list \<Rightarrow> 'r evaluation list option" where
  "interleave n qs active =
     (if length active < n then interleave n (fst (interleave_pass n qs active)) (snd (interleave_pass n qs active))
      else Some active)"

section \<open>The selection\<close>

definition drop_idle :: "string list \<Rightarrow> (string, 'v) dict \<Rightarrow> (string, 'v) dict" where
  "drop_idle routes d = filter (\<lambda>(r, _). r \<in> set routes) d"

definition forget_stale :: "window_config \<Rightarrow> flt \<Rightarrow> 'r windows \<Rightarrow> 'r windows" where
  "forget_stale c now st =
     (let routes = map fst (wn_by_route st) in
      st\<lparr>wn_cursors := drop_idle routes (wn_cursors st), wn_active_cursors := drop_idle routes (wn_active_cursors st),
        wn_held_keys := drop_idle routes (wn_held_keys st), wn_held := drop_idle routes (wn_held st),
        wn_expires := drop_idle routes (wn_expires st),
        wn_recent := filter (\<lambda>((route, ts), ob). \<not> (wc_priority c route \<le> 0 \<or> (route, ts) \<notin> planned_keys st \<or>
          wc_priority c route < fsub now (ob_at ob))) (wn_recent st)\<rparr>)"

definition route_limit :: "window_config \<Rightarrow> 'r windows \<Rightarrow> string \<Rightarrow> nat" where
  "route_limit c st route = min (length (get_or (wn_by_route st) route [])) (nat (wc_limit c route))"

text \<open>What runs and what stays subscribed, unless the last loop does not end.\<close>

definition select_evaluation_window ::
  "window_config \<Rightarrow> int \<Rightarrow> flt \<Rightarrow> 'r windows \<Rightarrow> ('r evaluation list \<times> 'r evaluation list \<times> 'r windows) option" where
  "select_evaluation_window c limit now st =
     (if wn_planned st = []
      then Some ([], [], st\<lparr>wn_cursors := [], wn_active_cursors := [], wn_route_cursor := 0, wn_held_keys := [], wn_held := [],
        wn_expires := [], wn_recent := []\<rparr>)
      else let wanted = min (nat (max 1 limit)) (length (wn_planned st));
               routes = map fst (wn_by_route st); start = wn_route_cursor st mod length routes;
               ordered = drop start routes @ take start routes;
               (slots, allocated) = allocate (\<lambda>r. nat (wc_weight c r)) (route_limit c st) wanted ordered (map (\<lambda>r. (r, 0)) routes, 0);
               st1 = forget_stale c now (st\<lparr>wn_route_cursor := (start + 1) mod length routes\<rparr>);
               (actives, helds, st2) = route_windows c now slots (wn_by_route st) st1
           in map_option (\<lambda>active. (active, concat (map (\<lambda>r. get_or helds r []) ordered), st2))
                (interleave allocated (map (\<lambda>r. get_or actives r []) ordered) []))"

text \<open>The markets that stay subscribed, by venue.\<close>

definition targets_for_evaluations :: "'r evaluation list \<Rightarrow> (string, string set) dict" where
  "targets_for_evaluations es = foldl (\<lambda>d (venue, token). if token = [] then d
     else dict_set venue (insert token (get_or d venue {})) d) [] (concat (map ev_targets es))"

section \<open>Lemmas\<close>

subsection \<open>Slots\<close>

text \<open>\<open>slots\<close> deals out \<open>a\<close> of at most \<open>wanted\<close> slots within the limits of the routes in \<open>R\<close>.\<close>

definition dealt :: "(string \<Rightarrow> nat) \<Rightarrow> nat \<Rightarrow> string set \<Rightarrow> (string, nat) dict \<times> nat \<Rightarrow> bool" where
  "dealt limit wanted R sa \<longleftrightarrow> (\<forall>r \<in> R. get_or (fst sa) r 0 \<le> limit r) \<and> (\<Sum>r\<in>R. get_or (fst sa) r 0) = snd sa \<and> snd sa \<le> wanted"

lemma take_slots_facts:
  assumes "take_slots w limit wanted (k, a) = (k', a')" and "a < wanted" and "k \<le> limit"
  shows "k' \<le> limit \<and> a' \<le> wanted \<and> k \<le> k' \<and> a' + k = a + k' \<and> (0 < w \<and> a' = a \<longrightarrow> k' = limit)"
  using assms
proof (induction w arbitrary: k a)
  case (Suc w)
  show ?case
  proof (cases "limit \<le> k \<or> a + 1 = wanted")
    case True
    with Suc.prems show ?thesis by (auto split: if_splits)
  next
    case False
    then have "take_slots w limit wanted (k + 1, a + 1) = (k', a')" using Suc.prems(1) by simp
    from Suc.IH [OF this] False Suc.prems(2) show ?thesis by auto
  qed
qed simp

lemma sum_get_or_set:
  "finite R \<Longrightarrow> r \<in> R \<Longrightarrow> (\<Sum>x\<in>R. get_or (dict_set r k d) x 0) + get_or d r 0 = (\<Sum>x\<in>R. get_or d x 0) + (k :: nat)"
  by (simp add: sum.remove [of R r])

lemma dealt_set:
  assumes "finite R" and "r \<in> R" and "dealt limit wanted R (slots, a)" and "a < wanted"
    and "take_slots w (limit r) wanted (get_or slots r 0, a) = (k, a')"
  shows "dealt limit wanted R (dict_set r k slots, a')"
proof -
  have "get_or slots r 0 \<le> limit r" using assms(2,3) by (simp add: dealt_def)
  from take_slots_facts [OF assms(5,4) this] sum_get_or_set [OF assms(1,2), of k slots] assms(3)
  show ?thesis by (auto simp: dealt_def)
qed

lemma allocation_pass_dealt:
  assumes "finite R" and "set rs \<subseteq> R" and "dealt limit wanted R (slots, a)" and "a < wanted"
  shows "dealt limit wanted R (allocation_pass weight limit wanted rs (slots, a))"
  using assms(2-4)
proof (induction rs arbitrary: slots a)
  case (Cons r rs)
  obtain k a' where t: "take_slots (weight r) (limit r) wanted (get_or slots r 0, a) = (k, a')" by fastforce
  have "dealt limit wanted R (dict_set r k slots, a')"
    by (rule dealt_set [OF assms(1) _ Cons.prems(2,3) t]) (use Cons.prems(1) in simp)
  with Cons.IH [OF _ this] Cons.prems(1) show ?case by (auto simp: t Let_def dealt_def)
qed simp

text \<open>A pass that deals out nothing has met every route at its limit.\<close>

lemma allocation_pass_stuck:
  assumes "finite R" and "set rs \<subseteq> R" and "\<And>r. 0 < weight r" and "dealt limit wanted R (slots, a)" and "a < wanted"
    and "snd (allocation_pass weight limit wanted rs (slots, a)) = a"
  shows "\<forall>r \<in> set rs. get_or slots r 0 = limit r"
  using assms(2,4-6)
proof (induction rs arbitrary: slots)
  case (Cons r rs)
  obtain k a' where t: "take_slots (weight r) (limit r) wanted (get_or slots r 0, a) = (k, a')" by fastforce
  have le: "get_or slots r 0 \<le> limit r" using Cons.prems(1,2) by (simp add: dealt_def)
  note facts = take_slots_facts [OF t Cons.prems(3) le]
  have "a' = a"
  proof -
    have "a' \<le> a"
      using Cons.prems(4) allocation_pass_grows [of a' weight limit wanted rs "dict_set r k slots"]
      by (auto simp: t Let_def split: if_splits)
    with facts show ?thesis by simp
  qed
  with facts assms(3) [of r] have k: "k = limit r" "get_or slots r 0 = limit r" by auto
  have next_dealt: "dealt limit wanted R (dict_set r k slots, a)"
    using dealt_set [OF assms(1) _ Cons.prems(2,3) t] Cons.prems(1) \<open>a' = a\<close> by simp
  have "snd (allocation_pass weight limit wanted rs (dict_set r k slots, a)) = a"
    using Cons.prems(3,4) \<open>a' = a\<close> by (simp add: t Let_def)
  from Cons.IH [OF _ next_dealt Cons.prems(3) this] Cons.prems(1) k show ?case by (auto split: if_splits)
qed simp

lemma allocate_dealt:
  assumes "finite R" and "set rs = R" and "\<And>r. 0 < weight r"
  shows "dealt limit wanted R (slots, a) \<Longrightarrow>
    dealt limit wanted R (allocate weight limit wanted rs (slots, a)) \<and>
    snd (allocate weight limit wanted rs (slots, a)) = min wanted (\<Sum>r\<in>R. limit r)"
proof (induction "wanted - a" arbitrary: slots a rule: less_induct)
  case less
  have within: "(\<Sum>r\<in>R. get_or slots r 0) \<le> (\<Sum>r\<in>R. limit r)"
    using less.prems by (intro sum_mono) (simp add: dealt_def)
  show ?case
  proof (cases "a < wanted")
    case False
    with less.prems within show ?thesis by (simp add: allocate.simps dealt_def)
  next
    case True
    obtain slots' a' where pass: "allocation_pass weight limit wanted rs (slots, a) = (slots', a')" by fastforce
    have dealt': "dealt limit wanted R (slots', a')"
      using allocation_pass_dealt [OF assms(1) _ less.prems True, of rs weight] assms(2) by (simp add: pass)
    show ?thesis
    proof (cases "a' = a")
      case stuck: True
      then have "\<forall>r\<in>R. get_or slots r 0 = limit r"
        using allocation_pass_stuck [where weight = weight, OF assms(1) _ assms(3) less.prems True, of rs] assms(2) by (simp add: pass)
      then have "(\<Sum>r\<in>R. limit r) = a" using less.prems by (simp add: dealt_def)
      with True stuck dealt' show ?thesis by (simp add: allocate.simps [of weight limit wanted rs slots a] pass)
    next
      case False
      have "a \<le> a'" using allocation_pass_grows [of a weight limit wanted rs slots] by (simp add: pass)
      with False True have "wanted - a' < wanted - a" by simp
      from less.hyps [OF this dealt'] True False show ?thesis
        by (simp add: allocate.simps [of weight limit wanted rs slots a] pass)
    qed
  qed
qed

subsection \<open>Rotation\<close>

lemma explore_eq:
  "fst (explore left es excluded wanted i selected) = selected @ take (wanted - length selected)
     (filter (\<lambda>e. ev_targets e \<notin> excluded) (map (\<lambda>j. es ! (j mod length es)) [i..<i + left]))"
proof (induction left arbitrary: i selected)
  case (Suc left)
  have upt: "[i..<i + Suc left] = i # [Suc i..<Suc i + left]" by (simp add: upt_conv_Cons del: upt_Suc)
  show ?case
  proof (cases "wanted \<le> length selected")
    case False
    then have "wanted - length selected = Suc (wanted - Suc (length selected))" by simp
    with False Suc.IH [of "Suc i"] show ?thesis unfolding upt by (simp add: Let_def del: upt_Suc)
  qed simp
qed simp

lemma one_turn: "map (\<lambda>j. es ! (j mod length es)) [i..<i + length es] = rotate i es"
  by (rule nth_equalityI) (simp_all add: nth_rotate add.commute)

lemma select_rotating_eq:
  "fst (select_rotating_exploration route es excluded wanted cursors) =
     (if wanted \<le> 0 then [] else take (nat wanted)
       (filter (\<lambda>e. ev_targets e \<notin> excluded) (rotate (get_or cursors route 0 mod length es) es)))"
  by (auto simp: select_rotating_exploration_def explore_eq one_turn split: prod.split dest!: arg_cong [where f = fst])

text \<open>Markets are told apart by their targets.\<close>

definition apart :: "'r evaluation list \<Rightarrow> bool" where
  "apart es \<longleftrightarrow> distinct (map ev_targets es)"

lemma select_rotating_apart:
  assumes "apart es" and "fst (select_rotating_exploration route es excluded wanted cursors) = chosen"
  shows "apart chosen" and "set chosen \<subseteq> set es" and "ev_targets ` set chosen \<inter> excluded = {}"
proof -
  define turn where "turn = rotate (get_or cursors route 0 mod length es) es"
  define found where "found = filter (\<lambda>e. ev_targets e \<notin> excluded) turn"
  have found: "apart found" "set found \<subseteq> set es" "ev_targets ` set found \<inter> excluded = {}"
    using assms(1) distinct_map_filter [of ev_targets turn]
    by (auto simp: found_def turn_def apart_def rotate_map [symmetric])
  obtain n where chosen: "chosen = take n found"
    using assms(2) by (metis select_rotating_eq take0 found_def turn_def)
  show "apart chosen" "set chosen \<subseteq> set es" "ev_targets ` set chosen \<inter> excluded = {}"
    using found set_take_subset [of n found] by (auto simp: chosen apart_def take_map [symmetric] distinct_take)
qed

lemma select_rotating_length:
  assumes "apart es" and "excluded \<subseteq> ev_targets ` set es" and "0 \<le> wanted"
  shows "length (fst (select_rotating_exploration route es excluded wanted cursors)) = min (nat wanted) (length es - card excluded)"
proof -
  define turn where "turn = rotate (get_or cursors route 0 mod length es) es"
  define found where "found = filter (\<lambda>e. ev_targets e \<notin> excluded) turn"
  have "apart found" using assms(1) distinct_map_filter [of ev_targets turn]
    by (auto simp: found_def turn_def apart_def rotate_map [symmetric])
  then have "length found = card (ev_targets ` set found)"
    using distinct_card [of "map ev_targets found"] by (simp add: apart_def)
  also have "ev_targets ` set found = ev_targets ` set es - excluded" by (auto simp: found_def turn_def)
  also have "card \<dots> = length es - card excluded"
  proof -
    have "finite excluded" using assms(2) by (rule finite_subset) simp
    moreover have "card (ev_targets ` set es) = length es"
      using distinct_card [of "map ev_targets es"] assms(1) by (simp add: apart_def)
    ultimately show ?thesis using card_Diff_subset [of excluded "ev_targets ` set es"] assms(2) by simp
  qed
  finally show ?thesis using assms(3) by (auto simp: select_rotating_eq found_def turn_def)
qed

subsection \<open>Priorities\<close>

lemma candidates_part:
  assumes "apart es"
  shows "apart (recent_executable_candidates c recent route es now)"
    and "set (recent_executable_candidates c recent route es now) \<subseteq> set es"
    and "length (recent_executable_candidates c recent route es now) \<le> length es"
proof -
  define P :: "'a evaluation \<Rightarrow> bool" where "P = (\<lambda>e. case dict_get recent (route, ev_targets e) of None \<Rightarrow> False
      | Some ob \<Rightarrow> fsub now (ob_at ob) \<le> wc_priority c route)"
  have P: "recent_executable_candidates c recent route es now = [] \<or>
      mset (recent_executable_candidates c recent route es now) = mset (filter P es)"
    by (simp add: recent_executable_candidates_def Let_def P_def)
  show "set (recent_executable_candidates c recent route es now) \<subseteq> set es"
    using P by (auto simp flip: mset_filter dest: mset_eq_setD)
  show "length (recent_executable_candidates c recent route es now) \<le> length es"
    using P by (auto simp flip: mset_filter dest!: mset_eq_length)
  have "distinct (map ev_targets (filter P es))" using assms distinct_map_filter by (auto simp: apart_def)
  moreover have "mset (map ev_targets (recent_executable_candidates c recent route es now)) = mset (map ev_targets (filter P es))"
    if "recent_executable_candidates c recent route es now \<noteq> []"
    using P that by simp
  ultimately show "apart (recent_executable_candidates c recent route es now)"
    unfolding apart_def by (cases "recent_executable_candidates c recent route es now = []") (simp, metis mset_eq_imp_distinct_iff)
qed

lemma exploration_count_nonneg: "0 \<le> exploration_count c route wanted"
  by (auto simp: exploration_count_def Let_def)

lemma prioritized_apart:
  assumes "apart es" and "wanted \<le> length es" and "fst (prioritized c recent route es wanted now cursors) = chosen"
  shows "length chosen = wanted" and "apart chosen" and "set chosen \<subseteq> set es"
proof -
  define candidates where "candidates = recent_executable_candidates c recent route es now"
  define exploring where "exploring = (if candidates \<noteq> [] \<and> length candidates < length es then exploration_count c route wanted else 0)"
  define priority where "priority = take (nat (min (int (length candidates)) (max 0 (int wanted - exploring)))) candidates"
  define rest where "rest = fst (select_rotating_exploration route es (set (map ev_targets priority)) (int wanted - int (length priority)) cursors)"
  have chosen: "chosen = priority @ rest"
    using assms(3) unfolding prioritized_def Let_def candidates_def [symmetric] exploring_def [symmetric] priority_def [symmetric] rest_def
    by (auto split: prod.splits)
  have cand: "apart candidates" "set candidates \<subseteq> set es" "length candidates \<le> length es"
    unfolding candidates_def by (rule candidates_part [OF assms(1)])+
  have "0 \<le> exploring" by (simp add: exploring_def exploration_count_nonneg)
  then have few: "length priority \<le> wanted" by (auto simp: priority_def)
  have priority: "apart priority" "set priority \<subseteq> set es"
    using cand set_take_subset [of _ candidates] by (auto simp: priority_def apart_def take_map [symmetric] distinct_take)
  have excluded: "set (map ev_targets priority) \<subseteq> ev_targets ` set es" using priority(2) by auto
  have "card (set (map ev_targets priority)) = length priority"
    using priority(1) distinct_card [of "map ev_targets priority"] by (simp add: apart_def)
  with select_rotating_apart [OF assms(1) rest_def [symmetric]] few assms(2)
    select_rotating_length [OF assms(1) excluded, of "int wanted - int (length priority)" route cursors]
  have rest: "length rest = wanted - length priority" "apart rest" "set rest \<subseteq> set es"
    "ev_targets ` set rest \<inter> set (map ev_targets priority) = {}"
    by (auto simp: rest_def)
  show "length chosen = wanted" using few rest(1) by (simp add: chosen)
  show "apart chosen" using priority(1) rest(2,4) by (auto simp: chosen apart_def)
  show "set chosen \<subseteq> set es" using priority(2) rest(3) by (simp add: chosen)
qed

subsection \<open>Windows\<close>

text \<open>Every window that is held has markets that can be told apart.\<close>

definition windows_ok :: "'r windows \<Rightarrow> bool" where
  "windows_ok st \<longleftrightarrow> (\<forall>route. distinct (get_or (wn_held_keys st) route []) \<and> apart (get_or (wn_held st) route []))"

lemma take_match_targets: "take_match k es = Some (e, rest) \<Longrightarrow> ev_targets e = k"
  by (induction es arbitrary: rest) (auto split: if_splits)

lemma match_keys_targets: "match_keys ks es = Some held \<Longrightarrow> map ev_targets held = ks"
proof (induction ks arbitrary: es held)
  case (Cons k ks)
  then show ?case by (auto split: option.splits prod.splits dest: take_match_targets)
qed simp

lemma restored_window:
  assumes "windows_ok st" and "apart es" and "restore_held_window route es expected now st = (held, st')"
  shows "windows_ok st'" and "wn_by_route st' = wn_by_route st" and "wn_planned st' = wn_planned st"
    and "case held of None \<Rightarrow> True | Some h \<Rightarrow> length h = expected \<and> apart h"
proof -
  define keys where "keys = get_or (wn_held_keys st) route []"
  define found where "found = (case dict_get (wn_held st) route of Some cached \<Rightarrow> Some cached | None \<Rightarrow> match_keys keys es)"
  note run = assms(3) [unfolded restore_held_window_def Let_def, folded keys_def, folded found_def]
  have "windows_ok st' \<and> wn_by_route st' = wn_by_route st \<and> wn_planned st' = wn_planned st \<and>
      (case held of None \<Rightarrow> True | Some h \<Rightarrow> length h = expected \<and> apart h)"
  proof (cases "keys = [] \<or> get_or (wn_expires st) route 0 \<le> now \<or> found = None")
    case True
    with run assms(1) show ?thesis by (auto simp: windows_ok_def apart_def split: if_splits)
  next
    case False
    then obtain h where h: "found = Some h" by auto
    have held: "apart h"
    proof (cases "dict_get (wn_held st) route")
      case None
      with h have "map ev_targets h = keys" by (auto simp: found_def dest: match_keys_targets)
      with assms(1) show ?thesis by (simp add: windows_ok_def keys_def apart_def)
    next
      case (Some cached)
      with h have "get_or (wn_held st) route [] = h" by (simp add: found_def get_or_def)
      with assms(1) show ?thesis by (metis windows_ok_def)
    qed
    obtain extra cursors where extra: "select_rotating_exploration route es (set (map ev_targets (take expected h)))
        (int expected - int (length (take expected h))) (wn_cursors st) = (extra, cursors)" by fastforce
    have chosen: "fst (select_rotating_exploration route es (set (map ev_targets (take expected h)))
        (int expected - int (length (take expected h))) (wn_cursors st)) = extra"
      by (simp only: extra fst_conv)
    have kept: "apart (take expected h)" using held by (simp add: apart_def take_map [symmetric] distinct_take)
    have "apart (take expected h @ extra)"
      using kept select_rotating_apart(1,3) [OF assms(2) chosen] by (auto simp: apart_def)
    with run False h held extra assms(1) show ?thesis
      by (auto simp: windows_ok_def apart_def Let_def split: if_splits)
  qed
  then show "windows_ok st'" "wn_by_route st' = wn_by_route st" "wn_planned st' = wn_planned st"
    "case held of None \<Rightarrow> True | Some h \<Rightarrow> length h = expected \<and> apart h" by simp_all
qed

lemma built_window:
  assumes "windows_ok st" and "apart es" and "wanted \<le> length es" and "build_window c route es wanted now st = (held, st')"
  shows "windows_ok st'" and "wn_by_route st' = wn_by_route st" and "wn_planned st' = wn_planned st"
    and "length held = wanted" and "apart held"
proof -
  obtain cursors where p: "prioritized c (wn_recent st) route es wanted now (wn_cursors st) = (held, cursors)"
    using assms(4) by (auto simp: build_window_def split: prod.splits)
  have "length held = wanted" "apart held"
    using prioritized_apart [OF assms(2,3), of c "wn_recent st" route now "wn_cursors st" held] by (simp_all add: p)
  then show "windows_ok st'" "wn_by_route st' = wn_by_route st" "wn_planned st' = wn_planned st" "length held = wanted" "apart held"
    using assms(1,4) by (auto simp: build_window_def p windows_ok_def apart_def)
qed

lemma route_window_facts:
  assumes "windows_ok st" and "apart es" and "active_count \<le> length es" and "0 < wc_prefetch c route"
    and "route_window c now route es active_count st = (active, held, st')"
  shows "windows_ok st'" and "wn_by_route st' = wn_by_route st" and "wn_planned st' = wn_planned st"
    and "length active = active_count" and "apart active" and "set active \<subseteq> set held"
proof -
  have "windows_ok st' \<and> wn_by_route st' = wn_by_route st \<and> wn_planned st' = wn_planned st \<and>
      length active = active_count \<and> apart active \<and> set active \<subseteq> set held"
  proof (cases "active_count = 0")
    case True
    with assms(1,5) show ?thesis by (auto simp: route_window_def windows_ok_def apart_def)
  next
    case False
    define prefetch where "prefetch = min (length es) (active_count * nat (wc_prefetch c route))"
    have "active_count \<le> active_count * nat (wc_prefetch c route)" using assms(4) by (cases "nat (wc_prefetch c route)") auto
    then have prefetch: "active_count \<le> prefetch" "prefetch \<le> length es" using assms(3) by (simp_all add: prefetch_def)
    obtain found st0 where restored: "restore_held_window route es prefetch now st = (found, st0)" by fastforce
    note kept = restored_window [OF assms(1,2) restored]
    obtain window st1 where window: "(case restore_held_window route es prefetch now st of
        (Some held, st1) \<Rightarrow> (held, st1) | (None, st1) \<Rightarrow> build_window c route es prefetch now st1) = (window, st1)"
      by fastforce
    have ok: "windows_ok st1 \<and> wn_by_route st1 = wn_by_route st \<and> wn_planned st1 = wn_planned st \<and>
        length window = prefetch \<and> apart window"
    proof (cases found)
      case None
      then show ?thesis using built_window [OF kept(1) assms(2) prefetch(2)] window kept(2,3) by (simp add: restored)
    qed (use window kept in \<open>simp add: restored\<close>)
    obtain cursors where chosen: "prioritized c (wn_recent st1) route window active_count now (wn_active_cursors st1) = (active, cursors)"
      and "held = window" and st': "st' = st1\<lparr>wn_active_cursors := cursors\<rparr>"
      using assms(5) False window
      by (auto simp: route_window_def Let_def prefetch_def [symmetric] split: prod.splits)
    then have "length active = active_count \<and> apart active \<and> set active \<subseteq> set held"
      using prioritized_apart [of window active_count c "wn_recent st1" route now "wn_active_cursors st1" active] ok prefetch(1)
      by simp
    with ok show ?thesis by (simp add: st' windows_ok_def)
  qed
  then show "windows_ok st'" "wn_by_route st' = wn_by_route st" "wn_planned st' = wn_planned st"
    "length active = active_count" "apart active" "set active \<subseteq> set held" by simp_all
qed

lemma route_windows_facts:
  assumes "windows_ok st" and "\<forall>(route, es) \<in> set table. apart es \<and> get_or slots route 0 \<le> length es"
    and "\<And>route. 0 < wc_prefetch c route" and "distinct (map fst table)"
    and "route_windows c now slots table st = (actives, helds, st')"
  shows "windows_ok st' \<and> wn_by_route st' = wn_by_route st \<and> wn_planned st' = wn_planned st \<and>
    (\<forall>route \<in> fst ` set table. length (get_or actives route []) = get_or slots route 0)"
  using assms(1,2,4,5)
proof (induction table arbitrary: st actives helds st')
  case (Cons entry table)
  obtain route es where entry: "entry = (route, es)" by fastforce
  obtain active held st1 where w: "route_window c now route es (get_or slots route 0) st = (active, held, st1)"
    by (metis prod_cases3)
  obtain actives' helds' st2 where rest: "route_windows c now slots table st1 = (actives', helds', st2)" by (metis prod_cases3)
  have facts: "windows_ok st1" "wn_by_route st1 = wn_by_route st" "wn_planned st1 = wn_planned st"
    "length active = get_or slots route 0"
    using route_window_facts [OF Cons.prems(1) _ _ assms(3) w] Cons.prems(2) by (simp_all add: entry)
  have "windows_ok st2 \<and> wn_by_route st2 = wn_by_route st1 \<and> wn_planned st2 = wn_planned st1 \<and>
      (\<forall>route \<in> fst ` set table. length (get_or actives' route []) = get_or slots route 0)"
    using Cons.IH [OF facts(1) _ _ rest] Cons.prems(2,3) by (simp add: entry)
  moreover have "route \<notin> fst ` set table" using Cons.prems(3) by (simp add: entry)
  moreover have "actives = (route, active) # actives'" "st' = st2" using Cons.prems(4) by (simp_all add: entry w rest)
  ultimately show ?case using facts by (auto simp: entry get_or_def dict_get_def)
qed simp

subsection \<open>Interleaving\<close>

lemma interleave_pass_sum:
  "interleave_pass n qs active = (qs', active') \<Longrightarrow> length active < n \<Longrightarrow>
    sum_list (map length qs') + length active' = sum_list (map length qs) + length active \<and> length active \<le> length active' \<and>
    length active' \<le> n \<and> (0 < sum_list (map length qs) \<longrightarrow> length active < length active')"
proof (induction qs arbitrary: active qs' active')
  case (Cons q qs)
  show ?case
  proof (cases q)
    case Nil
    with Cons.prems Cons.IH [of active] show ?thesis by (auto split: prod.splits)
  next
    case (Cons e q')
    with Cons.prems Cons.IH [of "active @ [e]"] show ?thesis by (auto split: prod.splits if_splits)
  qed
qed simp

lemma interleave_ends:
  "n \<le> sum_list (map length qs) + length active \<Longrightarrow> length active \<le> n \<Longrightarrow>
    \<exists>chosen. interleave n qs active = Some chosen \<and> length chosen = n"
proof (induction "n - length active" arbitrary: qs active rule: less_induct)
  case less
  show ?case
  proof (cases "length active < n")
    case False
    with less.prems show ?thesis by (simp add: interleave.simps)
  next
    case True
    obtain qs' active' where pass: "interleave_pass n qs active = (qs', active')" by fastforce
    note facts = interleave_pass_sum [OF pass True]
    have "n - length active' < n - length active" using facts less.prems(1) True by auto
    from less.hyps [OF this] facts less.prems(1) show ?thesis
      by (simp add: interleave.simps [of n qs active] pass True)
  qed
qed

text \<open>With too few evaluations in the queues the loop never ends.\<close>

lemma interleave_hangs:
  assumes "sum_list (map length qs) + length active < n"
  shows "interleave n qs active = None"
proof (rule ccontr)
  assume "interleave n qs active \<noteq> None"
  then obtain chosen where "interleave n qs active = Some chosen" by blast
  then have "\<not> sum_list (map length qs) + length active < n"
  proof (rule interleave.raw_induct [where P = "\<lambda>n qs active _. \<not> sum_list (map length qs) + length active < n", rotated])
    fix rec n qs active chosen
    assume IH: "\<And>n qs active chosen. rec n qs active = Some chosen \<Longrightarrow> \<not> sum_list (map length qs) + length active < n"
      and run: "(if length active < n then rec n (fst (interleave_pass n qs active)) (snd (interleave_pass n qs active))
        else Some active) = Some chosen"
    show "\<not> sum_list (map length qs) + length active < n"
    proof (cases "length active < n")
      case True
      obtain qs' active' where pass: "interleave_pass n qs active = (qs', active')" by fastforce
      from run True IH have "\<not> sum_list (map length qs') + length active' < n" by (simp add: pass)
      with interleave_pass_sum [OF pass True] show ?thesis by simp
    qed simp
  qed
  with assms show False by blast
qed

subsection \<open>The selection\<close>

lemma group_by_route_get:
  "get_or (group_by_route es) route [] = filter (\<lambda>e. ev_route e = route) es \<and> dict_ok (group_by_route es) \<and>
    fst ` set (group_by_route es) = ev_route ` set es"
proof (induction es rule: rev_induct)
  case Nil
  show ?case by (simp add: group_by_route_def)
next
  case (snoc e es)
  have step: "group_by_route (es @ [e]) = dict_set (ev_route e) (get_or (group_by_route es) (ev_route e) [] @ [e]) (group_by_route es)"
    by (simp add: group_by_route_def)
  have keys: "fst ` set (dict_set k v d) = insert k (fst ` set d)" for k :: string and v :: "'a evaluation list" and d
    by (simp add: dict_set_def dom_update)
  show ?case using snoc by (auto simp: step keys)
qed

lemma group_by_route_entry:
  assumes "(route, es) \<in> set (group_by_route planned)"
  shows "es = filter (\<lambda>e. ev_route e = route) planned"
proof -
  have "dict_get (group_by_route planned) route = Some es" using assms group_by_route_get by (metis dict_get_iff_mem)
  then show ?thesis using group_by_route_get [of planned route] by (simp add: get_or_def)
qed

lemma group_by_route_apart:
  assumes "distinct (map (\<lambda>e. (ev_route e, ev_targets e)) planned)"
  shows "apart (filter (\<lambda>e. ev_route e = route) planned)"
  using assms by (auto simp: apart_def distinct_map inj_on_def)

lemma get_or_drop_idle: "get_or (drop_idle routes d) r x = (if r \<in> set routes then get_or d r x else x)"
  by (induction d) (auto simp: drop_idle_def get_or_def dict_get_def)

lemma forget_stale_ok: "windows_ok st \<Longrightarrow> windows_ok (forget_stale c now st)"
  by (simp add: windows_ok_def forget_stale_def Let_def get_or_drop_idle apart_def)

text \<open>The slots of the routes, which the selection starts from.\<close>

lemma slots_allocated:
  assumes "wn_by_route st = group_by_route planned" and "\<forall>r. 0 < wc_weight c r"
    and "routes = map fst (wn_by_route st)" and "ordered = drop start routes @ take start routes"
    and "allocate (\<lambda>r. nat (wc_weight c r)) (route_limit c st) wanted ordered (map (\<lambda>r. (r, 0)) routes, 0) = (slots, allocated)"
  shows "allocated = min wanted (\<Sum>r\<in>ev_route ` set planned. route_limit c st r)"
    and "sum_list (map (\<lambda>r. get_or slots r 0) ordered) = allocated"
    and "\<forall>(r, es) \<in> set (wn_by_route st). get_or slots r 0 \<le> length es"
    and "set ordered = ev_route ` set planned"
proof -
  define R where "R = ev_route ` set planned"
  have distinct: "distinct routes" and routes: "set routes = R"
    using group_by_route_get [of planned] by (simp_all add: assms(1,3) dict_ok_def R_def)
  have ordered: "mset ordered = mset routes" unfolding assms(4) by (metis append_take_drop_id mset_append union_commute)
  then have perm: "set ordered = R" "distinct ordered"
    using routes distinct mset_eq_setD mset_eq_imp_distinct_iff by blast+
  have zero: "get_or (map (\<lambda>r. (r, 0 :: nat)) routes) r 0 = 0" for r
    by (induction routes) (auto simp: get_or_def dict_get_def)
  have "dealt (route_limit c st) wanted R (map (\<lambda>r. (r, 0)) routes, 0)" by (simp add: dealt_def zero)
  then have dealt: "dealt (route_limit c st) wanted R (slots, allocated)"
    and allocated: "allocated = min wanted (\<Sum>r\<in>R. route_limit c st r)"
    using allocate_dealt [where weight = "\<lambda>r. nat (wc_weight c r)", OF _ perm(1), of "route_limit c st" wanted "map (\<lambda>r. (r, 0)) routes" 0]
      assms(2) by (auto simp: R_def assms(5))
  show "allocated = min wanted (\<Sum>r\<in>ev_route ` set planned. route_limit c st r)" using allocated by (simp add: R_def)
  show "sum_list (map (\<lambda>r. get_or slots r 0) ordered) = allocated"
    using dealt perm by (simp add: sum_list_distinct_conv_sum_set dealt_def)
  show "\<forall>(r, es) \<in> set (wn_by_route st). get_or slots r 0 \<le> length es"
  proof safe
    fix r es
    assume mem: "(r, es) \<in> set (wn_by_route st)"
    then have "r \<in> R" using routes by (force simp: assms(3))
    moreover have "get_or (wn_by_route st) r [] = es"
      using mem group_by_route_get [of planned] by (simp add: assms(1) get_or_def flip: dict_get_iff_mem)
    ultimately show "get_or slots r 0 \<le> length es" using dealt by (auto simp: dealt_def route_limit_def)
  qed
  show "set ordered = ev_route ` set planned" using perm(1) by (simp add: R_def)
qed

text \<open>The markets of every selected evaluation are subscribed.\<close>

lemma targets_for_evaluations_get:
  "get_or (targets_for_evaluations es) venue {} = {token. token \<noteq> [] \<and> (\<exists>e \<in> set es. (venue, token) \<in> set (ev_targets e))}"
proof -
  have "get_or (foldl (\<lambda>d (venue, token). if token = [] then d else dict_set venue (insert token (get_or d venue {})) d) [] ts) venue {} =
      {token. token \<noteq> [] \<and> (venue, token) \<in> set ts}" for ts :: targets
  proof (induction ts rule: rev_induct)
    case (snoc p ts)
    then show ?case by (cases p) (simp, blast)
  qed simp
  then show ?thesis by (simp add: targets_for_evaluations_def)
qed

text \<open>C30. The selection of the evaluations of a cycle ends and fills the cycle: when the evaluations of a
  route have different targets, and the weights and the prefetch multipliers are positive, exactly
  as many evaluations are selected as the limit of the cycle, the plan and the limits of the routes
  allow, and the cached windows keep their markets apart for the next cycle.
\<close>

theorem evaluation_window_selected:
  assumes "wn_by_route st = group_by_route (wn_planned st)"
    and "distinct (map (\<lambda>e. (ev_route e, ev_targets e)) (wn_planned st))"
    and "windows_ok st" and "\<forall>r. 0 < wc_weight c r" and "\<forall>r. 0 < wc_prefetch c r"
  shows "\<exists>active held st'. select_evaluation_window c limit now st = Some (active, held, st') \<and>
    length active = min (min (nat (max 1 limit)) (length (wn_planned st)))
      (\<Sum>r\<in>ev_route ` set (wn_planned st). min (length (filter (\<lambda>e. ev_route e = r) (wn_planned st))) (nat (wc_limit c r))) \<and>
    windows_ok st' \<and> wn_planned st' = wn_planned st \<and> wn_by_route st' = wn_by_route st"
proof (cases "wn_planned st = []")
  case True
  with assms(1) show ?thesis by (simp add: select_evaluation_window_def windows_ok_def apart_def group_by_route_def)
next
  case False
  define wanted where "wanted = min (nat (max 1 limit)) (length (wn_planned st))"
  define routes where "routes = map fst (wn_by_route st)"
  define start where "start = wn_route_cursor st mod length routes"
  define ordered where "ordered = drop start routes @ take start routes"
  obtain slots allocated where
    slots: "allocate (\<lambda>r. nat (wc_weight c r)) (route_limit c st) wanted ordered (map (\<lambda>r. (r, 0)) routes, 0) = (slots, allocated)"
    by fastforce
  note dealt = slots_allocated [OF assms(1,4) routes_def ordered_def slots]
  define st1 where "st1 = forget_stale c now (st\<lparr>wn_route_cursor := (start + 1) mod length routes\<rparr>)"
  have st1: "windows_ok st1" "wn_planned st1 = wn_planned st" "wn_by_route st1 = wn_by_route st"
    using assms(3) by (auto simp: st1_def intro!: forget_stale_ok) (auto simp: windows_ok_def forget_stale_def Let_def)
  obtain actives helds st2 where windows: "route_windows c now slots (wn_by_route st) st1 = (actives, helds, st2)"
    by (metis prod_cases3)
  have "\<forall>(r, es) \<in> set (wn_by_route st). apart es \<and> get_or slots r 0 \<le> length es"
    using dealt(3) group_by_route_entry [of _ _ "wn_planned st"] group_by_route_apart [OF assms(2)] assms(1) by fastforce
  from route_windows_facts [OF st1(1) this _ _ windows] assms(5) group_by_route_get [of "wn_planned st"] st1 assms(1)
  have st2: "windows_ok st2" "wn_planned st2 = wn_planned st" "wn_by_route st2 = wn_by_route st"
    and counts: "\<forall>r \<in> ev_route ` set (wn_planned st). length (get_or actives r []) = get_or slots r 0"
    by (simp_all add: dict_ok_def)
  have "map length (map (\<lambda>r. get_or actives r []) ordered) = map (\<lambda>r. get_or slots r 0) ordered"
    using counts dealt(4) by simp
  then have "sum_list (map length (map (\<lambda>r. get_or actives r []) ordered)) = allocated"
    using dealt(2) by (simp only:)
  with interleave_ends [of allocated "map (\<lambda>r. get_or actives r []) ordered" "[]"]
  obtain active where active: "interleave allocated (map (\<lambda>r. get_or actives r []) ordered) [] = Some active"
    "length active = allocated" by auto
  have "select_evaluation_window c limit now st = Some (active, concat (map (\<lambda>r. get_or helds r []) ordered), st2)"
    using False unfolding select_evaluation_window_def Let_def wanted_def [symmetric] routes_def [symmetric]
      start_def [symmetric] ordered_def [symmetric] slots st1_def [symmetric] prod.case windows active(1) by simp
  moreover have "route_limit c st r = min (length (filter (\<lambda>e. ev_route e = r) (wn_planned st))) (nat (wc_limit c r))" for r
    using group_by_route_get [of "wn_planned st" r] assms(1) by (simp add: route_limit_def)
  ultimately show ?thesis using active(2) st2 dealt(1) by (simp add: wanted_def)
qed

theorem evaluation_window_selected_witness:
  "\<exists>active held st'. select_evaluation_window
      \<lparr>wc_limit = \<lambda>_. 2, wc_weight = \<lambda>_. 1, wc_prefetch = \<lambda>_. 2, wc_hold = \<lambda>_. 60, wc_priority = \<lambda>_. 30, wc_exploration = \<lambda>_. 0\<rparr> 2 0
      (set_planned_evaluations [\<lparr>ev_route = ''a'', ev_targets = [(''P'', ''1'')], ev_run = ()\<rparr>,
        \<lparr>ev_route = ''a'', ev_targets = [(''P'', ''2'')], ev_run = ()\<rparr>, \<lparr>ev_route = ''b'', ev_targets = [(''P'', ''1'')], ev_run = ()\<rparr>]
        empty_windows) = Some (active, held, st') \<and> length active = 2"
proof -
  let ?es = "[\<lparr>ev_route = ''a'', ev_targets = [(''P'', ''1'')], ev_run = ()\<rparr>,
    \<lparr>ev_route = ''a'', ev_targets = [(''P'', ''2'')], ev_run = ()\<rparr>, \<lparr>ev_route = ''b'', ev_targets = [(''P'', ''1'')], ev_run = ()\<rparr>]"
  let ?c = "\<lparr>wc_limit = \<lambda>_. 2, wc_weight = \<lambda>_. 1, wc_prefetch = \<lambda>_. 2, wc_hold = \<lambda>_. 60, wc_priority = \<lambda>_. 30, wc_exploration = \<lambda>_. 0\<rparr>"
  let ?st = "set_planned_evaluations ?es empty_windows"
  have "wn_by_route ?st = group_by_route (wn_planned ?st)" "windows_ok ?st"
    "distinct (map (\<lambda>e. (ev_route e, ev_targets e)) (wn_planned ?st))" "\<forall>r. 0 < wc_weight ?c r" "\<forall>r. 0 < wc_prefetch ?c r"
    by (simp_all add: set_planned_evaluations_def empty_windows_def windows_ok_def apart_def)
  from evaluation_window_selected [OF this(1,3,2,4,5), of 2 0] show ?thesis
    by (force simp: set_planned_evaluations_def)
qed

text \<open>
  The hypothesis on the targets is needed: two evaluations of one route with the same targets take two
  slots but only one of them is ever chosen, and the last loop of the selection does not end.
\<close>

definition shared_config :: window_config where
  "shared_config = \<lparr>wc_limit = \<lambda>_. 3, wc_weight = \<lambda>_. 3, wc_prefetch = \<lambda>_. 1, wc_hold = \<lambda>_. 60, wc_priority = \<lambda>_. 30,
     wc_exploration = \<lambda>_. 1 / 2\<rparr>"

definition evaluation_of :: "string \<Rightarrow> unit evaluation" where
  "evaluation_of token = \<lparr>ev_route = ''a'', ev_targets = [(''P'', token)], ev_run = ()\<rparr>"

definition shared_plan :: "unit evaluation list" where
  "shared_plan = [evaluation_of ''1'', evaluation_of ''1'', evaluation_of ''2'']"

definition shared_recent :: "(string \<times> targets, observation) dict" where
  "shared_recent = [((''a'', [(''P'', ''1'')]), \<lparr>ob_at = 0, ob_spread = 1\<rparr>)]"

lemma shared_config_simps [simp]:
  "wc_limit shared_config r = 3" "wc_weight shared_config r = 3" "wc_prefetch shared_config r = 1" "wc_hold shared_config r = 60"
  "wc_priority shared_config r = 30" "wc_exploration shared_config r = 1 / 2"
  by (simp_all add: shared_config_def)

lemma shared_floats: "fsub 10 0 = 10" "fadd 10 60 = 70" "fmul 3 (1 / 2) = 3 / 2"
  by (simp_all add: fsub_def fadd_def fmul_def flt_round_eval)

lemma shared_candidates:
  "recent_executable_candidates shared_config shared_recent ''a'' shared_plan 10 = [evaluation_of ''1'', evaluation_of ''1'']"
  "recent_executable_candidates shared_config shared_recent ''a'' [evaluation_of ''1'', evaluation_of ''2''] 10 = [evaluation_of ''1'']"
  by (simp_all add: recent_executable_candidates_def shared_plan_def evaluation_of_def shared_recent_def dict_get_def shared_floats)

lemma shared_window:
  "prioritized shared_config shared_recent ''a'' shared_plan 3 10 [] = ([evaluation_of ''1'', evaluation_of ''2''], [(''a'', 0)])"
proof -
  have "exploration_count shared_config ''a'' 3 = 2" by (simp add: exploration_count_def shared_floats)
  then show ?thesis
    unfolding prioritized_def Let_def shared_candidates
    by (simp add: select_rotating_exploration_def shared_plan_def evaluation_of_def dict_set_def)
qed

lemma shared_active: "length (fst (prioritized shared_config shared_recent ''a'' [evaluation_of ''1'', evaluation_of ''2''] 3 10 [(''a'', 0)])) < 3"
proof -
  have "exploration_count shared_config ''a'' 3 = 2" by (simp add: exploration_count_def shared_floats)
  then show ?thesis
    unfolding prioritized_def Let_def shared_candidates
    by (simp add: select_rotating_exploration_def evaluation_of_def dict_set_def get_or_def dict_get_def)
qed

lemma shared_targets_hang:
  "select_evaluation_window shared_config 3 10
      (mark_recent_executable 0 ''a'' [(''P'', ''1'')] 1 (set_planned_evaluations shared_plan empty_windows)) = None"
proof -
  define st where "st = mark_recent_executable 0 ''a'' [(''P'', ''1'')] 1 (set_planned_evaluations shared_plan empty_windows)"
  have st: "wn_by_route st = [(''a'', shared_plan)]" "wn_planned st = shared_plan" "wn_route_cursor st = 0" "wn_held_keys st = []"
    "wn_cursors st = []" "wn_recent st = shared_recent" "wn_active_cursors st = []" "length shared_plan = 3" "shared_plan \<noteq> []"
    by (simp_all add: st_def mark_recent_executable_def set_planned_evaluations_def empty_windows_def group_by_route_def dict_set_def
        shared_plan_def evaluation_of_def shared_recent_def get_or_def dict_get_def)
  have slots: "allocate (\<lambda>r. 3) (route_limit shared_config st) 3 [''a''] ([(''a'', 0)], 0) = ([(''a'', 3)], 3)"
    by (simp add: allocate.simps [of _ _ "Suc (Suc (Suc 0))" "[''a'']" "[(''a'', a)]" b for a b] route_limit_def st get_or_def
        dict_get_def dict_set_def numeral_eq_Suc)
  define st1 where "st1 = forget_stale shared_config 10 (st\<lparr>wn_route_cursor := 0\<rparr>)"
  have st1: "wn_held_keys st1 = []" "wn_cursors st1 = []" "wn_recent st1 = shared_recent" "wn_active_cursors st1 = []"
    by (simp_all add: st1_def forget_stale_def Let_def st drop_idle_def planned_keys_def shared_recent_def shared_plan_def
        evaluation_of_def shared_floats)
  obtain active held st2 where window: "route_window shared_config 10 ''a'' shared_plan 3 st1 = (active, held, st2)" by (metis prod_cases3)
  have "length active < 3"
    using window shared_active
    by (auto simp: route_window_def restore_held_window_def st1 st(8) build_window_def shared_window dict_set_def split: prod.splits)
  then have "interleave 3 [active] [] = None" by (intro interleave_hangs) simp
  then show ?thesis
    unfolding st_def [symmetric]
    by (simp add: select_evaluation_window_def st slots st1_def [symmetric] window get_or_def dict_get_def)
qed

end
