(* ===== verification/Reconcile.thy ===== *)
theory Reconcile
  imports Evidence Actions
begin

text \<open>
  The venue reconciliation of \<^verbatim>\<open>reconciliation.py\<close>: one pass over the orders, fills and positions of a venue, the
  cycle over all venues, the retries at startup and the continuous loop. The answers of a venue are
  the fields of \<open>venue_client\<close>; the clock and the failures of the database are functions of a tick
  that every transaction advances. The venues of a cycle are reconciled one after the other. The
  lemmas show what a pass without drift means for the positions and that a cycle that is not clean
  closes the entry gate.
\<close>

section \<open>Exceptions\<close>

text \<open>
  The chain of an exception along \<^verbatim>\<open>__cause__\<close> and \<^verbatim>\<open>__context__\<close>: whether it is a \<^verbatim>\<open>TimeoutError\<close>,
  \<^verbatim>\<open>OSError\<close> or \<^verbatim>\<open>ConnectionError\<close>, its \<^verbatim>\<open>status\<close> attribute and the name of its class.
\<close>

datatype cause = Cause (ca_os: bool) (ca_status: "int option") (ca_class: string) (ca_next: "cause option")

record residual_exposure =
  re_report :: execution_report
  re_contracts :: dec
  re_reason :: string

datatype venue_error =
    Residual residual_exposure
  | Residual_Batch "residual_exposure list" "fill_record list"
  | Unsupported string
  | Failed cause string

definition re_order_id :: "residual_exposure \<Rightarrow> string" where
  "re_order_id x = er_order_id (re_report x)"

text \<open>The text of the batch is only logged and stored; it is kept without the count.\<close>

fun venue_error_text :: "venue_error \<Rightarrow> string" where
  "venue_error_text (Residual x) = re_reason x"
| "venue_error_text (Residual_Batch xs fs) = ''residual unwind exposure(s) require manual review''"
| "venue_error_text (Unsupported t) = t"
| "venue_error_text (Failed c t) = t"

fun cause_of :: "venue_error \<Rightarrow> cause" where
  "cause_of (Residual x) = Cause False None ''OrderResidualExposure'' None"
| "cause_of (Residual_Batch xs fs) = Cause False None ''OrderResidualExposureBatch'' None"
| "cause_of (Unsupported t) = Cause False None ''ReconciliationUnsupported'' None"
| "cause_of (Failed c t) = c"

fun py_failure :: "py_error \<Rightarrow> venue_error" where
  "py_failure (ValueError t) = Failed (Cause False None ''ValueError'' None) t"
| "py_failure (RuntimeError t) = Failed (Cause False None ''RuntimeError'' None) t"
| "py_failure (KeyError t) = Failed (Cause False None ''KeyError'' None) t"
| "py_failure (TypeError t) = Failed (Cause False None ''TypeError'' None) t"
| "py_failure (IntegrityError t) = Failed (Cause False None ''IntegrityError'' None) t"
| "py_failure (AttributeError t) = Failed (Cause False None ''AttributeError'' None) t"
| "py_failure (ZeroDivisionError t) = Failed (Cause False None ''ZeroDivisionError'' None) t"
| "py_failure (AssertionError t) = Failed (Cause False None ''AssertionError'' None) t"
| "py_failure (InvalidOperation t) = Failed (Cause False None ''InvalidOperation'' None) t"

definition lift_failure :: "'a res \<Rightarrow> venue_error + 'a" where
  "lift_failure r = (case r of Inl e \<Rightarrow> Inl (py_failure e) | Inr x \<Rightarrow> Inr x)"

lemma lift_failure_Inr [simp]: "lift_failure r = Inr x \<longleftrightarrow> r = Inr x"
  by (simp add: lift_failure_def split: sum.split)

definition transient_type_names :: "string list" where
  "transient_type_names = [''ClientConnectionError'', ''ClientConnectorError'', ''ClientConnectorSSLError'', ''ClientOSError'',
     ''ServerDisconnectedError'']"

definition transient_markers :: "string list" where
  "transient_markers = [''timeout'', ''temporarily unavailable'', ''temporary failure'', ''too many requests'', ''rate limit'',
     ''service unavailable'', ''name or service not known'', ''cannot connect'', ''connection reset'', ''closing transport'']"

fun transient_cause :: "cause \<Rightarrow> bool" where
  "transient_cause (Cause os status cls nxt) =
     (os \<or> status \<in> Some ` {429, 500, 502, 503, 504} \<or> cls \<in> set transient_type_names \<or>
      (case nxt of None \<Rightarrow> False | Some c \<Rightarrow> transient_cause c))"

definition is_transient_reconciliation_exception :: "venue_error \<Rightarrow> bool" where
  "is_transient_reconciliation_exception e \<longleftrightarrow> transient_cause (cause_of e) \<or>
     list_ex (contains (lower (venue_error_text e))) transient_markers"

definition is_http_not_found :: "venue_error \<Rightarrow> bool" where
  "is_http_not_found e \<longleftrightarrow> ca_status (cause_of e) = Some 404 \<or> contains (venue_error_text e) ''404''"

section \<open>State\<close>

record reconciler =
  rv_db :: repository
  rv_risk :: controller
  rv_ready :: bool
  rv_last_error :: "string option"
  rv_last_success :: "datetime option"
  rv_last_full :: flt
  rv_transients :: nat
  rv_tick :: nat

text \<open>The variables of one pass, which the handlers of its exceptions still read.\<close>

record venue_run = reconciler +
  vr_checked :: nat
  vr_fills :: nat
  vr_drift :: nat
  vr_deferred :: "string list"
  vr_handled :: "string list"
  vr_untracked_orders :: "string list"
  vr_untracked_fills :: "string list"
  vr_fingerprint :: "string option"
  vr_manifest :: "string option"

record surroundings =
  su_now :: "nat \<Rightarrow> datetime"
  su_fault :: "nat \<Rightarrow> venue_error option"
  su_digest :: "baseline_payload \<Rightarrow> string"

record venue_client =
  vc_fingerprint :: "string option"
  vc_supports_full :: bool
  vc_restore_order :: "string \<Rightarrow> order_intent \<Rightarrow> venue_error + unit"
  vc_order :: "string \<Rightarrow> venue_error + execution_report \<times> datetime"
  vc_open_orders :: "venue_error + venue_order list"
  vc_cancel :: "string \<Rightarrow> venue_error + unit"
  vc_cancelled_order :: "string \<Rightarrow> venue_error + execution_report \<times> datetime"
  vc_restore_fill :: "string \<Rightarrow> order_intent \<Rightarrow> venue_error + unit"
  vc_fills :: "datetime \<Rightarrow> venue_error + fill_record list"
  vc_balances :: "venue_error + (string \<times> dec) list"
  vc_positions :: "venue_error + (string, dec) dict"

type_synonym ('z, 'a) rv_act = "('z reconciler_scheme, venue_error, 'a) act"
type_synonym 'a pass = "(venue_run, venue_error, 'a) act"

text \<open>One transaction: a fault of the database comes before it and changes nothing.\<close>

definition db_call :: "surroundings \<Rightarrow> (datetime \<Rightarrow> repository \<Rightarrow> 'a tx) \<Rightarrow> ('z, 'a) rv_act" where
  "db_call su f = (\<lambda>s. let t = rv_tick s; s1 = s\<lparr>rv_tick := t + 1\<rparr> in
     case su_fault su t of Some e \<Rightarrow> (Inl e, s1)
     | None \<Rightarrow> (case f (su_now su t) (rv_db s) of Inl e \<Rightarrow> (Inl (py_failure e), s1) | Inr (x, db) \<Rightarrow> (Inr x, s1\<lparr>rv_db := db\<rparr>)))"

definition db_read :: "surroundings \<Rightarrow> (repository \<Rightarrow> 'a) \<Rightarrow> ('z, 'a) rv_act" where
  "db_read su f = db_call su (\<lambda>_ db. Inr (f db, db))"

definition set_intent_status ::
  "surroundings \<Rightarrow> string \<Rightarrow> order_intent_status \<Rightarrow> string option \<Rightarrow> string option \<Rightarrow> ('z, unit) rv_act" where
  "set_intent_status su cid st vid err = db_call su (\<lambda>now. update_order_intent now cid st vid err)"

definition audit_event :: "surroundings \<Rightarrow> ('z, unit) rv_act" where
  "audit_event su = db_read su (\<lambda>_. ())"

definition add_drift :: "nat \<Rightarrow> unit pass" where
  "add_drift n = modify (\<lambda>s. s\<lparr>vr_drift := vr_drift s + n\<rparr>)"

definition add_checked :: "unit pass" where
  "add_checked = modify (\<lambda>s. s\<lparr>vr_checked := vr_checked s + 1\<rparr>)"

section \<open>Order intents\<close>

definition synthetic_order_intent :: "order_intent \<Rightarrow> bool" where
  "synthetic_order_intent i \<longleftrightarrow>
     (starts_with (oi_market_key i) ''integration:'' \<or> starts_with (oi_market_key i) ''restart:'') \<and>
     oi_token_id i \<in> {''integration-token'', ''restart-token''}"

definition INFLIGHT_SUBMISSION_GRACE :: int where
  "INFLIGHT_SUBMISSION_GRACE = seconds 30"

definition recent_inflight_intent :: "order_intent \<Rightarrow> datetime \<Rightarrow> bool" where
  "recent_inflight_intent i now \<longleftrightarrow> oi_status i \<in> {PREPARED, SUBMITTING} \<and>
     max 0 (as_utc now - as_utc (oi_updated_at i)) \<le> INFLIGHT_SUBMISSION_GRACE"

fun reconciled_intent_status :: "execution_status \<Rightarrow> order_intent_status" where
  "reconciled_intent_status ES_OPEN = ACKNOWLEDGED"
| "reconciled_intent_status ES_PARTIAL = OI_PARTIAL"
| "reconciled_intent_status ES_FILLED = OI_FILLED"
| "reconciled_intent_status ES_CANCELLED = OI_CANCELLED"
| "reconciled_intent_status ES_EXPIRED = OI_CANCELLED"

definition persist_residual_exit_exposure :: "surroundings \<Rightarrow> string \<Rightarrow> order_intent \<Rightarrow> residual_exposure \<Rightarrow> unit pass" where
  "persist_residual_exit_exposure su venue i x =
     (if lower (oi_action i) \<noteq> ''sell''
      then raise (py_failure (RuntimeError ''residual exit exposure is linked to a non-SELL order intent''))
      else andalso (modify (\<lambda>s. s\<lparr>rv_ready := False, rv_last_error :=
               Some (''residual opposite exposure: '' @ venue @ '' client_order_id='' @ oi_client_order_id i)\<rparr>))
        (andthen (db_call su (\<lambda>_. record_residual_exit_exposure (oi_market_key i) venue (oi_quantity i) (re_report x) (re_contracts x))) (\<lambda>_.
         andalso (set_intent_status su (oi_client_order_id i) OI_MANUAL_REVIEW (Some (re_order_id x)) (Some (re_reason x)))
           (audit_event su))))"

definition residual_handled :: "surroundings \<Rightarrow> string \<Rightarrow> order_intent \<Rightarrow> residual_exposure \<Rightarrow> unit pass" where
  "residual_handled su venue i x = andalso (persist_residual_exit_exposure su venue i x)
     (andalso (modify (\<lambda>s. s\<lparr>vr_handled := List.insert (lower (re_order_id x)) (vr_handled s)\<rparr>)) (add_drift 1))"

text \<open>What the venue says about an order; \<^verbatim>\<open>None\<close> when the intent is dealt with already.\<close>

definition poll_order :: "surroundings \<Rightarrow> string \<Rightarrow> venue_client \<Rightarrow> order_intent \<Rightarrow> string \<Rightarrow> (execution_report \<times> datetime) option pass" where
  "poll_order su venue v i vid =
     catch (andthen (of_result (vc_restore_order v vid i)) (\<lambda>_. andthen (of_result (vc_order v vid)) (\<lambda>r. ret (Some r))))
       (\<lambda>e. case e of
          Residual x \<Rightarrow> andalso (residual_handled su venue i x) (ret None)
        | _ \<Rightarrow> if synthetic_order_intent i \<and> is_http_not_found e
               then andalso (set_intent_status su (oi_client_order_id i) OI_CANCELLED (Some vid)
                 (Some ''retired synthetic startup artifact missing on venue'')) (ret None)
               else raise e)"

definition venue_order_of :: "string \<Rightarrow> order_intent \<Rightarrow> string \<Rightarrow> execution_report \<Rightarrow> datetime \<Rightarrow> venue_order" where
  "venue_order_of venue i vid r seen = \<lparr>vo_client_order_id = oi_client_order_id i, vo_venue_order_id = vid, vo_venue = venue,
     vo_status = reconciled_intent_status (er_status r), vo_quantity = er_amount_requested r,
     vo_cumulative_filled = er_amount_filled r, vo_average_price = er_avg_price r, vo_updated_at = seen\<rparr>"

definition reconcile_intent :: "surroundings \<Rightarrow> string \<Rightarrow> venue_client \<Rightarrow> string list \<Rightarrow> order_intent \<Rightarrow> unit pass" where
  "reconcile_intent su venue v graced i =
     andalso add_checked
     (if oi_client_order_id i \<in> set graced then ret ()
      else if \<not> truthy (oi_venue_order_id i) then
        (if synthetic_order_intent i
         then set_intent_status su (oi_client_order_id i) OI_CANCELLED None
           (Some ''retired synthetic startup artifact without venue order id'')
         else andalso (add_drift 1) (set_intent_status su (oi_client_order_id i) OI_MANUAL_REVIEW None
           (Some ''submission outcome unknown and venue order id is unavailable'')))
      else (let vid = the (oi_venue_order_id i) in
        andthen (poll_order su venue v i vid) (\<lambda>answer. case answer of
          None \<Rightarrow> ret ()
        | Some (r, seen) \<Rightarrow>
            (let st = reconciled_intent_status (er_status r) in
             andalso (set_intent_status su (oi_client_order_id i) st (Some vid) None)
             (andalso (db_call su (\<lambda>_. upsert_venue_order (venue_order_of venue i vid r seen)))
               (when_do (st \<in> {OI_UNKNOWN, OI_MANUAL_REVIEW}) (add_drift 1)))))))"

section \<open>Orders and fills of the venue\<close>

text \<open>
  An order or fill that the venue reports may belong to a submission whose outcome is not stored
  yet: as many different orders as there are such submissions are left for a later pass.
\<close>

definition can_defer_untracked :: "string list \<Rightarrow> string \<Rightarrow> bool pass" where
  "can_defer_untracked submitting vid = (\<lambda>s.
     if vid \<in> set (vr_deferred s) then (Inr True, s)
     else if length submitting \<le> length (vr_deferred s) then (Inr False, s)
     else (Inr True, s\<lparr>vr_deferred := List.insert vid (vr_deferred s)\<rparr>))"

datatype ownership = Deferred | Untracked | Owned string

definition owner_of :: "string list \<Rightarrow> string option \<Rightarrow> string option \<Rightarrow> string option" where
  "owner_of unresolved persisted remote = (if truthy persisted then persisted
     else if remote \<in> Some ` set unresolved then remote else None)"

definition resolve_owner ::
  "surroundings \<Rightarrow> string \<Rightarrow> string list \<Rightarrow> string list \<Rightarrow> string \<Rightarrow> string \<Rightarrow> ownership pass" where
  "resolve_owner su venue submitting unresolved vid remote_id =
     andthen (db_read su (client_order_id_for_venue_order venue vid)) (\<lambda>persisted.
       (let remote = (if remote_id = [] then None else Some remote_id); mine = Some ` set submitting in
        andthen (if persisted \<in> mine \<or> remote \<in> mine then can_defer_untracked submitting vid else ret False) (\<lambda>d.
          if d then ret Deferred
          else case owner_of unresolved persisted remote of
            Some cid \<Rightarrow> ret (Owned cid)
          | None \<Rightarrow> andthen (can_defer_untracked submitting vid) (\<lambda>d. ret (if d then Deferred else Untracked)))))"

definition status_after_cancel :: "execution_report \<Rightarrow> order_intent_status" where
  "status_after_cancel r = (let st = reconciled_intent_status (er_status r) in if st = ACKNOWLEDGED then OI_UNKNOWN else st)"

definition cancel_open_order :: "surroundings \<Rightarrow> venue_client \<Rightarrow> string \<Rightarrow> string \<Rightarrow> unit pass" where
  "cancel_open_order su v cid vid =
     catch (andthen (of_result (vc_cancel v vid)) (\<lambda>_. andthen (of_result (vc_cancelled_order v vid)) (\<lambda>(r, _).
       (let st = status_after_cancel r in
        andalso (set_intent_status su cid st (Some vid) None)
          (when_do (st \<notin> {OI_CANCELLED, OI_FILLED}) (add_drift 1))))))
       (\<lambda>e. andalso (add_drift 1) (set_intent_status su cid OI_UNKNOWN (Some vid)
         (Some (''reconciliation cancel failed: '' @ venue_error_text e))))"

definition reconcile_open_order ::
  "surroundings \<Rightarrow> string \<Rightarrow> venue_client \<Rightarrow> string list \<Rightarrow> string list \<Rightarrow> venue_order \<Rightarrow> unit pass" where
  "reconcile_open_order su venue v submitting unresolved vo =
     andalso add_checked
     (andthen (resolve_owner su venue submitting unresolved (vo_venue_order_id vo) (vo_client_order_id vo)) (\<lambda>w. case w of
        Deferred \<Rightarrow> ret ()
      | Untracked \<Rightarrow> modify (\<lambda>s. s\<lparr>vr_untracked_orders := List.insert (vo_venue_order_id vo) (vr_untracked_orders s)\<rparr>)
      | Owned cid \<Rightarrow>
          andalso (db_call su (\<lambda>_. upsert_venue_order (vo\<lparr>vo_client_order_id := cid\<rparr>)))
          (andalso (set_intent_status su cid CANCEL_PENDING (Some (vo_venue_order_id vo)) None)
            (cancel_open_order su v cid (vo_venue_order_id vo)))))"

definition reconcile_fill ::
  "surroundings \<Rightarrow> string \<Rightarrow> string list \<Rightarrow> string list \<Rightarrow> string list \<Rightarrow> fill_record \<Rightarrow> unit pass" where
  "reconcile_fill su venue submitting unresolved external f =
     andthen (resolve_owner su venue submitting unresolved (fr_venue_order_id f) (fr_client_order_id f)) (\<lambda>w. case w of
        Deferred \<Rightarrow> ret ()
      | Untracked \<Rightarrow>
          (let reference = (if fr_fill_id f = [] then fr_venue_order_id f else fr_fill_id f) in
           when_do (reference \<notin> set external)
             (modify (\<lambda>s. s\<lparr>vr_untracked_fills := List.insert reference (vr_untracked_fills s)\<rparr>)))
      | Owned cid \<Rightarrow> andthen (db_call su (\<lambda>_. insert_fill (f\<lparr>fr_client_order_id := cid\<rparr>)))
          (\<lambda>b. modify (\<lambda>s. s\<lparr>vr_fills := vr_fills s + of_bool b\<rparr>)))"

section \<open>Fills\<close>

definition FILL_LOOKBACK :: int where "FILL_LOOKBACK = seconds (7 * 24 * 60 * 60)"

definition FILL_OVERLAP :: int where "FILL_OVERLAP = seconds (5 * 60)"

definition fill_since :: "datetime \<Rightarrow> external_account_baseline option \<Rightarrow> datetime option \<Rightarrow> datetime" where
  "fill_since started baseline last_success =
     (let initial = as_utc started - FILL_LOOKBACK;
          initial = (case baseline of None \<Rightarrow> initial | Some b \<Rightarrow> min initial (as_utc (eb_captured_at b)))
      in Aware (case last_success of None \<Rightarrow> initial | Some t \<Rightarrow> max initial (as_utc t - FILL_OVERLAP)))"

definition handle_residual_fill :: "surroundings \<Rightarrow> string \<Rightarrow> order_intent list \<Rightarrow> residual_exposure \<Rightarrow> unit pass" where
  "handle_residual_fill su venue rows x =
     (case find (\<lambda>i. lower (case oi_venue_order_id i of Some vid \<Rightarrow> vid | None \<Rightarrow> []) = lower (re_order_id x)) rows of
        None \<Rightarrow> raise (py_failure (RuntimeError (''residual SX Bet exposure has no durable order context: '' @ re_order_id x)))
      | Some i \<Rightarrow> andthen (gets vr_handled) (\<lambda>handled.
          when_do (lower (re_order_id x) \<notin> set handled) (residual_handled su venue i x)))"

definition list_venue_fills :: "surroundings \<Rightarrow> string \<Rightarrow> venue_client \<Rightarrow> order_intent list \<Rightarrow> datetime \<Rightarrow> fill_record list pass" where
  "list_venue_fills su venue v rows since =
     catch (of_result (vc_fills v since)) (\<lambda>e. case e of
       Residual_Batch xs fs \<Rightarrow> andalso (for_each (handle_residual_fill su venue rows) xs) (ret fs)
     | Residual x \<Rightarrow> andalso (handle_residual_fill su venue rows x) (ret [])
     | _ \<Rightarrow> raise e)"

section \<open>Positions\<close>

definition add_expected :: "string \<Rightarrow> dec \<Rightarrow> (string, dec) dict \<Rightarrow> (string, dec) dict" where
  "add_expected token q d = (if token = [] then d else dict_set token (dadd (get_or d token 0) q) d)"

fun expected_positions :: "string \<Rightarrow> open_position list \<Rightarrow> (string, dec) dict \<Rightarrow> (string, dec) dict res" where
  "expected_positions venue [] d = Inr d"
| "expected_positions venue (p # ps) d =
     (let market = p_market p in
      rbind (execution_route_for_market market) (\<lambda>route.
      rbind (if m_venue_a_label market = venue
             then rbind (first_leg_token_for_route market route) (\<lambda>token.
               Inr (add_expected token (dsub (p_polymarket_contracts p) (p_polymarket_closed_contracts p)) d))
             else Inr d) (\<lambda>d1.
      rbind (if m_venue_b_label market = venue
             then rbind (second_leg_token_for_route market route) (\<lambda>token.
               Inr (add_expected token (dsub (p_predict_fun_contracts p) (p_predict_fun_closed_contracts p)) d1))
             else Inr d1) (\<lambda>d2. expected_positions venue ps d2))))"

definition external_positions :: "external_account_baseline option \<Rightarrow> (string, dec) dict" where
  "external_positions b = (case b of None \<Rightarrow> [] | Some b \<Rightarrow> position_map b)"

definition add_external :: "external_account_baseline option \<Rightarrow> (string, dec) dict \<Rightarrow> (string, dec) dict" where
  "add_external b d = foldl (\<lambda>d (token, q). dict_set token (dadd (get_or d token 0) q) d) d (external_positions b)"

definition POSITION_TOLERANCE :: dec where "POSITION_TOLERANCE = 1 / 10 ^ 8"

definition position_mismatches :: "(string, dec) dict \<Rightarrow> (string, dec) dict \<Rightarrow> string list" where
  "position_mismatches expected actual =
     filter (\<lambda>token. POSITION_TOLERANCE < \<bar>dsub (get_or expected token 0) (get_or actual token 0)\<bar>)
       (fromkeys (map fst expected @ map fst actual))"

definition reconcile_positions :: "surroundings \<Rightarrow> string \<Rightarrow> venue_client \<Rightarrow> external_account_baseline option \<Rightarrow> unit pass" where
  "reconcile_positions su venue v baseline =
     andthen (of_result (vc_balances v)) (\<lambda>balances. andthen (of_result (vc_positions v)) (\<lambda>actual.
     andalso (db_call su (\<lambda>now db. Inr ((), record_balances now venue balances db)))
     (andthen (db_call su (\<lambda>_ db. rbind (load_position_entries db) (\<lambda>es. Inr (map snd es, db)))) (\<lambda>local.
      andthen (of_result (lift_failure (expected_positions venue local []))) (\<lambda>expected.
      andalso (add_drift (length (position_mismatches (add_external baseline expected) actual)))
        (audit_event su))))))"

section \<open>A pass over one venue\<close>

definition check_identity :: "string \<Rightarrow> venue_client \<Rightarrow> external_account_baseline option \<Rightarrow> unit pass" where
  "check_identity venue v baseline = (case baseline of None \<Rightarrow> ret ()
     | Some b \<Rightarrow> (case vc_fingerprint v of
         None \<Rightarrow> raise (py_failure (RuntimeError (venue @ '' cannot verify the account identity required by its external baseline'')))
       | Some fp \<Rightarrow> if lower fp \<noteq> lower (eb_account_fingerprint b)
           then raise (py_failure (RuntimeError (venue @ '' external baseline account identity changed'')))
           else modify (\<lambda>s. s\<lparr>vr_fingerprint := Some (lower fp), vr_manifest := Some (eb_manifest_sha256 b)\<rparr>)))"

definition report_untracked :: "surroundings \<Rightarrow> (venue_run \<Rightarrow> string list) \<Rightarrow> unit pass" where
  "report_untracked su field = andthen (gets field) (\<lambda>refs.
     when_do (refs \<noteq> []) (andalso (add_drift (length refs)) (audit_event su)))"

definition graced_intents :: "bool \<Rightarrow> datetime \<Rightarrow> order_intent list \<Rightarrow> order_intent list" where
  "graced_intents allow started is = filter (\<lambda>i. allow \<and> recent_inflight_intent i started) is"

definition submitting_intents :: "order_intent list \<Rightarrow> string list" where
  "submitting_intents graced = fromkeys (map oi_client_order_id (filter (\<lambda>i. oi_status i = SUBMITTING) graced))"

definition pass_with ::
  "surroundings \<Rightarrow> string \<Rightarrow> venue_client \<Rightarrow> bool \<Rightarrow> bool \<Rightarrow> datetime \<Rightarrow> external_account_baseline option \<Rightarrow> unit pass" where
  "pass_with su venue v full allow started baseline =
     andalso (check_identity venue v baseline)
     (andthen (db_read su (\<lambda>db. filter (\<lambda>i. oi_venue i = venue) (unresolved_order_intents db))) (\<lambda>unresolved.
      (let graced = graced_intents allow started unresolved; submitting = submitting_intents graced;
           known = map oi_client_order_id unresolved
       in andalso (for_each (reconcile_intent su venue v (map oi_client_order_id graced)) unresolved)
         (andthen (of_result (vc_open_orders v)) (\<lambda>orders.
          andalso (for_each (reconcile_open_order su venue v submitting known) orders)
         (andthen (gets (\<lambda>s. fill_since started baseline (rv_last_success s))) (\<lambda>since.
          andthen (db_read su (order_intents_for_fill_reconciliation venue (Some since))) (\<lambda>rows.
          andalso (for_each (\<lambda>i. when_do (truthy (oi_venue_order_id i)) (of_result (vc_restore_fill v (the (oi_venue_order_id i)) i))) rows)
         (andthen (list_venue_fills su venue v rows since) (\<lambda>fills.
          andalso (for_each (reconcile_fill su venue submitting known (case baseline of None \<Rightarrow> [] | Some b \<Rightarrow> eb_fill_refs b)) fills)
         (andthen (gets vr_deferred) (\<lambda>deferred.
          andalso (when_do (deferred \<noteq> []) (audit_event su))
         (andalso (report_untracked su vr_untracked_orders)
         (andalso (report_untracked su vr_untracked_fills)
           (when_do full (reconcile_positions su venue v baseline))))))))))))))))"

definition pass_body :: "surroundings \<Rightarrow> string \<Rightarrow> venue_client \<Rightarrow> bool \<Rightarrow> bool \<Rightarrow> datetime \<Rightarrow> unit pass" where
  "pass_body su venue v full allow started =
     andthen (db_call su (\<lambda>_ db. rbind (active_external_account_baseline (su_digest su) venue db) (\<lambda>b. Inr (b, db))))
       (pass_with su venue v full allow started)"

definition enter_pass :: "reconciler \<Rightarrow> venue_run" where
  "enter_pass s = reconciler.extend s (venue_run.fields 0 0 0 [] [] [] [] None None)"

definition pass_result :: "string \<Rightarrow> bool \<Rightarrow> datetime \<Rightarrow> datetime \<Rightarrow> venue_error option \<Rightarrow> venue_run \<Rightarrow> reconciliation_result" where
  "pass_result venue full started completed err s = \<lparr>rr_venue = venue, rr_started_at = started, rr_completed_at = completed,
     rr_orders_checked = vr_checked s, rr_fills_recorded = vr_fills s, rr_drift_count = vr_drift s, rr_success = (err = None),
     rr_error = map_option venue_error_text err,
     rr_transient_failure = (case err of None \<Rightarrow> False | Some (Unsupported t) \<Rightarrow> False
       | Some e \<Rightarrow> is_transient_reconciliation_exception e),
     rr_full = full, rr_account_fingerprint = vr_fingerprint s, rr_baseline_manifest = vr_manifest s\<rparr>"

text \<open>Every exception of the body is caught; only the transaction that records the result may raise.\<close>

definition reconcile_venue ::
  "surroundings \<Rightarrow> bool \<Rightarrow> bool \<Rightarrow> string \<times> venue_client \<Rightarrow> (reconciler, venue_error, reconciliation_result) act" where
  "reconcile_venue su full allow = (\<lambda>(venue, v) s.
     let started = su_now su (rv_tick s); (r, s1) = pass_body su venue v full allow started (enter_pass s);
         res = pass_result venue full started (su_now su (rv_tick s1)) (case r of Inl e \<Rightarrow> Some e | Inr _ \<Rightarrow> None) s1
     in andthen (db_call su (\<lambda>_ db. Inr ((), record_reconciliation res db))) (\<lambda>_. ret res) (reconciler.truncate s1))"

section \<open>Cycles\<close>

text \<open>\<^verbatim>\<open>gather\<close>: every venue is reconciled, also after the exception of another one.\<close>

primrec gather_venues ::
  "surroundings \<Rightarrow> bool \<Rightarrow> bool \<Rightarrow> (string \<times> venue_client) list \<Rightarrow> reconciler \<Rightarrow>
    (string \<times> (venue_error + reconciliation_result)) list \<times> reconciler" where
  "gather_venues su full allow [] s = ([], s)"
| "gather_venues su full allow (c # cs) s =
     (let (r, s1) = reconcile_venue su full allow c s; (rs, s2) = gather_venues su full allow cs s1 in ((fst c, r) # rs, s2))"

fun first_error :: "(string \<times> (venue_error + 'a)) list \<Rightarrow> venue_error + 'a list" where
  "first_error [] = Inr []"
| "first_error ((_, Inl e) # rs) = Inl e"
| "first_error ((_, Inr x) # rs) = (case first_error rs of Inl e \<Rightarrow> Inl e | Inr xs \<Rightarrow> Inr (x # xs))"

definition hard_failures :: "reconciliation_result list \<Rightarrow> reconciliation_result list" where
  "hard_failures rs = filter (\<lambda>r. 0 < rr_drift_count r \<or> \<not> rr_success r \<and> \<not> rr_transient_failure r) rs"

definition transient_failures :: "reconciliation_result list \<Rightarrow> reconciliation_result list" where
  "transient_failures rs = filter (\<lambda>r. rr_drift_count r = 0 \<and> \<not> rr_success r \<and> rr_transient_failure r) rs"

definition failure_text :: "string \<Rightarrow> reconciliation_result list \<Rightarrow> string" where
  "failure_text what rs = join_with ''; '' (map (\<lambda>r. case rr_error r of Some e \<Rightarrow> if e \<noteq> [] then e else rr_venue r @ what
     | None \<Rightarrow> rr_venue r @ what) rs)"

definition judge_cycle :: "datetime \<Rightarrow> reconciliation_result list \<Rightarrow> reconciler \<Rightarrow> reconciler" where
  "judge_cycle started rs s =
     (if hard_failures rs = [] \<and> transient_failures rs = []
      then s\<lparr>rv_transients := 0, rv_ready := True, rv_last_success := Some started, rv_last_error := None\<rparr>
      else if hard_failures rs \<noteq> []
      then s\<lparr>rv_transients := 0, rv_ready := False, rv_last_error := Some (failure_text '': drift'' (hard_failures rs))\<rparr>
      else s\<lparr>rv_transients := rv_transients s + 1, rv_ready := False,
        rv_last_error := Some (failure_text '': transient reconciliation failure'' (transient_failures rs))\<rparr>)"

definition run_cycle ::
  "surroundings \<Rightarrow> bool \<Rightarrow> (string \<times> venue_client) list \<Rightarrow> (reconciler, venue_error, reconciliation_result list) act" where
  "run_cycle su full clients = (\<lambda>s.
     let started = su_now su (rv_tick s); (rs, s1) = gather_venues su full True clients s
     in case first_error rs of Inl e \<Rightarrow> (Inl e, s1) | Inr results \<Rightarrow> (Inr results, judge_cycle started results s1))"

text \<open>\<^verbatim>\<open>risk.pause\<close>, whose external save succeeds or not; its exception is a plain \<^verbatim>\<open>RuntimeError\<close>.\<close>

definition pause_trading :: "bool \<Rightarrow> string \<Rightarrow> (reconciler, venue_error, unit) act" where
  "pause_trading saved reason = (\<lambda>s. let oc = pause reason saved (rv_risk s) in
     ((case oc_result oc of Inl e \<Rightarrow> Inl (py_failure e) | Inr _ \<Rightarrow> Inr ()), s\<lparr>rv_risk := oc_controller oc\<rparr>))"

text \<open>One turn of the continuous loop. The exception of the last pause ends the loop.\<close>

definition turn_judged :: "bool \<Rightarrow> bool \<Rightarrow> flt \<Rightarrow> reconciliation_result list \<Rightarrow> (reconciler, venue_error, unit) act" where
  "turn_judged saved full started rs =
     andalso (modify (\<lambda>s. if full then s\<lparr>rv_last_full := started\<rparr> else s))
     (if hard_failures rs \<noteq> [] then pause_trading saved ''continuous reconciliation detected drift''
      else when_do (transient_failures rs \<noteq> []) (pause_trading saved ''continuous reconciliation transient failure''))"

definition turn_failed :: "bool \<Rightarrow> venue_error \<Rightarrow> (reconciler, venue_error, unit) act" where
  "turn_failed saved e = andalso (modify (\<lambda>s. s\<lparr>rv_ready := False, rv_last_error := Some (venue_error_text e)\<rparr>))
     (pause_trading saved (''continuous reconciliation failed: '' @ venue_error_text e))"

definition loop_turn :: "surroundings \<Rightarrow> bool \<Rightarrow> bool \<Rightarrow> flt \<Rightarrow> (string \<times> venue_client) list \<Rightarrow> (reconciler, venue_error, unit) act" where
  "loop_turn su saved full started clients =
     catch (andthen (run_cycle su full clients) (turn_judged saved full started)) (turn_failed saved)"

text \<open>\<open>started\<close> is the time of the event loop; a full turn is due when the interval has passed.\<close>

definition timed_turn :: "surroundings \<Rightarrow> bool \<Rightarrow> flt \<Rightarrow> flt \<Rightarrow> (string \<times> venue_client) list \<Rightarrow> (reconciler, venue_error, unit) act" where
  "timed_turn su saved interval started clients =
     (\<lambda>s. loop_turn su saved (interval \<le> fsub started (rv_last_full s)) started clients s)"

section \<open>Startup\<close>

definition startup_failed :: "venue_error + reconciliation_result \<Rightarrow> bool" where
  "startup_failed r = (case r of Inl _ \<Rightarrow> True | Inr x \<Rightarrow> \<not> rr_success x \<or> 0 < rr_drift_count x)"

text \<open>
  The attempts, each over the venues that failed before; the clients answer differently in every
  attempt. The result is what failed in the last attempt.
\<close>

fun startup_attempts ::
  "surroundings \<Rightarrow> nat \<Rightarrow> (nat \<Rightarrow> string \<Rightarrow> venue_client) \<Rightarrow> nat \<Rightarrow> string list \<Rightarrow> reconciler \<Rightarrow>
    (string \<times> (venue_error + reconciliation_result)) list \<times> reconciler" where
  "startup_attempts su 0 clients k venues s = ([], s)"
| "startup_attempts su (Suc left) clients k venues s =
     (let (rs, s1) = gather_venues su True False (map (\<lambda>v. (v, clients k v)) venues) s;
          failures = filter (\<lambda>(_, r). startup_failed r) rs
      in if failures = [] \<or> left = 0 then (failures, s1)
         else startup_attempts su left clients (k + 1) (map fst failures) s1)"

text \<open>The text of a failure is \<^verbatim>\<open>str(item)\<close>, which for a result is its representation.\<close>

definition startup_reconcile ::
  "surroundings \<Rightarrow> bool \<Rightarrow> nat \<Rightarrow> (reconciliation_result \<Rightarrow> string) \<Rightarrow> (nat \<Rightarrow> string \<Rightarrow> venue_client) \<Rightarrow> string list \<Rightarrow>
    (reconciler, venue_error, bool) act" where
  "startup_reconcile su saved attempts result_text clients venues = (\<lambda>s.
     let started = su_now su (rv_tick s); unsupported = filter (\<lambda>v. \<not> vc_supports_full (clients 0 v)) venues in
     if unsupported \<noteq> [] then
       (let error = ''full reconciliation unsupported: '' @ join_with '', '' unsupported
        in andalso (pause_trading saved error) (ret False) (s\<lparr>rv_last_error := Some error\<rparr>))
     else
       (let (failures, s1) = startup_attempts su (max 1 attempts) clients 0 venues s in
        if failures = [] then (Inr True, s1\<lparr>rv_ready := True, rv_last_error := None, rv_last_success := Some started\<rparr>)
        else (let error = join_with ''; '' (map (\<lambda>(_, r). case r of Inl e \<Rightarrow> venue_error_text e | Inr x \<Rightarrow> result_text x) failures)
              in andalso (pause_trading saved (if error = [] then ''startup reconciliation failed: unknown reconciliation failure''
                     else if starts_with error ''full reconciliation unsupported:'' then error
                     else ''startup reconciliation failed: '' @ error)) (ret False)
                   (s1\<lparr>rv_ready := False, rv_last_error := Some error\<rparr>))))"

section \<open>Lemmas\<close>

subsection \<open>What a pass may change\<close>

text \<open>The tables that the expected positions are computed from.\<close>

definition same_scope_tables :: "repository \<Rightarrow> repository \<Rightarrow> bool" where
  "same_scope_tables db db' \<longleftrightarrow> db_baselines db' = db_baselines db \<and> db_enabled_routes db' = db_enabled_routes db \<and>
     db_instance db' = db_instance db"

definition same_tables :: "repository \<Rightarrow> repository \<Rightarrow> bool" where
  "same_tables db db' \<longleftrightarrow> same_scope_tables db db' \<and> db_positions db' = db_positions db"

text \<open>The positions are the ones at the start of the pass, or there is drift.\<close>

definition undrifted :: "repository \<Rightarrow> venue_run \<Rightarrow> bool" where
  "undrifted db s \<longleftrightarrow> same_scope_tables db (rv_db s) \<and> (db_positions (rv_db s) = db_positions db \<or> 0 < vr_drift s)"

definition safe_pass :: "repository \<Rightarrow> 'a pass \<Rightarrow> bool" where
  "safe_pass db m \<longleftrightarrow> hoare (undrifted db) m (\<lambda>_. undrifted db) (\<lambda>_ _. True)"

named_theorems pass_rules \<open>passes that only change positions together with a drift\<close>

lemma same_tables_refl [simp]: "same_tables db db"
  by (simp add: same_tables_def same_scope_tables_def)

lemma same_tables_trans: "same_tables a b \<Longrightarrow> same_tables b c \<Longrightarrow> same_tables a c"
  by (simp add: same_tables_def same_scope_tables_def)

lemma keeps_safe: "keeps (undrifted db) m \<Longrightarrow> safe_pass db m"
  unfolding safe_pass_def keeps_hoare by (erule hoare_weaken) auto

lemma safe_andthen [pass_rules]: "safe_pass db m \<Longrightarrow> (\<And>x. safe_pass db (f x)) \<Longrightarrow> safe_pass db (andthen m f)"
  unfolding safe_pass_def by (rule hoare_andthen)

lemma safe_andalso [pass_rules]: "safe_pass db m \<Longrightarrow> safe_pass db m' \<Longrightarrow> safe_pass db (andalso m m')"
  unfolding safe_pass_def by (rule hoare_andalso)

lemma safe_when [pass_rules]: "safe_pass db m \<Longrightarrow> safe_pass db (when_do c m)"
  by (cases c) (auto simp: when_do_def intro!: keeps_safe)

lemma safe_for_each [pass_rules]: "(\<And>x. safe_pass db (m x)) \<Longrightarrow> safe_pass db (for_each m xs)"
proof (induction xs)
  case Nil
  show ?case by (auto intro: keeps_safe)
next
  case (Cons x xs)
  then show ?case by (simp add: safe_andalso)
qed

lemma safe_catch: "keeps (undrifted db) m \<Longrightarrow> (\<And>e. safe_pass db (h e)) \<Longrightarrow> safe_pass db (catch m h)"
  unfolding safe_pass_def keeps_hoare by (rule hoare_catch)

lemma db_call_effect:
  "snd (db_call su f s) = s\<lparr>rv_tick := rv_tick s + 1\<rparr> \<or>
    (\<exists>now x db. f now (rv_db s) = Inr (x, db) \<and> snd (db_call su f s) = s\<lparr>rv_tick := rv_tick s + 1, rv_db := db\<rparr>)"
proof (cases "su_fault su (rv_tick s)")
  case None
  show ?thesis
  proof (cases "f (su_now su (rv_tick s)) (rv_db s)")
    case (Inr y)
    then obtain x db where "f (su_now su (rv_tick s)) (rv_db s) = Inr (x, db)" by (cases y) auto
    moreover from this have "snd (db_call su f s) = s\<lparr>rv_tick := rv_tick s + 1, rv_db := db\<rparr>" by (simp add: db_call_def Let_def None)
    ultimately show ?thesis by blast
  qed (simp add: db_call_def Let_def None)
qed (simp add: db_call_def Let_def)

lemma db_call_keeps:
  assumes "\<And>now db0 x db1. f now db0 = Inr (x, db1) \<Longrightarrow> same_tables db0 db1"
  shows "keeps (undrifted db) (db_call su f)"
  unfolding keeps_def
proof (intro allI impI)
  fix s assume "undrifted db s"
  with db_call_effect [of su f s] show "undrifted db (snd (db_call su f s))"
    by (auto simp: undrifted_def same_tables_def same_scope_tables_def dest!: assms)
qed

lemma db_read_keeps [intro]: "keeps (undrifted db) (db_read su f)"
  unfolding db_read_def by (rule db_call_keeps) simp

lemma audit_event_keeps [intro]: "keeps (undrifted db) (audit_event su)"
  unfolding audit_event_def by (rule db_read_keeps)

lemma update_order_intent_tables: "update_order_intent now cid st vid err db = Inr (x, db') \<Longrightarrow> same_tables db db'"
  by (auto simp: update_order_intent_def same_tables_def same_scope_tables_def split: option.splits)

lemma upsert_venue_order_tables: "upsert_venue_order vo db = Inr (x, db') \<Longrightarrow> same_tables db db'"
  by (auto simp: upsert_venue_order_def same_tables_def same_scope_tables_def split: if_splits)

lemma insert_fill_tables: "insert_fill f db = Inr (x, db') \<Longrightarrow> same_tables db db'"
  by (auto simp: insert_fill_def same_tables_def same_scope_tables_def split: if_splits)

lemma set_intent_status_keeps [intro]: "keeps (undrifted db) (set_intent_status su cid st vid err)"
  unfolding set_intent_status_def by (rule db_call_keeps) (rule update_order_intent_tables)

lemma upsert_keeps [intro]: "keeps (undrifted db) (db_call su (\<lambda>_. upsert_venue_order vo))"
  by (rule db_call_keeps) (rule upsert_venue_order_tables)

lemma insert_fill_keeps [intro]: "keeps (undrifted db) (db_call su (\<lambda>_. insert_fill f))"
  by (rule db_call_keeps) (rule insert_fill_tables)

lemma add_drift_keeps [intro]: "keeps (undrifted db) (add_drift n)"
  unfolding add_drift_def by (rule keeps_modify) (auto simp: undrifted_def)

lemma add_checked_keeps [intro]: "keeps (undrifted db) add_checked"
  unfolding add_checked_def by (rule keeps_modify) (simp add: undrifted_def)

lemma safe_basic [pass_rules]:
  "safe_pass db (ret x)" "safe_pass db (raise e)" "safe_pass db (gets f)" "safe_pass db (of_result r)"
  "safe_pass db (db_read su g)" "safe_pass db (audit_event su)" "safe_pass db (set_intent_status su cid st vid err)"
  "safe_pass db (db_call su (\<lambda>_. upsert_venue_order vo))" "safe_pass db (db_call su (\<lambda>_. insert_fill fr))"
  "safe_pass db (add_drift n)" "safe_pass db add_checked"
  by (blast intro: keeps_safe)+

lemma safe_modify [pass_rules]: "(\<And>s. undrifted db s \<Longrightarrow> undrifted db (f s)) \<Longrightarrow> safe_pass db (modify f)"
  by (blast intro: keeps_safe keeps_modify)

text \<open>A residual exposure changes a position, and is counted as drift.\<close>

lemma residual_tables: "record_residual_exit_exposure key venue q r c db = Inr (x, db') \<Longrightarrow> same_scope_tables db db'"
  by (auto simp: record_residual_exit_exposure_def same_scope_tables_def rbind_Inr_iff split: option.splits)

lemma residual_handled_safe [pass_rules]: "safe_pass db (residual_handled su venue i x)"
proof -
  define K where "K = (\<lambda>s :: venue_run. same_scope_tables db (rv_db s))"
  have call: "keeps K (db_call su f)" if "\<And>now db0 x db1. f now db0 = Inr (x, db1) \<Longrightarrow> same_scope_tables db0 db1" for f :: "datetime \<Rightarrow> repository \<Rightarrow> 'b tx"
    unfolding keeps_def
  proof (intro allI impI)
    fix s assume "K s"
    with db_call_effect [of su f s] show "K (snd (db_call su f s))"
      by (auto simp: K_def same_scope_tables_def dest!: that)
  qed
  have persist: "keeps K (persist_residual_exit_exposure su venue i x)"
    unfolding persist_residual_exit_exposure_def set_intent_status_def audit_event_def db_read_def
    by (intro keeps_if keeps_andalso keeps_andthen keeps_basic keeps_modify call)
      (auto simp: K_def same_scope_tables_def dest: residual_tables update_order_intent_tables [THEN same_tables_def [THEN iffD1]])
  have "hoare (undrifted db) (residual_handled su venue i x) (\<lambda>_. undrifted db) (\<lambda>_ _. True)"
    unfolding residual_handled_def
  proof (rule hoare_andalso)
    show "hoare K (andalso (modify (\<lambda>s. s\<lparr>vr_handled := List.insert (lower (re_order_id x)) (vr_handled s)\<rparr>)) (add_drift 1))
        (\<lambda>_. undrifted db) (\<lambda>_ _. True)"
      by (simp add: hoare_def andalso_def andthen_def modify_def add_drift_def K_def undrifted_def)
    show "hoare (undrifted db) (persist_residual_exit_exposure su venue i x) (\<lambda>_. K) (\<lambda>_ _. True)"
      by (rule hoare_weaken [OF persist [unfolded keeps_hoare]]) (simp_all add: K_def undrifted_def)
  qed
  then show ?thesis by (simp add: safe_pass_def)
qed

lemma of_result_keeps: "keeps I (andthen (of_result r) (\<lambda>x. andthen (of_result (g x)) (\<lambda>y. ret (h y))))"
  by (intro keeps_andthen keeps_basic)

lemma poll_order_safe [pass_rules]: "safe_pass db (poll_order su venue v i vid)"
  unfolding poll_order_def
proof (rule safe_catch)
  show "keeps (undrifted db) (andthen (of_result (vc_restore_order v vid i)) (\<lambda>_. andthen (of_result (vc_order v vid)) (\<lambda>r. ret (Some r))))"
    by (intro keeps_andthen keeps_basic)
  show "safe_pass db (case e of Residual x \<Rightarrow> andalso (residual_handled su venue i x) (ret None)
      | _ \<Rightarrow> if synthetic_order_intent i \<and> is_http_not_found e
          then andalso (set_intent_status su (oi_client_order_id i) OI_CANCELLED (Some vid)
            (Some ''retired synthetic startup artifact missing on venue'')) (ret None)
          else raise e)" for e
    by (cases e) (auto intro!: pass_rules)
qed

lemma reconcile_intent_safe [pass_rules]: "safe_pass db (reconcile_intent su venue v graced i)"
  unfolding reconcile_intent_def Let_def
  by (auto intro!: pass_rules split: option.splits prod.splits)

lemma can_defer_safe [pass_rules]: "safe_pass db (can_defer_untracked submitting vid)"
  by (rule keeps_safe) (simp add: keeps_def can_defer_untracked_def undrifted_def)

lemma resolve_owner_safe [pass_rules]: "safe_pass db (resolve_owner su venue submitting unresolved vid remote)"
  unfolding resolve_owner_def Let_def by (auto intro!: pass_rules split: option.split)

lemma cancel_open_order_safe [pass_rules]: "safe_pass db (cancel_open_order su v cid vid)"
  unfolding cancel_open_order_def Let_def
  by (rule safe_catch) (auto intro!: pass_rules keeps_andthen keeps_andalso keeps_when split: prod.split)

lemma reconcile_open_order_safe [pass_rules]: "safe_pass db (reconcile_open_order su venue v submitting unresolved vo)"
  unfolding reconcile_open_order_def
  by (auto intro!: pass_rules split: ownership.split simp: undrifted_def)

lemma reconcile_fill_safe [pass_rules]: "safe_pass db (reconcile_fill su venue submitting unresolved external f)"
  unfolding reconcile_fill_def Let_def
  by (auto intro!: pass_rules split: ownership.split simp: undrifted_def)

lemma handle_residual_fill_safe [pass_rules]: "safe_pass db (handle_residual_fill su venue rows x)"
  unfolding handle_residual_fill_def by (auto intro!: pass_rules split: option.split)

lemma list_venue_fills_safe [pass_rules]: "safe_pass db (list_venue_fills su venue v rows since)"
  unfolding list_venue_fills_def
  by (rule safe_catch) (auto intro!: pass_rules split: venue_error.split)

lemma report_untracked_safe [pass_rules]: "safe_pass db (report_untracked su field)"
  unfolding report_untracked_def by (intro pass_rules)

lemma check_identity_safe [pass_rules]: "safe_pass db (check_identity venue v baseline)"
  unfolding check_identity_def by (auto intro!: pass_rules split: option.split simp: undrifted_def)

subsection \<open>Positions that agree\<close>

text \<open>
  The positions of the venue are those that the stored positions and the external baseline add
  up to, token by token.
\<close>

definition positions_agree :: "(baseline_payload \<Rightarrow> string) \<Rightarrow> repository \<Rightarrow> string \<times> venue_client \<Rightarrow> bool" where
  "positions_agree digest db = (\<lambda>(venue, v). \<exists>baseline entries expected actual.
     active_external_account_baseline digest venue db = Inr baseline \<and> load_position_entries db = Inr entries \<and>
     expected_positions venue (map snd entries) [] = Inr expected \<and> vc_positions v = Inr actual \<and>
     (\<forall>token. \<bar>dsub (get_or (add_external baseline expected) token 0) (get_or actual token 0)\<bar> \<le> POSITION_TOLERANCE))"

lemma get_or_absent: "k \<notin> fst ` set d \<Longrightarrow> get_or d k x = x"
  by (simp add: get_or_def dict_get_def map_of_eq_None_iff [THEN iffD2])

lemma position_mismatches_Nil:
  "position_mismatches expected actual = [] \<longleftrightarrow>
    (\<forall>token. \<bar>dsub (get_or expected token 0) (get_or actual token 0)\<bar> \<le> POSITION_TOLERANCE)"
proof -
  have absent: "\<bar>dsub (get_or expected token 0) (get_or actual token 0)\<bar> \<le> POSITION_TOLERANCE"
    if "token \<notin> set (map fst expected @ map fst actual)" for token
    using that by (simp add: get_or_absent dsub_def POSITION_TOLERANCE_def)
  show ?thesis
    unfolding position_mismatches_def by (simp add: filter_empty_conv not_less) (use absent in fastforce)
qed

lemma same_tables_reads:
  assumes "same_tables db db'"
  shows "active_external_account_baseline digest venue db' = active_external_account_baseline digest venue db"
    and "load_position_entries db' = load_position_entries db"
  using assms
  by (simp_all add: active_external_account_baseline_def active_row_def load_position_entries_def same_tables_def same_scope_tables_def cong: if_cong)

lemma positions_agree_cong: "same_tables db db' \<Longrightarrow> positions_agree digest db' = positions_agree digest db"
  by (simp add: positions_agree_def fun_eq_iff same_tables_reads)

lemma andthen_Inr_iff: "andthen m f s = (Inr y, s') \<longleftrightarrow> (\<exists>x t. m s = (Inr x, t) \<and> f x t = (Inr y, s'))"
  by (auto simp: andthen_def split: prod.splits sum.splits)

lemma andalso_Inr_iff: "andalso m m' s = (Inr y, s') \<longleftrightarrow> (\<exists>t. m s = (Inr (), t) \<and> m' t = (Inr y, s'))"
  by (auto simp: andalso_def andthen_Inr_iff)

lemma db_call_InrD:
  assumes "db_call su f s = (Inr x, s')"
  shows "\<exists>now db. f now (rv_db s) = Inr (x, db) \<and> s' = s\<lparr>rv_tick := rv_tick s + 1, rv_db := db\<rparr>"
  using assms by (auto simp: db_call_def Let_def split: option.splits sum.splits prod.splits)

text \<open>The last part of a full pass computes the drift of the positions from the tables it leaves.\<close>

lemma reconcile_positions_agree:
  assumes "active_external_account_baseline (su_digest su) venue db = Inr baseline" and "undrifted db s"
    and "reconcile_positions su venue v baseline s = (Inr (), s')" and "vr_drift s' = 0"
  shows "same_tables db (rv_db s') \<and> positions_agree (su_digest su) (rv_db s') (venue, v)"
proof -
  obtain balances actual t1 local t2 expected t3 where
    actual: "vc_positions v = Inr actual"
    and balances: "db_call su (\<lambda>now db. Inr ((), record_balances now venue balances db)) s = (Inr (), t1)"
    and local: "db_call su (\<lambda>_ db. rbind (load_position_entries db) (\<lambda>es. Inr (map snd es, db))) t1 = (Inr local, t2)"
    and expected: "expected_positions venue local [] = Inr expected"
    and drift: "add_drift (length (position_mismatches (add_external baseline expected) actual)) t2 = (Inr (), t3)"
    and last: "audit_event su t3 = (Inr (), s')"
    using assms(3) by (auto simp: reconcile_positions_def andthen_Inr_iff andalso_Inr_iff of_result_def)
  obtain now where t1: "rv_db t1 = record_balances now venue balances (rv_db s)" "vr_drift t1 = vr_drift s"
    using db_call_InrD [OF balances] by auto
  obtain entries where t2: "rv_db t2 = rv_db t1" "vr_drift t2 = vr_drift t1" "load_position_entries (rv_db t1) = Inr entries"
    "local = map snd entries"
    using db_call_InrD [OF local] by (auto simp: rbind_Inr_iff)
  have s': "rv_db s' = rv_db t2" "vr_drift s' = vr_drift t2 + length (position_mismatches (add_external baseline expected) actual)"
    using drift last by (auto simp: add_drift_def modify_def audit_event_def db_read_def dest!: db_call_InrD)
  have db: "same_tables db (rv_db s')"
    using assms(2,4) s' t1 t2(1,2) by (simp add: undrifted_def same_tables_def same_scope_tables_def record_balances_def)
  have "position_mismatches (add_external baseline expected) actual = []" using assms(4) s'(2) by simp
  then have "\<forall>token. \<bar>dsub (get_or (add_external baseline expected) token 0) (get_or actual token 0)\<bar> \<le> POSITION_TOLERANCE"
    by (simp add: position_mismatches_Nil)
  moreover have "active_external_account_baseline (su_digest su) venue (rv_db s') = Inr baseline"
    using assms(1) same_tables_reads(1) [OF db] by simp
  moreover have "load_position_entries (rv_db s') = Inr entries" "expected_positions venue (map snd entries) [] = Inr expected"
    using t2 s'(1) expected by simp_all
  ultimately have "positions_agree (su_digest su) (rv_db s') (venue, v)"
    using actual unfolding positions_agree_def by blast
  with db show ?thesis by simp
qed

text \<open>A pass that returns without drift leaves the tables alone, and a full one finds the positions in them.\<close>

lemma safe_then:
  "safe_pass db m \<Longrightarrow> (\<And>x. hoare (undrifted db) (f x) Q (\<lambda>_ _. True)) \<Longrightarrow> hoare (undrifted db) (andthen m f) Q (\<lambda>_ _. True)"
  unfolding safe_pass_def by (rule hoare_andthen)

lemma safe_also:
  "safe_pass db m \<Longrightarrow> hoare (undrifted db) m' Q (\<lambda>_ _. True) \<Longrightarrow> hoare (undrifted db) (andalso m m') Q (\<lambda>_ _. True)"
  unfolding andalso_def by (rule safe_then)

lemma pass_end_agrees:
  assumes "active_external_account_baseline (su_digest su) venue db = Inr baseline"
  shows "hoare (undrifted db) (when_do full (reconcile_positions su venue v baseline))
    (\<lambda>_ s. vr_drift s = 0 \<longrightarrow> same_tables db (rv_db s) \<and> (full \<longrightarrow> positions_agree (su_digest su) (rv_db s) (venue, v))) (\<lambda>_ _. True)"
proof (cases full)
  case True
  then show ?thesis
    using reconcile_positions_agree [OF assms]
    by (auto simp: hoare_def when_do_def split: prod.split sum.split)
next
  case False
  then show ?thesis by (auto simp: hoare_def when_do_def ret_def undrifted_def same_tables_def)
qed

lemma hoare_db_call:
  "hoare (\<lambda>s. \<forall>now x db. f now (rv_db s) = Inr (x, db) \<longrightarrow> Q x (s\<lparr>rv_tick := rv_tick s + 1, rv_db := db\<rparr>)) (db_call su f) Q (\<lambda>_ _. True)"
  by (auto simp: hoare_def db_call_def Let_def split: option.splits sum.splits prod.splits)

lemma pass_with_agrees:
  assumes "active_external_account_baseline (su_digest su) venue db = Inr baseline"
  shows "hoare (undrifted db) (pass_with su venue v full allow started baseline)
    (\<lambda>_ s. vr_drift s = 0 \<longrightarrow> same_tables db (rv_db s) \<and> (full \<longrightarrow> positions_agree (su_digest su) (rv_db s) (venue, v))) (\<lambda>_ _. True)"
  unfolding pass_with_def Let_def
  by (intro safe_then safe_also pass_rules pass_end_agrees [OF assms])

lemma pass_body_agrees:
  assumes "pass_body su venue v full allow started s = (Inr (), s')" and "vr_drift s' = 0"
  shows "same_tables (rv_db s) (rv_db s') \<and> (full \<longrightarrow> positions_agree (su_digest su) (rv_db s') (venue, v))"
proof -
  obtain baseline t where
    b: "db_call su (\<lambda>_ db. rbind (active_external_account_baseline (su_digest su) venue db) (\<lambda>b. Inr (b, db))) s = (Inr baseline, t)"
    and rest: "pass_with su venue v full allow started baseline t = (Inr (), s')"
    using assms(1) by (auto simp: pass_body_def andthen_Inr_iff)
  have t: "active_external_account_baseline (su_digest su) venue (rv_db s) = Inr baseline" "undrifted (rv_db s) t"
    using db_call_InrD [OF b] by (auto simp: rbind_Inr_iff undrifted_def same_scope_tables_def)
  from hoareD_return [OF pass_with_agrees [OF t(1)] t(2) rest] assms(2) show ?thesis by blast
qed

subsection \<open>Cycles\<close>

definition clean_result :: "reconciliation_result \<Rightarrow> bool" where
  "clean_result r \<longleftrightarrow> rr_success r \<and> rr_drift_count r = 0"

lemma no_failures_iff: "hard_failures rs = [] \<and> transient_failures rs = [] \<longleftrightarrow> list_all clean_result rs"
  by (auto simp: hard_failures_def transient_failures_def clean_result_def filter_empty_conv list_all_iff)

lemma enter_pass_db [simp]: "rv_db (enter_pass s) = rv_db s"
  by (simp add: enter_pass_def reconciler.defs)

lemma truncate_db [simp]: "rv_db (reconciler.truncate s) = rv_db s"
  by (simp add: reconciler.defs)

lemma record_reconciliation_tables [simp]: "same_tables db (record_reconciliation r db)"
  by (simp add: same_tables_def same_scope_tables_def record_reconciliation_def)

lemma reconcile_venue_clean:
  assumes "reconcile_venue su full allow (venue, v) s = (Inr r, s')" and "clean_result r"
  shows "same_tables (rv_db s) (rv_db s') \<and> (full \<longrightarrow> positions_agree (su_digest su) (rv_db s') (venue, v))"
proof -
  obtain out s1 where body: "pass_body su venue v full allow (su_now su (rv_tick s)) (enter_pass s) = (out, s1)" by fastforce
  define err where "err = (case out of Inl e \<Rightarrow> Some e | Inr _ \<Rightarrow> None)"
  define res where "res = pass_result venue full (su_now su (rv_tick s)) (su_now su (rv_tick s1)) err s1"
  have "andthen (db_call su (\<lambda>_ db. Inr ((), record_reconciliation res db))) (\<lambda>_. ret res) (reconciler.truncate s1) = (Inr r, s')"
    using assms(1) by (simp add: reconcile_venue_def body Let_def res_def err_def)
  then obtain x t where call: "db_call su (\<lambda>_ db. Inr ((), record_reconciliation res db)) (reconciler.truncate s1) = (Inr x, t)"
    and r: "r = res" "s' = t"
    unfolding andthen_Inr_iff ret_def prod.inject sum.inject by blast
  have s': "rv_db s' = record_reconciliation res (rv_db s1)" using db_call_InrD [OF call] r(2) by auto
  have "out = Inr ()" "vr_drift s1 = 0"
    using assms(2) unfolding r(1) res_def err_def clean_result_def pass_result_def by (simp_all split: sum.splits)
  then have "same_tables (rv_db s) (rv_db s1)" "full \<longrightarrow> positions_agree (su_digest su) (rv_db s1) (venue, v)"
    using pass_body_agrees [of su venue v full allow "su_now su (rv_tick s)" "enter_pass s" s1] body by simp_all
  then show ?thesis
    using same_tables_trans [OF _ record_reconciliation_tables, of "rv_db s" "rv_db s1" res]
      positions_agree_cong [OF record_reconciliation_tables, of "su_digest su" res "rv_db s1"]
    by (simp add: s')
qed

lemma gather_venues_clean:
  assumes "gather_venues su full allow clients s = (rs, s')" and "first_error rs = Inr results" and "list_all clean_result results"
  shows "same_tables (rv_db s) (rv_db s') \<and> (full \<longrightarrow> (\<forall>c \<in> set clients. positions_agree (su_digest su) (rv_db s') c))"
  using assms
proof (induction clients arbitrary: s rs results)
  case (Cons c clients)
  obtain r s1 where head: "reconcile_venue su full allow c s = (r, s1)" by fastforce
  obtain rs' where tail: "gather_venues su full allow clients s1 = (rs', s')" and rs: "rs = (fst c, r) # rs'"
    using Cons.prems(1) by (auto simp: head split: prod.splits)
  obtain x results' where x: "r = Inr x" "first_error rs' = Inr results'" "clean_result x" "list_all clean_result results'"
    using Cons.prems(2,3) by (cases r) (auto simp: rs split: sum.splits)
  have first: "same_tables (rv_db s) (rv_db s1) \<and> (full \<longrightarrow> positions_agree (su_digest su) (rv_db s1) c)"
    using reconcile_venue_clean [of su full allow "fst c" "snd c" s x s1] head x(1,3) by simp
  moreover note Cons.IH [OF tail x(2,4)]
  moreover from this have "positions_agree (su_digest su) (rv_db s') = positions_agree (su_digest su) (rv_db s1)"
    by (intro positions_agree_cong) blast
  ultimately show ?case using same_tables_trans by auto
qed simp

lemma run_cycle_clean:
  assumes "run_cycle su full clients s = (Inr results, s')"
  shows "rv_ready s' \<longleftrightarrow> list_all clean_result results"
    and "full \<Longrightarrow> list_all clean_result results \<Longrightarrow> \<forall>c \<in> set clients. positions_agree (su_digest su) (rv_db s') c"
proof -
  obtain rs s1 where g: "gather_venues su full True clients s = (rs, s1)" by fastforce
  have e: "first_error rs = Inr results" and s': "s' = judge_cycle (su_now su (rv_tick s)) results s1"
    using assms by (auto simp: run_cycle_def g Let_def split: sum.splits)
  show "rv_ready s' \<longleftrightarrow> list_all clean_result results"
    unfolding s' judge_cycle_def no_failures_iff by (simp add: no_failures_iff [symmetric])
  have "rv_db s' = rv_db s1" by (simp add: s' judge_cycle_def)
  then show "\<forall>c \<in> set clients. positions_agree (su_digest su) (rv_db s') c" if "full" "list_all clean_result results"
    using gather_venues_clean [OF g e that(2)] that(1) by simp
qed

lemma pause_trading_pauses:
  "pause_trading saved reason s = (r, s') \<Longrightarrow> rk_paused (rc_state (rv_risk s')) \<and> rv_ready s' = rv_ready s"
  by (auto simp: pause_trading_def Let_def pause_def)

lemma turn_failed_pauses: "turn_failed saved e s = (r, s') \<Longrightarrow> rk_paused (rc_state (rv_risk s')) \<and> \<not> rv_ready s'"
  by (auto simp: turn_failed_def andalso_def andthen_def modify_def dest!: pause_trading_pauses)

lemma turn_judged_pauses:
  "turn_judged saved full started rs s = (r, s') \<Longrightarrow> \<not> list_all clean_result rs \<Longrightarrow>
    rk_paused (rc_state (rv_risk s')) \<and> rv_ready s' = rv_ready s"
  by (cases "hard_failures rs = []")
    (auto simp: turn_judged_def andalso_def andthen_def modify_def when_do_def no_failures_iff [symmetric] dest!: pause_trading_pauses
      split: if_splits)

lemma turn_judged_clean:
  "list_all clean_result rs \<Longrightarrow> turn_judged saved full started rs s = (Inr (), if full then s\<lparr>rv_last_full := started\<rparr> else s)"
  by (simp add: no_failures_iff [symmetric] turn_judged_def andalso_def andthen_def modify_def when_do_def ret_def)

text \<open>C31. The entry gate is open after a turn of the full reconciliation only when at every venue each
  token's position is, up to the tolerance, what the stored positions and the external baseline add up
  to; otherwise trading is paused, also when the database or a venue raises.\<close>

theorem full_turn_agrees_or_pauses:
  assumes "loop_turn su saved True started clients s = (r, s')"
  shows "if rv_ready s' then \<forall>c \<in> set clients. positions_agree (su_digest su) (rv_db s') c
    else rk_paused (rc_state (rv_risk s'))"
proof -
  obtain out t where cycle: "run_cycle su True clients s = (out, t)" by fastforce
  show ?thesis
  proof (cases out)
    case (Inl e)
    with assms cycle have "turn_failed saved e t = (r, s')" by (simp add: loop_turn_def catch_def andthen_def)
    from turn_failed_pauses [OF this] show ?thesis by simp
  next
    case (Inr results)
    note facts = run_cycle_clean [OF cycle [unfolded Inr]]
    obtain out' t' where m: "turn_judged saved True started results t = (out', t')" by fastforce
    have run: "loop_turn su saved True started clients s = (case out' of Inl e \<Rightarrow> turn_failed saved e t' | Inr x \<Rightarrow> (Inr x, t'))"
      using cycle m Inr by (simp add: loop_turn_def catch_def andthen_def)
    show ?thesis
    proof (cases "list_all clean_result results")
      case True
      then have "out' = Inr () \<and> t' = t\<lparr>rv_last_full := started\<rparr>" using m by (simp add: turn_judged_clean)
      with run assms facts True show ?thesis by auto
    next
      case False
      then have "rk_paused (rc_state (rv_risk t')) \<and> \<not> rv_ready t'"
        using turn_judged_pauses [OF m] facts(1) by simp
      then show ?thesis
      proof (cases out')
        case (Inl e)
        with run assms have "turn_failed saved e t' = (r, s')" by simp
        from turn_failed_pauses [OF this] show ?thesis by simp
      next
        case (Inr x)
        with run assms \<open>rk_paused (rc_state (rv_risk t')) \<and> \<not> rv_ready t'\<close> show ?thesis by simp
      qed
    qed
  qed
qed

definition quiet_surroundings :: surroundings where
  "quiet_surroundings = \<lparr>su_now = \<lambda>_. Aware (seconds 1000000), su_fault = \<lambda>_. None, su_digest = \<lambda>_. ''''\<rparr>"

definition dusty_client :: venue_client where
  "dusty_client = \<lparr>vc_fingerprint = None, vc_supports_full = True, vc_restore_order = \<lambda>_ _. Inr (),
     vc_order = \<lambda>_. Inl (Unsupported ''order''), vc_open_orders = Inr [], vc_cancel = \<lambda>_. Inr (),
     vc_cancelled_order = \<lambda>_. Inl (Unsupported ''order''), vc_restore_fill = \<lambda>_ _. Inr (), vc_fills = \<lambda>_. Inr [],
     vc_balances = Inr [(''USDC'', 5)], vc_positions = Inr [(''t'', 1 / 10 ^ 9)]\<rparr>"

definition fresh_reconciler :: reconciler where
  "fresh_reconciler = \<lparr>rv_db = empty_repository, rv_risk = \<lparr>rc_max_daily_loss = 10, rc_max_api_errors = 3, rc_state = initial_state 0,
     rc_file = None, rc_store = None\<rparr>, rv_ready = False, rv_last_error = None, rv_last_success = None, rv_last_full = 0, rv_transients = 0, rv_tick = 0\<rparr>"

lemma dusty_mismatches: "position_mismatches [] [(''t'', 1 / 10 ^ 9)] = []"
proof -
  have "dec_round (- (1 / 10 ^ 9)) = - (1 / 10 ^ 9)" by (rule dec_round_eval) simp_all
  then show ?thesis by (simp add: position_mismatches_def dsub_def POSITION_TOLERANCE_def get_or_def dict_get_def)
qed

lemma quiet_call: "db_call quiet_surroundings f s = (case f (Aware (seconds 1000000)) (rv_db s) of
    Inl e \<Rightarrow> (Inl (py_failure e), s\<lparr>rv_tick := rv_tick s + 1\<rparr>)
  | Inr (x, db) \<Rightarrow> (Inr x, s\<lparr>rv_tick := rv_tick s + 1, rv_db := db\<rparr>))"
  by (simp add: db_call_def quiet_surroundings_def Let_def split: sum.split)

lemma dusty_pass:
  "\<exists>s1. pass_body quiet_surroundings ''Polymarket'' dusty_client True True started (enter_pass fresh_reconciler) = (Inr (), s1) \<and>
    vr_drift s1 = 0"
proof -
  have reads: "active_external_account_baseline d v empty_repository = Inr None" "unresolved_order_intents empty_repository = []"
    "order_intents_for_fill_reconciliation v since empty_repository = []"
    "load_position_entries (record_balances now v balances empty_repository) = Inr []" for d v since now balances
    by (simp_all add: active_external_account_baseline_def active_row_def empty_repository_def dict_values_def unresolved_order_intents_def
        order_intents_for_fill_reconciliation_def load_position_entries_def record_balances_def)
  show ?thesis
    by (simp add: pass_body_def pass_with_def andthen_def andalso_def quiet_call reads enter_pass_def reconciler.defs venue_run.defs
        fresh_reconciler_def check_identity_def db_read_def graced_intents_def submitting_intents_def ret_def of_result_def dusty_client_def
        gets_def list_venue_fills_def catch_def when_do_def report_untracked_def reconcile_positions_def lift_failure_def add_drift_def
        modify_def audit_event_def add_external_def external_positions_def dusty_mismatches [simplified])
qed

lemma dusty_turn: "\<exists>s'. loop_turn quiet_surroundings True True 60 [(''Polymarket'', dusty_client)] fresh_reconciler = (Inr (), s') \<and> rv_ready s'"
proof -
  obtain s1 where "pass_body quiet_surroundings ''Polymarket'' dusty_client True True (su_now quiet_surroundings (rv_tick fresh_reconciler))
      (enter_pass fresh_reconciler) = (Inr (), s1)" "vr_drift s1 = 0"
    using dusty_pass by blast
  then show ?thesis
    by (simp add: loop_turn_def catch_def andthen_def run_cycle_def reconcile_venue_def quiet_call ret_def Let_def pass_result_def
        judge_cycle_def hard_failures_def transient_failures_def turn_judged_clean clean_result_def)
qed

theorem full_turn_agrees_or_pauses_witness:
  "\<exists>s'. loop_turn quiet_surroundings True True 60 [(''Polymarket'', dusty_client)] fresh_reconciler = (Inr (), s') \<and>
    positions_agree (su_digest quiet_surroundings) (rv_db s') (''Polymarket'', dusty_client)"
proof -
  obtain s' where s': "loop_turn quiet_surroundings True True 60 [(''Polymarket'', dusty_client)] fresh_reconciler = (Inr (), s')" "rv_ready s'"
    using dusty_turn by blast
  from full_turn_agrees_or_pauses [OF s'(1)] s' show ?thesis by auto
qed

end
