(* ===== verification/Discovery.thy ===== *)
theory Discovery
  imports Position_Model
begin

text \<open>
  The lifecycle of the discovered markets, \<^verbatim>\<open>discovery_lifecycle.py\<close>: the registry that publishes the
  market snapshot to the engine and the coordinator that refreshes it with backoff and jitter. The
  clock is an argument of the operations that read it; what \<^verbatim>\<open>refresh\<close> returns, and whether the
  callback after a publication raises, are inputs of a turn. The lemmas show that the registry fails
  closed and that the coordinator recovers within a bounded wait.
\<close>

section \<open>The registry\<close>

record discovery_diagnostics =
  dd_stages :: "(string \<times> int) list"
  dd_rejection_reasons :: "(string \<times> int) list"

record discovery_result =
  dr_markets :: "market_spec list"
  dr_missing_routes :: "string list"
  dr_diagnostics :: discovery_diagnostics
  dr_route_statuses :: "(string \<times> string) list"

record registry =
  rg_markets :: "market_spec list"
  rg_missing_routes :: "string list"
  rg_diagnostics :: discovery_diagnostics
  rg_route_statuses :: "(string \<times> string) list"
  rg_max_stale :: flt
  rg_last_success :: "flt option"
  rg_last_error :: "string option"
  rg_generation :: nat

text \<open>\<^verbatim>\<open>dict(pairs)\<close>: the last value of a key stays.\<close>

definition dict_of :: "('k \<times> 'v) list \<Rightarrow> ('k, 'v) dict" where
  "dict_of ps = foldl (\<lambda>d (k, v). dict_set k v d) [] ps"

definition new_registry :: "market_spec list \<Rightarrow> string list \<Rightarrow> discovery_diagnostics \<Rightarrow> (string \<times> string) list \<Rightarrow> flt \<Rightarrow> flt \<Rightarrow> registry" where
  "new_registry markets missing diagnostics statuses max_stale now = \<lparr>rg_markets = markets, rg_missing_routes = missing,
     rg_diagnostics = diagnostics, rg_route_statuses = statuses, rg_max_stale = max_stale,
     rg_last_success = (if markets = [] then None else Some now), rg_last_error = None, rg_generation = 0\<rparr>"

definition routes_with :: "string \<Rightarrow> registry \<Rightarrow> string list" where
  "routes_with status r = map fst (filter (\<lambda>(_, s). s = status) (rg_route_statuses r))"

definition idle_routes :: "registry \<Rightarrow> string list" where
  "idle_routes = routes_with ''idle_no_verified_overlap''"

definition failed_routes :: "registry \<Rightarrow> string list" where
  "failed_routes = routes_with ''failed''"

definition is_stale :: "flt \<Rightarrow> registry \<Rightarrow> bool" where
  "is_stale now r \<longleftrightarrow> (case rg_last_success r of None \<Rightarrow> False | Some t \<Rightarrow> rg_max_stale r < fsub now t)"

definition snapshot_healthy :: "flt \<Rightarrow> registry \<Rightarrow> bool" where
  "snapshot_healthy now r \<longleftrightarrow> rg_markets r \<noteq> [] \<and> rg_last_error r = None \<and> \<not> is_stale now r"

definition registry_ready :: "flt \<Rightarrow> registry \<Rightarrow> bool" where
  "registry_ready now r \<longleftrightarrow> rg_markets r \<noteq> [] \<and> rg_missing_routes r = [] \<and> rg_last_error r = None \<and> \<not> is_stale now r"

definition operationally_ready :: "flt \<Rightarrow> registry \<Rightarrow> bool" where
  "operationally_ready now r =
     (if \<not> snapshot_healthy now r then False
      else if rg_route_statuses r = [] then rg_missing_routes r = []
      else list_ex (\<lambda>(_, s). s = ''ready_verified'') (rg_route_statuses r))"

definition route_ready :: "flt \<Rightarrow> string \<Rightarrow> registry \<Rightarrow> bool" where
  "route_ready now route r =
     (if \<not> snapshot_healthy now r then False
      else if rg_route_statuses r = [] then rg_missing_routes r = []
      else dict_get (dict_of (rg_route_statuses r)) route = Some ''ready_verified'')"

definition tradable_snapshot :: "flt \<Rightarrow> execution_mode \<Rightarrow> registry \<Rightarrow> market_spec list" where
  "tradable_snapshot now mode r = (if submits_orders mode \<and> \<not> operationally_ready now r then [] else rg_markets r)"

definition publish :: "flt \<Rightarrow> discovery_result \<Rightarrow> registry \<Rightarrow> registry" where
  "publish now d r = r\<lparr>rg_generation := rg_generation r + 1, rg_markets := dr_markets d, rg_missing_routes := dr_missing_routes d,
     rg_diagnostics := dr_diagnostics d, rg_route_statuses := dr_route_statuses d, rg_last_success := Some now,
     rg_last_error := None\<rparr>"

definition record_failure :: "flt \<Rightarrow> string \<Rightarrow> registry \<Rightarrow> registry" where
  "record_failure now e r =
     (let r1 = r\<lparr>rg_generation := rg_generation r + 1, rg_last_error := Some e,
            rg_route_statuses := map (\<lambda>(route, _). (route, ''failed'')) (rg_route_statuses r)\<rparr>
      in if is_stale now r1 then r1\<lparr>rg_markets := [], rg_missing_routes := [''catalog_stale'']\<rparr> else r1)"

section \<open>The coordinator\<close>

record coordinator_config =
  cc_refresh_interval :: flt
  cc_retry_initial :: flt
  cc_retry_max :: flt
  cc_structural_retry :: flt
  cc_jitter :: flt

text \<open>\<open>co_retry\<close> is the local variable of the loop.\<close>

record coordinator =
  co_registry :: registry
  co_retry :: flt
  co_override :: "flt option"

definition new_coordinator :: "coordinator_config \<Rightarrow> registry \<Rightarrow> coordinator" where
  "new_coordinator c r = \<lparr>co_registry = r, co_retry = cc_retry_initial c, co_override = None\<rparr>"

text \<open>The second argument of \<open>Published\<close>: whether the callback returns.\<close>

datatype refresh_answer = Refused string | Published discovery_result bool

definition structural_retry_delay :: "discovery_result \<Rightarrow> flt \<Rightarrow> flt option" where
  "structural_retry_delay d quarantine =
     (let stages = dict_of (dd_stages (dr_diagnostics d)) in
      if 0 < get_or stages ''predict_catalog_raw'' 0 \<and> get_or stages ''predict_catalog_parsed'' 0 = 0 \<and>
         list_ex (\<lambda>r. starts_with r ''predict_'' \<or> ends_with r ''_predict'') (dr_missing_routes d)
      then Some quarantine
      else if 0 < get_or stages ''myriad_catalog_raw'' 0 \<and> get_or stages ''myriad_catalog_parsed'' 0 = 0 \<and>
         list_ex (\<lambda>r. starts_with r ''predict_myriad'' \<or> ends_with r ''_myriad'') (dr_missing_routes d)
      then Some quarantine
      else None)"

text \<open>\<^verbatim>\<open>None\<close> when the callback raises, which ends the loop.\<close>

definition refresh_once :: "coordinator_config \<Rightarrow> flt \<Rightarrow> refresh_answer \<Rightarrow> coordinator \<Rightarrow> bool option \<times> coordinator" where
  "refresh_once c now answer co =
     (case answer of
        Refused e \<Rightarrow> (Some False, co\<lparr>co_registry := record_failure now e (co_registry co)\<rparr>)
      | Published d ok \<Rightarrow>
          (let r = publish now d (co_registry co);
               co1 = co\<lparr>co_registry := r, co_override := structural_retry_delay d (cc_structural_retry c)\<rparr>
           in (if ok then Some (operationally_ready now r) else None, co1)))"

definition next_wait :: "coordinator_config \<Rightarrow> flt \<Rightarrow> flt \<Rightarrow> coordinator \<Rightarrow> flt" where
  "next_wait c now sample co =
     fmul (if operationally_ready now (co_registry co) then cc_refresh_interval c else co_retry co)
       (fadd (fsub 1 (cc_jitter c)) (fmul (fmul 2 (cc_jitter c)) sample))"

definition after_refresh :: "coordinator_config \<Rightarrow> bool \<Rightarrow> coordinator \<Rightarrow> coordinator" where
  "after_refresh c is_ready co =
     (if is_ready then co\<lparr>co_retry := cc_retry_initial c, co_override := None\<rparr>
      else case co_override co of
        Some delay \<Rightarrow> co\<lparr>co_retry := delay\<rparr>
      | None \<Rightarrow> co\<lparr>co_retry := min (fmul (co_retry co) 2) (cc_retry_max c)\<rparr>)"

text \<open>The turns of the loop with the clock at the end of each refresh; false when the loop has ended.\<close>

definition coordinator_turn :: "coordinator_config \<Rightarrow> flt \<times> refresh_answer \<Rightarrow> coordinator \<Rightarrow> bool \<times> coordinator" where
  "coordinator_turn c = (\<lambda>(now, answer) co. case refresh_once c now answer co of
     (None, co1) \<Rightarrow> (False, co1) | (Some is_ready, co1) \<Rightarrow> (True, after_refresh c is_ready co1))"

fun run_coordinator :: "coordinator_config \<Rightarrow> (flt \<times> refresh_answer) list \<Rightarrow> coordinator \<Rightarrow> bool \<times> coordinator" where
  "run_coordinator c [] co = (True, co)"
| "run_coordinator c (t # ts) co =
     (case coordinator_turn c t co of (False, co1) \<Rightarrow> (False, co1) | (True, co1) \<Rightarrow> run_coordinator c ts co1)"

section \<open>Lemmas\<close>

subsection \<open>Failing closed\<close>

lemma failure_closes_routes:
  "\<not> operationally_ready now' (record_failure now e r)" "\<not> route_ready now' route (record_failure now e r)"
  "submits_orders mode \<Longrightarrow> tradable_snapshot now' mode (record_failure now e r) = []"
  by (auto simp: operationally_ready_def route_ready_def snapshot_healthy_def record_failure_def tradable_snapshot_def Let_def)

lemma route_ready_operational:
  assumes "route_ready now route r"
  shows "operationally_ready now r"
proof -
  have "dict_get (dict_of ps) k = Some v \<Longrightarrow> (k, v) \<in> set ps" for ps :: "(string \<times> string) list" and k v
    by (induction ps rule: rev_induct) (auto simp: dict_of_def split: if_splits)
  with assms show ?thesis
    by (auto simp: route_ready_def operationally_ready_def list_ex_iff split: if_splits)
qed

text \<open>Every refresh invalidates the decisions in flight.\<close>

lemma generation_counts_refreshes:
  "rg_generation (co_registry (snd (coordinator_turn c t co))) = rg_generation (co_registry co) + 1"
  by (cases t) (auto simp: coordinator_turn_def refresh_once_def after_refresh_def publish_def record_failure_def Let_def
      split: refresh_answer.split option.split)

subsection \<open>Waiting\<close>

definition config_ok :: "coordinator_config \<Rightarrow> bool" where
  "config_ok c \<longleftrightarrow> 0 \<le> cc_jitter c \<and> cc_jitter c \<le> 1 \<and> 0 \<le> cc_retry_max c"

definition longest_delay :: "coordinator_config \<Rightarrow> flt" where
  "longest_delay c = Max {cc_refresh_interval c, cc_retry_initial c, cc_retry_max c, cc_structural_retry c}"

definition longest_wait :: "coordinator_config \<Rightarrow> flt" where
  "longest_wait c = fmul (longest_delay c) (fadd (fsub 1 (cc_jitter c)) (fmul 2 (cc_jitter c)))"

definition delays_bounded :: "coordinator_config \<Rightarrow> coordinator \<Rightarrow> bool" where
  "delays_bounded c co \<longleftrightarrow> co_retry co \<le> longest_delay c \<and> (\<forall>d. co_override co = Some d \<longrightarrow> d \<le> longest_delay c)"

lemma longest_delay_ge:
  "cc_refresh_interval c \<le> longest_delay c" "cc_retry_initial c \<le> longest_delay c" "cc_retry_max c \<le> longest_delay c"
  "cc_structural_retry c \<le> longest_delay c"
  by (simp_all add: longest_delay_def)

lemma delays_bounded_turn: "delays_bounded c co \<Longrightarrow> delays_bounded c (snd (coordinator_turn c t co))"
  using longest_delay_ge [of c]
  by (cases t) (auto simp: coordinator_turn_def refresh_once_def after_refresh_def delays_bounded_def structural_retry_delay_def Let_def
      min_le_iff_disj split: refresh_answer.split option.split)

lemma max_stale_turn: "rg_max_stale (co_registry (snd (coordinator_turn c t co))) = rg_max_stale (co_registry co)"
  by (cases t) (auto simp: coordinator_turn_def refresh_once_def after_refresh_def publish_def record_failure_def Let_def
      split: refresh_answer.split option.split)

lemma run_coordinator_keeps:
  "delays_bounded c co \<Longrightarrow> delays_bounded c (snd (run_coordinator c ts co)) \<and>
     rg_max_stale (co_registry (snd (run_coordinator c ts co))) = rg_max_stale (co_registry co)"
proof (induction ts arbitrary: co)
  case (Cons t ts)
  obtain b co1 where t: "coordinator_turn c t co = (b, co1)" by fastforce
  with delays_bounded_turn [OF Cons.prems, of t] max_stale_turn [of c t co] have
    "delays_bounded c co1" "rg_max_stale (co_registry co1) = rg_max_stale (co_registry co)" by simp_all
  with Cons.IH [of co1] show ?case by (simp add: t split: bool.split)
qed simp

lemma next_wait_bounded:
  assumes "config_ok c" and "delays_bounded c co" and "0 \<le> sample" and "sample \<le> 1"
  shows "next_wait c now sample co \<le> longest_wait c"
proof -
  define factor where "factor = fadd (fsub 1 (cc_jitter c)) (fmul (fmul 2 (cc_jitter c)) sample)"
  have j: "0 \<le> cc_jitter c" "cc_jitter c \<le> 1" using assms(1) by (simp_all add: config_ok_def)
  have nonneg: "0 \<le> factor"
    using j assms(3) by (simp add: factor_def fadd_def fsub_def fmul_def flt.rnd_nonneg_iff)
  have "fmul (fmul 2 (cc_jitter c)) sample \<le> fmul 2 (cc_jitter c)"
    using j assms(3,4) mult_left_le [of sample "fmul 2 (cc_jitter c)"] flt.rnd_mono [of "fmul 2 (cc_jitter c) * sample" "fmul 2 (cc_jitter c)"]
    by (simp add: fmul_def flt.rnd_nonneg_iff)
  then have factor: "factor \<le> fadd (fsub 1 (cc_jitter c)) (fmul 2 (cc_jitter c))"
    by (simp add: factor_def fadd_def flt.rnd_mono)
  have "(if operationally_ready now (co_registry co) then cc_refresh_interval c else co_retry co) \<le> longest_delay c"
    using assms(2) longest_delay_ge(1) by (simp add: delays_bounded_def)
  moreover have "0 \<le> longest_delay c" using assms(1) longest_delay_ge(3) [of c] by (simp add: config_ok_def)
  ultimately have "(if operationally_ready now (co_registry co) then cc_refresh_interval c else co_retry co) * factor \<le>
      longest_delay c * fadd (fsub 1 (cc_jitter c)) (fmul 2 (cc_jitter c))"
    using nonneg factor by (intro mult_mono) auto
  from flt.rnd_mono [OF this, folded fmul_def] show ?thesis
    by (simp only: next_wait_def longest_wait_def factor_def [symmetric])
qed

section \<open>Properties\<close>

text \<open>C32. Discovery recovers: whatever the earlier refreshes returned, the coordinator waits at most
  the longest configured delay with its jitter before it asks again, and the first answer with
  markets and a verified route makes the registry ready and its markets tradable until they are
  stale; the backoff starts again from its first delay.\<close>

theorem discovery_recovers:
  assumes "config_ok c" and "run_coordinator c ts (new_coordinator c reg) = (True, co)"
    and "0 \<le> sample" and "sample \<le> 1" and "0 \<le> rg_max_stale reg"
    and "dr_markets d \<noteq> []" and "(route, ''ready_verified'') \<in> set (dr_route_statuses d)"
  shows "next_wait c asked sample co \<le> longest_wait c \<and>
    (\<exists>co'. coordinator_turn c (now, Published d True) co = (True, co') \<and> co_retry co' = cc_retry_initial c \<and>
      (\<forall>later. fsub later now \<le> rg_max_stale reg \<longrightarrow>
        operationally_ready later (co_registry co') \<and> tradable_snapshot later mode (co_registry co') = dr_markets d))"
proof -
  have start: "delays_bounded c (new_coordinator c reg)"
    using longest_delay_ge [of c] by (simp add: delays_bounded_def new_coordinator_def)
  have co: "delays_bounded c co" "rg_max_stale (co_registry co) = rg_max_stale reg"
    using run_coordinator_keeps [OF start, of ts] assms(2) by (simp_all add: new_coordinator_def)
  have verified: "list_ex (\<lambda>(_, s). s = ''ready_verified'') (dr_route_statuses d)" "dr_route_statuses d \<noteq> []"
    using assms(7) by (auto simp: list_ex_iff)
  have ready: "operationally_ready later (publish now d (co_registry co)) \<longleftrightarrow> fsub later now \<le> rg_max_stale reg" for later
    using verified assms(6) co(2) by (simp add: operationally_ready_def snapshot_healthy_def is_stale_def publish_def not_less)
  have "fsub now now = 0" by (simp add: fsub_def flt.rnd_0)
  then have now: "operationally_ready now (publish now d (co_registry co))" using ready [of now] assms(5) by simp
  have turn: "coordinator_turn c (now, Published d True) co =
      (True, co\<lparr>co_registry := publish now d (co_registry co), co_retry := cc_retry_initial c, co_override := None\<rparr>)"
    by (simp add: coordinator_turn_def refresh_once_def Let_def now after_refresh_def)
  have "rg_markets (publish now d (co_registry co)) = dr_markets d" by (simp add: publish_def)
  then show ?thesis
    using next_wait_bounded [OF assms(1) co(1) assms(3,4)] ready by (simp add: turn tradable_snapshot_def)
qed

definition sample_coordinator_config :: coordinator_config where
  "sample_coordinator_config = \<lparr>cc_refresh_interval = 300, cc_retry_initial = 5, cc_retry_max = 300, cc_structural_retry = 900,
     cc_jitter = 1 / 4\<rparr>"

definition no_diagnostics :: discovery_diagnostics where
  "no_diagnostics = \<lparr>dd_stages = [], dd_rejection_reasons = []\<rparr>"

definition verified_result :: "market_spec \<Rightarrow> discovery_result" where
  "verified_result m = \<lparr>dr_markets = [m], dr_missing_routes = [], dr_diagnostics = no_diagnostics,
     dr_route_statuses = [(''polymarket_predict'', ''ready_verified'')]\<rparr>"

theorem discovery_recovers_witness:
  "\<exists>co co'. run_coordinator sample_coordinator_config [(10, Refused ''timeout''), (30, Refused ''timeout'')]
      (new_coordinator sample_coordinator_config (new_registry [] [] no_diagnostics [] 900 0)) = (True, co) \<and>
    co_retry co = 20 \<and> coordinator_turn sample_coordinator_config (60, Published (verified_result sample_market) True) co = (True, co') \<and>
    tradable_snapshot 60 LIVE (co_registry co') = [sample_market]"
proof -
  let ?c = sample_coordinator_config and ?r = "new_registry [] [] no_diagnostics [] 900 0"
  let ?ts = "[(10, Refused ''timeout''), (30, Refused ''timeout'')]"
  have floats: "fmul 5 2 = 10" "fmul 10 2 = 20" "fsub 60 60 = 0" by (simp_all add: fmul_def fsub_def flt_round_eval flt.rnd_0)
  obtain co where co: "run_coordinator ?c ?ts (new_coordinator ?c ?r) = (True, co)" "co_retry co = 20"
    by (simp add: coordinator_turn_def refresh_once_def new_coordinator_def after_refresh_def sample_coordinator_config_def floats)
  have "config_ok ?c" "dr_markets (verified_result sample_market) \<noteq> []"
    "(''polymarket_predict'', ''ready_verified'') \<in> set (dr_route_statuses (verified_result sample_market))" "0 \<le> rg_max_stale ?r"
    by (simp_all add: config_ok_def sample_coordinator_config_def verified_result_def new_registry_def)
  from discovery_recovers [OF this(1) co(1) _ _ this(4) this(2,3), of 0 60 60 LIVE] obtain co' where
    "coordinator_turn ?c (60, Published (verified_result sample_market) True) co = (True, co')"
    "\<forall>later. fsub later 60 \<le> rg_max_stale ?r \<longrightarrow> tradable_snapshot later LIVE (co_registry co') = dr_markets (verified_result sample_market)"
    by auto
  moreover have "fsub 60 60 \<le> rg_max_stale ?r" "dr_markets (verified_result sample_market) = [sample_market]"
    by (simp_all add: floats new_registry_def verified_result_def)
  ultimately show ?thesis using co by metis
qed

end
