(* ===== verification/Config.thy ===== *)
theory Config
  imports Entry_Gates Windows "HOL-Library.List_Lexorder" "HOL-Library.Char_ord"
begin

text \<open>
  The configuration of \<^verbatim>\<open>config.py\<close>: its sections, the Opinion kill switch, the parsers of single values
  and \<^verbatim>\<open>validate_config\<close>, which collects the reasons not to start. Reading the file and the
  environment is an input. The lemmas show what a validated configuration guarantees to the engine.
\<close>

section \<open>Sections\<close>

record route_config =
  ro_polymarket_myriad :: bool
  ro_polymarket_predict :: bool
  ro_predict_myriad :: bool
  ro_predict_sx :: bool
  ro_polymarket_sx :: bool
  ro_sx_myriad :: bool
  ro_polymarket_opinion :: bool
  ro_predict_opinion :: bool
  ro_sx_opinion :: bool
  ro_opinion_myriad :: bool

definition route_fields :: "(string \<times> (route_config \<Rightarrow> bool)) list" where
  "route_fields = [(''polymarket_myriad'', ro_polymarket_myriad), (''polymarket_predict'', ro_polymarket_predict),
     (''predict_myriad'', ro_predict_myriad), (''predict_sx'', ro_predict_sx), (''polymarket_sx'', ro_polymarket_sx),
     (''sx_myriad'', ro_sx_myriad), (''polymarket_opinion'', ro_polymarket_opinion), (''predict_opinion'', ro_predict_opinion),
     (''sx_opinion'', ro_sx_opinion), (''opinion_myriad'', ro_opinion_myriad)]"

text \<open>\<^verbatim>\<open>getattr(routes, route)\<close> for the name of a route.\<close>

definition route_flag :: "route_config \<Rightarrow> string \<Rightarrow> bool" where
  "route_flag c route = (case map_of route_fields route of Some f \<Rightarrow> f c | None \<Rightarrow> False)"

definition enabled_names :: "route_config \<Rightarrow> string list" where
  "enabled_names c = filter (route_flag c) EXECUTION_ROUTES"

record polymarket_config =
  pm_private_key :: "string option"
  pm_signature_type :: int
  pm_funder :: "string option"
  pm_api_key :: "string option"
  pm_api_secret :: "string option"
  pm_api_passphrase :: "string option"
  pm_max_slippage :: flt
  pm_rpc_url :: string
  pm_conditional_tokens_address :: string
  pm_collateral_token_address :: string
  pm_confirmations :: int
  pm_redemption_gas_limit :: int

record predict_fun_config =
  pf_enabled :: bool
  pf_private_key :: "string option"
  pf_rpc_url :: string
  pf_chain_id :: int
  pf_network :: string
  pf_api_base_url :: "string option"
  pf_api_key :: "string option"
  pf_market_abi_path :: "string option"
  pf_fee_rate_bps :: int
  pf_precision :: int
  pf_max_slippage :: flt

record sx_bet_config =
  sx_enabled :: bool
  sx_api_base_url :: string
  sx_api_key :: "string option"
  sx_private_key :: "string option"
  sx_rpc_url :: string
  sx_chain_id :: int
  sx_ws_url :: string
  sx_taker_fee_bps :: int
  sx_api_version :: string
  sx_environment :: string
  sx_time_in_force :: string
  sx_allow_v3_mainnet :: bool

record myriad_config =
  my_enabled :: bool
  my_private_key :: "string option"
  my_chain_id :: int
  my_collateral_tokens :: "(string, string) dict"
  my_collateral_symbol :: string
  my_trading_fee :: flt
  my_max_slippage :: flt
  my_order_book_ttl_ms :: int
  my_websocket_stale_after_ms :: int
  my_confirmations :: int
  my_redemption_gas_limit :: int

record opinion_config =
  op_enabled :: bool
  op_api_base_url :: string
  op_ws_url :: string
  op_api_key :: "string option"
  op_private_key :: "string option"
  op_rpc_url :: string
  op_chain_id :: int
  op_taker_fee_rate_bps :: int
  op_minimum_fee_usd :: flt
  op_minimum_notional_usd :: flt
  op_order_book_ttl_ms :: int
  op_price_precision :: int
  op_market_page_limit :: int
  op_public_rate :: flt
  op_authenticated_rate :: flt

record network_config =
  nw_rpc_url :: string
  nw_chain_id :: int
  nw_confirmations :: int

text \<open>
  The limits and intervals of \<^verbatim>\<open>AppConfig\<close>. The gas tables keep the chain ids as the file has
  them, as texts; the policy of the entry gates has them parsed.
\<close>

record app_config =
  ap_is_test :: bool
  ap_scan_all :: bool
  ap_position_size_usd :: flt
  ap_max_order_size_usd :: flt
  ap_min_net_spread :: flt
  ap_polymarket_fill_timeout_ms :: int
  ap_predict_fun_fill_timeout_ms :: int
  ap_sx_bet_fill_timeout_ms :: int
  ap_myriad_fill_timeout_ms :: int
  ap_signal_alert_cooldown_seconds :: int
  ap_categories_to_scan :: "string list"
  ap_polymarket :: polymarket_config
  ap_predict_fun :: predict_fun_config
  ap_sx_bet :: sx_bet_config
  ap_myriad :: myriad_config
  ap_opinion :: opinion_config
  ap_web3_networks :: "(string, network_config) dict"
  ap_auto_close_enabled :: bool
  ap_exit_spread :: flt
  ap_markets :: "market_spec list"
  ap_horizon_filter_enabled :: bool
  ap_sports_horizon_hours :: flt
  ap_crypto_horizon_hours :: flt
  ap_horizon_hours_by_category :: "(string, flt) dict"
  ap_policy :: spread_policy
  ap_gas_units :: "(string, (string, int) dict) dict"
  ap_native_ceiling :: "(string, flt) dict"
  ap_enable_predict_fun :: bool
  ap_enable_sx_bet :: bool
  ap_enable_opinion :: bool
  ap_suppressed_routes :: "string list"
  ap_min_market_volume_usd :: flt
  ap_min_entry_spread :: flt
  ap_min_retry_spread :: flt
  ap_enable_auto_rebalance :: bool
  ap_max_consecutive_api_errors :: int
  ap_max_daily_loss_usd :: flt
  ap_max_open_positions :: int
  ap_balance_refresh_interval :: flt
  ap_windows :: window_settings
  ap_shadow_samples :: int
  ap_shadow_sample_interval :: flt
  ap_shadow_cooldown :: flt
  ap_shadow_evidence_ttl :: flt
  ap_discovery_max_stale :: flt
  ap_cancel_reconcile_timeout_ms :: int
  ap_max_orderbook_age :: flt
  ap_max_price_impact :: flt
  ap_heartbeat_interval :: flt
  ap_stale_after :: flt
  ap_mode :: execution_mode
  ap_database_url :: "string option"
  ap_runtime_instance_id :: string
  ap_routes :: route_config
  ap_funded_routes :: "route_config option"
  ap_orders_interval :: flt
  ap_full_interval :: flt
  ap_snapshot_interval :: flt
  ap_max_total_notional_usd :: flt
  ap_max_venue_exposure_usd :: flt
  ap_max_market_exposure_usd :: flt
  ap_max_orders_per_minute :: int
  ap_max_unresolved_exposure_usd :: flt
  ap_observability_port :: int
  ap_live_trading_confirmed :: bool

definition effective_funded_routes :: "app_config \<Rightarrow> string list" where
  "effective_funded_routes c = enabled_names (case ap_funded_routes c of Some f \<Rightarrow> f | None \<Rightarrow> ap_routes c)"

text \<open>\<^verbatim>\<open>AppConfig.__post_init__\<close>: configurations that are not read from a file get their mode from two flags.\<close>

definition legacy_mode :: "bool \<Rightarrow> bool \<Rightarrow> execution_mode" where
  "legacy_mode is_test shadow = (if is_test then PAPER else if shadow then SHADOW else LIVE)"

section \<open>Values\<close>

definition is_private_key :: "string option \<Rightarrow> bool" where
  "is_private_key value = (case value of None \<Rightarrow> False
     | Some v \<Rightarrow> v \<noteq> [] \<and> (let raw = (if starts_with v ''0x'' then drop 2 v else v)
         in length raw = 64 \<and> list_all (\<lambda>c. c \<in> set ''0123456789abcdefABCDEF'') raw))"

definition default_priority_fee_gwei :: "int \<Rightarrow> flt" where
  "default_priority_fee_gwei chain_id = (if chain_id \<in> {56, 97} then 2 else if chain_id \<in> {137, 80002} then 20 else 3)"

definition json_bool :: "json \<Rightarrow> string \<Rightarrow> bool res" where
  "json_bool value field = (case value of JBool b \<Rightarrow> Inr b | _ \<Rightarrow> Inl (ValueError (field @ '' must be a JSON boolean'')))"

definition strict_bool :: "json \<Rightarrow> string \<Rightarrow> bool res" where
  "strict_bool value field =
     (let bad = Inl (ValueError (field @ '' must be a boolean'')) in case value of
        JBool b \<Rightarrow> Inr b
      | JStr t \<Rightarrow> (let n = lower (strip t) in if n = ''true'' then Inr True else if n = ''false'' then Inr False else bad)
      | JInt i \<Rightarrow> if i = 0 then Inr False else if i = 1 then Inr True else bad
      | JFloat x \<Rightarrow> if x = 0 then Inr False else if x = 1 then Inr True else bad
      | _ \<Rightarrow> bad)"

definition fraction_of :: "flt \<Rightarrow> string \<Rightarrow> flt res" where
  "fraction_of parsed field = raise_if (\<not> (0 \<le> parsed \<and> parsed \<le> 1))
     (ValueError (field @ '' must be a decimal fraction between 0 and 1'')) (Inr parsed)"

definition optional_text :: "string option \<Rightarrow> string option" where
  "optional_text value = (case value of None \<Rightarrow> None | Some v \<Rightarrow> let n = strip v in if n = [] then None else Some n)"

text \<open>The texts of the urls that are set, or the fallback.\<close>

definition rpc_urls :: "string list \<Rightarrow> string option \<Rightarrow> string list" where
  "rpc_urls urls fallback = (let kept = filter (\<lambda>u. u \<noteq> []) urls
     in if kept = [] \<and> truthy fallback then [the fallback] else kept)"

definition execution_mode_values :: "(string \<times> execution_mode) list" where
  "execution_mode_values = [(''paper'', PAPER), (''shadow'', SHADOW), (''canary'', CANARY), (''live'', LIVE)]"

definition parse_execution_mode :: "string option \<Rightarrow> string option \<Rightarrow> bool \<Rightarrow> bool \<Rightarrow> execution_mode res" where
  "parse_execution_mode override configured is_test shadow =
     (let raw = or_else override configured in
      if truthy raw
      then (case map_of execution_mode_values (lower (the raw)) of
          Some m \<Rightarrow> Inr m
        | None \<Rightarrow> Inl (ValueError ''execution_mode must be paper, shadow, canary, or live''))
      else Inr (legacy_mode is_test shadow))"

section \<open>The kill switch\<close>

definition without_opinion :: "route_config \<Rightarrow> route_config" where
  "without_opinion r = r\<lparr>ro_polymarket_opinion := False, ro_predict_opinion := False, ro_sx_opinion := False,
     ro_opinion_myriad := False\<rparr>"

definition apply_opinion_kill_switch ::
  "route_config \<Rightarrow> route_config option \<Rightarrow> bool \<Rightarrow> route_config \<times> route_config option \<times> string list" where
  "apply_opinion_kill_switch routes funded enabled =
     (if enabled then (routes, funded, [])
      else (let requested = filter (\<lambda>r. route_flag routes r \<or> (case funded of Some f \<Rightarrow> route_flag f r | None \<Rightarrow> False)) OPINION_ROUTES
            in if requested = [] then (routes, funded, [])
               else (without_opinion routes, map_option without_opinion funded, requested)))"

section \<open>Validation\<close>

text \<open>One check: what it adds to the list of errors.\<close>

definition check :: "bool \<Rightarrow> string \<Rightarrow> string list" where
  "check bad message = (if bad then [message] else [])"

definition live_config :: "app_config \<Rightarrow> bool" where
  "live_config c = submits_orders (ap_mode c)"

definition funds_any :: "app_config \<Rightarrow> string list \<Rightarrow> bool" where
  "funds_any c routes \<longleftrightarrow> list_ex (\<lambda>r. r \<in> set routes) (effective_funded_routes c)"

definition predict_required :: "app_config \<Rightarrow> bool" where
  "predict_required c = funds_any c [''polymarket_predict'', ''predict_myriad'', ''predict_sx'', ''predict_opinion'']"

definition sx_required :: "app_config \<Rightarrow> bool" where
  "sx_required c = funds_any c [''polymarket_sx'', ''sx_myriad'', ''predict_sx'', ''sx_opinion'']"

definition myriad_required :: "app_config \<Rightarrow> bool" where
  "myriad_required c = funds_any c [''polymarket_myriad'', ''predict_myriad'', ''sx_myriad'', ''opinion_myriad'']"

definition opinion_required :: "app_config \<Rightarrow> bool" where
  "opinion_required c = funds_any c OPINION_ROUTES"

definition polymarket_required :: "app_config \<Rightarrow> bool" where
  "polymarket_required c = funds_any c [''polymarket_myriad'', ''polymarket_predict'', ''polymarket_sx'', ''polymarket_opinion'']"

definition opinion_active :: "app_config \<Rightarrow> bool" where
  "opinion_active c \<longleftrightarrow> ap_enable_opinion c \<and> op_enabled (ap_opinion c)"

definition second_routes_enabled :: "app_config \<Rightarrow> bool" where
  "second_routes_enabled c \<longleftrightarrow> list_ex (route_flag (ap_routes c))
     ([''polymarket_predict'', ''predict_myriad'', ''predict_sx'', ''predict_opinion'', ''polymarket_sx'', ''sx_myriad'',
       ''sx_opinion''] @ OPINION_ROUTES)"

definition route_errors :: "app_config \<Rightarrow> string list" where
  "route_errors c =
     (let live = live_config c; funded = effective_funded_routes c; enabled = enabled_names (ap_routes c);
          unexpected = sort (filter (\<lambda>r. r \<notin> set enabled) funded); pf = ap_predict_fun c;
          off = (if \<not> ap_enable_opinion c then ''enable_opinion'' else ''opinion.enabled'')
      in check (enabled = []) ''at least one route must be enabled'' @
        check (live \<and> ap_funded_routes c = None) ''canary/live requires an explicit funded_routes allowlist'' @
        check (live \<and> funded = []) ''at least one funded route must be enabled'' @
        check (unexpected \<noteq> []) (''funded_routes must be a subset of routes: '' @ join_with '', '' unexpected) @
        check (live \<and> predict_required c \<and> \<not> (ap_enable_predict_fun c \<and> pf_enabled pf))
          ''funded Predict.fun routes require Predict.fun to be enabled'' @
        check (live \<and> sx_required c \<and> \<not> (ap_enable_sx_bet c \<and> sx_enabled (ap_sx_bet c)))
          ''funded SX Bet routes require SX Bet to be enabled'' @
        check (live \<and> myriad_required c \<and> \<not> my_enabled (ap_myriad c))
          ''funded Myriad routes require myriad_markets.enabled=true'' @
        check (live \<and> opinion_required c \<and> \<not> opinion_active c)
          ''funded Opinion routes require enable_opinion=true and opinion.enabled=true'' @
        check (ap_suppressed_routes c \<noteq> [])
          (off @ ''=false disables the Opinion venue, so these routes cannot be enabled: '' @
            join_with '', '' (sort (ap_suppressed_routes c))) @
        check (live \<and> predict_required c \<and> \<not> truthy (pf_api_key pf))
          ''PREDICT_FUN_API_KEY is required for funded Predict.fun execution'' @
        check (\<not> (ap_enable_predict_fun c \<and> pf_enabled pf \<and> truthy (pf_api_key pf)) \<and>
            \<not> (ap_enable_sx_bet c \<and> sx_enabled (ap_sx_bet c)) \<and> \<not> my_enabled (ap_myriad c) \<and> \<not> opinion_active c)
          ''at least one hedge venue must be active: Predict.fun, SX Bet, Myriad, or Opinion'' @
        check (live \<and> \<not> truthy (ap_database_url c)) ''DATABASE_URL is required for canary/live execution'' @
        check (live \<and> strip (ap_runtime_instance_id c) = []) ''runtime_instance_id is required for canary/live execution'' @
        check (live \<and> \<not> ap_live_trading_confirmed c) ''LIVE_TRADING_CONFIRM=YES is required for canary/live execution'')"

definition canary_errors :: "app_config \<Rightarrow> string list" where
  "canary_errors c = (if ap_mode c \<noteq> CANARY then []
     else check (50 < ap_position_size_usd c) ''canary position_size_usd must not exceed $50 total ($25 per leg)'' @
       check (5 < ap_max_open_positions c) ''canary max_open_positions must not exceed 5'' @
       check (10 < ap_max_daily_loss_usd c) ''canary max_daily_loss_usd must not exceed $10'')"

definition limit_errors :: "app_config \<Rightarrow> bool \<Rightarrow> string list" where
  "limit_errors c require_resolved =
     check (ap_orders_interval c \<le> 0) ''reconciliation_orders_interval_seconds must be positive'' @
     check (ap_full_interval c < ap_orders_interval c) ''reconciliation_full_interval_seconds must be >= orders interval'' @
     check (ap_snapshot_interval c \<le> 0) ''market_data_snapshot_interval_seconds must be positive'' @
     check (min (min (ap_max_total_notional_usd c) (ap_max_venue_exposure_usd c))
         (min (ap_max_market_exposure_usd c) (ap_max_unresolved_exposure_usd c)) \<le> 0)
       ''all production exposure limits must be positive'' @
     check (ap_max_orders_per_minute c \<le> 0) ''max_orders_per_minute must be positive'' @
     check (\<not> (1 \<le> ap_observability_port c \<and> ap_observability_port c \<le> 65535)) ''observability_port must be between 1 and 65535'' @
     check (ap_markets c = [] \<and> (\<not> ap_scan_all c \<or> require_resolved)) ''markets must contain at least one market'' @
     check (ap_position_size_usd c \<le> 0) ''position_size_usd must be positive'' @
     check (ap_max_order_size_usd c \<le> 0) ''max_order_size_usd must be positive'' @
     check (ap_max_order_size_usd c < ap_position_size_usd c) ''position_size_usd must not exceed max_order_size_usd'' @
     check (ap_min_net_spread c \<le> 0) ''min_net_spread must be positive''"

definition is_digits :: "string \<Rightarrow> bool" where
  "is_digits s \<longleftrightarrow> s \<noteq> [] \<and> list_all (\<lambda>c. c \<in> set ''0123456789'') s"

text \<open>\<^verbatim>\<open>chain_id.isdigit() and int(chain_id) > 0\<close>.\<close>

definition positive_chain_id :: "string \<Rightarrow> bool" where
  "positive_chain_id s \<longleftrightarrow> is_digits s \<and> list_ex (\<lambda>c. c \<noteq> CHR ''0'') s"

definition policy_errors :: "app_config \<Rightarrow> string list" where
  "policy_errors c =
     (let p = ap_policy c in
      check (sp_min_expected_profit_usd p \<le> 0) ''spread_policy.min_expected_profit_usd must be positive'' @
      check (sp_depth_buffer p < 1) ''spread_policy.depth_buffer must be at least 1'' @
      check (\<not> (0 \<le> sp_adverse_move p \<and> sp_adverse_move p < 1)) ''spread_policy.adverse_move_p95_pct must be between 0 and 1'' @
      concat (map (\<lambda>(route, m). check (strip route = [] \<or> \<not> (0 < m \<and> m < 1))
        ''spread_policy.adverse_move_p95_pct_by_route values must be between 0 and 1'') (sp_adverse_move_by_route p)) @
      check (\<not> (0 \<le> sp_safety_buffer p \<and> sp_safety_buffer p < 1)) ''spread_policy.safety_buffer_pct must be between 0 and 1'' @
      check (sp_fixed_chain_cost p < 0) ''spread_policy.fixed_chain_cost_usd must be non-negative'' @
      concat (map (\<lambda>(route, f). check (strip route = [] \<or> f < 0)
        ''spread_policy.fixed_chain_cost_usd_by_route values must be non-negative'') (sp_fixed_chain_cost_by_route p)) @
      concat (map (\<lambda>(route, units). check (strip route = [] \<or> units = [])
          ''spread_policy.gas_units_by_route entries must contain at least one chain'' @
        concat (map (\<lambda>(chain, u). check (\<not> positive_chain_id chain \<or> u \<le> 0)
          ''spread_policy.gas_units_by_route requires positive numeric chains and gas units'') units)) (ap_gas_units c)) @
      concat (map (\<lambda>(chain, usd). check (\<not> positive_chain_id chain \<or> usd \<le> 0)
        ''spread_policy.native_token_usd_ceiling_by_chain requires positive numeric chains and values'') (ap_native_ceiling c)) @
      check (sp_gas_price_multiplier p < 1) ''spread_policy.gas_price_multiplier must be at least 1'' @
      check (sp_gas_quote_ttl p \<le> 0) ''spread_policy.gas_quote_ttl_seconds must be positive'')"

definition chain_cost_errors :: "app_config \<Rightarrow> string list" where
  "chain_cost_errors c =
     (if \<not> (live_config c \<and> \<not> ap_is_test c) then []
      else (let funded = effective_funded_routes c; p = ap_policy c;
                without_cost = filter (\<lambda>r. fixed_chain_cost_for p r \<le> 0) funded;
                without_gas = filter (\<lambda>r. get_or (ap_gas_units c) r [] = []) funded;
                missing = sort (fromkeys (filter (\<lambda>chain. get_or (ap_native_ceiling c) chain 0 \<le> 0)
                  (concat (map (\<lambda>r. map fst (get_or (ap_gas_units c) r [])) funded))))
            in check (without_cost \<noteq> [])
                (''canary/live requires positive spread_policy fixed chain cost for: '' @ join_with '', '' without_cost) @
              (if \<not> sp_require_live_gas p then []
               else check (without_gas \<noteq> [])
                   (''canary/live requires spread_policy.gas_units_by_route for: '' @ join_with '', '' without_gas) @
                 check (missing \<noteq> [])
                   (''canary/live requires native-token USD ceilings for chains: '' @ join_with '', '' missing))))"

definition spread_errors :: "app_config \<Rightarrow> string list" where
  "spread_errors c =
     concat (map (\<lambda>(route, floor). check (strip route = [] \<or> \<not> (0 < floor \<and> floor < 1))
       ''spread_policy.route_floors values must be between 0 and 1'') (sp_route_floors (ap_policy c))) @
     check (ap_min_retry_spread c \<le> 0 \<or> ap_min_entry_spread c < ap_min_retry_spread c)
       ''min_retry_spread_pct must be positive and no greater than min_entry_spread_pct'' @
     check (ap_min_market_volume_usd c < 0) ''min_market_volume_usd must be non-negative''"

definition horizon_errors :: "app_config \<Rightarrow> string list" where
  "horizon_errors c =
     (let normalized = (\<lambda>v. normalize_launch_category (Some v));
          horizons = filter (\<lambda>n. n \<noteq> None) (map (\<lambda>(category, _). normalized category) (ap_horizon_hours_by_category c));
          scanned = filter (\<lambda>n. n \<noteq> None) (map normalized (ap_categories_to_scan c));
          missing = sort (fromkeys (map the (filter (\<lambda>n. n \<notin> {Some ''sports'', Some ''crypto''} \<and> n \<notin> set horizons) scanned)))
      in check (ap_sports_horizon_hours c \<le> 0) ''max_sports_market_horizon_hours must be positive'' @
        check (ap_crypto_horizon_hours c \<le> 0) ''max_crypto_market_horizon_hours must be positive'' @
        concat (map (\<lambda>(category, hours).
            check (normalized category = None) ''max_market_horizon_hours_by_category keys must be non-empty'' @
            check (hours \<le> 0) ''max_market_horizon_hours_by_category values must be positive'') (ap_horizon_hours_by_category c)) @
        check (live_config c \<and> ap_scan_all c \<and> \<not> ap_horizon_filter_enabled c)
          ''scan_all canary/live requires market_horizon_filter_enabled=true'' @
        (if \<not> (live_config c \<and> ap_scan_all c) then []
         else check (scanned = []) ''scan_all canary/live requires at least one configured category'' @
           check (missing \<noteq> []) (''scan_all canary/live requires max_market_horizon_hours_by_category for: '' @ join_with '', '' missing)))"

definition runtime_errors :: "app_config \<Rightarrow> string list" where
  "runtime_errors c =
     check (ap_max_consecutive_api_errors c \<le> 0) ''max_consecutive_api_errors must be positive'' @
     check (ap_enable_auto_rebalance c) ''enable_auto_rebalance=true is unsupported; bridge execution is intentionally disabled'' @
     check (ap_max_daily_loss_usd c \<le> 0) ''max_daily_loss_usd must be positive'' @
     check (ap_max_open_positions c \<le> 0) ''max_open_positions must be positive'' @
     check (ap_balance_refresh_interval c \<le> 0) ''balance_refresh_interval_seconds must be positive'' @
     check (ws_limit (ap_windows c) \<le> 0) ''max_concurrent_market_evaluations must be positive'' @
     check (\<not> (1 \<le> ap_shadow_samples c \<and> ap_shadow_samples c \<le> 5)) ''shadow_preflight_samples must be between 1 and 5'' @
     check (\<not> (0 \<le> ap_shadow_sample_interval c \<and> ap_shadow_sample_interval c \<le> 1))
       ''shadow_preflight_sample_interval_seconds must be between 0 and 1'' @
     check (ap_shadow_cooldown c < 0) ''shadow_preflight_cooldown_seconds must be non-negative'' @
     check (\<not> (0 < ap_shadow_evidence_ttl c \<and> ap_shadow_evidence_ttl c \<le> 3600))
       ''shadow_preflight_evidence_ttl_seconds must be between 0 and 3600''"

definition some_route :: "(string \<Rightarrow> 'v \<Rightarrow> bool) \<Rightarrow> (string, 'v) dict \<Rightarrow> bool" where
  "some_route bad d \<longleftrightarrow> list_ex (\<lambda>(route, v). route \<notin> set EXECUTION_ROUTES \<or> bad route v) d"

definition window_errors :: "app_config \<Rightarrow> string list" where
  "window_errors c =
     (let w = ap_windows c in
      check (ws_hold w < 0) ''market_data_target_hold_seconds must be non-negative'' @
      check (some_route (\<lambda>_ l. l \<le> 0 \<or> ws_limit w < l) (ws_limit_by_route w))
        ''max_concurrent_market_evaluations_by_route requires known routes and values between 1 and max_concurrent_market_evaluations'' @
      check (some_route (\<lambda>_ s. s < 0) (ws_hold_by_route w))
        ''market_data_target_hold_seconds_by_route requires known routes and non-negative values'' @
      check (ws_priority w < 0) ''market_data_executable_priority_seconds must be non-negative'' @
      check (some_route (\<lambda>_ s. s < 0) (ws_priority_by_route w))
        ''market_data_executable_priority_seconds_by_route requires known routes and non-negative values'' @
      check (\<not> (0 < ws_exploration w \<and> ws_exploration w \<le> 1)) ''market_data_exploration_fraction must be between 0 and 1'' @
      check (some_route (\<lambda>_ f. \<not> (0 < f \<and> f \<le> 1)) (ws_exploration_by_route w))
        ''market_data_exploration_fraction_by_route requires known routes and values between 0 and 1'' @
      check (some_route (\<lambda>_ m. \<not> (1 \<le> m \<and> m \<le> 4)) (ws_prefetch_by_route w))
        ''market_data_prefetch_multiplier_by_route requires known routes and values between 1 and 4'' @
      check (some_route (\<lambda>_ n. \<not> (1 \<le> n \<and> n \<le> 4)) (ws_weight_by_route w))
        ''market_evaluation_weight_by_route requires known routes and values between 1 and 4'')"

definition venue_errors :: "app_config \<Rightarrow> string list" where
  "venue_errors c =
     (let pm = ap_polymarket c; pf = ap_predict_fun c; my = ap_myriad c in
      check (ap_discovery_max_stale c < 900) ''discovery_max_stale_seconds must be at least 900'' @
      check (ap_cancel_reconcile_timeout_ms c < 100) ''cancel_reconcile_timeout_ms must be at least 100'' @
      check (\<not> (3 / 2 \<le> ap_max_orderbook_age c \<and> ap_max_orderbook_age c \<le> 2)) ''max_orderbook_age_seconds must be between 1.5 and 2.0'' @
      check (\<not> (0 < ap_max_price_impact c \<and> ap_max_price_impact c \<le> flt_round (5 / 100)))
        ''max_production_price_impact must be between 0 and 0.05'' @
      check (ap_heartbeat_interval c \<le> 0) ''websocket_heartbeat_interval_seconds must be positive'' @
      check (ap_stale_after c \<le> 0) ''websocket_stale_after_seconds must be positive'' @
      check (pf_max_slippage pf \<le> 0) ''predict_fun.max_slippage_pct must be positive'' @
      check (pm_max_slippage pm \<le> 0) ''polymarket.max_slippage_pct must be positive'' @
      check (pm_confirmations pm < 1) ''polymarket.confirmations must be at least 1'' @
      check (pm_redemption_gas_limit pm \<le> 0) ''polymarket.redemption_gas_limit must be positive'' @
      check (my_max_slippage my \<le> 0) ''myriad_markets.max_slippage_pct must be positive'' @
      check (\<not> (0 \<le> pf_fee_rate_bps pf \<and> pf_fee_rate_bps pf < 10000)) ''predict_fun.fee_rate_bps must be between 0 and 9999'' @
      check (ap_polymarket_fill_timeout_ms c < 300)
        ''polymarket_fill_timeout_ms must be at least 300 for production-safe CLOB fills'' @
      check (ap_predict_fun_fill_timeout_ms c < 3600)
        ''predict_fun_fill_timeout_ms must be at least 3600 for Predict.fun/Web3 fills'' @
      check (ap_sx_bet_fill_timeout_ms c < 3600) ''sx_bet_fill_timeout_ms must be at least 3600 for SX Bet/Web3 fills'' @
      check (ap_myriad_fill_timeout_ms c < 3600) ''myriad_fill_timeout_ms must be at least 3600 for Myriad/Web3 fills'' @
      check (ap_signal_alert_cooldown_seconds c < 0) ''signal_alert_cooldown_seconds must be non-negative'' @
      check (ap_exit_spread c < 0) ''auto_close.exit_spread_pct must be non-negative'' @
      check (pf_chain_id pf \<notin> {56, 97}) ''predict_fun.chain_id must be 56 for BNB mainnet or 97 for BNB testnet'' @
      check (pf_network pf \<notin> {''mainnet'', ''testnet''}) ''predict_fun.network must be mainnet or testnet'' @
      check (pf_precision pf \<le> 0) ''predict_fun.precision must be positive'')"

definition rstrip_slash :: "string \<Rightarrow> string" where
  "rstrip_slash s = rev (dropWhile (\<lambda>c. c = CHR ''/'') (rev s))"

definition sx_errors :: "app_config \<Rightarrow> string list" where
  "sx_errors c =
     (let sx = ap_sx_bet c; env = sx_environment sx in
      check (sx_api_version sx \<notin> {''v2'', ''v3''}) ''sx_bet.api_version must be v2 or v3'' @
      check (env \<notin> {''mainnet'', ''toronto''}) ''sx_bet.environment must be mainnet or toronto'' @
      check (sx_time_in_force sx \<notin> {''IOC'', ''FOK''}) ''sx_bet.time_in_force must be IOC or FOK'' @
      check (live_config c \<and> sx_required c \<and> sx_api_version sx = ''v3'' \<and> sx_time_in_force sx \<noteq> ''FOK'')
        ''SX Bet V3 funded execution requires sx_bet.time_in_force=FOK'' @
      check (sx_api_version sx = ''v2'' \<and> sx_chain_id sx \<noteq> 4162) ''sx_bet.chain_id must be 4162 for V2'' @
      (if sx_api_version sx \<noteq> ''v3'' then []
       else check (rstrip_slash (sx_api_base_url sx) \<noteq>
              (if env = ''toronto'' then ''https://api.toronto.sx.bet'' else ''https://api.sx.bet''))
            (''SX Bet V3 '' @ env @ '' must use the official API host'') @
          check (rstrip_slash (sx_ws_url sx) \<noteq>
              (if env = ''toronto'' then ''wss://realtime.toronto.sx.bet/connection/websocket''
               else ''wss://realtime.sx.bet/connection/websocket''))
            (''SX Bet V3 '' @ env @ '' must use the official realtime host'') @
          check (env = ''mainnet'' \<and> \<not> sx_allow_v3_mainnet sx)
            ''SX Bet V3 mainnet requires sx_bet.allow_v3_mainnet=true after operator cutover''))"

definition myriad_errors :: "app_config \<Rightarrow> string list" where
  "myriad_errors c =
     (let my = ap_myriad c in
      if \<not> my_enabled my then []
      else check (\<not> (50 \<le> my_order_book_ttl_ms my \<and> my_order_book_ttl_ms my \<le> 1500))
          ''myriad_markets.order_book_ttl_ms must be between 50 and 1500'' @
        check (my_websocket_stale_after_ms my < my_order_book_ttl_ms my)
          ''myriad_markets.websocket_stale_after_ms must be >= order_book_ttl_ms'' @
        check (live_config c \<and> myriad_required c \<and> \<not> truthy (my_private_key my))
          ''MYRIAD_PRIVATE_KEY is required when myriad_markets.enabled=true'' @
        check (my_chain_id my \<noteq> 56) ''myriad_markets.chain_id must be 56'' @
        check (\<not> (0 \<le> my_trading_fee my \<and> my_trading_fee my < 1)) ''myriad_markets.trading_fee_pct must be between 0 and 1'' @
        check (dict_get (my_collateral_tokens my) (my_collateral_symbol my) = None)
          ''myriad_markets.collateral_symbol must exist in myriad_markets.collateral_tokens'' @
        check (my_confirmations my < 1) ''myriad_markets.confirmations must be at least 1'' @
        check (my_redemption_gas_limit my \<le> 0) ''myriad_markets.redemption_gas_limit must be positive'')"

definition opinion_errors :: "app_config \<Rightarrow> string list" where
  "opinion_errors c =
     (let op = ap_opinion c in
      if \<not> opinion_active c then []
      else check (op_api_base_url op = []) ''opinion.api_base_url is required when Opinion is enabled'' @
        check (op_ws_url op = []) ''opinion.ws_url is required when Opinion is enabled'' @
        check (op_chain_id op \<le> 0) ''opinion.chain_id must be positive'' @
        check (\<not> (0 \<le> op_taker_fee_rate_bps op \<and> op_taker_fee_rate_bps op < 10000))
          ''opinion.taker_fee_rate_bps must be between 0 and 10000'' @
        check (op_minimum_fee_usd op < 0) ''opinion.minimum_fee_usd must be non-negative'' @
        check (op_minimum_notional_usd op \<le> 0) ''opinion.minimum_notional_usd must be positive'' @
        check (\<not> (0 < op_price_precision op \<and> op_price_precision op \<le> 18)) ''opinion.price_precision must be between 1 and 18'' @
        check (op_order_book_ttl_ms op \<le> 0) ''opinion.order_book_ttl_ms must be positive'' @
        check (op_public_rate op \<le> 0) ''opinion.public_request_rate_per_second must be positive'' @
        check (op_authenticated_rate op \<le> 0) ''opinion.authenticated_request_rate_per_second must be positive'' @
        check (\<not> (0 < op_market_page_limit op \<and> op_market_page_limit op \<le> 20))
          ''opinion.market_page_limit must be between 1 and 20'' @
        (if \<not> (opinion_required c \<and> live_config c) then []
         else check (\<not> truthy (op_api_key op)) ''OPINION_API_KEY is required for funded Opinion execution'' @
           check (\<not> is_private_key (op_private_key op))
             ''OPINION_PRIVATE_KEY must be a 64 hex character ECDSA key, with optional 0x prefix'' @
           check (op_rpc_url op = []) ''OPINION_RPC_URL or opinion.rpc_url is required for funded Opinion execution''))"

definition network_errors :: "app_config \<Rightarrow> string list" where
  "network_errors c = concat (map (\<lambda>(name, n).
     check (nw_rpc_url n = [] \<and> live_config c) (''web3_networks.'' @ name @ ''.rpc_url is required'') @
     check (nw_chain_id n \<le> 0) (''web3_networks.'' @ name @ ''.chain_id must be positive'') @
     check (nw_confirmations n < 0) (''web3_networks.'' @ name @ ''.confirmations must be non-negative'')) (ap_web3_networks c))"

fun nat_text :: "nat \<Rightarrow> string" where
  "nat_text n = (if n < 10 then [''0123456789'' ! n] else nat_text (n div 10) @ [''0123456789'' ! (n mod 10)])"

declare nat_text.simps [simp del]

text \<open>The verified routes and the route of the venue labels, when there is one.\<close>

definition validated_routes :: "market_spec \<Rightarrow> string set" where
  "validated_routes m = m_verified_routes m \<union> (case execution_route_for_market m of Inr r \<Rightarrow> {r} | Inl _ \<Rightarrow> {})"

definition inconsistent_routes :: "app_config \<Rightarrow> market_spec \<Rightarrow> string list res" where
  "inconsistent_routes c m = foldr (\<lambda>route acc.
     rbind (if route_flag (ap_routes c) route \<and> route \<in> validated_routes m
            then rbind (market_supports_execution_route m route) (\<lambda>supported.
              if supported then rbind (route_execution_sides_are_complementary m route) (\<lambda>ok. Inr (\<not> ok)) else Inr False)
            else Inr False)
       (\<lambda>bad. rbind acc (\<lambda>routes. Inr (if bad then route # routes else routes)))) EXECUTION_ROUTES (Inr [])"

definition placeholder :: "string \<Rightarrow> bool" where
  "placeholder token \<longleftrightarrow> token = [] \<or> starts_with token ''replace-with''"

definition market_errors :: "app_config \<Rightarrow> bool \<Rightarrow> bool \<Rightarrow> nat \<Rightarrow> market_spec \<Rightarrow> string list res" where
  "market_errors c require_resolved require_verified i m =
     (let prefix = ''markets['' @ nat_text i @ '']''; live = live_config c;
          unresolved = require_resolved \<or> \<not> (m_symbol m \<noteq> [] \<and> m_target_label m \<noteq> [])
      in rbind (inconsistent_routes c m) (\<lambda>bad. Inr (
        check (live \<and> require_verified \<and> m_mapping_status m \<noteq> VERIFIED)
          (prefix @ ''.mapping_status must be VERIFIED for canary/live execution'') @
        check (live \<and> require_verified \<and> m_verified_routes m = {})
          (prefix @ ''.verified_routes must contain at least one approved route'') @
        map (\<lambda>route. prefix @ '' execution orientation is inconsistent for route '' @ route) bad @
        check (case m_predict_fun_price_precision m of None \<Rightarrow> False | Some p \<Rightarrow> \<not> (0 \<le> p \<and> p \<le> 18))
          (prefix @ ''.predict_fun_price_precision must be between 0 and 18'') @
        check (\<not> ap_scan_all c \<and> unresolved \<and> placeholder (m_polymarket_token_id m))
          (prefix @ ''.polymarket_token_id or discovery fields symbol/target_label are required'') @
        check (second_routes_enabled c \<and> \<not> ap_scan_all c \<and> unresolved \<and> placeholder (m_predict_fun_token_id m) \<and>
            m_predict_fun_amm_pool m = None)
          (prefix @ ''.second_leg_token_id or second_leg_amm_pool is required'') @
        check (ap_auto_close_enabled c \<and> m_expires_at m = None \<and> unresolved)
          (prefix @ ''.expires_at is required when auto_close.enabled=true'') @
        check (my_enabled (ap_myriad c) \<and> require_resolved \<and>
            placeholder (case m_myriad_market_id m of Some t \<Rightarrow> t | None \<Rightarrow> []))
          (prefix @ ''.myriad_market_id or discovery fields symbol/target_label are required''))))"

fun all_market_errors :: "app_config \<Rightarrow> bool \<Rightarrow> bool \<Rightarrow> nat \<Rightarrow> market_spec list \<Rightarrow> string list res" where
  "all_market_errors c require_resolved require_verified i [] = Inr []"
| "all_market_errors c require_resolved require_verified i (m # ms) =
     rbind (market_errors c require_resolved require_verified i m) (\<lambda>es.
     rbind (all_market_errors c require_resolved require_verified (i + 1) ms) (\<lambda>rest. Inr (es @ rest)))"

definition route_coverage :: "app_config \<Rightarrow> string \<Rightarrow> bool" where
  "route_coverage c route \<longleftrightarrow> list_ex (\<lambda>m. route \<in> m_verified_routes m \<and> m_mapping_status m = VERIFIED) (ap_markets c)"

definition coverage_errors :: "app_config \<Rightarrow> bool \<Rightarrow> string list" where
  "coverage_errors c require_verified =
     (if \<not> (live_config c \<and> require_verified) then []
      else map (\<lambda>route. ''enabled route '' @ route @ '' has no VERIFIED market mapping'')
        (filter (\<lambda>r. \<not> route_coverage c r) (effective_funded_routes c)))"

definition key_errors :: "app_config \<Rightarrow> string list" where
  "key_errors c =
     (let pm = ap_polymarket c; pf = ap_predict_fun c; sx = ap_sx_bet c; my = ap_myriad c;
          pmr = polymarket_required c; pfr = predict_required c; sxr = sx_required c;
          creds = [pm_api_key pm, pm_api_secret pm, pm_api_passphrase pm]
      in if \<not> live_config c then []
      else (if pmr \<and> \<not> truthy (pm_private_key pm) then [''POLYMARKET_PRIVATE_KEY is required when isTest=false'']
            else check (pmr \<and> \<not> is_private_key (pm_private_key pm))
              ''POLYMARKET_PRIVATE_KEY must be a 64 hex character ECDSA key, with optional 0x prefix'') @
        check (pmr \<and> pm_rpc_url pm = []) ''POLYGON_RPC_URL or polymarket.rpc_url is required when isTest=false'' @
        check (pmr \<and> (pm_conditional_tokens_address pm = [] \<or> pm_collateral_token_address pm = []))
          ''Polymarket Conditional Tokens and collateral addresses are required'' @
        (if pfr \<and> \<not> truthy (pf_private_key pf) then [''PREDICT_FUN_PRIVATE_KEY is required when isTest=false'']
         else check (pfr \<and> truthy (pf_private_key pf) \<and> \<not> is_private_key (pf_private_key pf))
           ''PREDICT_FUN_PRIVATE_KEY must be a 64 hex character ECDSA key, with optional 0x prefix'') @
        check (pfr \<and> pf_rpc_url pf = []) ''BNB_RPC_URL or predict_fun.rpc_url is required when isTest=false'' @
        check (pfr \<and> \<not> truthy (pf_api_base_url pf)) ''predict_fun.api_base_url is required when isTest=false'' @
        check (pfr \<and> \<not> truthy (pf_market_abi_path pf) \<and> \<not> truthy (pf_api_base_url pf))
          ''predict_fun.market_abi_path or api_base_url is required for price reads when isTest=false'' @
        check (pmr \<and> pm_signature_type pm \<noteq> 0 \<and> \<not> truthy (pm_funder pm))
          ''POLYMARKET_FUNDER_ADDRESS is required for non-EOA signature types'' @
        check (list_ex truthy creds \<and> \<not> list_all truthy creds)
          ''Polymarket API credentials must include api_key, api_secret, and api_passphrase together'' @
        check (my_enabled my \<and> truthy (my_private_key my) \<and> \<not> is_private_key (my_private_key my))
          ''MYRIAD_PRIVATE_KEY must be a 64 hex character ECDSA key, with optional 0x prefix'' @
        (if sxr \<and> \<not> truthy (sx_private_key sx) then [''SX_BET_PRIVATE_KEY is required when SX Bet routes are enabled'']
         else check (sxr \<and> \<not> is_private_key (sx_private_key sx))
           ''SX_BET_PRIVATE_KEY must be a 64 hex character ECDSA key, with optional 0x prefix'') @
        check (sxr \<and> sx_api_version sx = ''v3'' \<and> \<not> truthy (sx_api_key sx)) ''SX_BET_API_KEY is required for funded SX Bet V3 execution'' @
        check (sxr \<and> sx_api_version sx = ''v2'' \<and> sx_rpc_url sx = [])
          ''SX_BET_RPC_URL or sx_bet.rpc_url is required when SX Bet is enabled'')"

definition validate_config :: "app_config \<Rightarrow> bool \<Rightarrow> bool \<Rightarrow> unit res" where
  "validate_config c require_resolved require_verified =
     rbind (all_market_errors c require_resolved require_verified 0 (ap_markets c)) (\<lambda>market_es.
       (let errors = route_errors c @ canary_errors c @ limit_errors c require_resolved @ policy_errors c @ chain_cost_errors c @
              spread_errors c @ horizon_errors c @ runtime_errors c @ window_errors c @ venue_errors c @ sx_errors c @
              myriad_errors c @ opinion_errors c @ network_errors c @ market_es @ coverage_errors c require_verified @ key_errors c;
            sep = [char_of (10 :: nat)] @ '' - ''
        in raise_if (errors \<noteq> []) (ValueError (''Invalid configuration:'' @ sep @ join_with sep errors)) (Inr ())))"

section \<open>Lemmas\<close>

lemma check_Nil [simp]: "check bad m = [] \<longleftrightarrow> \<not> bad"
  by (simp add: check_def)

lemma validated_errors:
  assumes "validate_config c require_resolved require_verified = Inr ()"
  shows "route_errors c = []" "canary_errors c = []" "limit_errors c require_resolved = []" "chain_cost_errors c = []"
    "window_errors c = []" "runtime_errors c = []" "myriad_errors c = []" "opinion_errors c = []"
    "coverage_errors c require_verified = []" "key_errors c = []"
  using assms by (auto simp: validate_config_def rbind_Inr_iff raise_if_Inr_iff Let_def)

lemma all_routes: "route \<in> set EXECUTION_ROUTES \<Longrightarrow> route \<in> {''polymarket_myriad'', ''polymarket_predict'', ''predict_myriad'',
    ''predict_sx'', ''polymarket_sx'', ''sx_myriad'', ''polymarket_opinion'', ''predict_opinion'', ''sx_opinion'', ''opinion_myriad''}"
  by (simp add: EXECUTION_ROUTES_def)

lemma enabled_names_iff: "route \<in> set (enabled_names c) \<longleftrightarrow> route \<in> set EXECUTION_ROUTES \<and> route_flag c route"
  by (auto simp: enabled_names_def)

text \<open>What a venue needs to trade.\<close>

definition venue_operable :: "app_config \<Rightarrow> string \<Rightarrow> bool" where
  "venue_operable c v =
     (if v = ''Polymarket'' then is_private_key (pm_private_key (ap_polymarket c)) \<and> pm_rpc_url (ap_polymarket c) \<noteq> []
      else if v = ''Predict.fun'' then ap_enable_predict_fun c \<and> pf_enabled (ap_predict_fun c) \<and>
        is_private_key (pf_private_key (ap_predict_fun c)) \<and> truthy (pf_api_key (ap_predict_fun c))
      else if v = ''SX Bet'' then ap_enable_sx_bet c \<and> sx_enabled (ap_sx_bet c) \<and> is_private_key (sx_private_key (ap_sx_bet c))
      else if v = ''Myriad'' then my_enabled (ap_myriad c) \<and> is_private_key (my_private_key (ap_myriad c))
      else v = ''Opinion'' \<and> opinion_active c \<and> is_private_key (op_private_key (ap_opinion c)) \<and> truthy (op_api_key (ap_opinion c)))"

lemma required_venue_operable:
  assumes "validate_config c require_resolved require_verified = Inr ()" and "live_config c"
  shows "polymarket_required c \<Longrightarrow> venue_operable c ''Polymarket''" "predict_required c \<Longrightarrow> venue_operable c ''Predict.fun''"
    "sx_required c \<Longrightarrow> venue_operable c ''SX Bet''" "myriad_required c \<Longrightarrow> venue_operable c ''Myriad''"
    "opinion_required c \<Longrightarrow> venue_operable c ''Opinion''"
  using validated_errors(1,7,8,10) [OF assms(1)] assms(2)
  by (simp_all add: venue_operable_def route_errors_def Let_def key_errors_def myriad_errors_def opinion_errors_def split: if_splits)

lemma funds_any_mem: "route \<in> set (effective_funded_routes c) \<Longrightarrow> route \<in> set routes \<Longrightarrow> funds_any c routes"
  by (auto simp: funds_any_def list_ex_iff)

text \<open>Each venue of a route requires that route.\<close>

definition requires_route :: "string \<Rightarrow> string \<Rightarrow> bool" where
  "requires_route v r \<longleftrightarrow>
     v = ''Polymarket'' \<and> r \<in> {''polymarket_myriad'', ''polymarket_predict'', ''polymarket_sx'', ''polymarket_opinion''} \<or>
     v = ''Predict.fun'' \<and> r \<in> {''polymarket_predict'', ''predict_myriad'', ''predict_sx'', ''predict_opinion''} \<or>
     v = ''SX Bet'' \<and> r \<in> {''polymarket_sx'', ''sx_myriad'', ''predict_sx'', ''sx_opinion''} \<or>
     v = ''Myriad'' \<and> r \<in> {''polymarket_myriad'', ''predict_myriad'', ''sx_myriad'', ''opinion_myriad''} \<or>
     v = ''Opinion'' \<and> r \<in> set OPINION_ROUTES"

lemma route_labels_required:
  "list_all (\<lambda>r. case route_venue_labels r of Inr (a, b) \<Rightarrow> requires_route a r \<and> requires_route b r | Inl _ \<Rightarrow> False) EXECUTION_ROUTES"
  by code_simp

lemma required_venue:
  "r \<in> set (effective_funded_routes c) \<Longrightarrow> requires_route v r \<Longrightarrow>
    v = ''Polymarket'' \<and> polymarket_required c \<or> v = ''Predict.fun'' \<and> predict_required c \<or> v = ''SX Bet'' \<and> sx_required c \<or>
    v = ''Myriad'' \<and> myriad_required c \<or> v = ''Opinion'' \<and> opinion_required c"
  unfolding requires_route_def polymarket_required_def predict_required_def sx_required_def myriad_required_def opinion_required_def
  by (elim disjE conjE) (simp_all add: funds_any_mem)

lemma some_route_get_or:
  assumes "\<not> some_route (\<lambda>_. bad) d" and "\<not> bad x"
  shows "\<not> bad (get_or d r x)"
proof (cases "dict_get d r")
  case (Some v)
  then have "(r, v) \<in> set d" by (simp add: dict_get_def map_of_SomeD)
  with assms(1) Some show ?thesis by (auto simp: some_route_def list_ex_iff get_or_def)
qed (simp add: get_or_def assms(2))

text \<open>The weights and prefetch multipliers of a validated configuration are positive for every route.\<close>

lemma validated_windows_positive:
  assumes "validate_config c require_resolved require_verified = Inr ()"
  shows "0 < wc_weight (window_config_of (ap_windows c)) r" "0 < wc_prefetch (window_config_of (ap_windows c)) r"
proof -
  have ok: "\<not> some_route (\<lambda>_ m. \<not> (1 \<le> m \<and> m \<le> 4)) (ws_prefetch_by_route (ap_windows c))"
    "\<not> some_route (\<lambda>_ n. \<not> (1 \<le> n \<and> n \<le> 4)) (ws_weight_by_route (ap_windows c))"
    using validated_errors(5) [OF assms] by (simp_all add: window_errors_def Let_def)
  show "0 < wc_weight (window_config_of (ap_windows c)) r" "0 < wc_prefetch (window_config_of (ap_windows c)) r"
    using some_route_get_or [OF ok(2), of 1 r] some_route_get_or [OF ok(1), of 1 r]
    by (simp_all add: window_config_of_def Let_def)
qed

lemma without_opinion_flag: "r \<in> set OPINION_ROUTES \<Longrightarrow> \<not> route_flag (without_opinion c) r"
  by (auto simp: OPINION_ROUTES_def route_flag_def route_fields_def without_opinion_def)

text \<open>The kill switch leaves no Opinion route, and names every one it took away.\<close>

lemma kill_switch_complete:
  assumes "apply_opinion_kill_switch routes funded False = (routes', funded', suppressed)" and "r \<in> set OPINION_ROUTES"
  shows "\<not> route_flag routes' r" "funded' = Some f \<Longrightarrow> \<not> route_flag f r"
    "r \<in> set suppressed \<longleftrightarrow> route_flag routes r \<or> (\<exists>f. funded = Some f \<and> route_flag f r)"
  using assms without_opinion_flag [OF assms(2)]
  by (auto simp: apply_opinion_kill_switch_def filter_empty_conv Let_def split: if_splits option.splits)

text \<open>The fee of SX Bet is the only one without a range check: any value, also a negative one, is accepted.\<close>

lemma sx_fee_unchecked:
  "validate_config (c\<lparr>ap_sx_bet := (ap_sx_bet c)\<lparr>sx_taker_fee_bps := fee\<rparr>\<rparr>) a b = validate_config c a b"
proof -
  let ?d = "c\<lparr>ap_sx_bet := (ap_sx_bet c)\<lparr>sx_taker_fee_bps := fee\<rparr>\<rparr>"
  have basic: "live_config ?d = live_config c" "effective_funded_routes ?d = effective_funded_routes c" "opinion_active ?d = opinion_active c"
    "second_routes_enabled ?d = second_routes_enabled c"
    by (simp_all add: live_config_def effective_funded_routes_def opinion_active_def second_routes_enabled_def split: option.split)
  then have required: "predict_required ?d = predict_required c" "sx_required ?d = sx_required c" "myriad_required ?d = myriad_required c"
    "opinion_required ?d = opinion_required c" "polymarket_required ?d = polymarket_required c"
    by (simp_all add: predict_required_def sx_required_def myriad_required_def opinion_required_def polymarket_required_def funds_any_def)
  have market: "market_errors ?d a b i m = market_errors c a b i m" for i m
    by (simp add: market_errors_def inconsistent_routes_def basic)
  have markets: "all_market_errors ?d a b i ms = all_market_errors c a b i ms" for i ms
    by (induction ms arbitrary: i) (simp_all add: market)
  have lists: "route_errors ?d = route_errors c" "canary_errors ?d = canary_errors c" "limit_errors ?d a = limit_errors c a"
    "policy_errors ?d = policy_errors c" "chain_cost_errors ?d = chain_cost_errors c" "spread_errors ?d = spread_errors c"
    "horizon_errors ?d = horizon_errors c" "runtime_errors ?d = runtime_errors c" "window_errors ?d = window_errors c"
    "venue_errors ?d = venue_errors c"
    by (simp_all add: route_errors_def canary_errors_def limit_errors_def policy_errors_def chain_cost_errors_def spread_errors_def
        horizon_errors_def runtime_errors_def window_errors_def venue_errors_def basic required)
  have lists': "sx_errors ?d = sx_errors c" "myriad_errors ?d = myriad_errors c" "opinion_errors ?d = opinion_errors c"
    "network_errors ?d = network_errors c" "coverage_errors ?d b = coverage_errors c b" "key_errors ?d = key_errors c"
    by (simp_all add: sx_errors_def myriad_errors_def opinion_errors_def network_errors_def coverage_errors_def route_coverage_def
        key_errors_def basic required Let_def cong: if_cong)
  show ?thesis unfolding validate_config_def lists lists' markets by simp
qed

section \<open>Properties\<close>

text \<open>C11. A validated canary or live configuration only funds routes that can be traded: both venues of
  the route are enabled and have a well-formed signing key, discovery covers the route, a market of
  the configuration verifies it, and outside tests its chain cost is positive.\<close>

theorem validated_live_routes_tradable:
  assumes "validate_config c require_resolved True = Inr ()" and "submits_orders (ap_mode c)"
    and "route \<in> set (effective_funded_routes c)"
  shows "(\<exists>a b. route_venue_labels route = Inr (a, b) \<and> venue_operable c a \<and> venue_operable c b) \<and>
    route_flag (ap_routes c) route \<and>
    (\<exists>m \<in> set (ap_markets c). route \<in> m_verified_routes m \<and> m_mapping_status m = VERIFIED) \<and>
    (ap_is_test c \<or> 0 < fixed_chain_cost_for (ap_policy c) route)"
proof (intro conjI)
  note errors = validated_errors [OF assms(1)]
  have live: "live_config c" using assms(2) by (simp add: live_config_def)
  have known: "route \<in> set EXECUTION_ROUTES" using assms(3) by (simp add: effective_funded_routes_def enabled_names_iff)
  then have "case route_venue_labels route of Inr (a, b) \<Rightarrow> requires_route a route \<and> requires_route b route | Inl _ \<Rightarrow> False"
    using route_labels_required unfolding list_all_iff by (rule bspec [rotated])
  then obtain a b where labels: "route_venue_labels route = Inr (a, b)" "requires_route a route" "requires_route b route"
    by (auto split: sum.splits prod.splits)
  have "venue_operable c v" if "requires_route v route" for v
    using required_venue [OF assms(3) that] required_venue_operable [OF assms(1) live] by blast
  with labels show "\<exists>a b. route_venue_labels route = Inr (a, b) \<and> venue_operable c a \<and> venue_operable c b" by blast
  have "sort (filter (\<lambda>r. r \<notin> set (enabled_names (ap_routes c))) (effective_funded_routes c)) = []"
    using errors(1) by (simp only: route_errors_def Let_def append_is_Nil_conv check_Nil not_not)
  then have "filter (\<lambda>r. r \<notin> set (enabled_names (ap_routes c))) (effective_funded_routes c) = []"
    by (metis length_sort length_0_conv)
  with assms(3) show "route_flag (ap_routes c) route" by (auto simp: filter_empty_conv enabled_names_iff)
  have "route_coverage c route"
    using errors(9) live assms(3) by (auto simp: coverage_errors_def filter_empty_conv)
  then show "\<exists>m \<in> set (ap_markets c). route \<in> m_verified_routes m \<and> m_mapping_status m = VERIFIED"
    by (auto simp: route_coverage_def list_ex_iff)
  show "ap_is_test c \<or> 0 < fixed_chain_cost_for (ap_policy c) route"
    using errors(4) live assms(3) by (cases "ap_is_test c") (auto simp: chain_cost_errors_def Let_def filter_empty_conv not_le)
qed

text \<open>A live configuration of one funded route.\<close>

definition sample_key :: "string option" where
  "sample_key = Some (''0x'' @ replicate 64 CHR ''a'')"

definition sample_polymarket :: polymarket_config where
  "sample_polymarket = \<lparr>pm_private_key = sample_key, pm_signature_type = 0, pm_funder = None, pm_api_key = None, pm_api_secret = None,
     pm_api_passphrase = None, pm_max_slippage = 1 / 64, pm_rpc_url = ''https://polygon'', pm_conditional_tokens_address = ''0x4D'',
     pm_collateral_token_address = ''0xC0'', pm_confirmations = 2, pm_redemption_gas_limit = 350000\<rparr>"

definition sample_predict_fun :: predict_fun_config where
  "sample_predict_fun = \<lparr>pf_enabled = True, pf_private_key = sample_key, pf_rpc_url = ''https://bnb'', pf_chain_id = 56,
     pf_network = ''mainnet'', pf_api_base_url = Some ''https://predict'', pf_api_key = Some ''k'', pf_market_abi_path = None,
     pf_fee_rate_bps = 200, pf_precision = 18, pf_max_slippage = 1 / 64\<rparr>"

definition sample_sx_bet :: sx_bet_config where
  "sample_sx_bet = \<lparr>sx_enabled = False, sx_api_base_url = ''https://api.sx.bet'', sx_api_key = None, sx_private_key = None,
     sx_rpc_url = [], sx_chain_id = 4162, sx_ws_url = ''wss://realtime.sx.bet'', sx_taker_fee_bps = 0, sx_api_version = ''v2'',
     sx_environment = ''mainnet'', sx_time_in_force = ''FOK'', sx_allow_v3_mainnet = False\<rparr>"

definition sample_myriad :: myriad_config where
  "sample_myriad = \<lparr>my_enabled = False, my_private_key = None, my_chain_id = 56, my_collateral_tokens = [], my_collateral_symbol = ''USD1'',
     my_trading_fee = 0, my_max_slippage = 1 / 64, my_order_book_ttl_ms = 300, my_websocket_stale_after_ms = 1500,
     my_confirmations = 3, my_redemption_gas_limit = 350000\<rparr>"

definition sample_opinion :: opinion_config where
  "sample_opinion = \<lparr>op_enabled = False, op_api_base_url = [], op_ws_url = [], op_api_key = None, op_private_key = None, op_rpc_url = [],
     op_chain_id = 56, op_taker_fee_rate_bps = 0, op_minimum_fee_usd = 0, op_minimum_notional_usd = 1, op_order_book_ttl_ms = 300,
     op_price_precision = 2, op_market_page_limit = 20, op_public_rate = 5, op_authenticated_rate = 15\<rparr>"

definition sample_routes :: route_config where
  "sample_routes = \<lparr>ro_polymarket_myriad = False, ro_polymarket_predict = True, ro_predict_myriad = False, ro_predict_sx = False,
     ro_polymarket_sx = False, ro_sx_myriad = False, ro_polymarket_opinion = False, ro_predict_opinion = False,
     ro_sx_opinion = False, ro_opinion_myriad = False\<rparr>"

definition sample_windows :: window_settings where
  "sample_windows = \<lparr>ws_limit = 100, ws_limit_by_route = [], ws_weight_by_route = [], ws_prefetch_by_route = [], ws_hold = 0,
     ws_hold_by_route = [], ws_priority = 0, ws_priority_by_route = [], ws_exploration = 1 / 4, ws_exploration_by_route = []\<rparr>"

definition verified_market :: market_spec where
  "verified_market = sample_market\<lparr>m_mapping_status := VERIFIED, m_verified_routes := {''polymarket_predict''}\<rparr>"

definition sample_app :: app_config where
  "sample_app = \<lparr>ap_is_test = False, ap_scan_all = False, ap_position_size_usd = 20, ap_max_order_size_usd = 25,
     ap_min_net_spread = 1 / 64, ap_polymarket_fill_timeout_ms = 1000, ap_predict_fun_fill_timeout_ms = 4000,
     ap_sx_bet_fill_timeout_ms = 4000, ap_myriad_fill_timeout_ms = 4000, ap_signal_alert_cooldown_seconds = 60,
     ap_categories_to_scan = [], ap_polymarket = sample_polymarket, ap_predict_fun = sample_predict_fun, ap_sx_bet = sample_sx_bet,
     ap_myriad = sample_myriad, ap_opinion = sample_opinion, ap_web3_networks = [], ap_auto_close_enabled = False, ap_exit_spread = 0,
     ap_markets = [verified_market], ap_horizon_filter_enabled = False, ap_sports_horizon_hours = 48, ap_crypto_horizon_hours = 24,
     ap_horizon_hours_by_category = [],
     ap_policy = sample_policy\<lparr>sp_route_floors := [], sp_min_expected_profit_usd := 1 / 2, sp_fixed_chain_cost := 1 / 8\<rparr>,
     ap_gas_units = [], ap_native_ceiling = [], ap_enable_predict_fun = True, ap_enable_sx_bet = False, ap_enable_opinion = False,
     ap_suppressed_routes = [], ap_min_market_volume_usd = 25000, ap_min_entry_spread = 1 / 16, ap_min_retry_spread = 1 / 16,
     ap_enable_auto_rebalance = False, ap_max_consecutive_api_errors = 3, ap_max_daily_loss_usd = 10, ap_max_open_positions = 5,
     ap_balance_refresh_interval = 5, ap_windows = sample_windows, ap_shadow_samples = 1, ap_shadow_sample_interval = 1 / 8,
     ap_shadow_cooldown = 30, ap_shadow_evidence_ttl = 900, ap_discovery_max_stale = 900, ap_cancel_reconcile_timeout_ms = 1000,
     ap_max_orderbook_age = 2, ap_max_price_impact = 1 / 64, ap_heartbeat_interval = 30, ap_stale_after = 10, ap_mode = CANARY,
     ap_database_url = Some ''postgresql://db'', ap_runtime_instance_id = ''canary-1'', ap_routes = sample_routes,
     ap_funded_routes = Some sample_routes, ap_orders_interval = 5, ap_full_interval = 30, ap_snapshot_interval = 30,
     ap_max_total_notional_usd = 500, ap_max_venue_exposure_usd = 300, ap_max_market_exposure_usd = 100, ap_max_orders_per_minute = 30,
     ap_max_unresolved_exposure_usd = 25, ap_observability_port = 9108, ap_live_trading_confirmed = True\<rparr>"

lemma sample_app_simps [simp]:
  "ap_is_test sample_app = False" "ap_scan_all sample_app = False" "ap_position_size_usd sample_app = 20"
  "ap_max_order_size_usd sample_app = 25" "ap_min_net_spread sample_app = 1 / 64" "ap_polymarket_fill_timeout_ms sample_app = 1000"
  "ap_predict_fun_fill_timeout_ms sample_app = 4000" "ap_sx_bet_fill_timeout_ms sample_app = 4000"
  "ap_myriad_fill_timeout_ms sample_app = 4000" "ap_signal_alert_cooldown_seconds sample_app = 60"
  "ap_categories_to_scan sample_app = []" "ap_polymarket sample_app = sample_polymarket"
  "ap_predict_fun sample_app = sample_predict_fun" "ap_sx_bet sample_app = sample_sx_bet" "ap_myriad sample_app = sample_myriad"
  "ap_opinion sample_app = sample_opinion" "ap_web3_networks sample_app = []" "ap_auto_close_enabled sample_app = False"
  "ap_exit_spread sample_app = 0" "ap_markets sample_app = [verified_market]" "ap_horizon_filter_enabled sample_app = False"
  "ap_sports_horizon_hours sample_app = 48" "ap_crypto_horizon_hours sample_app = 24" "ap_horizon_hours_by_category sample_app = []"
  "ap_policy sample_app = sample_policy\<lparr>sp_route_floors := [], sp_min_expected_profit_usd := 1 / 2, sp_fixed_chain_cost := 1 / 8\<rparr>"
  "ap_gas_units sample_app = []" "ap_native_ceiling sample_app = []" "ap_enable_predict_fun sample_app = True"
  "ap_enable_sx_bet sample_app = False" "ap_enable_opinion sample_app = False" "ap_suppressed_routes sample_app = []"
  "ap_min_market_volume_usd sample_app = 25000" "ap_min_entry_spread sample_app = 1 / 16" "ap_min_retry_spread sample_app = 1 / 16"
  "ap_enable_auto_rebalance sample_app = False" "ap_max_consecutive_api_errors sample_app = 3" "ap_max_daily_loss_usd sample_app = 10"
  "ap_max_open_positions sample_app = 5" "ap_balance_refresh_interval sample_app = 5" "ap_windows sample_app = sample_windows"
  "ap_shadow_samples sample_app = 1" "ap_shadow_sample_interval sample_app = 1 / 8" "ap_shadow_cooldown sample_app = 30"
  "ap_shadow_evidence_ttl sample_app = 900" "ap_discovery_max_stale sample_app = 900"
  "ap_cancel_reconcile_timeout_ms sample_app = 1000" "ap_max_orderbook_age sample_app = 2" "ap_max_price_impact sample_app = 1 / 64"
  "ap_heartbeat_interval sample_app = 30" "ap_stale_after sample_app = 10" "ap_mode sample_app = CANARY"
  "ap_database_url sample_app = Some ''postgresql://db''" "ap_runtime_instance_id sample_app = ''canary-1''"
  "ap_routes sample_app = sample_routes" "ap_funded_routes sample_app = Some sample_routes" "ap_orders_interval sample_app = 5"
  "ap_full_interval sample_app = 30" "ap_snapshot_interval sample_app = 30" "ap_max_total_notional_usd sample_app = 500"
  "ap_max_venue_exposure_usd sample_app = 300" "ap_max_market_exposure_usd sample_app = 100" "ap_max_orders_per_minute sample_app = 30"
  "ap_max_unresolved_exposure_usd sample_app = 25" "ap_observability_port sample_app = 9108"
  "ap_live_trading_confirmed sample_app = True"
  by (simp_all only: sample_app_def app_config.simps)

lemma sample_enabled: "enabled_names sample_routes = [''polymarket_predict'']"
  by code_simp

lemma sample_funded: "effective_funded_routes sample_app = [''polymarket_predict'']" "enabled_names (ap_routes sample_app) = [''polymarket_predict'']"
  by (simp_all add: effective_funded_routes_def sample_enabled)

lemma sample_required: "predict_required sample_app" "polymarket_required sample_app" "\<not> sx_required sample_app"
  "\<not> myriad_required sample_app" "\<not> opinion_required sample_app" "\<not> opinion_active sample_app" "live_config sample_app"
  by (simp_all add: predict_required_def polymarket_required_def sx_required_def myriad_required_def opinion_required_def funds_any_def
      sample_funded OPINION_ROUTES_def opinion_active_def live_config_def submits_orders_def)

lemma sample_lists:
  "canary_errors sample_app = []" "limit_errors sample_app False = []" "policy_errors sample_app = []" "spread_errors sample_app = []"
  "horizon_errors sample_app = []" "runtime_errors sample_app = []" "window_errors sample_app = []" "network_errors sample_app = []"
  by (simp_all add: canary_errors_def limit_errors_def policy_errors_def spread_errors_def horizon_errors_def runtime_errors_def
      window_errors_def network_errors_def sample_windows_def sample_policy_def some_route_def sample_required
      strip_def live_config_def)

lemma sample_key_ok: "is_private_key sample_key" "truthy sample_key"
  by (simp_all add: is_private_key_def sample_key_def list_all_iff)

lemma sample_venue_lists:
  "route_errors sample_app = []" "chain_cost_errors sample_app = []" "sx_errors sample_app = []" "myriad_errors sample_app = []"
  "opinion_errors sample_app = []" "coverage_errors sample_app True = []" "key_errors sample_app = []"
  by (simp_all add: route_errors_def chain_cost_errors_def sx_errors_def myriad_errors_def opinion_errors_def coverage_errors_def
      key_errors_def sample_required sample_funded sample_enabled Let_def sample_polymarket_def sample_predict_fun_def sample_sx_bet_def
      sample_myriad_def sample_policy_def fixed_chain_cost_for_def sample_key_ok route_coverage_def verified_market_def strip_def
      is_space_def)

lemma sample_venue_errors: "venue_errors sample_app = []"
proof -
  have "(1 / 64 :: flt) = flt_round (1 / 64)" by (simp add: flt_round_eval)
  also have "\<dots> \<le> flt_round (5 / 100)" by (rule flt.rnd_mono) simp
  finally show ?thesis
    by (simp add: venue_errors_def Let_def sample_polymarket_def sample_predict_fun_def sample_myriad_def)
qed

lemma verified_market_simps [simp]:
  "m_symbol verified_market = ''WC-FINAL''" "m_target_label verified_market = ''Spain''" "m_polymarket_token_id verified_market = ''101''"
  "m_predict_fun_token_id verified_market = ''202''" "m_polymarket_side verified_market = YES" "m_predict_fun_side verified_market = NO"
  "m_venue_a_label verified_market = ''Polymarket''" "m_venue_b_label verified_market = ''Predict.fun''"
  "m_mapping_status verified_market = VERIFIED" "m_verified_routes verified_market = {''polymarket_predict''}"
  "m_predict_fun_price_precision verified_market = None" "m_predict_fun_fee_rate_bps verified_market = None"
  "m_myriad_collateral_token verified_market = None"
  by (simp_all add: verified_market_def sample_market_def market_spec_default_def)

lemma sample_markets: "all_market_errors sample_app False True 0 [verified_market] = Inr []"
proof -
  have lookup: "dict_get VENUE_LABELS_TO_ROUTE (''Polymarket'', ''Predict.fun'') = Some ''polymarket_predict''" by code_simp
  have "execution_route_for_market verified_market = Inr ''polymarket_predict''"
    by (simp add: execution_route_for_market_def lookup)
  then have routes: "validated_routes verified_market = {''polymarket_predict''}"
    by (simp add: validated_routes_def)
  have sides: "route_execution_sides_are_complementary verified_market ''polymarket_predict'' = Inr True"
    by (simp add: route_execution_sides_are_complementary_def GENERIC_SLOT_ROUTES_def)
  have supports: "\<exists>b. market_supports_execution_route verified_market ''polymarket_predict'' = Inr b"
    by (simp add: market_supports_execution_route_def MYRIAD_ROUTES_def GENERIC_SLOT_ROUTES_def route_venue_labels_def
        ROUTE_VENUE_LABELS_def dict_get_def) (rule exI [of _ True], rule TrueI)
  have "inconsistent_routes sample_app verified_market = Inr []"
    using supports by (auto simp: inconsistent_routes_def EXECUTION_ROUTES_def routes sides)
  then show ?thesis
    by (simp add: market_errors_def Let_def placeholder_def sample_myriad_def)
qed

lemma sample_valid: "validate_config sample_app False True = Inr ()"
  by (simp add: validate_config_def sample_markets sample_lists sample_venue_lists sample_venue_errors del: all_market_errors.simps)

theorem validated_live_routes_tradable_witness:
  "''polymarket_predict'' \<in> set (effective_funded_routes sample_app) \<and> validate_config sample_app False True = Inr () \<and>
    (\<exists>a b. route_venue_labels ''polymarket_predict'' = Inr (a, b) \<and> venue_operable sample_app a \<and> venue_operable sample_app b)"
  using validated_live_routes_tradable [OF sample_valid, of "''polymarket_predict''"]
  by (simp add: sample_valid sample_funded submits_orders_def)

end
