(* ===== verification/Position_Manager.thy ===== *)
theory Position_Manager
  imports Settlement
begin

text \<open>
  \<^verbatim>\<open>position_manager.py\<close>: the monitor that runs the settlement service, finds the router of every
  position of the ledger and sells, retries or closes it. The routers share their stores, so one
  state serves all of them; what a position meets on its way (the books, the sales and the exits)
  is an input. The lemmas say which router gets a position, and that no position holds up another.
\<close>

section \<open>The desk\<close>

text \<open>
  The connectors that are configured (Polymarket always is), and the routers by the route they
  serve: \<^verbatim>\<open>_execution\<close> is the entry \<^verbatim>\<open>polymarket_predict\<close>, \<^verbatim>\<open>_myriad_execution\<close> the entry
  \<^verbatim>\<open>polymarket_myriad\<close> and so on.
\<close>

record desk =
  dk_clients :: "string list"
  dk_routers :: "(string, route_setup) dict"

definition has_client :: "desk \<Rightarrow> string \<Rightarrow> bool" where
  "has_client d v \<longleftrightarrow> v = ''Polymarket'' \<or> v \<in> set (dk_clients d)"

definition routed :: "desk \<Rightarrow> string \<Rightarrow> string \<Rightarrow> string \<Rightarrow> (route_setup \<times> string \<times> string) option" where
  "routed d route a b = (if has_client d a \<and> has_client d b
     then map_option (\<lambda>rs. (rs, a, b)) (dict_get (dk_routers d) route) else None)"

fun first_some :: "'a option list \<Rightarrow> 'a option" where
  "first_some [] = None"
| "first_some (x # xs) = (case x of Some y \<Rightarrow> Some y | None \<Rightarrow> first_some xs)"

definition route_for_position :: "desk \<Rightarrow> open_position \<Rightarrow> (route_setup \<times> string \<times> string) option" where
  "route_for_position d p =
     (let a = m_venue_a_label (p_market p); b = m_venue_b_label (p_market p);
          on = (\<lambda>c route x y. if c then routed d route x y else None)
      in first_some
       [on (a = ''Predict.fun'' \<and> b = ''Myriad'') ''predict_myriad'' ''Predict.fun'' ''Myriad'',
        on (a = ''Predict.fun'' \<and> b = ''SX Bet'') ''predict_sx'' ''Predict.fun'' ''SX Bet'',
        on (a = ''SX Bet'' \<and> b = ''Myriad'') ''sx_myriad'' ''SX Bet'' ''Myriad'',
        on (a = ''Opinion'' \<and> b = ''Myriad'') ''opinion_myriad'' ''Opinion'' ''Myriad'',
        on (b = ''Myriad'') ''polymarket_myriad'' ''Polymarket'' ''Myriad'',
        on (b = ''Opinion'' \<and> a = ''Predict.fun'') ''predict_opinion'' ''Predict.fun'' ''Opinion'',
        on (b = ''Opinion'' \<and> a = ''SX Bet'') ''sx_opinion'' ''SX Bet'' ''Opinion'',
        on (b = ''Opinion'') ''polymarket_opinion'' ''Polymarket'' ''Opinion'',
        on (b = ''Predict.fun'') ''polymarket_predict'' ''Polymarket'' ''Predict.fun'',
        on (b = ''SX Bet'') ''polymarket_sx'' ''Polymarket'' ''SX Bet''])"

section \<open>An open position\<close>

definition net_exit_values :: "route_setup \<Rightarrow> market_spec \<Rightarrow> dec \<Rightarrow> dec \<Rightarrow> (dec \<times> dec) res" where
  "net_exit_values rs m price1 price2 =
     rbind (venue_fee_pct (rs_config rs) (rs_first rs) m) (\<lambda>fee1.
     rbind (venue_fee_pct (rs_config rs) (rs_second rs) m) (\<lambda>fee2.
       Inr (dmul price1 (dsub 1 (flt_repr fee1)), dmul price2 (dsub 1 (flt_repr fee2)))))"

definition gross_entry_values :: "route_setup \<Rightarrow> market_spec \<Rightarrow> dec \<Rightarrow> dec \<Rightarrow> (dec \<times> dec) res" where
  "gross_entry_values rs m price1 price2 =
     rbind (venue_fee_pct (rs_config rs) (rs_first rs) m) (\<lambda>fee1.
     rbind (venue_fee_pct (rs_config rs) (rs_second rs) m) (\<lambda>fee2.
       Inr (dmul price1 (dadd 1 (flt_repr fee1)), dmul price2 (dadd 1 (flt_repr fee2)))))"

text \<open>What a position meets: the two books, the sales and bids of a retry, and the legs of an exit.\<close>

record position_io =
  po_first_book :: "leg_error + order_book"
  po_second_book :: "leg_error + order_book"
  po_first_sale :: sale_inputs
  po_second_sale :: sale_inputs
  po_first_bid :: "leg_error + flt"
  po_second_bid :: "leg_error + flt"
  po_close :: close_inputs

definition exit_signal_for :: "flt \<Rightarrow> route_setup \<Rightarrow> open_position \<Rightarrow> flt \<Rightarrow> flt \<Rightarrow> exit_signal option res" where
  "exit_signal_for exit_spread_pct rs p exit1 exit2 =
     rbind (net_exit_values rs (p_market p) (flt_repr exit1) (flt_repr exit2)) (\<lambda>(net1, net2).
     rbind (gross_entry_values rs (p_market p) (p_polymarket_entry_price p) (p_predict_fun_entry_price p)) (\<lambda>(gross1, gross2).
     let exit_spread = dsub 1 (dadd net1 net2)
     in if flt_repr exit_spread_pct \<le> exit_spread then Inr None
        else rbind (calculate_binary_position_profit (dadd gross1 gross2) (dadd net1 net2) (p_polymarket_contracts p))
          (\<lambda>(pct, usd). Inr (Some \<lparr>x_position = p, x_polymarket_exit_price = flt_repr exit1,
             x_predict_fun_exit_price = flt_repr exit2, x_profit_pct = pct, x_profit_usd = usd,
             x_exit_spread = Some (flt_round exit_spread)\<rparr>))))"

definition check_open_position ::
  "world \<Rightarrow> flt \<Rightarrow> position_io \<Rightarrow> route_setup \<Rightarrow> open_position \<Rightarrow> (router, leg_error, unit) act" where
  "check_open_position w exit_spread_pct io rs p =
     andthen (of_res (first_leg_token_for_route (p_market p) (route_of rs))) (\<lambda>_.
     andthen (of_res (second_leg_token_for_route (p_market p) (route_of rs))) (\<lambda>_.
     andthen (of_result (po_first_book io)) (\<lambda>book1. andthen (of_result (po_second_book io)) (\<lambda>book2.
     andthen (of_res (best_bid book1)) (\<lambda>bid1. andthen (of_res (best_bid book2)) (\<lambda>bid2.
     andthen (of_res (exit_signal_for exit_spread_pct rs p (price bid1) (price bid2))) (\<lambda>signal. case signal of
       None \<Rightarrow> ret ()
     | Some x \<Rightarrow> handle_exit_signal w rs (po_close io) x)))))))"

section \<open>The monitor\<close>

record monitor = settling +
  mn_reported :: "string list"

record monitor_config =
  mc_auto_close :: bool
  mc_exit_spread :: flt
  mc_settles :: bool

definition in_router :: "(router, leg_error, 'a) act \<Rightarrow> (monitor, leg_error, 'a) act" where
  "in_router m = (\<lambda>s. case m (router.truncate s) of (x, r) \<Rightarrow> (x, router.extend r (router.more s)))"

definition in_settling :: "(settling, leg_error, 'a) act \<Rightarrow> (monitor, leg_error, 'a) act" where
  "in_settling m = (\<lambda>s. case m (settling.truncate s) of (x, r) \<Rightarrow> (x, settling.extend r (settling.more s)))"

text \<open>An unresolved entry is reported once per symbol; it waits for the reconciliation.\<close>

definition report_unresolved :: "open_position \<Rightarrow> (monitor, leg_error, unit) act" where
  "report_unresolved p = modify (\<lambda>s. s\<lparr>mn_reported := List.insert (m_symbol (p_market p)) (mn_reported s)\<rparr>)"

definition monitor_position ::
  "world \<Rightarrow> desk \<Rightarrow> monitor_config \<Rightarrow> position_io \<Rightarrow> open_position \<Rightarrow> (monitor, leg_error, unit) act" where
  "monitor_position w d c io p = (case route_for_position d p of
     None \<Rightarrow> ret ()
   | Some (rs, first, second) \<Rightarrow>
       if p_status p = ''entry_pending'' then report_unresolved p
       else if p_status p = ''unwind_pending''
       then in_router (retry_pending_unwind w rs (po_first_sale io) (po_second_sale io) p)
       else if p_status p = ''partial_exit_pending''
       then in_router (retry_partial_exit w rs (po_close io) (po_first_bid io) (po_second_bid io) p)
       else if p_status p \<noteq> ''open'' then ret ()
       else if \<not> mc_auto_close c then ret ()
       else in_router (check_open_position w (mc_exit_spread c) io rs p))"

text \<open>\<^verbatim>\<open>except Exception\<close> around the work on one position.\<close>

definition guarded_position ::
  "world \<Rightarrow> desk \<Rightarrow> monitor_config \<Rightarrow> position_io \<Rightarrow> open_position \<Rightarrow> (monitor, leg_error, unit) act" where
  "guarded_position w d c io p =
     catch (monitor_position w d c io p) (\<lambda>e. if e = Cancelled then raise Cancelled else ret ())"

definition monitor_once ::
  "world \<Rightarrow> desk \<Rightarrow> monitor_config \<Rightarrow> (string \<Rightarrow> string \<Rightarrow> redemption_io) \<Rightarrow> (string \<Rightarrow> position_io) \<Rightarrow>
    (monitor, leg_error, unit) act" where
  "monitor_once w d c redemptions io =
     andalso (when_do (mc_settles c) (in_settling (settle_once w redemptions)))
     (andthen (gets (\<lambda>s. ledger_all (rt_book s))) (\<lambda>ps.
       for_each (\<lambda>p. guarded_position w d c (io (position_key (p_market p))) p) ps))"

section \<open>Lemmas\<close>

text \<open>A position whose own router and connectors are configured gets them, and no other.\<close>

lemma own_router_first:
  assumes "route_venue_labels route = Inr (a, b)" and "dict_get (dk_routers d) route = Some rs"
    and "has_client d a" and "has_client d b"
    and "m_venue_a_label (p_market p) = a" and "m_venue_b_label (p_market p) = b"
  shows "route_for_position d p = Some (rs, a, b)"
proof -
  have cases: "(route, a, b) \<in> set ROUTE_VENUE_LABELS"
    using assms(1) by (auto simp: route_venue_labels_def dict_get_def split: option.splits dest: map_of_SomeD)
  have found: "routed d route a b = Some (rs, a, b)" using assms(2-4) by (simp add: routed_def)
  from cases have "P route a b" if
    "P ''polymarket_myriad'' ''Polymarket'' ''Myriad''" "P ''polymarket_predict'' ''Polymarket'' ''Predict.fun''"
    "P ''predict_myriad'' ''Predict.fun'' ''Myriad''" "P ''predict_sx'' ''Predict.fun'' ''SX Bet''"
    "P ''polymarket_sx'' ''Polymarket'' ''SX Bet''" "P ''sx_myriad'' ''SX Bet'' ''Myriad''"
    "P ''polymarket_opinion'' ''Polymarket'' ''Opinion''" "P ''predict_opinion'' ''Predict.fun'' ''Opinion''"
    "P ''sx_opinion'' ''SX Bet'' ''Opinion''" "P ''opinion_myriad'' ''Opinion'' ''Myriad''" for P
    unfolding ROUTE_VENUE_LABELS_def using that by (simp only: list.set insert_iff empty_iff prod.inject) (elim disjE conjE FalseE; simp only:)
  note each = this
  have "routed d route a b = Some (rs, a, b) \<longrightarrow> m_venue_a_label (p_market p) = a \<longrightarrow> m_venue_b_label (p_market p) = b \<longrightarrow>
      route_for_position d p = Some (rs, a, b)"
    by (rule each) (simp_all add: route_for_position_def Let_def)
  with found assms(5,6) show ?thesis by blast
qed

text \<open>
  Without its own router a position falls through to a router of another pair, which takes the
  tokens of its first leg for its own.
\<close>

lemma stray_position:
  assumes "m_venue_a_label (p_market p) \<noteq> ''Polymarket''" and "m_venue_b_label (p_market p) = ''Myriad''"
    and "\<forall>route \<in> {''predict_myriad'', ''sx_myriad'', ''opinion_myriad''}. dict_get (dk_routers d) route = None"
    and "has_client d ''Myriad''" and "dict_get (dk_routers d) ''polymarket_myriad'' = Some rs"
  shows "route_for_position d p = Some (rs, ''Polymarket'', ''Myriad'')"
  using assms by (auto simp: route_for_position_def routed_def Let_def has_client_def)

text \<open>No fee is known for Opinion, so no exit of a position there is ever computed.\<close>

lemma opinion_exit_raises:
  assumes "rs_second rs = ''Opinion''" and "\<exists>fee. venue_fee_pct (rs_config rs) (rs_first rs) (p_market p) = Inr fee"
  shows "exit_signal_for pct rs p x y = Inl (ValueError ''Unsupported venue label: Opinion'')"
  using assms by (auto simp: exit_signal_for_def net_exit_values_def venue_fee_pct_def)

lemma guarded_raises: "guarded_position w d c io p s = (Inl e, s') \<Longrightarrow> e = Cancelled"
  by (auto simp: guarded_position_def catch_def act_defs split: prod.splits sum.splits if_splits)

lemma for_each_raises:
  "for_each m xs s = (Inl e, s') \<Longrightarrow> \<exists>x \<in> set xs. \<exists>t t'. m x t = (Inl e, t')"
proof (induction xs arbitrary: s)
  case (Cons x xs)
  then show ?case
    by (cases "m x s") (auto simp: andalso_def andthen_def split: sum.splits prod.splits)
qed (simp add: ret_def)

end
