(* ===== verification/Route_Plans.thy ===== *)
theory Route_Plans
  imports Config Position_Manager
begin

text \<open>
  The plan of a cycle of \<^verbatim>\<open>engine.py\<close>: which evaluations the markets of the snapshot give for the
  ten routes, which markets the engine subscribes, and the gates in front of the evaluations. The
  lemmas tie the plan to its neighbours: to the mappings that allow a live route, to the
  subscriptions, and to the monitor that later finds the router of a position.
\<close>

section \<open>Configuration\<close>

record engine_config =
  en_mode :: execution_mode
  en_shadow_require_verified :: bool
  en_routes :: route_config
  en_funded :: "string list"
  en_predict_slippage :: flt
  en_sx_slippage :: flt
  en_opinion_slippage :: flt
  en_myriad_slippage :: flt

definition entry_route_enabled :: "engine_config \<Rightarrow> string \<Rightarrow> bool" where
  "entry_route_enabled e route = route_flag (en_routes e) route"

definition second_venue_slippage_pct :: "engine_config \<Rightarrow> string \<Rightarrow> flt" where
  "second_venue_slippage_pct e label =
     (if label = ''SX Bet'' then en_sx_slippage e else if label = ''Opinion'' then en_opinion_slippage e
      else en_predict_slippage e)"

text \<open>The routers in the order of the tuple of the code; \<^verbatim>\<open>None\<close> where a router is not configured.\<close>

definition ROUTER_ORDER :: "string list" where
  "ROUTER_ORDER = [''polymarket_predict'', ''polymarket_sx'', ''polymarket_myriad'', ''predict_myriad'', ''predict_sx'',
     ''sx_myriad'', ''polymarket_opinion'', ''predict_opinion'', ''sx_opinion'', ''opinion_myriad'']"

definition entry_execution_routers :: "engine_config \<Rightarrow> desk \<Rightarrow> route_setup option list" where
  "entry_execution_routers e d = map (dict_get (dk_routers d))
     (if submits_orders (en_mode e) then filter (\<lambda>r. r \<in> set (en_funded e)) ROUTER_ORDER else ROUTER_ORDER)"

definition execution_routers :: "desk \<Rightarrow> route_setup option list" where
  "execution_routers d = map (dict_get (dk_routers d)) ROUTER_ORDER"

text \<open>All routers share one risk controller, so one \<open>stopped\<close> stands for \<^verbatim>\<open>router.is_paused\<close>.\<close>

definition has_paused_execution_router :: "engine_config \<Rightarrow> desk \<Rightarrow> bool \<Rightarrow> bool" where
  "has_paused_execution_router e d stopped = list_ex (\<lambda>r. r \<noteq> None \<and> stopped) (entry_execution_routers e d)"

definition mapping_eligibility_mode :: "engine_config \<Rightarrow> desk \<Rightarrow> bool \<Rightarrow> execution_mode" where
  "mapping_eligibility_mode e d stopped =
     (if \<not> submits_orders (en_mode e) \<and> has_paused_execution_router e d stopped \<or>
         en_mode e = SHADOW \<and> en_shadow_require_verified e then CANARY else en_mode e)"

section \<open>Planned evaluations\<close>

text \<open>
  The keyword arguments of \<^verbatim>\<open>_evaluate_polymarket_pair\<close>; the connectors of the two legs are those of
  the labels.
\<close>

record pair_plan =
  pp_market :: market_spec
  pp_router :: route_setup
  pp_first_token :: string
  pp_first_side :: binary_side
  pp_second_token :: string
  pp_second_side :: binary_side
  pp_first_label :: string
  pp_second_label :: string
  pp_max_slippage :: flt
  pp_first_pool :: "amm_pool option"
  pp_second_pool :: "amm_pool option"
  pp_generation :: "int option"

type_synonym planned = "pair_plan evaluation"

definition plan_polymarket_pair :: "pair_plan \<Rightarrow> planned" where
  "plan_polymarket_pair p = \<lparr>ev_route = route_key (pp_first_label p) (pp_second_label p),
     ev_targets = [(pp_first_label p, pp_first_token p), (pp_second_label p, pp_second_token p)], ev_run = p\<rparr>"

text \<open>
  The condition in front of a branch: the route and its connectors, the two checks of the market
  with \<open>extra\<close> between them, and the mapping. \<^verbatim>\<open>and\<close> stops at the first condition that fails.
\<close>

definition configured_router :: "desk \<Rightarrow> string \<Rightarrow> string list \<Rightarrow> route_setup option" where
  "configured_router d route clients = (if list_all (has_client d) clients then dict_get (dk_routers d) route else None)"

definition admits :: "engine_config \<Rightarrow> desk \<Rightarrow> execution_mode \<Rightarrow> string \<Rightarrow> string list \<Rightarrow> bool \<Rightarrow> market_spec \<Rightarrow>
    route_setup option res" where
  "admits e d mode route clients extra m =
     (if \<not> (route_flag (en_routes e) route \<and> entry_route_enabled e route) then Inr None
      else (case configured_router d route clients of
          None \<Rightarrow> Inr None
        | Some rs \<Rightarrow>
            rbind (market_supports_execution_route m route) (\<lambda>supported.
              if \<not> (supported \<and> extra) then Inr None
              else rbind (route_execution_sides_are_complementary m route) (\<lambda>complementary.
                Inr (if complementary \<and> is_live_mapping_eligible m mode (Some route) then Some rs else None)))))"

text \<open>
  The outcome of a branch: a plan, nothing, or \<^verbatim>\<open>continue\<close>, which ends the work on the market.
\<close>

datatype branch = Planned planned | Nothing | Continue

text \<open>A market that holds both legs of the route in its two slots.\<close>

definition slot_plan :: "market_spec \<Rightarrow> route_setup \<Rightarrow> string \<Rightarrow> string \<Rightarrow> flt \<Rightarrow> amm_pool option \<Rightarrow> amm_pool option \<Rightarrow>
    int option \<Rightarrow> pair_plan" where
  "slot_plan m rs a b slippage pool1 pool2 gen = \<lparr>pp_market = m, pp_router = rs,
     pp_first_token = m_polymarket_token_id m, pp_first_side = m_polymarket_side m,
     pp_second_token = m_predict_fun_token_id m, pp_second_side = m_predict_fun_side m,
     pp_first_label = a, pp_second_label = b, pp_max_slippage = slippage, pp_first_pool = pool1, pp_second_pool = pool2,
     pp_generation = gen\<rparr>"

definition slot_branch :: "engine_config \<Rightarrow> desk \<Rightarrow> execution_mode \<Rightarrow> int option \<Rightarrow> string \<Rightarrow> string \<Rightarrow> string \<Rightarrow> bool \<Rightarrow>
    flt \<Rightarrow> amm_pool option \<Rightarrow> amm_pool option \<Rightarrow> market_spec \<Rightarrow> branch res" where
  "slot_branch e d mode gen route a b extra slippage pool1 pool2 m =
     rbind (admits e d mode route [a, b] extra m) (\<lambda>router. Inr (case router of
       None \<Rightarrow> Nothing
     | Some rs \<Rightarrow> Planned (plan_polymarket_pair (slot_plan m rs a b slippage pool1 pool2 gen))))"

definition polymarket_myriad_market :: "market_spec \<Rightarrow> string \<Rightarrow> market_spec" where
  "polymarket_myriad_market m token = m\<lparr>m_venue_a_label := ''Polymarket'', m_predict_fun_token_id := token,
     m_predict_fun_side := m_myriad_side m, m_venue_b_label := ''Myriad''\<rparr>"

definition polymarket_myriad_branch :: "engine_config \<Rightarrow> desk \<Rightarrow> execution_mode \<Rightarrow> int option \<Rightarrow> market_spec \<Rightarrow> branch res" where
  "polymarket_myriad_branch e d mode gen m =
     rbind (admits e d mode ''polymarket_myriad'' [''Polymarket'', ''Myriad''] (truthy (m_myriad_market_id m)) m) (\<lambda>router.
       Inr (case router of
         None \<Rightarrow> Nothing
       | Some rs \<Rightarrow> (let token = the (m_myriad_market_id m) @ '':'' @ side_value (m_myriad_side m)
           in Planned (plan_polymarket_pair (slot_plan (polymarket_myriad_market m token) rs ''Polymarket'' ''Myriad''
                (en_myriad_slippage e) None None gen)))))"

text \<open>\<^verbatim>\<open>BinarySide(token.rsplit(":", 1)[1])\<close> of a token with a colon.\<close>

definition token_side :: "string \<Rightarrow> binary_side res" where
  "token_side token = j_side (JStr (rev (takeWhile (\<lambda>c. c \<noteq> CHR '':'') (rev token))))"

text \<open>A market whose second slot becomes the first leg, with Myriad on the other side.\<close>

definition derived_market :: "market_spec \<Rightarrow> string \<Rightarrow> string \<Rightarrow> binary_side \<Rightarrow> bool option \<Rightarrow> market_spec" where
  "derived_market m a token side neg_risk = m\<lparr>m_venue_a_label := a, m_venue_b_label := ''Myriad'',
     m_polymarket_token_id := m_predict_fun_token_id m, m_polymarket_side := m_predict_fun_side m,
     m_predict_fun_token_id := token, m_predict_fun_side := side, m_condition_id := None, m_tick_size := None,
     m_neg_risk := neg_risk\<rparr>"

definition derived_branch :: "engine_config \<Rightarrow> desk \<Rightarrow> execution_mode \<Rightarrow> int option \<Rightarrow> string \<Rightarrow> string \<Rightarrow> bool option \<Rightarrow>
    amm_pool option \<Rightarrow> market_spec \<Rightarrow> branch res" where
  "derived_branch e d mode gen route a neg_risk pool m =
     rbind (admits e d mode route [a, ''Myriad'']
         (m_predict_fun_token_id m \<noteq> [] \<and> truthy (m_myriad_market_id m) \<and> m_venue_b_label m = a) m) (\<lambda>router. case router of
       None \<Rightarrow> Inr Nothing
     | Some rs \<Rightarrow>
         rbind (myriad_execution_token_for_route m route) (\<lambda>token. case token of
           None \<Rightarrow> Inr Continue
         | Some t \<Rightarrow> rbind (token_side t) (\<lambda>side.
             Inr (Planned (plan_polymarket_pair (slot_plan (derived_market m a t side neg_risk) rs a ''Myriad''
               (min (second_venue_slippage_pct e a) (en_myriad_slippage e)) pool None gen))))))"

text \<open>The ten branches of the loop over the markets, in their order.\<close>

definition predict_branches :: "engine_config \<Rightarrow> desk \<Rightarrow> execution_mode \<Rightarrow> int option \<Rightarrow> market_spec \<Rightarrow> branch res list" where
  "predict_branches e d mode gen m =
     (let slip = second_venue_slippage_pct e; pool = m_predict_fun_amm_pool m;
          second = m_predict_fun_token_id m \<noteq> []; a = m_venue_a_label m; b = m_venue_b_label m
      in [slot_branch e d mode gen ''polymarket_predict'' ''Polymarket'' ''Predict.fun'' (second \<and> b = ''Predict.fun'')
            (slip ''Predict.fun'') None pool m,
          slot_branch e d mode gen ''polymarket_sx'' ''Polymarket'' ''SX Bet'' (second \<and> a = ''Polymarket'' \<and> b = ''SX Bet'')
            (slip ''SX Bet'') None pool m,
          polymarket_myriad_branch e d mode gen m,
          derived_branch e d mode gen ''predict_myriad'' ''Predict.fun'' (m_predict_fun_neg_risk m) pool m])"

definition sx_branches :: "engine_config \<Rightarrow> desk \<Rightarrow> execution_mode \<Rightarrow> int option \<Rightarrow> market_spec \<Rightarrow> branch res list" where
  "sx_branches e d mode gen m =
     (let slip = second_venue_slippage_pct e; pool = m_predict_fun_amm_pool m
      in [slot_branch e d mode gen ''predict_sx'' ''Predict.fun'' ''SX Bet''
            (m_venue_a_label m = ''Predict.fun'' \<and> m_venue_b_label m = ''SX Bet'' \<and>
             m_polymarket_token_id m \<noteq> [] \<and> m_predict_fun_token_id m \<noteq> [])
            (min (slip ''Predict.fun'') (slip ''SX Bet'')) pool None m,
          derived_branch e d mode gen ''sx_myriad'' ''SX Bet'' (m_predict_fun_neg_risk m) pool m])"

definition opinion_branches :: "engine_config \<Rightarrow> desk \<Rightarrow> execution_mode \<Rightarrow> int option \<Rightarrow> market_spec \<Rightarrow> branch res list" where
  "opinion_branches e d mode gen m =
     (let slip = second_venue_slippage_pct e; both = m_polymarket_token_id m \<noteq> [] \<and> m_predict_fun_token_id m \<noteq> []
      in [slot_branch e d mode gen ''polymarket_opinion'' ''Polymarket'' ''Opinion'' both (slip ''Opinion'') None None m,
          slot_branch e d mode gen ''predict_opinion'' ''Predict.fun'' ''Opinion'' both
            (min (slip ''Predict.fun'') (slip ''Opinion'')) (m_predict_fun_amm_pool m) None m,
          slot_branch e d mode gen ''sx_opinion'' ''SX Bet'' ''Opinion'' both
            (min (slip ''SX Bet'') (slip ''Opinion'')) None None m,
          derived_branch e d mode gen ''opinion_myriad'' ''Opinion'' None None m])"

definition route_branches :: "engine_config \<Rightarrow> desk \<Rightarrow> execution_mode \<Rightarrow> int option \<Rightarrow> market_spec \<Rightarrow> branch res list" where
  "route_branches e d mode gen m =
     predict_branches e d mode gen m @ sx_branches e d mode gen m @ opinion_branches e d mode gen m"

lemmas branch_groups = route_branches_def predict_branches_def sx_branches_def opinion_branches_def Let_def

fun run_branches :: "branch res list \<Rightarrow> planned list res" where
  "run_branches [] = Inr []"
| "run_branches (b # bs) = rbind b (\<lambda>x. case x of
     Continue \<Rightarrow> Inr []
   | Nothing \<Rightarrow> run_branches bs
   | Planned p \<Rightarrow> rbind (run_branches bs) (\<lambda>ps. Inr (p # ps)))"

definition plan_markets :: "engine_config \<Rightarrow> desk \<Rightarrow> bool \<Rightarrow> int option \<Rightarrow> market_spec list \<Rightarrow> planned list res" where
  "plan_markets e d stopped gen ms =
     rbind (rmap (\<lambda>m. run_branches (route_branches e d (mapping_eligibility_mode e d stopped) gen m)) ms)
       (\<lambda>pss. Inr (concat pss))"

section \<open>Subscriptions\<close>

definition add_targets :: "(string \<times> string) list \<Rightarrow> (string, string set) dict \<Rightarrow> (string, string set) dict" where
  "add_targets ts d = foldl (\<lambda>d (venue, token). dict_set venue (insert token (get_or d venue {})) d) d ts"

text \<open>
  What one market adds for one route: nothing, or the tokens of its two legs. The Opinion routes ask
  for the connector of Opinion only.
\<close>

definition slot_targets :: "engine_config \<Rightarrow> desk \<Rightarrow> execution_mode \<Rightarrow> string \<Rightarrow> string list \<Rightarrow> string \<Rightarrow> string \<Rightarrow> bool \<Rightarrow>
    market_spec \<Rightarrow> (string \<times> string) list res" where
  "slot_targets e d mode route clients a b extra m =
     rbind (admits e d mode route clients extra m) (\<lambda>router.
       Inr (if router = None then [] else [(a, m_polymarket_token_id m), (b, m_predict_fun_token_id m)]))"

definition derived_targets :: "engine_config \<Rightarrow> desk \<Rightarrow> execution_mode \<Rightarrow> string \<Rightarrow> string \<Rightarrow> market_spec \<Rightarrow>
    (string \<times> string) list res" where
  "derived_targets e d mode route a m =
     rbind (admits e d mode route [a, ''Myriad'']
         (m_predict_fun_token_id m \<noteq> [] \<and> truthy (m_myriad_market_id m) \<and> m_venue_b_label m = a) m) (\<lambda>router.
       if router = None then Inr []
       else rbind (myriad_execution_token_for_route m route) (\<lambda>token.
         Inr ((a, m_predict_fun_token_id m) # (case token of Some t \<Rightarrow> if t = [] then [] else [(''Myriad'', t)] | None \<Rightarrow> []))))"

definition route_targets :: "engine_config \<Rightarrow> desk \<Rightarrow> execution_mode \<Rightarrow> market_spec \<Rightarrow> (string \<times> string) list res list" where
  "route_targets e d mode m =
     (let first = m_polymarket_token_id m \<noteq> []; second = m_predict_fun_token_id m \<noteq> []; a = m_venue_a_label m; b = m_venue_b_label m
      in [slot_targets e d mode ''polymarket_predict'' [''Polymarket'', ''Predict.fun''] ''Polymarket'' ''Predict.fun'' (first \<and> second \<and> b = ''Predict.fun'') m,
          slot_targets e d mode ''polymarket_sx'' [''Polymarket'', ''SX Bet''] ''Polymarket'' ''SX Bet'' (first \<and> second \<and> a = ''Polymarket'' \<and> b = ''SX Bet'') m,
          rbind (admits e d mode ''polymarket_myriad'' [''Polymarket'', ''Myriad''] (first \<and> truthy (m_myriad_market_id m)) m)
            (\<lambda>router. Inr (if router = None then [] else [(''Polymarket'', m_polymarket_token_id m),
               (''Myriad'', the (m_myriad_market_id m) @ '':'' @ side_value (m_myriad_side m))])),
          derived_targets e d mode ''predict_myriad'' ''Predict.fun'' m,
          slot_targets e d mode ''predict_sx'' [''Predict.fun'', ''SX Bet''] ''Predict.fun'' ''SX Bet'' (a = ''Predict.fun'' \<and> b = ''SX Bet'' \<and> first \<and> second) m,
          derived_targets e d mode ''sx_myriad'' ''SX Bet'' m,
          slot_targets e d mode ''polymarket_opinion'' [''Opinion''] ''Polymarket'' ''Opinion'' (first \<and> second) m,
          slot_targets e d mode ''predict_opinion'' [''Opinion''] ''Predict.fun'' ''Opinion'' (first \<and> second) m,
          slot_targets e d mode ''sx_opinion'' [''Opinion''] ''SX Bet'' ''Opinion'' (first \<and> second) m,
          derived_targets e d mode ''opinion_myriad'' ''Opinion'' m])"

definition active_market_data_targets :: "engine_config \<Rightarrow> desk \<Rightarrow> bool \<Rightarrow> market_spec list \<Rightarrow> (string, string set) dict res" where
  "active_market_data_targets e d stopped ms =
     rbind (rmap (\<lambda>m. rbind (rmap (\<lambda>t. t) (route_targets e d (mapping_eligibility_mode e d stopped) m)) (\<lambda>ts. Inr (concat ts))) ms)
       (\<lambda>tss. Inr (add_targets (concat tss) []))"

section \<open>Lemmas\<close>

subsection \<open>A branch\<close>

text \<open>What a plan promises to the evaluation, to the mappings and to the monitor of positions.\<close>

definition sound_plan :: "desk \<Rightarrow> execution_mode \<Rightarrow> market_spec \<Rightarrow> planned \<Rightarrow> bool" where
  "sound_plan d mode m x \<longleftrightarrow> (let p = ev_run x; a = pp_first_label p; b = pp_second_label p; pm = pp_market p in
     route_venue_labels (ev_route x) = Inr (a, b) \<and> is_live_mapping_eligible m mode (Some (ev_route x)) \<and>
     m_venue_a_label pm = a \<and> m_venue_b_label pm = b \<and>
     pp_first_token p = m_polymarket_token_id pm \<and> pp_second_token p = m_predict_fun_token_id pm \<and>
     pp_first_side p = m_polymarket_side pm \<and> pp_second_side p = m_predict_fun_side pm \<and>
     ev_targets x = [(a, pp_first_token p), (b, pp_second_token p)] \<and> pp_first_token p \<noteq> [] \<and> pp_second_token p \<noteq> [] \<and>
     pp_first_side p \<noteq> pp_second_side p \<and>
     dict_get (dk_routers d) (ev_route x) = Some (pp_router p) \<and> has_client d a \<and> has_client d b)"

lemma admits_Some:
  assumes "admits e d mode route clients extra m = Inr (Some rs)"
  shows "\<forall>c \<in> set clients. has_client d c" "dict_get (dk_routers d) route = Some rs"
    "market_supports_execution_route m route = Inr True" "extra"
    "route_execution_sides_are_complementary m route = Inr True" "is_live_mapping_eligible m mode (Some route)"
    "route_flag (en_routes e) route"
  using assms by (auto simp: admits_def configured_router_def rbind_Inr_iff list_all_iff split: option.splits if_splits)

lemma supports_slots:
  assumes "route \<in> set GENERIC_SLOT_ROUTES" and "route_venue_labels route = Inr (a, b)"
  shows "market_supports_execution_route m route = Inr (m_venue_a_label m = a \<and> m_venue_b_label m = b \<and>
    m_polymarket_token_id m \<noteq> [] \<and> m_predict_fun_token_id m \<noteq> [])"
proof -
  have "route \<notin> set MYRIAD_ROUTES" using routes_partition(2) assms(1) by blast
  then show ?thesis using assms by (simp add: market_supports_execution_route_def MYRIAD_ROUTES_def)
qed

lemma complementary_slots:
  assumes "route \<in> set GENERIC_SLOT_ROUTES"
  shows "route_execution_sides_are_complementary m route = Inr (m_polymarket_side m \<noteq> m_predict_fun_side m)"
proof -
  have "route \<notin> set MYRIAD_ROUTES" using routes_partition(2) assms by blast
  then show ?thesis using assms by (simp add: route_execution_sides_are_complementary_def MYRIAD_ROUTES_def)
qed

lemma slot_sound:
  assumes "slot_branch e d mode gen route a b extra slippage pool1 pool2 m = Inr (Planned x)"
    and "route \<in> set GENERIC_SLOT_ROUTES" and "route_venue_labels route = Inr (a, b)" and "route_key a b = route"
  shows "sound_plan d mode m x"
proof -
  obtain rs where rs: "admits e d mode route [a, b] extra m = Inr (Some rs)"
    "x = plan_polymarket_pair (slot_plan m rs a b slippage pool1 pool2 gen)"
    using assms(1) by (auto simp: slot_branch_def rbind_Inr_iff split: option.splits)
  show ?thesis
    using admits_Some [OF rs(1)] assms(3,4)
    by (simp add: sound_plan_def rs(2) plan_polymarket_pair_def slot_plan_def supports_slots [OF assms(2,3)]
        complementary_slots [OF assms(2)] Let_def)
qed

lemma polymarket_myriad_sound:
  assumes "polymarket_myriad_branch e d mode gen m = Inr (Planned x)"
  shows "sound_plan d mode m x"
proof -
  let ?token = "the (m_myriad_market_id m) @ '':'' @ side_value (m_myriad_side m)"
  obtain rs where rs: "admits e d mode ''polymarket_myriad'' [''Polymarket'', ''Myriad''] (truthy (m_myriad_market_id m)) m = Inr (Some rs)"
    "x = plan_polymarket_pair (slot_plan (polymarket_myriad_market m ?token) rs ''Polymarket'' ''Myriad'' (en_myriad_slippage e) None None gen)"
    using assms by (auto simp: polymarket_myriad_branch_def rbind_Inr_iff Let_def split: option.splits)
  have key: "route_key ''Polymarket'' ''Myriad'' = ''polymarket_myriad''"
    "route_venue_labels ''polymarket_myriad'' = Inr (''Polymarket'', ''Myriad'')" by code_simp+
  show ?thesis
    using admits_Some [OF rs(1)]
    by (simp add: sound_plan_def rs(2) plan_polymarket_pair_def slot_plan_def polymarket_myriad_market_def Let_def key
        market_supports_execution_route_def route_execution_sides_are_complementary_def myriad_execution_side_for_route_def)
qed

definition DERIVED_ROUTES :: "string list" where
  "DERIVED_ROUTES = [''predict_myriad'', ''sx_myriad'', ''opinion_myriad'']"

lemma derived_facts:
  assumes "route \<in> set DERIVED_ROUTES" and "route_venue_labels route = Inr (a, b)"
  shows "market_supports_execution_route m route =
      Inr (m_venue_b_label m = a \<and> m_predict_fun_token_id m \<noteq> [] \<and> truthy (m_myriad_market_id m))"
    "route_execution_sides_are_complementary m route = Inr (truthy (m_myriad_market_id m) \<and> m_myriad_side m = m_predict_fun_side m)"
    "myriad_execution_token_for_route m route = Inr (if truthy (m_myriad_market_id m)
      then Some (the (m_myriad_market_id m) @ '':'' @ side_value (opposite_binary_side (m_predict_fun_side m))) else None)"
  using assms
  by (auto simp: DERIVED_ROUTES_def market_supports_execution_route_def MYRIAD_ROUTES_def route_execution_sides_are_complementary_def
      myriad_execution_token_for_route_def myriad_execution_side_for_route_def truthy_def split: option.splits)

lemma token_side_of: "token_side (mid @ CHR '':'' # side_value s) = Inr s"
  by (cases s) (simp_all add: token_side_def side_value_def j_side_def)

lemma derived_sound:
  assumes "derived_branch e d mode gen route a neg_risk pool m = Inr (Planned x)"
    and "route \<in> set DERIVED_ROUTES" and "route_venue_labels route = Inr (a, ''Myriad'')" and "route_key a ''Myriad'' = route"
  shows "sound_plan d mode m x"
proof -
  let ?s = "opposite_binary_side (m_predict_fun_side m)"
  let ?t = "the (m_myriad_market_id m) @ '':'' @ side_value ?s"
  obtain rs where rs: "admits e d mode route [a, ''Myriad'']
      (m_predict_fun_token_id m \<noteq> [] \<and> truthy (m_myriad_market_id m) \<and> m_venue_b_label m = a) m = Inr (Some rs)"
    "x = plan_polymarket_pair (slot_plan (derived_market m a ?t ?s neg_risk) rs a ''Myriad''
       (min (second_venue_slippage_pct e a) (en_myriad_slippage e)) pool None gen)"
    using assms(1) by (auto simp: derived_branch_def rbind_Inr_iff derived_facts [OF assms(2,3)] token_side_of split: option.splits if_splits)
  show ?thesis
    using admits_Some [OF rs(1)] assms(3,4)
    by (simp add: sound_plan_def rs(2) plan_polymarket_pair_def slot_plan_def derived_market_def Let_def binary_side_neq_iff)
qed

subsection \<open>All branches of a market\<close>

lemma route_branches_sound:
  assumes "b \<in> set (route_branches e d mode gen m)" and "b = Inr (Planned x)"
  shows "sound_plan d mode m x"
proof -
  have keys: "route_key ''Polymarket'' ''Predict.fun'' = ''polymarket_predict''" "route_key ''Polymarket'' ''SX Bet'' = ''polymarket_sx''"
    "route_key ''Predict.fun'' ''SX Bet'' = ''predict_sx''" "route_key ''Polymarket'' ''Opinion'' = ''polymarket_opinion''"
    "route_key ''Predict.fun'' ''Opinion'' = ''predict_opinion''" "route_key ''SX Bet'' ''Opinion'' = ''sx_opinion''"
    "route_key ''Predict.fun'' ''Myriad'' = ''predict_myriad''" "route_key ''SX Bet'' ''Myriad'' = ''sx_myriad''"
    "route_key ''Opinion'' ''Myriad'' = ''opinion_myriad''" by code_simp+
  have labels: "route_venue_labels ''polymarket_predict'' = Inr (''Polymarket'', ''Predict.fun'')"
    "route_venue_labels ''polymarket_sx'' = Inr (''Polymarket'', ''SX Bet'')" "route_venue_labels ''predict_sx'' = Inr (''Predict.fun'', ''SX Bet'')"
    "route_venue_labels ''polymarket_opinion'' = Inr (''Polymarket'', ''Opinion'')"
    "route_venue_labels ''predict_opinion'' = Inr (''Predict.fun'', ''Opinion'')" "route_venue_labels ''sx_opinion'' = Inr (''SX Bet'', ''Opinion'')"
    "route_venue_labels ''predict_myriad'' = Inr (''Predict.fun'', ''Myriad'')" "route_venue_labels ''sx_myriad'' = Inr (''SX Bet'', ''Myriad'')"
    "route_venue_labels ''opinion_myriad'' = Inr (''Opinion'', ''Myriad'')" by code_simp+
  have members: "set GENERIC_SLOT_ROUTES = {''polymarket_predict'', ''predict_sx'', ''polymarket_sx'', ''polymarket_opinion'',
      ''predict_opinion'', ''sx_opinion''}" "set DERIVED_ROUTES = {''predict_myriad'', ''sx_myriad'', ''opinion_myriad''}"
    by (simp_all only: GENERIC_SLOT_ROUTES_def DERIVED_ROUTES_def list.set)
  note slots = slot_sound [OF _ _ labels(1) keys(1)] slot_sound [OF _ _ labels(2) keys(2)] slot_sound [OF _ _ labels(3) keys(3)]
    slot_sound [OF _ _ labels(4) keys(4)] slot_sound [OF _ _ labels(5) keys(5)] slot_sound [OF _ _ labels(6) keys(6)]
  note derived = derived_sound [OF _ _ labels(7) keys(7)] derived_sound [OF _ _ labels(8) keys(8)] derived_sound [OF _ _ labels(9) keys(9)]
  from assms(1) show ?thesis
    unfolding branch_groups append.simps list.set insert_iff empty_iff assms(2)
    by (elim disjE FalseE) (drule sym, (erule slots derived polymarket_myriad_sound, (simp add: members)?))+
qed

lemma run_branches_mem:
  "run_branches bs = Inr xs \<Longrightarrow> x \<in> set xs \<Longrightarrow> Inr (Planned x) \<in> set bs"
proof (induction bs arbitrary: xs)
  case (Cons b bs)
  then obtain y where "b = Inr y" by (auto simp: rbind_Inr_iff)
  with Cons show ?case by (cases y) (auto simp: rbind_Inr_iff)
qed simp

lemma plan_markets_mem:
  assumes "plan_markets e d stopped gen ms = Inr ps" and "x \<in> set ps"
  shows "\<exists>m \<in> set ms. sound_plan d (mapping_eligibility_mode e d stopped) m x"
proof -
  let ?f = "\<lambda>m. run_branches (route_branches e d (mapping_eligibility_mode e d stopped) gen m)"
  have mem: "rmap ?f ms = Inr pss \<Longrightarrow> p \<in> set pss \<Longrightarrow> \<exists>m \<in> set ms. ?f m = Inr p" for pss p
    by (induction ms arbitrary: pss) (auto simp: rbind_Inr_iff)
  from assms obtain pss p where "rmap ?f ms = Inr pss" "p \<in> set pss" "x \<in> set p"
    by (auto simp: plan_markets_def rbind_Inr_iff)
  with mem obtain m where "m \<in> set ms" "?f m = Inr p" by blast
  with \<open>x \<in> set p\<close> run_branches_mem route_branches_sound show ?thesis by blast
qed

subsection \<open>Branches and subscriptions\<close>

fun branch_targets :: "branch \<Rightarrow> (string \<times> string) list" where
  "branch_targets (Planned x) = ev_targets x"
| "branch_targets Nothing = []"
| "branch_targets Continue = []"

text \<open>Routers are built only together with the connectors of their two legs.\<close>

definition routers_connected :: "desk \<Rightarrow> bool" where
  "routers_connected d \<longleftrightarrow> (\<forall>route a b. route_venue_labels route = Inr (a, b) \<and> dict_get (dk_routers d) route \<noteq> None \<longrightarrow>
     has_client d a \<and> has_client d b)"

text \<open>A branch and the subscription of its route agree, and no branch ends the work on a market.\<close>

definition agrees :: "(string \<times> string) list res \<Rightarrow> branch res \<Rightarrow> bool" where
  "agrees t b \<longleftrightarrow> (\<exists>x. b = Inr x \<and> x \<noteq> Continue \<and> t = Inr (branch_targets x))"

lemma admits_total:
  assumes "route \<in> set EXECUTION_ROUTES"
  shows "\<exists>r. admits e d mode route clients extra m = Inr r"
proof -
  consider "route = ''polymarket_myriad''" | "route \<in> set DERIVED_ROUTES" | "route \<in> set GENERIC_SLOT_ROUTES"
    using assms routes_partition(1) by (auto simp: MYRIAD_ROUTES_def DERIVED_ROUTES_def)
  moreover obtain a b where labels: "route_venue_labels route = Inr (a, b)" using assms route_venue_labels_ok by fastforce
  ultimately have "(\<exists>s. market_supports_execution_route m route = Inr s) \<and> (\<exists>c. route_execution_sides_are_complementary m route = Inr c)"
  proof cases
    case 1
    then show ?thesis
      by (auto simp: market_supports_execution_route_def route_execution_sides_are_complementary_def myriad_execution_side_for_route_def
          intro: exI [of _ False])
  next
    case 2
    with labels show ?thesis using derived_facts by blast
  next
    case 3
    with labels show ?thesis using supports_slots complementary_slots by blast
  qed
  then show ?thesis by (auto simp: admits_def split: option.split)
qed

lemma admits_cong:
  assumes "configured_router d route clients = configured_router d route clients'"
    and "market_supports_execution_route m route = Inr True \<Longrightarrow> extra = extra'"
  shows "admits e d mode route clients extra m = admits e d mode route clients' extra' m"
proof (cases "market_supports_execution_route m route")
  case (Inr s)
  show ?thesis unfolding admits_def assms(1) Inr using assms(2) Inr by (cases s) (auto split: option.split)
qed (simp add: admits_def assms(1) split: option.split)

lemma slot_agrees:
  assumes "route \<in> set GENERIC_SLOT_ROUTES" and "route_venue_labels route = Inr (a, b)" and "route_key a b = route"
    and "configured_router d route clients = configured_router d route [a, b]"
    and "m_venue_a_label m = a \<and> m_venue_b_label m = b \<and> m_polymarket_token_id m \<noteq> [] \<and> m_predict_fun_token_id m \<noteq> [] \<Longrightarrow> extra = extra'"
  shows "agrees (slot_targets e d mode route clients a b extra' m) (slot_branch e d mode gen route a b extra slippage pool1 pool2 m)"
proof -
  have "route \<in> set EXECUTION_ROUTES" using assms(1) routes_partition(1) by blast
  then obtain r where r: "admits e d mode route [a, b] extra m = Inr r" using admits_total by blast
  have "admits e d mode route clients extra' m = Inr r"
    using r admits_cong [OF assms(4), of m extra' extra e mode] assms(5) by (simp add: supports_slots [OF assms(1,2)])
  with r show ?thesis
    by (cases r) (simp_all add: agrees_def slot_targets_def slot_branch_def plan_polymarket_pair_def slot_plan_def)
qed

lemma derived_agrees:
  assumes "route \<in> set DERIVED_ROUTES" and "route_venue_labels route = Inr (a, ''Myriad'')" and "route_key a ''Myriad'' = route"
  shows "agrees (derived_targets e d mode route a m) (derived_branch e d mode gen route a neg_risk pool m)"
proof -
  have "route \<in> set EXECUTION_ROUTES" using assms(1) by (auto simp: DERIVED_ROUTES_def EXECUTION_ROUTES_def)
  then obtain r where r: "admits e d mode route [a, ''Myriad'']
      (m_predict_fun_token_id m \<noteq> [] \<and> truthy (m_myriad_market_id m) \<and> m_venue_b_label m = a) m = Inr r" using admits_total by blast
  show ?thesis
  proof (cases r)
    case None
    with r show ?thesis by (simp add: agrees_def derived_targets_def derived_branch_def)
  next
    case (Some rs)
    with r have "truthy (m_myriad_market_id m)" using admits_Some(4) [OF r [unfolded Some]] by simp
    with r Some show ?thesis
      by (simp add: agrees_def derived_targets_def derived_branch_def derived_facts [OF assms(1,2)] token_side_of
          plan_polymarket_pair_def slot_plan_def derived_market_def)
  qed
qed

lemma polymarket_myriad_agrees:
  "agrees (rbind (admits e d mode ''polymarket_myriad'' [''Polymarket'', ''Myriad'']
       (m_polymarket_token_id m \<noteq> [] \<and> truthy (m_myriad_market_id m)) m)
     (\<lambda>router. Inr (if router = None then [] else [(''Polymarket'', m_polymarket_token_id m),
        (''Myriad'', the (m_myriad_market_id m) @ '':'' @ side_value (m_myriad_side m))])))
   (polymarket_myriad_branch e d mode gen m)"
proof -
  have "''polymarket_myriad'' \<in> set EXECUTION_ROUTES" by (simp add: EXECUTION_ROUTES_def)
  then obtain r where r: "admits e d mode ''polymarket_myriad'' [''Polymarket'', ''Myriad''] (truthy (m_myriad_market_id m)) m = Inr r"
    using admits_total by blast
  have "admits e d mode ''polymarket_myriad'' [''Polymarket'', ''Myriad''] (m_polymarket_token_id m \<noteq> [] \<and> truthy (m_myriad_market_id m)) m = Inr r"
    by (subst r [symmetric], rule admits_cong) (simp_all add: market_supports_execution_route_def)
  with r show ?thesis
    by (cases r) (simp_all add: agrees_def polymarket_myriad_branch_def Let_def plan_polymarket_pair_def slot_plan_def
        polymarket_myriad_market_def)
qed

lemma configured_opinion:
  assumes "routers_connected d" and "route_venue_labels route = Inr (a, ''Opinion'')"
  shows "configured_router d route [''Opinion''] = configured_router d route [a, ''Opinion'']"
  using assms by (cases "dict_get (dk_routers d) route") (auto simp: configured_router_def routers_connected_def)

lemma route_targets_agree:
  assumes "routers_connected d"
  shows "list_all2 agrees (route_targets e d mode m) (route_branches e d mode gen m)"
proof -
  have members: "set GENERIC_SLOT_ROUTES = {''polymarket_predict'', ''predict_sx'', ''polymarket_sx'', ''polymarket_opinion'',
      ''predict_opinion'', ''sx_opinion''}" "set DERIVED_ROUTES = {''predict_myriad'', ''sx_myriad'', ''opinion_myriad''}"
    by (simp_all only: GENERIC_SLOT_ROUTES_def DERIVED_ROUTES_def list.set)
  have labels: "route_venue_labels ''polymarket_opinion'' = Inr (''Polymarket'', ''Opinion'')"
    "route_venue_labels ''predict_opinion'' = Inr (''Predict.fun'', ''Opinion'')"
    "route_venue_labels ''sx_opinion'' = Inr (''SX Bet'', ''Opinion'')" by code_simp+
  note opinion = configured_opinion [OF assms labels(1)] configured_opinion [OF assms labels(2)] configured_opinion [OF assms labels(3)]
  show ?thesis
    unfolding route_targets_def branch_groups append.simps list.rel_inject list_all2_Cons list_all2_Nil
  proof (intro conjI, goal_cases)
    case 1 show ?case by (rule slot_agrees) (simp add: members, code_simp, code_simp, simp, simp)
  next
    case 2 show ?case by (rule slot_agrees) (simp add: members, code_simp, code_simp, simp, simp)
  next
    case 3 show ?case by (rule polymarket_myriad_agrees [unfolded append.simps])
  next
    case 4 show ?case by (rule derived_agrees) (simp add: members, code_simp, code_simp)
  next
    case 5 show ?case by (rule slot_agrees) (simp add: members, code_simp, code_simp, simp, simp)
  next
    case 6 show ?case by (rule derived_agrees) (simp add: members, code_simp, code_simp)
  next
    case 7 show ?case by (rule slot_agrees) (simp add: members, rule labels, code_simp, rule opinion, simp)
  next
    case 8 show ?case by (rule slot_agrees) (simp add: members, rule labels, code_simp, rule opinion, simp)
  next
    case 9 show ?case by (rule slot_agrees) (simp add: members, rule labels, code_simp, rule opinion, simp)
  next
    case 10 show ?case by (rule derived_agrees) (simp add: members, code_simp, code_simp)
  qed simp
qed

lemma branches_give_targets:
  assumes "list_all2 agrees ts bs"
  shows "\<exists>ps tss. run_branches bs = Inr ps \<and> rmap (\<lambda>t. t) ts = Inr tss \<and> concat tss = concat (map ev_targets ps)"
  using assms
proof (induction rule: list_all2_induct)
  case (Cons t ts b bs)
  then obtain x ps tss where "b = Inr x" "x \<noteq> Continue" "t = Inr (branch_targets x)" "run_branches bs = Inr ps"
    "rmap (\<lambda>t. t) ts = Inr tss" "concat tss = concat (map ev_targets ps)" by (auto simp: agrees_def)
  then show ?case by (cases x) auto
qed simp

lemma add_targets_get:
  "get_or (add_targets ts []) venue {} = {token. (venue, token) \<in> set ts}"
proof (induction ts rule: rev_induct)
  case (snoc p ts)
  then show ?case by (cases p) (simp add: add_targets_def get_or_simps, blast)
qed (simp add: add_targets_def)

text \<open>Planning and the direct subscription never raise, and the subscription holds the targets of the plans.\<close>

lemma plans_and_targets:
  assumes "routers_connected d"
  shows "\<exists>ps t. plan_markets e d stopped gen ms = Inr ps \<and> active_market_data_targets e d stopped ms = Inr (add_targets t []) \<and>
    t = concat (map ev_targets ps)"
proof -
  let ?mode = "mapping_eligibility_mode e d stopped"
  have "\<exists>pss tss. rmap (\<lambda>m. run_branches (route_branches e d ?mode gen m)) ms = Inr pss \<and>
      rmap (\<lambda>m. rbind (rmap (\<lambda>t. t) (route_targets e d ?mode m)) (\<lambda>ts. Inr (concat ts))) ms = Inr tss \<and>
      concat tss = concat (map ev_targets (concat pss))"
  proof (induction ms)
    case (Cons m ms)
    then obtain pss tss where ih: "rmap (\<lambda>m. run_branches (route_branches e d ?mode gen m)) ms = Inr pss"
      "rmap (\<lambda>m. rbind (rmap (\<lambda>t. t) (route_targets e d ?mode m)) (\<lambda>ts. Inr (concat ts))) ms = Inr tss"
      "concat tss = concat (map ev_targets (concat pss))" by blast
    obtain ps ts where "run_branches (route_branches e d ?mode gen m) = Inr ps" "rmap (\<lambda>t. t) (route_targets e d ?mode m) = Inr ts"
      "concat ts = concat (map ev_targets ps)"
      using branches_give_targets [OF route_targets_agree [OF assms]] by blast
    with ih show ?case by simp
  qed simp
  then show ?thesis by (auto simp: plan_markets_def active_market_data_targets_def)
qed

section \<open>Properties\<close>

text \<open>C33. What the engine plans, the monitor can close: every planned evaluation trades complementary sides
  with two real tokens on a route that the mapping of its market allows, and a position on its
  market is given to the router that opens it, with the connectors of the same two venues.\<close>

theorem planned_pairs_are_monitored:
  assumes "plan_markets e d stopped gen ms = Inr ps" and "x \<in> set ps"
  shows "\<exists>m \<in> set ms. is_live_mapping_eligible m (mapping_eligibility_mode e d stopped) (Some (ev_route x)) \<and>
      (let p = ev_run x in
       pp_first_token p \<noteq> [] \<and> pp_second_token p \<noteq> [] \<and> pp_first_side p \<noteq> pp_second_side p \<and>
       m_polymarket_token_id (pp_market p) = pp_first_token p \<and> m_predict_fun_token_id (pp_market p) = pp_second_token p \<and>
       dict_get (dk_routers d) (ev_route x) = Some (pp_router p) \<and>
       (\<forall>pos. p_market pos = pp_market p \<longrightarrow>
         route_for_position d pos = Some (pp_router p, pp_first_label p, pp_second_label p)))"
proof -
  obtain m where m: "m \<in> set ms" "sound_plan d (mapping_eligibility_mode e d stopped) m x"
    using plan_markets_mem [OF assms] by blast
  let ?p = "ev_run x"
  have route: "route_venue_labels (ev_route x) = Inr (pp_first_label ?p, pp_second_label ?p)"
    "dict_get (dk_routers d) (ev_route x) = Some (pp_router ?p)" "has_client d (pp_first_label ?p)" "has_client d (pp_second_label ?p)"
    "m_venue_a_label (pp_market ?p) = pp_first_label ?p" "m_venue_b_label (pp_market ?p) = pp_second_label ?p"
    using m(2) by (simp_all add: sound_plan_def Let_def)
  have "route_for_position d pos = Some (pp_router ?p, pp_first_label ?p, pp_second_label ?p)" if "p_market pos = pp_market ?p" for pos
    by (rule own_router_first [OF route(1-4)]) (simp_all add: that route(5,6))
  with m show ?thesis by (auto simp: sound_plan_def Let_def)
qed

definition sample_desk :: desk where
  "sample_desk = \<lparr>dk_clients = [''Predict.fun''], dk_routers = [(''polymarket_predict'', sample_setup)]\<rparr>"

definition sample_engine :: engine_config where
  "sample_engine = \<lparr>en_mode = SHADOW, en_shadow_require_verified = False, en_routes = sample_routes, en_funded = [],
     en_predict_slippage = 1 / 64, en_sx_slippage = 1 / 64, en_opinion_slippage = 1 / 64, en_myriad_slippage = 1 / 64\<rparr>"

lemma sample_engine_mode: "mapping_eligibility_mode sample_engine sample_desk False = SHADOW"
  by (simp add: mapping_eligibility_mode_def sample_engine_def has_paused_execution_router_def list_ex_iff)

lemma sample_flags: "route_flag sample_routes r \<longleftrightarrow> r = ''polymarket_predict''"
  by (auto simp: route_flag_def route_fields_def sample_routes_def)

lemma sample_plan_made:
  "plan_markets sample_engine sample_desk False None [verified_market] =
    Inr [plan_polymarket_pair (slot_plan verified_market sample_setup ''Polymarket'' ''Predict.fun'' (1 / 64) None
      (m_predict_fun_amm_pool verified_market) None)]"
proof -
  have closed: "admits sample_engine sample_desk SHADOW r cs ex verified_market = Inr None" if "r \<noteq> ''polymarket_predict''" for r cs ex
    using that by (simp add: admits_def sample_engine_def sample_flags)
  have supports: "market_supports_execution_route verified_market ''polymarket_predict'' = Inr True"
    by (simp add: market_supports_execution_route_def MYRIAD_ROUTES_def GENERIC_SLOT_ROUTES_def route_venue_labels_def
        ROUTE_VENUE_LABELS_def dict_get_def)
  have sides: "route_execution_sides_are_complementary verified_market ''polymarket_predict'' = Inr True"
    by (simp add: route_execution_sides_are_complementary_def GENERIC_SLOT_ROUTES_def)
  have "admits sample_engine sample_desk SHADOW ''polymarket_predict'' [''Polymarket'', ''Predict.fun''] True verified_market =
      Inr (Some sample_setup)"
    by (simp add: admits_def sample_engine_def sample_flags entry_route_enabled_def configured_router_def sample_desk_def has_client_def
        supports sides is_live_mapping_eligible_def submits_orders_def dict_get_def)
  then show ?thesis
    by (simp add: plan_markets_def sample_engine_mode branch_groups slot_branch_def derived_branch_def polymarket_myriad_branch_def
        closed Let_def second_venue_slippage_pct_def) (simp add: sample_engine_def)
qed

theorem planned_pairs_are_monitored_witness:
  "\<exists>x. plan_markets sample_engine sample_desk False None [verified_market] = Inr [x] \<and>
    route_for_position sample_desk (sample_position\<lparr>p_market := pp_market (ev_run x)\<rparr>) =
      Some (sample_setup, ''Polymarket'', ''Predict.fun'')"
proof -
  let ?x = "plan_polymarket_pair (slot_plan verified_market sample_setup ''Polymarket'' ''Predict.fun'' (1 / 64) None
      (m_predict_fun_amm_pool verified_market) None)"
  have "route_for_position sample_desk (sample_position\<lparr>p_market := pp_market (ev_run ?x)\<rparr>) =
      Some (pp_router (ev_run ?x), pp_first_label (ev_run ?x), pp_second_label (ev_run ?x))"
    using planned_pairs_are_monitored [OF sample_plan_made, of ?x] by (auto simp: Let_def)
  then show ?thesis using sample_plan_made by (auto simp: plan_polymarket_pair_def slot_plan_def)
qed

text \<open>C34. The subscription that the engine computes from the markets is the one of its plans: neither
  computation raises, and for every venue the subscribed tokens are exactly the targets of the
  planned evaluations, when routers come with the connectors of their two legs.\<close>

theorem subscriptions_follow_plans:
  assumes "routers_connected d"
  shows "\<exists>ps ts. plan_markets e d stopped gen ms = Inr ps \<and> active_market_data_targets e d stopped ms = Inr ts \<and>
    (\<forall>venue. get_or ts venue {} = get_or (targets_for_evaluations ps) venue {})"
proof -
  obtain ps where ps: "plan_markets e d stopped gen ms = Inr ps"
    "active_market_data_targets e d stopped ms = Inr (add_targets (concat (map ev_targets ps)) [])"
    using plans_and_targets [OF assms] by blast
  have "token \<noteq> []" if "x \<in> set ps" "(venue, token) \<in> set (ev_targets x)" for x venue token
    using plan_markets_mem [OF ps(1) that(1)] that(2) by (auto simp: sound_plan_def Let_def)
  then have "get_or (add_targets (concat (map ev_targets ps)) []) venue {} = get_or (targets_for_evaluations ps) venue {}" for venue
    by (auto simp: add_targets_get targets_for_evaluations_get)
  with ps show ?thesis by blast
qed

theorem subscriptions_follow_plans_witness:
  "\<exists>ps ts. plan_markets sample_engine sample_desk False None [verified_market] = Inr ps \<and>
    active_market_data_targets sample_engine sample_desk False [verified_market] = Inr ts \<and>
    get_or ts ''Polymarket'' {} = get_or (targets_for_evaluations ps) ''Polymarket'' {}"
proof -
  have "routers_connected sample_desk"
    by (auto simp: routers_connected_def sample_desk_def has_client_def dict_get_def route_venue_labels_def ROUTE_VENUE_LABELS_def
        split: if_splits)
  from subscriptions_follow_plans [OF this] show ?thesis by blast
qed

end
