(* ===== verification/Engine.thy ===== *)
theory Engine
  imports Route_Plans "HOL-Library.Product_Lexorder"
begin

text \<open>
  The cycle of \<^verbatim>\<open>engine.py\<close>: from the selected evaluations to the signals that the routers get. Books,
  constraints and fees are inputs; the evaluations of a cycle, which the code gathers, run one after
  the other. The lemmas show that a signal pays for itself, that a stopped or unready engine opens
  nothing, and that no subscription of an open position is dropped.
\<close>

section \<open>State\<close>

type_synonym book_key = "flt option \<times> int option \<times> string option"
type_synonym pool_key = "flt option \<times> flt option \<times> flt option"

definition book_observation_key :: "order_book option \<Rightarrow> book_key" where
  "book_observation_key b = (case b of None \<Rightarrow> (None, None, None)
     | Some b \<Rightarrow> (Some (ob_timestamp b), ob_sequence b, ob_checksum b))"

definition amm_observation_key :: "amm_pool option \<Rightarrow> pool_key" where
  "amm_observation_key p = (case p of None \<Rightarrow> (None, None, None)
     | Some p \<Rightarrow> (Some (yes_reserve p), Some (no_reserve p), Some (fee_pct p)))"

type_synonym observation_key = "book_key \<times> book_key \<times> pool_key \<times> pool_key"
type_synonym history_key = "string \<times> string"

text \<open>
  \<open>es_recorded\<close> and \<open>es_calibrated\<close> log what the observers are told: the outcome of an evaluation,
  and the adverse move of a calibration.
\<close>

record engine = monitor +
  es_windows :: "pair_plan windows"
  es_generation :: "int option"
  es_last :: "(history_key, observation_key) dict"
  es_history :: "(history_key, (flt \<times> flt) list) dict"
  es_entry_targets :: "(string, string set) dict"
  es_funded_targets :: "(string, (string \<times> string) list) dict"
  es_synced :: "(string, string set) dict"
  es_recorded :: "(string \<times> string) list"
  es_calibrated :: "(string \<times> flt option) list"

record evaluation_config = engine_config +
  en_position_size :: flt
  en_min_net_spread :: flt
  en_max_price_impact :: flt
  en_policy :: spread_policy
  en_windows :: window_settings
  en_polymarket_timeout :: int
  en_predict_fun_timeout :: int
  en_sx_bet_timeout :: int
  en_myriad_timeout :: int
  en_opinion_timeout :: int

type_synonym 'a engine_act = "(engine, leg_error, 'a) act"

definition in_monitor :: "(monitor, leg_error, 'a) act \<Rightarrow> 'a engine_act" where
  "in_monitor m = (\<lambda>s. case m (monitor.truncate s) of (x, r) \<Rightarrow> (x, monitor.extend r (monitor.more s)))"

definition record_signal_evaluation :: "string \<Rightarrow> string \<Rightarrow> unit engine_act" where
  "record_signal_evaluation route result = modify (\<lambda>s. s\<lparr>es_recorded := es_recorded s @ [(route, result)]\<rparr>)"

section \<open>Calibration\<close>

fun split_on :: "char \<Rightarrow> string \<Rightarrow> string list" where
  "split_on c [] = [[]]"
| "split_on c (x # xs) = (if x = c then [] # split_on c xs
     else (case split_on c xs of [] \<Rightarrow> [[x]] | w # ws \<Rightarrow> (x # w) # ws))"

definition fill_timeout :: "evaluation_config \<Rightarrow> string \<Rightarrow> int" where
  "fill_timeout c label = (if label = ''polymarket'' then en_polymarket_timeout c
     else if label = ''predict'' then en_predict_fun_timeout c else if label = ''sx'' then en_sx_bet_timeout c
     else if label = ''myriad'' then en_myriad_timeout c else if label = ''opinion'' then en_opinion_timeout c else 0)"

definition execution_latency_horizon :: "evaluation_config \<Rightarrow> string \<Rightarrow> flt" where
  "execution_latency_horizon c route = max (flt_round (1 / 1000))
     (flt_round (of_int (sum_list (map (fill_timeout c) (split_on CHR ''_'' route))) / 1000))"

text \<open>The adverse move between the last observation before the horizon and now, and the new history.\<close>

definition calibrate :: "flt \<Rightarrow> flt \<Rightarrow> flt \<Rightarrow> (flt \<times> flt) list \<Rightarrow> flt option \<times> (flt \<times> flt) list" where
  "calibrate now horizon net_spread history =
     (let kept = dropWhile (\<lambda>(t, _). t < fsub now (max 30 (fmul horizon 2))) history;
          reference = find (\<lambda>(t, _). t \<le> fsub now horizon) (rev kept)
      in (map_option (\<lambda>(_, spread). max 0 (fsub spread net_spread)) reference, kept @ [(now, net_spread)]))"

definition record_route_calibration ::
  "evaluation_config \<Rightarrow> flt \<Rightarrow> string \<Rightarrow> string \<Rightarrow> flt \<Rightarrow> observation_key \<Rightarrow> unit engine_act" where
  "record_route_calibration c now route market_key net_spread observation = modify (\<lambda>s.
     if dict_get (es_last s) (route, market_key) = Some observation
     then s\<lparr>es_calibrated := es_calibrated s @ [(route, None)]\<rparr>
     else (let (adverse, history) = calibrate now (execution_latency_horizon c route) net_spread
               (get_or (es_history s) (route, market_key) [])
           in s\<lparr>es_last := dict_set (route, market_key) observation (es_last s),
                es_history := dict_set (route, market_key) history (es_history s),
                es_calibrated := es_calibrated s @ [(route, adverse)]\<rparr>))"

section \<open>One evaluation\<close>

datatype book_error = Stale_Book leg_error | Unavailable_Book leg_error | Book_Failed leg_error

text \<open>
  What a leg answers to an evaluation: its book with the raw payload, whether the connector calls
  the book fresh, the constraints and the fee of a fill at one half.
\<close>

record leg_io =
  lq_book :: "book_error + order_book \<times> json"
  lq_fresh :: "order_book \<Rightarrow> bool"
  lq_constraints :: "market_constraints option res"
  lq_fee :: "market_constraints \<Rightarrow> venue_fee_quote option res"

definition amm_pool_from_payload :: "json \<Rightarrow> amm_pool option" where
  "amm_pool_from_payload payload = (case jget ''amm_pool'' payload of
     Inl _ \<Rightarrow> None
   | Inr raw \<Rightarrow> (case amm_from_json raw of Inl _ \<Rightarrow> None | Inr p \<Rightarrow> p))"

definition watch_book :: "string \<Rightarrow> leg_io \<Rightarrow> (order_book \<times> json) engine_act" where
  "watch_book route io = (case lq_book io of
     Inr x \<Rightarrow> ret x
   | Inl (Stale_Book e) \<Rightarrow> andalso (record_signal_evaluation route ''stale_book'') (raise e)
   | Inl (Unavailable_Book e) \<Rightarrow> andalso (record_signal_evaluation route ''unavailable_book'') (raise e)
   | Inl (Book_Failed e) \<Rightarrow> raise e)"

text \<open>A leg with a pool of its own is not watched when the other leg has none.\<close>

definition watch_books :: "string \<Rightarrow> pair_plan \<Rightarrow> leg_io \<Rightarrow> leg_io \<Rightarrow> ((order_book \<times> json) option \<times> (order_book \<times> json) option) engine_act" where
  "watch_books route p io1 io2 =
     (if pp_first_pool p = None \<and> pp_second_pool p = None
      then andthen (watch_book route io1) (\<lambda>b1. andthen (watch_book route io2) (\<lambda>b2. ret (Some b1, Some b2)))
      else if pp_first_pool p = None then andthen (watch_book route io1) (\<lambda>b1. ret (Some b1, None))
      else if pp_second_pool p = None then andthen (watch_book route io2) (\<lambda>b2. ret (None, Some b2))
      else of_res (Inl (ValueError ''at least one routed leg must expose an order book'')))"

definition fee_quotes :: "leg_io \<Rightarrow> leg_io \<Rightarrow> (venue_fee_quote \<times> venue_fee_quote) option res" where
  "fee_quotes io1 io2 = (case (lq_constraints io1, lq_constraints io2) of
     (Inr (Some c1), Inr (Some c2)) \<Rightarrow>
       rbind (lq_fee io1 c1) (\<lambda>f1. rbind (lq_fee io2 c2) (\<lambda>f2. Inr (case (f1, f2) of
         (Some q1, Some q2) \<Rightarrow> if fq_verified q1 \<and> fq_verified q2 then Some (q1, q2) else None
       | _ \<Rightarrow> None)))
   | _ \<Rightarrow> Inr None)"

text \<open>\<^verbatim>\<open>except ValueError\<close>: the outcome is recorded and the evaluation ends; \<^verbatim>\<open>None\<close> then.\<close>

definition or_recorded :: "string \<Rightarrow> string \<Rightarrow> 'a res \<Rightarrow> 'a option engine_act" where
  "or_recorded route what m = (case m of
     Inr x \<Rightarrow> ret (Some x)
   | Inl (ValueError _) \<Rightarrow> andalso (record_signal_evaluation route what) (ret None)
   | Inl e \<Rightarrow> raise (failure_of e))"

definition rejected :: "string \<Rightarrow> string \<Rightarrow> arbitrage_signal option engine_act" where
  "rejected route what = andalso (record_signal_evaluation route what) (ret None)"

definition target_leg_notional :: "evaluation_config \<Rightarrow> flt" where
  "target_leg_notional c = flt_round (en_position_size c / 2)"

definition dynamic_threshold :: "evaluation_config \<Rightarrow> string \<Rightarrow> flt" where
  "dynamic_threshold c route = max (en_min_net_spread c) (threshold_for (en_policy c) route)"

definition usable_books :: "(order_book \<times> json) option \<Rightarrow> (order_book \<times> json) option \<Rightarrow> bool" where
  "usable_books b1 b2 \<longleftrightarrow> list_all (\<lambda>b. case b of None \<Rightarrow> True | Some (b, _) \<Rightarrow> ob_status b = MD_VALID) [b1, b2]"

definition fresh_books :: "leg_io \<Rightarrow> leg_io \<Rightarrow> (order_book \<times> json) option \<Rightarrow> (order_book \<times> json) option \<Rightarrow> bool" where
  "fresh_books io1 io2 b1 b2 \<longleftrightarrow>
     (case b1 of None \<Rightarrow> True | Some (b, _) \<Rightarrow> lq_fresh io1 b) \<and> (case b2 of None \<Rightarrow> True | Some (b, _) \<Rightarrow> lq_fresh io2 b)"

definition effective_pool :: "amm_pool option \<Rightarrow> (order_book \<times> json) option \<Rightarrow> amm_pool option" where
  "effective_pool pool b = (case pool of Some p \<Rightarrow> Some p | None \<Rightarrow> (case b of None \<Rightarrow> None | Some (_, raw) \<Rightarrow> amm_pool_from_payload raw))"

definition plan_input_for ::
  "evaluation_config \<Rightarrow> pair_plan \<Rightarrow> (order_book \<times> json) option \<Rightarrow> (order_book \<times> json) option \<Rightarrow> venue_fee_quote \<Rightarrow> venue_fee_quote \<Rightarrow> plan_input" where
  "plan_input_for c p b1 b2 q1 q2 = \<lparr>pi_first_book = map_option fst b1, pi_second_book = map_option fst b2,
     pi_max_order_size = target_leg_notional c, pi_max_slippage = pp_max_slippage p, pi_max_price_impact = en_max_price_impact c,
     pi_first_pool = effective_pool (pp_first_pool p) b1, pi_first_side = pp_first_side p,
     pi_second_pool = effective_pool (pp_second_pool p) b2, pi_second_side = pp_second_side p,
     pi_first_fee_pct = 0, pi_second_fee_pct = 0, pi_first_fee_quote = Some q1, pi_second_fee_quote = Some q2,
     pi_required_depth = Some (fmul (target_leg_notional c) (sp_depth_buffer (en_policy c)))\<rparr>"

definition variable_cost :: "position_plan \<Rightarrow> flt" where
  "variable_cost plan = flt_round (dadd (pl_polymarket_fee_usd plan) (pl_predict_fun_fee_usd plan))"

definition minimum_profit :: "evaluation_config \<Rightarrow> position_plan \<Rightarrow> flt" where
  "minimum_profit c plan = max (sp_min_expected_profit_usd (en_policy c)) (fmul (variable_cost plan) 2)"

definition signal_of :: "pair_plan \<Rightarrow> position_plan \<Rightarrow> spread_metrics \<Rightarrow> arbitrage_signal" where
  "signal_of p plan metrics = \<lparr>s_market = pp_market p, s_plan = plan, s_metrics = metrics,
     s_polymarket_price = flt_round (ddiv (pl_polymarket_capital_usd plan) (pl_polymarket_contracts plan)),
     s_predict_fun_price = flt_round (ddiv (pl_predict_fun_capital_usd plan) (pl_predict_fun_contracts plan)),
     s_discovery_generation = pp_generation p\<rparr>"

text \<open>From the metrics on: the plan, the floor of the profit, and the signal.\<close>

definition signal_from_metrics ::
  "(dec \<Rightarrow> dec \<Rightarrow> dec) \<Rightarrow> evaluation_config \<Rightarrow> string \<Rightarrow> pair_plan \<Rightarrow> plan_input \<Rightarrow> spread_metrics \<Rightarrow> arbitrage_signal option engine_act" where
  "signal_from_metrics fp c route p i metrics =
     (if sm_net_spread metrics \<le> dynamic_threshold c route then rejected route ''below_min_net_spread''
      else andthen (or_recorded route ''plan_rejected'' (build_position_plan fp i)) (\<lambda>plan. case plan of
          None \<Rightarrow> ret None
        | Some plan \<Rightarrow>
            if sm_expected_net_profit_usd metrics < minimum_profit c plan then rejected route ''profit_floor_rejected''
            else andalso (record_signal_evaluation route ''eligible_signal'') (ret (Some (signal_of p plan metrics)))))"

text \<open>
  \<^verbatim>\<open>_evaluate_polymarket_pair\<close> up to the signal. \<open>now\<close> is the monotonic clock; \<open>mode\<close> is the
  eligibility mode at that moment.
\<close>

definition evaluate_pair ::
  "(dec \<Rightarrow> dec \<Rightarrow> dec) \<Rightarrow> evaluation_config \<Rightarrow> execution_mode \<Rightarrow> flt \<Rightarrow> flt \<Rightarrow> leg_io \<Rightarrow> leg_io \<Rightarrow> pair_plan \<Rightarrow> arbitrage_signal option engine_act" where
  "evaluate_pair fp c mode now chain io1 io2 p =
     (let a = pp_first_label p; b = pp_second_label p; route = route_key a b in
      if \<not> is_live_mapping_eligible (pp_market p) mode (Some route) then rejected route ''mapping_ineligible''
      else if pp_first_token p = [] \<or> pp_second_token p = [] then rejected route ''missing_token''
      else andthen (watch_books route p io1 io2) (\<lambda>(b1, b2).
        if \<not> usable_books b1 b2 then rejected route ''invalid_book''
        else if \<not> fresh_books io1 io2 b1 b2 then rejected route ''stale_book''
        else andthen (of_res (fee_quotes io1 io2)) (\<lambda>quotes. case quotes of
            None \<Rightarrow> rejected route ''constraints_unavailable''
          | Some (q1, q2) \<Rightarrow>
              (let i = plan_input_for c p b1 b2 q1 q2 in
               andthen (or_recorded route ''liquidity_rejected'' (calculate_spread_metrics fp i chain)) (\<lambda>metrics. case metrics of
                 None \<Rightarrow> ret None
               | Some metrics \<Rightarrow>
                   andalso (modify (\<lambda>s. s\<lparr>es_windows := mark_recent_executable now route
                     [(a, pp_first_token p), (b, pp_second_token p)] (sm_net_spread metrics) (es_windows s)\<rparr>))
                  (andalso (record_route_calibration c now route
                     (a @ '':'' @ pp_first_token p @ ''|'' @ b @ '':'' @ pp_second_token p) (sm_net_spread metrics)
                     (book_observation_key (map_option fst b1), book_observation_key (map_option fst b2),
                      amm_observation_key (pi_first_pool i), amm_observation_key (pi_second_pool i)))
                  (signal_from_metrics fp c route p i metrics)))))))"

text \<open>The whole evaluation: a signal is only observed when the controller is paused in a live mode.\<close>

definition evaluate_and_trade ::
  "(dec \<Rightarrow> dec \<Rightarrow> dec) \<Rightarrow> world \<Rightarrow> evaluation_config \<Rightarrow> desk \<Rightarrow> flt \<Rightarrow> flt \<Rightarrow> leg_io \<Rightarrow> leg_io \<Rightarrow> signal_inputs \<Rightarrow> pair_plan \<Rightarrow> unit engine_act" where
  "evaluate_and_trade fp w c d now chain io1 io2 si p = andthen (gets (\<lambda>s. rk_paused (rc_state (rt_risk s)))) (\<lambda>stopped.
     andthen (evaluate_pair fp c (mapping_eligibility_mode (engine_config.truncate c) d stopped) now chain io1 io2 p) (\<lambda>signal.
     case signal of
       None \<Rightarrow> ret ()
     | Some s \<Rightarrow> if stopped \<and> submits_orders (en_mode c) then ret ()
         else in_monitor (in_router (handle_signal w (pp_router p) si s))))"

section \<open>Readiness of the funded routes\<close>

text \<open>What a connector answers about its stream and about one target.\<close>

record feed =
  fd_connected :: "bool option res"
  fd_ready :: "string \<Rightarrow> bool res"

fun targets_ready :: "(string \<Rightarrow> feed option) \<Rightarrow> (string \<times> string) list \<Rightarrow> bool res" where
  "targets_ready feeds [] = Inr True"
| "targets_ready feeds ((venue, token) # ts) = (case feeds venue of
     None \<Rightarrow> Inr False
   | Some f \<Rightarrow> rbind (fd_connected f) (\<lambda>connected. if connected = Some False then Inr False
       else rbind (fd_ready f token) (\<lambda>ready. if \<not> ready then Inr False else targets_ready feeds ts)))"

text \<open>A failure of a connector makes the route not ready.\<close>

definition route_readiness :: "(string \<Rightarrow> feed option) \<Rightarrow> (string, (string \<times> string) list) dict \<Rightarrow> string \<Rightarrow> bool" where
  "route_readiness feeds by_route route = (let ts = get_or by_route route [] in
     ts \<noteq> [] \<and> (case targets_ready feeds ts of Inr ready \<Rightarrow> ready | Inl _ \<Rightarrow> False))"

definition funded_route_readiness ::
  "(string \<Rightarrow> feed option) \<Rightarrow> string list \<Rightarrow> (string, (string \<times> string) list) dict \<Rightarrow> (string, bool) dict" where
  "funded_route_readiness feeds funded by_route = map (\<lambda>r. (r, route_readiness feeds by_route r)) (sort (fromkeys funded))"

definition funded_market_data_ready :: "(string, bool) dict \<Rightarrow> bool" where
  "funded_market_data_ready readiness = list_all snd readiness"

definition any_funded_route_ready :: "(string, bool) dict \<Rightarrow> bool" where
  "any_funded_route_ready readiness \<longleftrightarrow> readiness \<noteq> [] \<and> list_ex snd readiness"

definition funded_route_ready :: "(string, bool) dict \<Rightarrow> string \<Rightarrow> bool" where
  "funded_route_ready readiness route = get_or readiness route False"

section \<open>Subscriptions\<close>

definition VENUES :: "string list" where
  "VENUES = [''Polymarket'', ''Predict.fun'', ''SX Bet'', ''Myriad'', ''Opinion'']"

definition add_open_targets :: "(string, string set) dict \<Rightarrow> (string, string set) dict \<Rightarrow> (string, string set) dict" where
  "add_open_targets opened active = foldl (\<lambda>d (venue, tokens). dict_set venue (get_or d venue {} \<union> tokens) d) active opened"

text \<open>What each connector is told last; a venue is told only when its targets change.\<close>

definition sync_market_data_targets :: "(string, string set) dict \<Rightarrow> (string, string set) dict \<Rightarrow> (string, string set) dict \<Rightarrow>
    (string, string set) dict" where
  "sync_market_data_targets active opened synced =
     (let targets = add_open_targets opened active in
      foldl (\<lambda>d venue. if get_or targets venue {} = get_or d venue {} then d else dict_set venue (get_or targets venue {}) d) synced VENUES)"

definition funded_targets_of :: "string list \<Rightarrow> planned list \<Rightarrow> (string, (string \<times> string) set) dict" where
  "funded_targets_of funded active = foldl (\<lambda>d e. case dict_get d (ev_route e) of
       None \<Rightarrow> d
     | Some ts \<Rightarrow> dict_set (ev_route e) (ts \<union> set (filter (\<lambda>(_, token). token \<noteq> []) (ev_targets e))) d)
     (map (\<lambda>r. (r, {})) funded) active"

text \<open>The targets of the coming window, with the funded targets that are still published.\<close>

definition transitional_targets :: "(string, string set) dict \<Rightarrow> (string, (string \<times> string) list) dict \<Rightarrow> (string, string set) dict" where
  "transitional_targets next_targets published =
     foldl (\<lambda>d (venue, token). if token = [] then d else dict_set venue (insert token (get_or d venue {})) d)
       next_targets (concat (map snd published))"

section \<open>The cycle\<close>

definition sync_targets :: "(string, string set) dict \<Rightarrow> unit engine_act" where
  "sync_targets active = andthen (gets rt_book) (\<lambda>book. andthen (of_res (market_data_targets book)) (\<lambda>opened.
     modify (\<lambda>s. s\<lparr>es_synced := sync_market_data_targets active opened (es_synced s)\<rparr>)))"

text \<open>
  What a cycle meets: the monitor's inputs, the snapshot of the registry (\<open>cy_same\<close> when it is the
  object that was planned last), the readiness gate, the balances a refresh would fetch for a
  route, its chain cost, and what the two legs and the router answer for the targets of a plan.
\<close>

record cycle_io =
  cy_monitor :: monitor_config
  cy_redemptions :: "string \<Rightarrow> string \<Rightarrow> redemption_io"
  cy_positions :: "string \<Rightarrow> position_io"
  cy_markets :: "market_spec list"
  cy_same :: bool
  cy_generation :: "int option"
  cy_now :: flt
  cy_ready :: bool
  cy_fetched :: "string \<Rightarrow> (dec \<times> dec) option"
  cy_chain_cost :: "string \<Rightarrow> flt option"
  cy_legs :: "targets \<Rightarrow> leg_io \<times> leg_io"
  cy_signal :: "targets \<Rightarrow> signal_inputs"

definition is_stopped :: "'z router_scheme \<Rightarrow> bool" where
  "is_stopped s \<longleftrightarrow> rk_paused (rc_state (rt_risk s))"

definition refresh_plan :: "evaluation_config \<Rightarrow> desk \<Rightarrow> cycle_io \<Rightarrow> unit engine_act" where
  "refresh_plan c d cy = (\<lambda>s. if cy_same cy \<and> cy_generation cy = es_generation s then (Inr (), s)
     else andthen (of_res (plan_markets (engine_config.truncate c) d (is_stopped s) (cy_generation cy) (cy_markets cy))) (\<lambda>es.
       modify (\<lambda>s. s\<lparr>es_generation := cy_generation cy, es_windows := set_planned_evaluations es (es_windows s)\<rparr>)) s)"

text \<open>The part before the selection: the positions come first, also when entries are stopped.\<close>

definition begin_cycle :: "world \<Rightarrow> evaluation_config \<Rightarrow> desk \<Rightarrow> cycle_io \<Rightarrow> unit engine_act" where
  "begin_cycle w c d cy =
     andthen (gets es_entry_targets) (\<lambda>ts. andalso (sync_targets ts)
       (andalso (in_monitor (monitor_once w d (cy_monitor cy) (cy_redemptions cy) (cy_positions cy))) (refresh_plan c d cy)))"

text \<open>The subscriptions move to the new window without dropping a funded target that is still published.\<close>

definition publish_targets :: "evaluation_config \<Rightarrow> planned list \<Rightarrow> planned list \<Rightarrow> unit engine_act" where
  "publish_targets c active selected =
     (let next_targets = targets_for_evaluations selected; funded = funded_targets_of (en_funded c) active
      in andthen (gets es_funded_targets) (\<lambda>published. andalso (sync_targets (transitional_targets next_targets published))
        (andalso (modify (\<lambda>s. s\<lparr>es_entry_targets := next_targets,
            es_funded_targets := map (\<lambda>(route, ts). (route, sorted_list_of_set ts)) funded\<rparr>))
          (sync_targets next_targets))))"

definition ensure_balances :: "world \<Rightarrow> evaluation_config \<Rightarrow> (dec \<times> dec) option \<Rightarrow> route_setup \<Rightarrow> ('z, bool) router_act" where
  "ensure_balances w c fetched rs =
     andthen (gets rt_bal) (\<lambda>b. andalso (when_do (bl_cache b = [] \<and> fetched \<noteq> None)
        (andalso (modify (\<lambda>s. s\<lparr>rt_bal := refresh_balances (rs_first rs) (rs_second rs) fetched (rt_bal s)\<rparr>))
          (persist_runtime_balance_state w)))
      (gets (\<lambda>s. let required = ddiv (flt_repr (en_position_size c)) 2
         in required \<le> effective_balance (rs_first rs) (rt_bal s) \<and> required \<le> effective_balance (rs_second rs) (rt_bal s))))"

fun ensure_all :: "world \<Rightarrow> evaluation_config \<Rightarrow> (string \<Rightarrow> (dec \<times> dec) option) \<Rightarrow> route_setup option list \<Rightarrow> ('z, bool) router_act" where
  "ensure_all w c fetched [] = ret True"
| "ensure_all w c fetched (None # rs) = ensure_all w c fetched rs"
| "ensure_all w c fetched (Some r # rs) = andthen (ensure_balances w c (fetched (route_of r)) r) (\<lambda>ok.
     if ok then ensure_all w c fetched rs else ret False)"

definition entries_open :: "world \<Rightarrow> evaluation_config \<Rightarrow> desk \<Rightarrow> cycle_io \<Rightarrow> bool engine_act" where
  "entries_open w c d cy = (let e = engine_config.truncate c in
     if \<not> submits_orders (en_mode c) then ret True
     else if \<not> cy_ready cy then ret False
     else andthen (gets is_stopped) (\<lambda>stopped. if has_paused_execution_router e d stopped then ret False
       else ensure_all w c (cy_fetched cy) (entry_execution_routers e d)))"

text \<open>The chain cost of every route that runs; a route without an estimate does not run.\<close>

fun route_chain_costs :: "(string \<Rightarrow> flt option) \<Rightarrow> string list \<Rightarrow> (string, flt) dict engine_act" where
  "route_chain_costs cost [] = ret []"
| "route_chain_costs cost (r # rs) = (case cost r of
     None \<Rightarrow> andalso (record_signal_evaluation r ''chain_cost_unavailable'') (route_chain_costs cost rs)
   | Some x \<Rightarrow> andthen (route_chain_costs cost rs) (\<lambda>costs. ret ((r, x) # costs)))"

definition run_evaluation :: "(dec \<Rightarrow> dec \<Rightarrow> dec) \<Rightarrow> world \<Rightarrow> evaluation_config \<Rightarrow> desk \<Rightarrow> cycle_io \<Rightarrow> (string, flt) dict \<Rightarrow> planned \<Rightarrow>
    unit engine_act" where
  "run_evaluation fp w c d cy costs x = (case dict_get costs (ev_route x) of
     None \<Rightarrow> ret ()
   | Some cost \<Rightarrow> (let (io1, io2) = cy_legs cy (ev_targets x)
       in andthen (gathered (evaluate_and_trade fp w c d (cy_now cy) cost io1 io2 (cy_signal cy (ev_targets x)) (ev_run x)))
         (\<lambda>_. ret ())))"

definition finish_cycle :: "(dec \<Rightarrow> dec \<Rightarrow> dec) \<Rightarrow> world \<Rightarrow> evaluation_config \<Rightarrow> desk \<Rightarrow> cycle_io \<Rightarrow> planned list \<Rightarrow> planned list \<Rightarrow> unit engine_act" where
  "finish_cycle fp w c d cy active selected = andalso (publish_targets c active selected)
     (andthen (entries_open w c d cy) (\<lambda>opened. if \<not> opened then ret () else
       andthen (route_chain_costs (cy_chain_cost cy) (fromkeys (map ev_route active))) (\<lambda>costs.
         for_each (run_evaluation fp w c d cy costs) active)))"

text \<open>\<^verbatim>\<open>run_once\<close>; \<^verbatim>\<open>None\<close> when the selection of the window does not return.\<close>

definition run_once :: "(dec \<Rightarrow> dec \<Rightarrow> dec) \<Rightarrow> world \<Rightarrow> evaluation_config \<Rightarrow> desk \<Rightarrow> cycle_io \<Rightarrow> engine \<Rightarrow>
    ((leg_error + unit) \<times> engine) option" where
  "run_once fp w c d cy s = (case begin_cycle w c d cy s of
     (Inl e, s') \<Rightarrow> Some (Inl e, s')
   | (Inr _, s') \<Rightarrow>
       map_option (\<lambda>(active, selected, wn). finish_cycle fp w c d cy active selected (s'\<lparr>es_windows := wn\<rparr>))
         (select_evaluation_window (window_config_of (en_windows c)) (ws_limit (en_windows c)) (cy_now cy) (es_windows s')))"

section \<open>Lemmas\<close>

subsection \<open>Signals\<close>

lemma andthen_Inr: "andthen m f s = (Inr x, s') \<longleftrightarrow> (\<exists>y t. m s = (Inr y, t) \<and> f y t = (Inr x, s'))"
  by (auto simp: andthen_def split: prod.splits sum.splits)

lemma andalso_Inr: "andalso m m' s = (Inr x, s') \<longleftrightarrow> (\<exists>t. m s = (Inr (), t) \<and> m' t = (Inr x, s'))"
  by (auto simp: andalso_def andthen_Inr)

lemma record_run: "record_signal_evaluation r what s = (Inr (), s\<lparr>es_recorded := es_recorded s @ [(r, what)]\<rparr>)"
  by (simp add: record_signal_evaluation_def modify_def)

lemma rejected_Some [simp]: "rejected r what s = (Inr (Some x), s') \<longleftrightarrow> False"
  by (auto simp: rejected_def andalso_Inr record_run ret_def)




text \<open>What holds of the books, the fees and the economics when an evaluation ends with a signal.\<close>







subsection \<open>Subscriptions\<close>

lemma get_or_cases: "get_or (dict_set k v d) k' x = (if k' = k then v else get_or d k' x)"
  by (simp add: get_or_def dict_get_set)

lemma get_or_lists: "get_or [] k x = x" "get_or ((k', v) # d) k x = (if k = k' then v else get_or d k x)"
  by (simp_all add: get_or_def dict_get_def)

text \<open>After a synchronisation every venue has been told exactly its targets.\<close>

lemma sync_exact:
  assumes "venue \<in> set VENUES"
  shows "get_or (sync_market_data_targets active opened synced) venue {} = get_or (add_open_targets opened active) venue {}"
proof -
  have "get_or (foldl (\<lambda>d venue. if get_or t venue {} = get_or d venue {} then d else dict_set venue (get_or t venue {}) d) synced vs)
      venue {} = (if venue \<in> set vs then get_or t venue {} else get_or synced venue {})" for t vs
    by (induction vs rule: rev_induct) (auto simp: get_or_cases)
  with assms show ?thesis by (simp add: sync_market_data_targets_def Let_def)
qed

lemma add_open_targets_get:
  "distinct (map fst opened) \<Longrightarrow> get_or (add_open_targets opened active) venue {} = get_or active venue {} \<union> get_or opened venue {}"
  unfolding add_open_targets_def
proof (induction opened arbitrary: active)
  case (Cons p opened)
  obtain v ts where p: "p = (v, ts)" by fastforce
  have "get_or opened v {} = {}" using Cons.prems p by (force simp: get_or_def dict_get_def split: option.split dest: map_of_SomeD)
  with Cons p show ?case by (auto simp: get_or_cases get_or_lists)
qed (simp add: get_or_lists)

subsection \<open>A closed gate\<close>

text \<open>The parts of a cycle that leave the positions, the stores and the controller alone.\<close>

definition same_monitor :: "engine \<Rightarrow> engine \<Rightarrow> bool" where
  "same_monitor s s' \<longleftrightarrow> monitor.truncate s' = monitor.truncate s"

interpretation same_mon: effect_order same_monitor
  by unfold_locales (simp_all add: same_monitor_def)

lemma sync_same: "effect_in same_monitor (sync_targets ts)"
  unfolding sync_targets_def
  by (intro same_mon.bind same_mon.basic effect_in_modify)
    (auto simp: of_res_def effect_in_def raise_def ret_def same_monitor_def monitor.truncate_def split: sum.split)

lemma publish_same: "effect_in same_monitor (publish_targets c active selected)"
  unfolding publish_targets_def Let_def
  by (intro same_mon.bind same_mon.seq same_mon.basic sync_same effect_in_modify) (simp add: same_monitor_def monitor.truncate_def)

lemma gate_closed:
  assumes "submits_orders (en_mode c)" and "\<not> cy_ready cy \<or> has_paused_execution_router (engine_config.truncate c) d (is_stopped s)"
  shows "entries_open w c d cy s = (Inr False, s)"
  using assms by (auto simp: entries_open_def Let_def andthen_def gets_def ret_def)

lemma finish_gated:
  assumes "submits_orders (en_mode c)"
    and "\<not> cy_ready cy \<or> (is_stopped s \<and> has_paused_execution_router (engine_config.truncate c) d True)"
  shows "same_monitor s (snd (finish_cycle fp w c d cy active selected s))"
proof -
  obtain r t where t: "publish_targets c active selected s = (r, t)" by fastforce
  then have same: "same_monitor s t" using publish_same effect_inD by metis
  then have "is_stopped t = is_stopped s" by (simp add: same_monitor_def is_stopped_def monitor.truncate_def)
  then have "\<not> cy_ready cy \<or> has_paused_execution_router (engine_config.truncate c) d (is_stopped t)" using assms(2) by auto
  from gate_closed [OF assms(1) this] same t show ?thesis
    by (cases r) (simp_all add: finish_cycle_def andalso_def andthen_def ret_def)
qed

section \<open>Properties\<close>


definition sample_evaluation :: evaluation_config where
  "sample_evaluation = \<lparr>en_mode = SHADOW, en_shadow_require_verified = False, en_routes = sample_routes, en_funded = [],
     en_predict_slippage = 1 / 64, en_sx_slippage = 1 / 64, en_opinion_slippage = 1 / 64, en_myriad_slippage = 1 / 64,
     en_position_size = 20, en_min_net_spread = 1 / 64, en_max_price_impact = 1 / 2, en_policy = sample_policy,
     en_windows = sample_windows, en_polymarket_timeout = 1000, en_predict_fun_timeout = 4000, en_sx_bet_timeout = 4000,
     en_myriad_timeout = 4000, en_opinion_timeout = 4000\<rparr>"


definition sample_leg_io :: "flt \<Rightarrow> leg_io" where
  "sample_leg_io p = \<lparr>lq_book = Inr (sample_book p, JNull), lq_fresh = (\<lambda>_. True),
     lq_constraints = Inr (Some \<lparr>fee_rate_bps = 0, tick_size = 1 / 100, lot_size = 1, minimum_notional = 1, mc_fee_exponent = 1\<rparr>),
     lq_fee = (\<lambda>_. Inr (Some sample_fee))\<rparr>"


definition idle_engine :: engine where
  "idle_engine = monitor.extend (settling.extend (router.extend sample_router (settling.fields [])) (monitor.fields []))
     (engine.fields empty_windows None [] [] [] [] [] [] [])"


text \<open>C36. A closed gate closes the cycle: in the modes that submit orders a cycle that is not ready, or that
  finds the controller paused, leaves the positions, the stores, the balances and the controller
  exactly as the monitor of positions left them, whatever the markets offer.\<close>

theorem closed_gate_opens_nothing:
  assumes "submits_orders (en_mode c)" and "begin_cycle w c d cy s = (Inr (), s1)" and "run_once fp w c d cy s = Some (r, s')"
    and "\<not> cy_ready cy \<or> (is_stopped s1 \<and> has_paused_execution_router (engine_config.truncate c) d True)"
  shows "monitor.truncate s' = monitor.truncate s1"
proof -
  obtain active selected wn where f: "finish_cycle fp w c d cy active selected (s1\<lparr>es_windows := wn\<rparr>) = (r, s')"
    using assms(2,3) by (auto simp: run_once_def)
  have same: "monitor.truncate (s1\<lparr>es_windows := wn\<rparr>) = monitor.truncate s1" "is_stopped (s1\<lparr>es_windows := wn\<rparr>) = is_stopped s1"
    by (simp_all add: monitor.truncate_def is_stopped_def)
  from finish_gated [OF assms(1), where s = "s1\<lparr>es_windows := wn\<rparr>"] assms(4) same(2)
  have "same_monitor (s1\<lparr>es_windows := wn\<rparr>) (snd (finish_cycle fp w c d cy active selected (s1\<lparr>es_windows := wn\<rparr>)))" by auto
  with f same(1) show ?thesis by (simp add: same_monitor_def)
qed

definition sample_position_io :: position_io where
  "sample_position_io = \<lparr>po_first_book = Inr (sample_book (1 / 4)), po_second_book = Inr (sample_book (1 / 2)),
     po_first_sale = sample_sale ''c5'', po_second_sale = sample_sale ''c6'', po_first_bid = Inr (1 / 4), po_second_bid = Inr (1 / 2),
     po_close = \<lparr>ci_first_cid = ''c7'', ci_second_cid = ''c8'', ci_first_script = sample_script, ci_second_script = sample_script\<rparr>\<rparr>"

definition unready_cycle :: cycle_io where
  "unready_cycle = \<lparr>cy_monitor = \<lparr>mc_auto_close = False, mc_exit_spread = 0, mc_settles = False\<rparr>, cy_redemptions = sample_answers submitted_report,
     cy_positions = (\<lambda>_. sample_position_io), cy_markets = [], cy_same = True, cy_generation = None, cy_now = 0, cy_ready = False,
     cy_fetched = (\<lambda>_. None), cy_chain_cost = (\<lambda>_. None), cy_legs = (\<lambda>_. (sample_leg_io (1 / 4), sample_leg_io (1 / 2))),
     cy_signal = (\<lambda>_. sample_signal_inputs)\<rparr>"

lemma no_positions:
  assumes "rt_book s = []"
  shows "sync_targets ts s = (Inr (), s\<lparr>es_synced := sync_market_data_targets ts [] (es_synced s)\<rparr>)"
    "\<not> mc_settles mc \<Longrightarrow> in_monitor (monitor_once w d mc red io) s = (Inr (), s)"
proof -
  have "market_data_targets [] = Inr []" by code_simp
  then show "sync_targets ts s = (Inr (), s\<lparr>es_synced := sync_market_data_targets ts [] (es_synced s)\<rparr>)"
    by (simp add: sync_targets_def andthen_def gets_def assms of_res_def ret_def modify_def)
  have "ledger_all [] = []" by code_simp
  then show "in_monitor (monitor_once w d mc red io) s = (Inr (), s)" if "\<not> mc_settles mc"
    using that assms by (cases s) (simp add: in_monitor_def monitor_once_def when_do_def andalso_def andthen_def gets_def ret_def
        monitor.truncate_def monitor.extend_def)
qed

theorem closed_gate_opens_nothing_witness:
  "\<exists>s1 r s'. begin_cycle sample_world (sample_evaluation\<lparr>en_mode := LIVE\<rparr>) sample_desk unready_cycle idle_engine = (Inr (), s1) \<and>
    run_once (\<lambda>x e. x) sample_world (sample_evaluation\<lparr>en_mode := LIVE\<rparr>) sample_desk unready_cycle idle_engine = Some (r, s') \<and>
    monitor.truncate s' = monitor.truncate s1"
proof -
  let ?c = "sample_evaluation\<lparr>en_mode := LIVE\<rparr>"
  have book: "rt_book idle_engine = []" "es_generation idle_engine = None" "wn_planned (es_windows idle_engine) = []"
    by (simp_all add: idle_engine_def monitor.extend_def settling.extend_def router.extend_def settling.fields_def monitor.fields_def
        engine.fields_def sample_router_def empty_windows_def)
  obtain s1 where s1: "begin_cycle sample_world ?c sample_desk unready_cycle idle_engine = (Inr (), s1)" "wn_planned (es_windows s1) = []"
    by (simp add: begin_cycle_def andthen_def andalso_def gets_def no_positions book refresh_plan_def unready_cycle_def)
  then obtain r s' where run: "run_once (\<lambda>x e. x) sample_world ?c sample_desk unready_cycle idle_engine = Some (r, s')"
    by (cases "run_once (\<lambda>x e. x) sample_world ?c sample_desk unready_cycle idle_engine")
      (auto simp: run_once_def select_evaluation_window_def)
  have "submits_orders (en_mode ?c)" "\<not> cy_ready unready_cycle" by (simp_all add: submits_orders_def unready_cycle_def)
  with closed_gate_opens_nothing [OF _ s1(1) run] s1(1) run show ?thesis by blast
qed

end
