(* ===== verification/Connector_Base.thy ===== *)
theory Connector_Base
  imports Preflight
begin

text \<open>
  What every venue connector inherits from \<^verbatim>\<open>connectors/base.py\<close>: the time, sequence and checksum of
  a venue event, the backoff between reconnections, the freshness of a book, the default fee quote
  and the preview of a buy order that the preflight guard relies on. What the venue answers is an
  argument. The lemmas show what an executable preview is worth and how long a reconnection waits.
\<close>

section \<open>Numbers in wire payloads\<close>

text \<open>
  \<^verbatim>\<open>float(text)\<close> and \<^verbatim>\<open>Decimal(text)\<close> before rounding: blanks around it, a sign, digits with at most
  one point, and an exponent. The texts of infinities and NaN, and underscores between digits, are
  not numbers here.
\<close>

definition is_digit :: "char \<Rightarrow> bool" where
  "is_digit c \<longleftrightarrow> c \<in> set ''0123456789''"

definition digits_value :: "string \<Rightarrow> nat" where
  "digits_value s = foldl (\<lambda>n c. 10 * n + (of_char c - 48)) 0 s"

definition signed :: "string \<Rightarrow> bool \<times> string" where
  "signed s = (case s of [] \<Rightarrow> (False, []) | c # cs \<Rightarrow> if c = CHR ''-'' then (True, cs) else if c = CHR ''+'' then (False, cs) else (False, s))"

definition integer_text :: "string \<Rightarrow> int option" where
  "integer_text s = (let (neg, ds) = signed (strip s) in
     if ds = [] \<or> \<not> list_all is_digit ds then None
     else Some (if neg then - int (digits_value ds) else int (digits_value ds)))"

definition number_text :: "string \<Rightarrow> rat option" where
  "number_text s =
     (let (neg, body) = signed (strip s);
          mantissa = takeWhile (\<lambda>c. c \<noteq> CHR ''e'' \<and> c \<noteq> CHR ''E'') body; exponent = drop (length mantissa) body;
          whole = takeWhile (\<lambda>c. c \<noteq> CHR ''.'') mantissa; fraction = drop (Suc (length whole)) mantissa;
          e = (case exponent of [] \<Rightarrow> Some 0
             | _ # x \<Rightarrow> if list_all (\<lambda>c. \<not> is_space c) x then integer_text x else None)
      in if whole @ fraction = [] \<or> \<not> list_all is_digit (whole @ fraction) then None
         else map_option (\<lambda>e. (if neg then - 1 else 1) * of_nat (digits_value (whole @ fraction)) * 10 powi (e - int (length fraction))) e)"

text \<open>\<^verbatim>\<open>float(value)\<close> of a wire value; \<^verbatim>\<open>None\<close> for the two errors the callers catch.\<close>

definition wire_float :: "json \<Rightarrow> flt option" where
  "wire_float j = (case j of JInt n \<Rightarrow> Some (flt_round (of_int n)) | JFloat x \<Rightarrow> Some x
     | JBool b \<Rightarrow> Some (if b then 1 else 0) | JStr s \<Rightarrow> map_option flt_round (number_text s) | _ \<Rightarrow> None)"

definition blank :: "json \<Rightarrow> bool" where
  "blank j \<longleftrightarrow> j = JNull \<or> j = JStr []"

section \<open>Events\<close>

text \<open>\<^verbatim>\<open>payload.get(key)\<close> of a dictionary.\<close>

definition field :: "string \<Rightarrow> (string \<times> json) list \<Rightarrow> json" where
  "field k kvs = (case map_of kvs k of Some v \<Rightarrow> v | None \<Rightarrow> JNull)"

text \<open>
  A text that is no number is read as an ISO time, so it is one only as \<open>JTime\<close>; a naive time is in
  the process's zone, which is UTC. A number above \<open>10\<^sup>1\<^sup>0\<close> counts milliseconds.
\<close>

definition parse_event_timestamp :: "json \<Rightarrow> flt option" where
  "parse_event_timestamp value =
     (let scaled = (\<lambda>x. let y = (if 10000000000 < x then fdiv x 1000 else x) in if 0 < y then Some y else None)
      in case value of
           JStr s \<Rightarrow> if s = [] \<or> \<not> (list_all is_digit (remove1 CHR ''.'' s) \<and> remove1 CHR ''.'' s \<noteq> []) then None
             else Option.bind (wire_float value) scaled
         | JTime t \<Rightarrow> Some (unix_time (as_utc t))
         | _ \<Rightarrow> Option.bind (wire_float value) scaled)"

definition TIMESTAMP_KEYS :: "string list" where
  "TIMESTAMP_KEYS = [''updateTimestampMs'', ''updatedTimestampMs'', ''timestampMs'', ''updated_at'', ''updatedAt'', ''timestamp'', ''ts'']"

definition NESTED_KEYS :: "string list" where
  "NESTED_KEYS = [''data'', ''orderbook'', ''orderBook'', ''book'', ''source'', ''pub'']"

definition is_dict :: "json \<Rightarrow> bool" where
  "is_dict j = (case j of JObj _ \<Rightarrow> True | _ \<Rightarrow> False)"

text \<open>The nested dictionaries in which an event is looked for, in their order.\<close>

definition nested :: "(string \<times> json) list \<Rightarrow> json list" where
  "nested kvs = filter is_dict (map (\<lambda>k. field k kvs) NESTED_KEYS)"

lemma nested_smaller: "v \<in> set (nested kvs) \<Longrightarrow> size v < size (JObj kvs)"
proof -
  assume "v \<in> set (nested kvs)"
  then obtain k where "map_of kvs k = Some v" by (auto simp: nested_def field_def is_dict_def split: option.splits)
  then have "(k, v) \<in> set kvs" by (rule map_of_SomeD)
  then show ?thesis by (induction kvs) auto
qed

function event_timestamp :: "flt \<Rightarrow> json \<Rightarrow> flt" where
  "event_timestamp now (JObj kvs) =
     (case List.find (\<lambda>p. p \<noteq> None) (map (\<lambda>k. parse_event_timestamp (field k kvs)) TIMESTAMP_KEYS) of
        Some (Some p) \<Rightarrow> min p now
      | _ \<Rightarrow> (case List.find (\<lambda>p. p < fsub now (flt_round (1 / 1000))) (map (event_timestamp now) (nested kvs)) of
            Some p \<Rightarrow> p | None \<Rightarrow> now))"
| "event_timestamp now JNull = now"
| "event_timestamp now (JBool b) = now"
| "event_timestamp now (JInt n) = now"
| "event_timestamp now (JFloat x) = now"
| "event_timestamp now (JStr s) = now"
| "event_timestamp now (JDec d) = now"
| "event_timestamp now (JTime t) = now"
| "event_timestamp now (JList js) = now"
  by pat_completeness auto
termination by (relation "measure (\<lambda>(now, j). size j)") (auto dest: nested_smaller)

text \<open>\<^verbatim>\<open>int(str(value))\<close>.\<close>

definition wire_int :: "json \<Rightarrow> int option" where
  "wire_int j = (case j of JInt n \<Rightarrow> Some n | JStr s \<Rightarrow> integer_text s | _ \<Rightarrow> None)"

definition SEQUENCE_KEYS :: "string list" where
  "SEQUENCE_KEYS = [''sequence'', ''sequence_number'', ''sequenceNumber'', ''seq'', ''version'']"

function event_sequence :: "json \<Rightarrow> int option" where
  "event_sequence (JObj kvs) =
     (case List.find (\<lambda>v. \<not> blank v) (map (\<lambda>k. field k kvs) SEQUENCE_KEYS) of
        Some v \<Rightarrow> wire_int v
      | None \<Rightarrow> (case List.find (\<lambda>s. s \<noteq> None) (map event_sequence (nested kvs)) of Some s \<Rightarrow> s | None \<Rightarrow> None))"
| "event_sequence JNull = None"
| "event_sequence (JBool b) = None"
| "event_sequence (JInt n) = None"
| "event_sequence (JFloat x) = None"
| "event_sequence (JStr s) = None"
| "event_sequence (JDec d) = None"
| "event_sequence (JTime t) = None"
| "event_sequence (JList js) = None"
  by pat_completeness auto
termination by (relation "measure size") (auto dest: nested_smaller)

text \<open>\<open>str\<close> is Python's text of a value.\<close>

definition event_checksum :: "(json \<Rightarrow> string) \<Rightarrow> json \<Rightarrow> string option" where
  "event_checksum str j = (case j of JObj kvs \<Rightarrow>
       map_option str (List.find (\<lambda>v. \<not> blank v) (map (\<lambda>k. field k kvs) [''checksum'', ''bookHash'', ''book_hash'', ''hash'']))
     | _ \<Rightarrow> None)"

section \<open>Reconnection\<close>

text \<open>The draw of \<^verbatim>\<open>random.uniform(0.0, ceiling)\<close> is \<open>ceiling * u\<close> for a \<open>u\<close> of the unit interval.\<close>

record backoff =
  bo_initial :: flt
  bo_maximum :: flt
  bo_attempt :: nat
  bo_current :: flt

definition new_backoff :: "flt \<Rightarrow> flt \<Rightarrow> backoff" where
  "new_backoff initial maximum = \<lparr>bo_initial = initial, bo_maximum = maximum, bo_attempt = 0, bo_current = 0\<rparr>"

text \<open>
  \<^verbatim>\<open>None\<close> is the \<^verbatim>\<open>OverflowError\<close> of the product of a float with \<^verbatim>\<open>2**attempt\<close> when the power does not
  fit a float; the error comes before the attempt is counted.
\<close>

definition next_delay :: "flt \<Rightarrow> backoff \<Rightarrow> (flt \<times> backoff) option" where
  "next_delay u b =
     (if 1024 \<le> bo_attempt b then None
      else let ceiling = min (fmul (bo_initial b) (2 ^ bo_attempt b)) (bo_maximum b);
               delay = max (flt_round (1 / 10)) (fmul ceiling u)
           in Some (delay, b\<lparr>bo_attempt := bo_attempt b + 1, bo_current := delay\<rparr>))"

definition reset_backoff :: "backoff \<Rightarrow> backoff" where
  "reset_backoff b = b\<lparr>bo_attempt := 0, bo_current := 0\<rparr>"

section \<open>Market data\<close>

definition is_order_book_execution_fresh :: "flt \<Rightarrow> order_book \<Rightarrow> flt \<Rightarrow> bool" where
  "is_order_book_execution_fresh now book max_age \<longleftrightarrow>
     ob_status book = MD_VALID \<and> max 0 (fsub now (ob_timestamp book)) \<le> max_age"

definition target_ready :: "bool \<Rightarrow> flt option \<Rightarrow> flt \<Rightarrow> bool" where
  "target_ready data_ready age max_age \<longleftrightarrow> data_ready \<and> (case age of None \<Rightarrow> True | Some a \<Rightarrow> a \<le> max_age)"

definition stream_connected :: "(string, flt) dict \<Rightarrow> bool option" where
  "stream_connected telemetry = (case dict_get telemetry ''connected'' of None \<Rightarrow> None
     | Some c \<Rightarrow> Some (0 < c \<and> get_or telemetry ''reconnecting'' 0 \<le> 0))"

section \<open>Orders\<close>

definition upper_char :: "char \<Rightarrow> char" where
  "upper_char c = (if c \<in> set ''abcdefghijklmnopqrstuvwxyz'' then char_of (of_char c - 32 :: nat) else c)"

definition upper :: "string \<Rightarrow> string" where
  "upper s = map upper_char s"

definition submit_order :: "(order_intent \<Rightarrow> string res) \<Rightarrow> (order_intent \<Rightarrow> string res) \<Rightarrow> order_intent \<Rightarrow> string res" where
  "submit_order buy sell i =
     (if upper (oi_action i) = ''BUY'' then buy i else if upper (oi_action i) = ''SELL'' then sell i
      else Inl (ValueError (''Unsupported order action: '' @ oi_action i)))"

definition default_fee_quote :: "string \<Rightarrow> market_constraints option \<Rightarrow> market_constraints option res \<Rightarrow> venue_fee_quote option res" where
  "default_fee_quote venue given looked_up =
     rbind (case given of Some c \<Rightarrow> Inr (Some c) | None \<Rightarrow> looked_up) (\<lambda>c. Inr (map_option (\<lambda>c.
       \<lparr>fq_venue = venue, fq_fee_rate_bps = fee_rate_bps c, fq_model = (if fee_rate_bps c = 0 then ''zero_fee'' else ''notional_bps''),
        fq_source = ''connector_market_constraints'', fq_verified = True, fq_fee_exponent = 1, fq_fee_rate_fraction = None,
        fq_minimum_fee_usd = 0\<rparr>) c))"

section \<open>The preview of a buy order\<close>

record preview_acc =
  pa_remaining :: dec
  pa_filled :: dec
  pa_spent :: dec
  pa_depth :: dec
  pa_best :: "dec option"

definition within_limit :: "dec \<Rightarrow> order_book_level \<Rightarrow> bool" where
  "within_limit max_price l \<longleftrightarrow> 0 < flt_repr (price l) \<and> 0 < flt_repr (lsize l) \<and> flt_repr (price l) \<le> max_price"

definition preview_level :: "dec \<Rightarrow> preview_acc \<Rightarrow> order_book_level \<Rightarrow> preview_acc" where
  "preview_level max_price a l =
     (let p = flt_repr (price l); n = flt_repr (lsize l); take = min (pa_remaining a) n;
          b = a\<lparr>pa_best := (case pa_best a of None \<Rightarrow> Some p | Some x \<Rightarrow> Some x), pa_depth := dadd (pa_depth a) (dmul p n)\<rparr>
      in if \<not> within_limit max_price l then a
         else if take \<le> 0 then b
         else b\<lparr>pa_filled := dadd (pa_filled a) take, pa_spent := dadd (pa_spent a) (dmul take p),
                pa_remaining := dsub (pa_remaining a) take\<rparr>)"

definition preview_walk :: "dec \<Rightarrow> order_book_level list \<Rightarrow> dec \<Rightarrow> preview_acc" where
  "preview_walk max_price levels requested = foldl (preview_level max_price)
     \<lparr>pa_remaining = requested, pa_filled = 0, pa_spent = 0, pa_depth = 0, pa_best = None\<rparr> levels"

definition blocker :: "bool \<Rightarrow> string \<Rightarrow> string list" where
  "blocker b what = (if b then [what] else [])"

definition status_text :: "market_data_status \<Rightarrow> string" where
  "status_text s = (case s of MD_VALID \<Rightarrow> ''valid'' | MD_INVALID \<Rightarrow> ''invalid'' | MD_STALE \<Rightarrow> ''stale'')"

text \<open>
  What the connector answers to a preview: the constraints, the fee at an average price and the
  fingerprint of the signed order, which is asked for only when nothing blocks.
\<close>

record preview_io =
  pv_constraints :: "market_constraints option res"
  pv_fee :: "dec \<Rightarrow> market_constraints option \<Rightarrow> venue_fee_quote option res"
  pv_signature :: "string option res"

definition book_blockers :: "dec \<Rightarrow> dec \<Rightarrow> market_constraints option \<Rightarrow> order_book \<Rightarrow> preview_acc \<Rightarrow> string list" where
  "book_blockers n max_price cs book a =
     blocker (n \<le> 0) ''contracts_not_positive'' @
     blocker (max_price \<le> 0 \<or> 1 < max_price) ''limit_price_out_of_range'' @
     blocker (cs = None) ''constraints_unavailable'' @
     blocker (ob_status book \<noteq> MD_VALID) (''orderbook_status:'' @ status_text (ob_status book)) @
     blocker (asks book = []) ''asks_unavailable'' @
     blocker (dec_eps < pa_remaining a) ''insufficient_executable_depth'' @
     blocker (case cs of None \<Rightarrow> False | Some c \<Rightarrow> pa_spent a < minimum_notional c) ''minimum_notional_not_met''"

definition fee_blockers :: "venue_fee_quote option \<Rightarrow> string list" where
  "fee_blockers q = (case q of None \<Rightarrow> [''fee_metadata_unavailable'']
     | Some q \<Rightarrow> blocker (\<not> fq_verified q) ''fee_metadata_unverified'')"

definition average_price_of :: "preview_acc \<Rightarrow> dec" where
  "average_price_of a = (if 0 < pa_filled a then ddiv (pa_spent a) (pa_filled a) else 0)"

definition price_impact_of :: "preview_acc \<Rightarrow> dec" where
  "price_impact_of a = (case pa_best a of None \<Rightarrow> 0 | Some b \<Rightarrow> if 0 < b then max 0 (ddiv (dsub (average_price_of a) b) b) else 0)"

definition preview_fee :: "(dec \<Rightarrow> dec \<Rightarrow> dec) \<Rightarrow> venue_fee_quote option \<Rightarrow> preview_acc \<Rightarrow> dec res" where
  "preview_fee fp q a = (case q of None \<Rightarrow> Inr 0
     | Some q \<Rightarrow> if \<not> fq_verified q then Inr 0 else fee_for_fill fp q (pa_filled a) (average_price_of a))"

definition preview_buy_from_book ::
  "(dec \<Rightarrow> dec \<Rightarrow> dec) \<Rightarrow> string \<Rightarrow> preview_io \<Rightarrow> string \<Rightarrow> binary_side \<Rightarrow> dec \<Rightarrow> dec \<Rightarrow> order_book \<Rightarrow> order_preview res" where
  "preview_buy_from_book fp venue io token side n max_price book =
     rbind (pv_constraints io) (\<lambda>cs.
     let a = preview_walk max_price (asks book) (max 0 n) in
     rbind (pv_fee io (average_price_of a) cs) (\<lambda>q.
     rbind (preview_fee fp q a) (\<lambda>fee.
     let blockers = book_blockers n max_price cs book a @ fee_blockers q in
     rbind (if blockers = [] then pv_signature io else Inr None) (\<lambda>signature.
       Inr \<lparr>op_venue = venue, op_token_id = token, op_side = side, op_requested_contracts = max 0 n,
         op_limit_price = max_price, op_average_price = average_price_of a, op_notional_usd = pa_spent a,
         op_available_depth_usd = pa_depth a, op_price_impact_pct = price_impact_of a, op_expected_fee_usd = fee,
         op_fee_quote = q, op_constraints = cs, op_signing_validated = truthy signature, op_payload_fingerprint = signature,
         op_blockers = fromkeys (blockers @ blocker (blockers = [] \<and> \<not> truthy signature) ''signature_preview_unavailable''),
         op_guaranteed_contracts = None, op_maximum_notional_usd = None, op_maximum_fee_usd = None\<rparr>))))"

section \<open>Lemmas\<close>

subsection \<open>Events\<close>

lemma event_timestamp_past: "event_timestamp now j \<le> now"
proof (induction now j rule: event_timestamp.induct)
  case (1 now kvs)
  let ?f = "List.find (\<lambda>p. p \<noteq> None) (map (\<lambda>k. parse_event_timestamp (field k kvs)) TIMESTAMP_KEYS)"
  consider (hit) p where "?f = Some (Some p)" | (miss) "?f = None \<or> ?f = Some None" by (cases ?f) auto
  then show ?case
  proof cases
    case miss
    then have "\<forall>x \<in> set (nested kvs). event_timestamp now x \<le> now" using 1 by auto
    then have "p \<le> now" if "List.find P (map (event_timestamp now) (nested kvs)) = Some p" for P p
      using find_Some_mem [OF that] by auto
    with miss show ?thesis by (auto simp del: not_None_eq split: option.split)
  qed (simp del: not_None_eq)
qed simp_all

subsection \<open>Reconnection\<close>

lemma next_delay_bounds:
  assumes "next_delay u b = Some (d, b')" and "0 \<le> u" and "u \<le> 1" and "flt_round (bo_maximum b) = bo_maximum b" and "0 \<le> bo_maximum b"
  shows "flt_round (1 / 10) \<le> d" "d \<le> max (flt_round (1 / 10)) (bo_maximum b)"
    "b' = b\<lparr>bo_attempt := bo_attempt b + 1, bo_current := d\<rparr>" "bo_attempt b < 1024"
proof -
  let ?c = "min (fmul (bo_initial b) (2 ^ bo_attempt b)) (bo_maximum b)"
  have "?c * u \<le> bo_maximum b * 1"
  proof (cases "0 \<le> ?c")
    case True
    then have "?c * u \<le> ?c * 1" using assms(3) by (intro mult_left_mono) simp_all
    then show ?thesis by simp
  next
    case False
    then have "?c \<le> 0" by linarith
    then have "?c * u \<le> 0" using assms(2) by (rule mult_nonpos_nonneg)
    with assms(5) show ?thesis by simp
  qed
  then have "fmul ?c u \<le> bo_maximum b" using flt.rnd_mono [of "?c * u" "bo_maximum b"] assms(4) by (simp add: fmul_def)
  then show "flt_round (1 / 10) \<le> d" "d \<le> max (flt_round (1 / 10)) (bo_maximum b)"
    "b' = b\<lparr>bo_attempt := bo_attempt b + 1, bo_current := d\<rparr>" "bo_attempt b < 1024"
    using assms(1) by (auto simp: next_delay_def Let_def max_def split: if_splits)
qed

text \<open>The delays of the failures in a row, one draw each.\<close>

fun delays :: "flt list \<Rightarrow> backoff \<Rightarrow> (flt list \<times> backoff) option" where
  "delays [] b = Some ([], b)"
| "delays (u # us) b = Option.bind (next_delay u b) (\<lambda>(d, b'). map_option (\<lambda>(ds, b''). (d # ds, b'')) (delays us b'))"

lemma delays_bounded:
  assumes "\<forall>u \<in> set us. 0 \<le> u \<and> u \<le> 1" and "flt_round (bo_maximum b) = bo_maximum b" and "0 \<le> bo_maximum b"
    and "bo_attempt b + length us \<le> 1024"
  shows "\<exists>ds b'. delays us b = Some (ds, b') \<and> length ds = length us \<and>
    (\<forall>d \<in> set ds. flt_round (1 / 10) \<le> d \<and> d \<le> max (flt_round (1 / 10)) (bo_maximum b))"
  using assms
proof (induction us arbitrary: b)
  case (Cons u us)
  obtain d b' where n: "next_delay u b = Some (d, b')" using Cons.prems(4) by (auto simp: next_delay_def Let_def)
  note step = next_delay_bounds [OF n _ _ Cons.prems(2,3)]
  from Cons.IH [of b'] Cons.prems step obtain ds b'' where "delays us b' = Some (ds, b'')" "length ds = length us"
    "\<forall>d \<in> set ds. flt_round (1 / 10) \<le> d \<and> d \<le> max (flt_round (1 / 10)) (bo_maximum b)" by auto
  with n step Cons.prems(1) show ?case by auto
qed simp

lemma delays_overflow:
  assumes "1024 < bo_attempt b + length us" and "bo_attempt b \<le> 1024"
  shows "delays us b = None"
  using assms
proof (induction us arbitrary: b)
  case (Cons u us)
  then show ?case by (cases "next_delay u b") (auto simp: next_delay_def Let_def split: if_splits)
qed simp

subsection \<open>The walk of a preview\<close>

text \<open>
  What a book offers a buyer with a limit: the contracts of its levels with a positive price of at most
  the limit and a positive size.
\<close>

definition offered :: "dec \<Rightarrow> order_book_level list \<Rightarrow> dec" where
  "offered max_price ls = sum_list (map (\<lambda>l. flt_repr (lsize l))
     (filter (\<lambda>l. 0 < flt_repr (price l) \<and> flt_repr (price l) \<le> max_price \<and> 0 < flt_repr (lsize l)) ls))"

lemma offered_simps [simp]:
  "offered m [] = 0"
  "offered m (l # ls) = (if within_limit m l then flt_repr (lsize l) else 0) + offered m ls"
  by (auto simp: offered_def within_limit_def)

lemma offered_nonneg: "0 \<le> offered m ls"
  by (induction ls) (auto simp: within_limit_def)

definition grid_sizes :: "dec \<Rightarrow> order_book_level list \<Rightarrow> bool" where
  "grid_sizes m ls \<longleftrightarrow> (\<forall>l \<in> set ls. 0 < flt_repr (price l) \<and> flt_repr (price l) \<le> m \<and> 0 < flt_repr (lsize l) \<longrightarrow>
     on_grid (flt_repr (lsize l)))"

lemma grid_sizes_Cons: "grid_sizes m (l # ls) \<longleftrightarrow> (within_limit m l \<longrightarrow> on_grid (flt_repr (lsize l))) \<and> grid_sizes m ls"
  by (auto simp: grid_sizes_def within_limit_def)

definition exact_preview :: "dec \<Rightarrow> preview_acc \<Rightarrow> bool" where
  "exact_preview n a \<longleftrightarrow> on_grid (pa_remaining a) \<and> on_grid (pa_filled a) \<and> 0 \<le> pa_remaining a \<and> 0 \<le> pa_filled a \<and>
     pa_filled a + pa_remaining a = n"

lemma preview_level_exact:
  assumes "exact_preview n a" and "n \<le> 10 ^ 10" and "within_limit m l \<longrightarrow> on_grid (flt_repr (lsize l))"
  shows "exact_preview n (preview_level m a l)"
    "pa_remaining (preview_level m a l) = max 0 (pa_remaining a - (if within_limit m l then flt_repr (lsize l) else 0))"
proof -
  let ?t = "min (pa_remaining a) (flt_repr (lsize l))"
  have nn: "0 \<le> pa_remaining a" "0 \<le> pa_filled a" "pa_filled a + pa_remaining a = n" using assms(1) by (auto simp: exact_preview_def)
  have both: "exact_preview n (preview_level m a l) \<and>
    pa_remaining (preview_level m a l) = max 0 (pa_remaining a - (if within_limit m l then flt_repr (lsize l) else 0))"
  proof (cases "within_limit m l \<and> 0 < ?t")
    case True
    define t where "t = ?t"
    have t: "0 < t" "t \<le> pa_remaining a" using True by (simp_all add: t_def)
    have g: "on_grid t" "on_grid (pa_remaining a)" "on_grid (pa_filled a)"
      using True assms(1,3) by (simp_all add: exact_preview_def t_def min_def)
    have r: "on_grid (pa_remaining a - t)" using on_grid_add [OF g(2) on_grid_minus [OF g(1)]] t nn assms(2) by simp
    have f: "on_grid (pa_filled a + t)" using on_grid_add [OF g(3) g(1)] t nn assms(2) by simp
    have b: "preview_level m a l = a\<lparr>pa_best := (case pa_best a of None \<Rightarrow> Some (flt_repr (price l)) | Some x \<Rightarrow> Some x),
        pa_depth := dadd (pa_depth a) (dmul (flt_repr (price l)) (flt_repr (lsize l))),
        pa_filled := pa_filled a + t, pa_spent := dadd (pa_spent a) (dmul t (flt_repr (price l))), pa_remaining := pa_remaining a - t\<rparr>"
      using True t r f by (simp add: preview_level_def Let_def t_def [symmetric] dsub_def dadd_def dec_round_grid)
    have "pa_remaining a - t = max 0 (pa_remaining a - flt_repr (lsize l))" using t by (simp add: t_def min_def max_def)
    with True r f nn t show ?thesis by (simp add: b exact_preview_def)
  next
    case False
    then show ?thesis using assms(1) nn by (auto simp: preview_level_def Let_def exact_preview_def within_limit_def min_def max_def split: if_splits)
  qed
  then show "exact_preview n (preview_level m a l)"
    "pa_remaining (preview_level m a l) = max 0 (pa_remaining a - (if within_limit m l then flt_repr (lsize l) else 0))" by blast+
qed

lemma preview_levels_exact:
  assumes "exact_preview n a" and "n \<le> 10 ^ 10" and "grid_sizes m ls"
  shows "exact_preview n (foldl (preview_level m) a ls) \<and>
    pa_remaining (foldl (preview_level m) a ls) = max 0 (pa_remaining a - offered m ls)"
  using assms
proof (induction ls arbitrary: a)
  case Nil
  then show ?case by (simp add: exact_preview_def)
next
  case (Cons l ls)
  have l: "within_limit m l \<longrightarrow> on_grid (flt_repr (lsize l))" and ls: "grid_sizes m ls" using Cons.prems(3) by (simp_all add: grid_sizes_Cons)
  note step = preview_level_exact [OF Cons.prems(1,2) l]
  from Cons.IH [OF step(1) Cons.prems(2) ls] offered_nonneg [of m ls] show ?case
    by (auto simp: step(2) max_def split: if_splits)
qed

lemma preview_walk_remaining:
  assumes "on_grid n" and "0 \<le> n" and "grid_sizes m ls"
  shows "pa_remaining (preview_walk m ls n) = max 0 (n - offered m ls)"
    "pa_filled (preview_walk m ls n) = min n (offered m ls)"
proof -
  have "exact_preview n \<lparr>pa_remaining = n, pa_filled = 0, pa_spent = 0, pa_depth = 0, pa_best = None\<rparr>"
    using assms(1,2) by (simp add: exact_preview_def)
  from preview_levels_exact [OF this on_grid_le [OF assms(1)] assms(3)]
  have w: "exact_preview n (preview_walk m ls n)" and r: "pa_remaining (preview_walk m ls n) = max 0 (n - offered m ls)"
    by (simp_all add: preview_walk_def)
  show "pa_remaining (preview_walk m ls n) = max 0 (n - offered m ls)" by (rule r)
  from w have "pa_filled (preview_walk m ls n) = n - max 0 (n - offered m ls)" unfolding exact_preview_def r by linarith
  then show "pa_filled (preview_walk m ls n) = min n (offered m ls)" by (cases "n \<le> offered m ls") simp_all
qed

lemma preview_level_depth:
  assumes "pa_spent a \<le> pa_depth a" and "dec_round (pa_depth a) = pa_depth a"
  shows "pa_spent (preview_level m a l) \<le> pa_depth (preview_level m a l) \<and>
    dec_round (pa_depth (preview_level m a l)) = pa_depth (preview_level m a l)"
proof (cases "within_limit m l")
  case True
  let ?p = "flt_repr (price l)" and ?n = "flt_repr (lsize l)"
  have "min (pa_remaining a) ?n * ?p \<le> ?p * ?n" using True by (simp add: within_limit_def mult.commute [of ?p] mult_right_mono)
  then have "dmul (min (pa_remaining a) ?n) ?p \<le> dmul ?p ?n" by (simp add: dmul_def dec.rnd_mono)
  then have taken: "dadd (pa_spent a) (dmul (min (pa_remaining a) ?n) ?p) \<le> dadd (pa_depth a) (dmul ?p ?n)"
    using assms(1) by (intro dadd_mono)
  have "0 \<le> dmul ?p ?n" using True by (simp add: within_limit_def dmul_nonneg)
  then have "pa_depth a \<le> dadd (pa_depth a) (dmul ?p ?n)"
    using dec.rnd_mono [of "pa_depth a" "pa_depth a + dmul ?p ?n"] assms(2) by (simp add: dadd_def)
  with taken True assms show ?thesis by (simp add: preview_level_def Let_def)
qed (use assms in \<open>simp add: preview_level_def\<close>)

lemma preview_spent_le_depth: "pa_spent (preview_walk m ls n) \<le> pa_depth (preview_walk m ls n)"
proof -
  have "pa_spent a \<le> pa_depth a \<Longrightarrow> dec_round (pa_depth a) = pa_depth a \<Longrightarrow>
      pa_spent (foldl (preview_level m) a ls) \<le> pa_depth (foldl (preview_level m) a ls)" for a
  proof (induction ls arbitrary: a)
    case (Cons l ls)
    with preview_level_depth [OF Cons.prems] show ?case by simp
  qed simp
  then show ?thesis by (simp add: preview_walk_def dec.rnd_0)
qed

lemma fromkeys_blocked: "fromkeys xs = [] \<longleftrightarrow> xs = []"
  by (rule fromkeys_Nil_iff)

lemma preview_outcome:
  assumes "preview_buy_from_book fp venue io token side n limit book = Inr v" and "pv_constraints io = Inr cs"
  defines "a \<equiv> preview_walk limit (asks book) (max 0 n)"
  shows "op_requested_contracts v = max 0 n" "op_limit_price v = limit" "op_notional_usd v = pa_spent a" "op_available_depth_usd v = pa_depth a"
    "op_average_price v = average_price_of a" "pv_fee io (average_price_of a) cs = Inr (op_fee_quote v)"
    "preview_executable v \<longleftrightarrow> book_blockers n limit cs book a = [] \<and> (\<exists>q. op_fee_quote v = Some q \<and> fq_verified q) \<and>
       (\<exists>h. pv_signature io = Inr (Some h) \<and> h \<noteq> [])"
proof -
  let ?bs = "\<lambda>q. book_blockers n limit cs book a @ fee_blockers q"
  obtain q fee h where q: "pv_fee io (average_price_of a) cs = Inr q" "preview_fee fp q a = Inr fee"
    "(if ?bs q = [] then pv_signature io else Inr None) = Inr h"
    and v: "v = \<lparr>op_venue = venue, op_token_id = token, op_side = side, op_requested_contracts = max 0 n,
         op_limit_price = limit, op_average_price = average_price_of a, op_notional_usd = pa_spent a,
         op_available_depth_usd = pa_depth a, op_price_impact_pct = price_impact_of a, op_expected_fee_usd = fee,
         op_fee_quote = q, op_constraints = cs, op_signing_validated = truthy h, op_payload_fingerprint = h,
         op_blockers = fromkeys (?bs q @ blocker (?bs q = [] \<and> \<not> truthy h) ''signature_preview_unavailable''),
         op_guaranteed_contracts = None, op_maximum_notional_usd = None, op_maximum_fee_usd = None\<rparr>"
    using assms(1,2) by (auto simp: preview_buy_from_book_def rbind_Inr_iff Let_def a_def)
  then show "op_requested_contracts v = max 0 n" "op_limit_price v = limit" "op_notional_usd v = pa_spent a"
    "op_available_depth_usd v = pa_depth a" "op_average_price v = average_price_of a"
    "pv_fee io (average_price_of a) cs = Inr (op_fee_quote v)" by simp_all
  have "fee_blockers q = [] \<longleftrightarrow> (\<exists>x. q = Some x \<and> fq_verified x)" by (cases q) (simp_all add: fee_blockers_def blocker_def)
  then show "preview_executable v \<longleftrightarrow> book_blockers n limit cs book a = [] \<and> (\<exists>q. op_fee_quote v = Some q \<and> fq_verified q) \<and>
       (\<exists>h. pv_signature io = Inr (Some h) \<and> h \<noteq> [])"
    using q(3) by (cases h) (auto simp: v preview_executable_def fromkeys_Nil_iff blocker_def truthy_def split: if_splits option.splits)
qed

section \<open>Properties\<close>

text \<open>C37. A preview is executable exactly when the book backs it: with a positive number of contracts, a
  limit in the unit interval, a valid book whose levels with a price of at most the limit hold the
  contracts (up to 10^-18), known constraints whose minimum the notional reaches, a verified fee and a
  signed order. Its notional never exceeds the depth it reports. The sizes of these levels and the contracts are
  amounts of the 18-decimal grid.\<close>

theorem executable_preview_iff:
  assumes "preview_buy_from_book fp venue io token side n limit book = Inr v" and "pv_constraints io = Inr cs"
    and "on_grid n" and "grid_sizes limit (asks book)"
  shows "(preview_executable v \<longleftrightarrow> 0 < n \<and> 0 < limit \<and> limit \<le> 1 \<and> ob_status book = MD_VALID \<and> asks book \<noteq> [] \<and>
      n \<le> offered limit (asks book) + dec_eps \<and> (\<exists>c. cs = Some c \<and> minimum_notional c \<le> op_notional_usd v) \<and>
      (\<exists>q. op_fee_quote v = Some q \<and> fq_verified q) \<and> (\<exists>h. pv_signature io = Inr (Some h) \<and> h \<noteq> [])) \<and>
    op_notional_usd v \<le> op_available_depth_usd v"
proof -
  let ?a = "preview_walk limit (asks book) (max 0 n)"
  note o = preview_outcome [OF assms(1,2)]
  have r: "pa_remaining ?a = max 0 (max 0 n - offered limit (asks book))"
    using preview_walk_remaining(1) [OF _ _ assms(4), of "max 0 n"] assms(3) by (simp add: max_def)
  have "0 < dec_eps" by (simp add: dec_eps_def)
  then have "dec_eps < pa_remaining ?a \<longleftrightarrow> offered limit (asks book) + dec_eps < n" if "0 < n"
    using that unfolding r by linarith
  then have "book_blockers n limit cs book ?a = [] \<longleftrightarrow> 0 < n \<and> 0 < limit \<and> limit \<le> 1 \<and> ob_status book = MD_VALID \<and> asks book \<noteq> [] \<and>
      n \<le> offered limit (asks book) + dec_eps \<and> (\<exists>c. cs = Some c \<and> minimum_notional c \<le> pa_spent ?a)"
    by (cases cs) (auto simp: book_blockers_def blocker_def not_less not_le)
  with o(7) have "preview_executable v \<longleftrightarrow> 0 < n \<and> 0 < limit \<and> limit \<le> 1 \<and> ob_status book = MD_VALID \<and> asks book \<noteq> [] \<and>
      n \<le> offered limit (asks book) + dec_eps \<and> (\<exists>c. cs = Some c \<and> minimum_notional c \<le> op_notional_usd v) \<and>
      (\<exists>q. op_fee_quote v = Some q \<and> fq_verified q) \<and> (\<exists>h. pv_signature io = Inr (Some h) \<and> h \<noteq> [])"
    unfolding o(3) by simp
  with preview_spent_le_depth [of limit "asks book" "max 0 n"] show ?thesis unfolding o(3,4) by blast
qed

definition sample_preview_io :: preview_io where
  "sample_preview_io = \<lparr>pv_constraints = Inr (Some \<lparr>fee_rate_bps = 0, tick_size = 1 / 100, lot_size = 1, minimum_notional = 1,
     mc_fee_exponent = 1\<rparr>), pv_fee = (\<lambda>_ c. default_fee_quote ''Polymarket'' c (Inr None)), pv_signature = Inr (Some ''ab'')\<rparr>"

theorem executable_preview_iff_witness:
  "\<exists>v. preview_buy_from_book (\<lambda>x e. x) ''Polymarket'' sample_preview_io ''t'' YES 20 (1 / 4) (sample_book (1 / 4)) = Inr v \<and>
    preview_executable v \<and> op_notional_usd v \<le> op_available_depth_usd v"
proof -
  have ask: "asks (sample_book (1 / 4)) = [\<lparr>price = 1 / 4, lsize = 100\<rparr>]" "ob_status (sample_book (1 / 4)) = MD_VALID"
    by (simp_all add: sample_book_def)
  have a: "preview_walk (1 / 4) [\<lparr>price = 1 / 4, lsize = 100\<rparr>] 20 =
      \<lparr>pa_remaining = 0, pa_filled = 20, pa_spent = 5, pa_depth = 25, pa_best = Some (1 / 4)\<rparr>"
    by (simp add: preview_walk_def preview_level_def within_limit_def Let_def sample_reprs dmul_def dadd_def dsub_def dec_round_eval dec.rnd_0)
  obtain v where v: "preview_buy_from_book (\<lambda>x e. x) ''Polymarket'' sample_preview_io ''t'' YES 20 (1 / 4) (sample_book (1 / 4)) = Inr v"
    "op_notional_usd v = 5" "\<exists>q. op_fee_quote v = Some q \<and> fq_verified q"
    by (simp add: preview_buy_from_book_def sample_preview_io_def ask a Let_def default_fee_quote_def preview_fee_def fee_for_fill_def
        average_price_of_def ddiv_def dec_round_eval fee_rate_def minimum_fee_def curve_factor_def book_blockers_def fee_blockers_def blocker_def dec_eps_def)
  have "grid_sizes (1 / 4) (asks (sample_book (1 / 4)))" "offered (1 / 4) (asks (sample_book (1 / 4))) = 100" "on_grid (20 :: dec)"
    by (simp_all add: grid_sizes_def ask offered_def sample_reprs on_grid_numeral)
  with executable_preview_iff [OF v(1) _ _ this(1)] v show ?thesis
    by (auto simp: ask sample_preview_io_def dec_eps_def)
qed

text \<open>A reconnecting stream waits between a tenth of a second and the maximum before each attempt, and
  never more than 1024 times: the next failure in a row raises an overflow error instead of waiting,
  because the power of two that is multiplied into the delay no longer fits a float.\<close>

theorem reconnect_delays_bounded:
  assumes "\<forall>u \<in> set us. 0 \<le> u \<and> u \<le> 1" and "flt_round maximum = maximum" and "0 \<le> maximum"
  shows "if length us \<le> 1024
    then \<exists>ds b. delays us (new_backoff initial maximum) = Some (ds, b) \<and> length ds = length us \<and>
      (\<forall>d \<in> set ds. flt_round (1 / 10) \<le> d \<and> d \<le> max (flt_round (1 / 10)) maximum)
    else delays us (new_backoff initial maximum) = None"
  using delays_bounded [OF assms(1), of "new_backoff initial maximum"] delays_overflow [of "new_backoff initial maximum" us] assms(2,3)
  by (simp add: new_backoff_def)

theorem reconnect_delays_bounded_witness:
  "(\<exists>ds b. delays [1 / 2, 1] (new_backoff 1 30) = Some (ds, b) \<and> length ds = 2) \<and>
    delays (replicate 1025 1) (new_backoff 1 30) = None"
proof -
  have max: "flt_round 30 = 30" "(0 :: flt) \<le> 30" by (simp_all add: flt_round_eval)
  show ?thesis
    using reconnect_delays_bounded [OF _ max, of "[1 / 2, 1]" 1] reconnect_delays_bounded [OF _ max, of "replicate 1025 1" 1] by auto
qed

end
