(* ===== verification/Polymarket_Stream.thy ===== *)
theory Polymarket_Stream
  imports Connector_Base
begin

text \<open>
  The market data of Polymarket, \<^verbatim>\<open>connectors/polymarket.py\<close>: the order book that a stream of snapshots
  and price changes maintains, the cache of the connector with its ages and refreshes, and the
  subscriptions of the WebSocket connection. Two clocks are arguments, \<open>clock\<close> for
  \<^verbatim>\<open>time.monotonic()\<close> and \<open>wall\<close> for \<^verbatim>\<open>time.time()\<close>. The lemmas show that the cached book
  is the upper part of the venue's ladder, and that the subscriptions follow the targets while no send fails.
\<close>

section \<open>Payloads\<close>

text \<open>Python's \<^verbatim>\<open>x or y or z\<close>: the first value that is true, otherwise the last.\<close>

fun or_chain :: "json list \<Rightarrow> json" where
  "or_chain [] = JNull"
| "or_chain [v] = v"
| "or_chain (v # w # vs) = (if j_truthy v then v else or_chain (w # vs))"

definition text_of :: "(json \<Rightarrow> string) \<Rightarrow> json \<Rightarrow> string" where
  "text_of str v = (case v of JStr s \<Rightarrow> s | _ \<Rightarrow> str v)"

definition asset_id :: "(json \<Rightarrow> string) \<Rightarrow> (string \<times> json) list \<Rightarrow> string" where
  "asset_id str kvs = (let v = or_chain (map (\<lambda>k. field k kvs) [''asset_id'', ''assetId'', ''token_id'', ''tokenId''])
     in if blank v then [] else text_of str v)"

definition dict_items :: "json list \<Rightarrow> (string \<times> json) list list" where
  "dict_items js = concat (map (\<lambda>j. case j of JObj kvs \<Rightarrow> [kvs] | _ \<Rightarrow> []) js)"

definition iter_payload_items :: "json \<Rightarrow> (string \<times> json) list list" where
  "iter_payload_items j = (case j of
     JObj kvs \<Rightarrow> (case field ''data'' kvs of JList items \<Rightarrow> dict_items items | JObj inner \<Rightarrow> [inner] | _ \<Rightarrow> [kvs])
   | JList items \<Rightarrow> dict_items items
   | _ \<Rightarrow> [])"

definition level_from_payload :: "json \<Rightarrow> order_book_level option" where
  "level_from_payload j =
     (let pair = (case j of
          JObj kvs \<Rightarrow> Some (field ''price'' kvs, if field ''size'' kvs = JNull then field ''quantity'' kvs else field ''size'' kvs)
        | JList (p # n # _) \<Rightarrow> Some (p, n)
        | _ \<Rightarrow> None)
      in case pair of None \<Rightarrow> None
       | Some (p, n) \<Rightarrow> (case (wire_float p, wire_float n) of (Some x, Some y) \<Rightarrow> Some \<lparr>price = x, lsize = y\<rparr> | _ \<Rightarrow> None))"

definition levels_from :: "json list \<Rightarrow> order_book_level list" where
  "levels_from js = concat (map (\<lambda>j. case level_from_payload j of None \<Rightarrow> [] | Some l \<Rightarrow> [l]) js)"

text \<open>Python's sort is stable, also in reverse.\<close>

definition sorted_bids :: "order_book_level list \<Rightarrow> order_book_level list" where
  "sorted_bids ls = rev (sort_key price (rev ls))"

definition sorted_asks :: "order_book_level list \<Rightarrow> order_book_level list" where
  "sorted_asks ls = sort_key price ls"

text \<open>\<^verbatim>\<open>_payload_contains_amm_pool\<close> of quant.py: a pool in the payload or in the chain of its sources.\<close>

function contains_amm_pool :: "json \<Rightarrow> bool" where
  "contains_amm_pool (JObj kvs) = (is_dict (field ''amm_pool'' kvs) \<or>
     (case map_of kvs ''source'' of None \<Rightarrow> False | Some j \<Rightarrow> contains_amm_pool j))"
| "contains_amm_pool JNull = False"
| "contains_amm_pool (JBool b) = False"
| "contains_amm_pool (JInt n) = False"
| "contains_amm_pool (JFloat x) = False"
| "contains_amm_pool (JStr s) = False"
| "contains_amm_pool (JDec d) = False"
| "contains_amm_pool (JTime t) = False"
| "contains_amm_pool (JList js) = False"
  by pat_completeness auto

lemma field_smaller: "map_of kvs k = Some v \<Longrightarrow> size v < size (JObj kvs)"
  by (drule map_of_SomeD) (induction kvs, auto)

termination contains_amm_pool
  by (relation "measure size") (auto dest: field_smaller)

definition order_book_from_payload :: "(json \<Rightarrow> string) \<Rightarrow> flt \<Rightarrow> (string \<times> json) list \<Rightarrow> order_book option" where
  "order_book_from_payload str wall kvs =
     (case (or_chain [field ''bids'' kvs, field ''buys'' kvs], or_chain [field ''asks'' kvs, field ''sells'' kvs]) of
        (JList raw_bids, JList raw_asks) \<Rightarrow>
          Some \<lparr>bids = take 10 (sorted_bids (levels_from raw_bids)), asks = take 10 (sorted_asks (levels_from raw_asks)),
            ob_has_amm_payload = contains_amm_pool (JObj kvs), ob_timestamp = event_timestamp wall (JObj kvs),
            ob_sequence = event_sequence (JObj kvs), ob_checksum = event_checksum str (JObj kvs), ob_status = MD_VALID\<rparr>
      | _ \<Rightarrow> None)"

section \<open>Price changes\<close>

type_synonym ladder = "(flt, flt) dict"

definition ladder_of :: "order_book_level list \<Rightarrow> ladder" where
  "ladder_of ls = foldl (\<lambda>d l. dict_set (price l) (lsize l) d) [] ls"

definition levels_of :: "ladder \<Rightarrow> order_book_level list" where
  "levels_of d = map (\<lambda>(p, n). \<lparr>price = p, lsize = n\<rparr>) d"

text \<open>The side of a change: \<^verbatim>\<open>Some True\<close> for the bids, \<^verbatim>\<open>Some False\<close> for the asks.\<close>

definition change_side :: "(string \<times> json) list \<Rightarrow> bool option" where
  "change_side kvs = (case or_chain [field ''side'' kvs, field ''book_side'' kvs, JStr []] of
     JStr s \<Rightarrow> if upper s \<in> {''BUY'', ''BID'', ''BIDS''} then Some True
       else if upper s \<in> {''SELL'', ''ASK'', ''ASKS''} then Some False else None
   | _ \<Rightarrow> None)"

definition concerns :: "(json \<Rightarrow> string) \<Rightarrow> string \<Rightarrow> (string \<times> json) list \<Rightarrow> bool" where
  "concerns str token kvs = (let v = or_chain [field ''asset_id'' kvs, field ''assetId'' kvs, field ''token_id'' kvs]
     in v = JNull \<or> text_of str v = token)"

definition set_level :: "order_book_level \<Rightarrow> ladder \<Rightarrow> ladder" where
  "set_level l d = (if lsize l \<le> 0 then dict_pop (price l) d else dict_set (price l) (lsize l) d)"

text \<open>The effect of one change on the two ladders of a token: which side, and which level; nothing else counts.\<close>

definition change_of :: "(json \<Rightarrow> string) \<Rightarrow> string \<Rightarrow> json \<Rightarrow> (bool \<times> order_book_level) option" where
  "change_of str token j = (case j of
     JObj kvs \<Rightarrow> if \<not> concerns str token kvs then None
       else (case (level_from_payload j, change_side kvs) of (Some l, Some bid) \<Rightarrow> Some (bid, l) | _ \<Rightarrow> None)
   | _ \<Rightarrow> None)"

definition apply_change :: "(bool \<times> order_book_level) option \<Rightarrow> ladder \<times> ladder \<Rightarrow> ladder \<times> ladder" where
  "apply_change c b = (case c of None \<Rightarrow> b | Some (True, l) \<Rightarrow> (set_level l (fst b), snd b) | Some (False, l) \<Rightarrow> (fst b, set_level l (snd b)))"

definition change_sequences :: "json list \<Rightarrow> int list" where
  "change_sequences changes = concat (map (\<lambda>j. case event_sequence j of None \<Rightarrow> [] | Some n \<Rightarrow> [n]) changes)"

definition apply_price_changes :: "(json \<Rightarrow> string) \<Rightarrow> flt \<Rightarrow> order_book \<Rightarrow> json list \<Rightarrow> string \<Rightarrow> order_book" where
  "apply_price_changes str wall book changes token =
     (let (bs, as) = foldl (\<lambda>b j. apply_change (change_of str token j) b) (ladder_of (bids book), ladder_of (asks book)) changes;
          sequences = change_sequences changes;
          next_sequence = (if sequences = [] then None else Some (Max (set sequences)));
          valid = (case (ob_sequence book, next_sequence) of (Some s, Some n) \<Rightarrow> n = s + 1 | _ \<Rightarrow> True)
      in \<lparr>bids = take 10 (sorted_bids (levels_of bs)), asks = take 10 (sorted_asks (levels_of as)),
          ob_has_amm_payload = False, ob_timestamp = wall,
          ob_sequence = (case next_sequence of Some n \<Rightarrow> Some n | None \<Rightarrow> ob_sequence book), ob_checksum = None,
          ob_status = (if valid then MD_VALID else MD_INVALID)\<rparr>)"

section \<open>The cache of the connector\<close>

text \<open>
  \<open>st_queue\<close> holds the subscription queue (\<open>True\<close> for a subscription), \<open>st_subscribed\<close> the tokens the
  open connection has subscribed, \<open>st_running\<close> the tokens with an unfinished REST refresh. \<open>st_open\<close> tells
  whether the loop of the stream holds a socket, \<open>st_connected\<close> is the flag \<^verbatim>\<open>_ws_connected\<close>, which a forced
  reconnection clears earlier. \<open>st_sender\<close> is the task that sends the queued operations of a
  connection: not started before the first batch is sent, between two sends, in the middle of one, or
  dead after a send that raised.
\<close>

datatype sender = Not_Started | Between_Sends | Sending bool string | Send_Died

record stream =
  st_books :: "(string, order_book) dict"
  st_book_times :: "(string, flt) dict"
  st_snapshot_times :: "(string, flt) dict"
  st_desired :: "string set"
  st_queue :: "(bool \<times> string) list"
  st_subscribed :: "string set"
  st_open :: bool
  st_sender :: sender
  st_connected :: bool
  st_reconnecting :: bool
  st_attempted :: "string set"
  st_stale_attempts :: "(string, flt) dict"
  st_running :: "string set"
  st_gaps :: nat
  st_ever_ready :: bool
  st_deadline :: flt
  st_snapshot_interval :: flt
  st_freshness :: flt

definition ORDER_BOOK_MAX_AGE :: flt where "ORDER_BOOK_MAX_AGE = flt_round (3 / 10)"
definition PASSIVE_BOOK_MAX_AGE :: flt where "PASSIVE_BOOK_MAX_AGE = 2"
definition TRANSITION_GRACE :: flt where "TRANSITION_GRACE = 3 / 4"

definition new_stream :: stream where
  "new_stream = \<lparr>st_books = [], st_book_times = [], st_snapshot_times = [], st_desired = {}, st_queue = [], st_subscribed = {},
     st_open = False, st_sender = Not_Started, st_connected = False, st_reconnecting = False, st_attempted = {}, st_stale_attempts = [], st_running = {}, st_gaps = 0,
     st_ever_ready = False, st_deadline = 0, st_snapshot_interval = 30, st_freshness = PASSIVE_BOOK_MAX_AGE\<rparr>"

definition register_token :: "string \<Rightarrow> stream \<Rightarrow> stream" where
  "register_token t s = (if t \<in> st_desired s then s
     else s\<lparr>st_desired := insert t (st_desired s), st_queue := st_queue s @ [(True, t)]\<rparr>)"

definition prune_token :: "string \<Rightarrow> stream \<Rightarrow> stream" where
  "prune_token t s = s\<lparr>st_running := st_running s - {t}, st_attempted := st_attempted s - {t},
     st_stale_attempts := dict_pop t (st_stale_attempts s), st_books := dict_pop t (st_books s),
     st_book_times := dict_pop t (st_book_times s), st_snapshot_times := dict_pop t (st_snapshot_times s)\<rparr>"

text \<open>\<open>removed\<close> and \<open>added\<close> are the two set differences in the order in which they are iterated.\<close>

definition sync_market_targets :: "flt \<Rightarrow> string set \<Rightarrow> string list \<Rightarrow> string list \<Rightarrow> stream \<Rightarrow> stream" where
  "sync_market_targets clock tokens removed added s =
     (let s1 = s\<lparr>st_desired := tokens - {[]}\<rparr>;
          s2 = fold prune_token removed s1;
          s3 = s2\<lparr>st_queue := st_queue s2 @ map (Pair False) removed @ map (Pair True) added\<rparr>
      in if added \<noteq> [] \<and> st_connected s3 \<and> st_ever_ready s3 then s3\<lparr>st_deadline := fadd clock TRANSITION_GRACE\<rparr>
         else if st_desired s3 = {} then s3\<lparr>st_deadline := 0\<rparr> else s3)"

definition book_valid :: "stream \<Rightarrow> string \<Rightarrow> bool" where
  "book_valid s t \<longleftrightarrow> (case dict_get (st_books s) t of None \<Rightarrow> False | Some b \<Rightarrow> ob_status b = MD_VALID)"

definition update_book :: "flt \<Rightarrow> flt \<Rightarrow> string \<Rightarrow> order_book \<Rightarrow> stream \<Rightarrow> stream" where
  "update_book clock wall t b s =
     (let s1 = s\<lparr>st_gaps := (if ob_status b = MD_INVALID then st_gaps s + 1 else st_gaps s),
            st_books := dict_set t (b\<lparr>ob_timestamp := min (ob_timestamp b) wall\<rparr>) (st_books s),
            st_book_times := dict_set t clock (st_book_times s)\<rparr>
      in if st_desired s1 \<noteq> {} \<and> (\<forall>u \<in> st_desired s1. book_valid s1 u) then s1\<lparr>st_ever_ready := True, st_deadline := 0\<rparr> else s1)"

definition take_snapshot :: "flt \<Rightarrow> flt \<Rightarrow> string \<Rightarrow> order_book \<Rightarrow> stream \<Rightarrow> stream" where
  "take_snapshot clock wall t b s = (let s1 = update_book clock wall t b s in s1\<lparr>st_snapshot_times := dict_set t clock (st_snapshot_times s1)\<rparr>)"

text \<open>The tokens of the changes of an item, and the update of each; the books of different tokens do not meet.\<close>

definition changed_tokens :: "(json \<Rightarrow> string) \<Rightarrow> string \<Rightarrow> json list \<Rightarrow> string list" where
  "changed_tokens str item changes = fromkeys (filter (\<lambda>t. t \<noteq> [])
     (concat (map (\<lambda>j. case j of JObj kvs \<Rightarrow> [asset_id str kvs] | _ \<Rightarrow> []) changes) @ [item]))"

definition handle_item :: "(json \<Rightarrow> string) \<Rightarrow> flt \<Rightarrow> flt \<Rightarrow> (string \<times> json) list \<Rightarrow> stream \<Rightarrow> stream" where
  "handle_item str clock wall kvs s =
     (let item = asset_id str kvs; book = order_book_from_payload str wall kvs in
      if book \<noteq> None \<and> item \<in> st_desired s then take_snapshot clock wall item (the book) s
      else (case or_chain [field ''changes'' kvs, field ''price_changes'' kvs, field ''priceChanges'' kvs] of
          JList changes \<Rightarrow> fold (\<lambda>t s. case dict_get (st_books s) t of
              None \<Rightarrow> s
            | Some b \<Rightarrow> update_book clock wall t (apply_price_changes str wall b changes t) s)
            (filter (\<lambda>t. t \<in> st_desired s) (changed_tokens str item changes)) s
        | _ \<Rightarrow> s))"

definition handle_ws_payload :: "(json \<Rightarrow> string) \<Rightarrow> flt \<Rightarrow> flt \<Rightarrow> json \<Rightarrow> stream \<Rightarrow> stream" where
  "handle_ws_payload str clock wall payload s = fold (handle_item str clock wall) (iter_payload_items payload) s"

definition mark_books_stale :: "stream \<Rightarrow> stream" where
  "mark_books_stale s = s\<lparr>st_books := map (\<lambda>(t, b). (t, if t \<in> st_desired s then b\<lparr>ob_status := MD_STALE\<rparr> else b)) (st_books s)\<rparr>"

text \<open>The connection opens with a subscription of all targets, and closes with stale books.\<close>

definition ws_connected :: "stream \<Rightarrow> stream" where
  "ws_connected s = s\<lparr>st_open := True, st_connected := True, st_reconnecting := False, st_subscribed := st_desired s,
     st_sender := Not_Started\<rparr>"

definition ws_disconnected :: "stream \<Rightarrow> stream" where
  "ws_disconnected s = mark_books_stale (s\<lparr>st_open := False, st_connected := False, st_reconnecting := True, st_sender := Not_Started\<rparr>)"

text \<open>A forced reconnection closes the socket; the loop notices later.\<close>

definition reconnect_market_data :: "stream \<Rightarrow> stream" where
  "reconnect_market_data s = (if st_reconnecting s then s
     else mark_books_stale (s\<lparr>st_connected := False, st_reconnecting := True\<rparr>))"

text \<open>
  A turn of \<^verbatim>\<open>_send_subscriptions\<close>: it takes the operation at the head of the queue, and awaits the send unless
  there is nothing to do; other events may come before the send ends. A send that raises ends the
  task and nothing else: the connection goes on without it, and the operation is lost.
\<close>

definition sender_started :: "stream \<Rightarrow> stream" where
  "sender_started s = (if st_open s \<and> st_sender s = Not_Started then s\<lparr>st_sender := Between_Sends\<rparr> else s)"

definition begin_send :: "stream \<Rightarrow> stream" where
  "begin_send s = (if st_sender s \<noteq> Between_Sends then s else case st_queue s of
     [] \<Rightarrow> s
   | (subscribe, t) # q \<Rightarrow> s\<lparr>st_queue := q, st_sender :=
       (if (if subscribe then t \<notin> st_subscribed s \<and> t \<in> st_desired s else t \<in> st_subscribed s)
        then Sending subscribe t else Between_Sends)\<rparr>)"

definition end_send :: "stream \<Rightarrow> stream" where
  "end_send s = (case st_sender s of
     Sending subscribe t \<Rightarrow> s\<lparr>st_sender := Between_Sends,
       st_subscribed := (if subscribe then insert t (st_subscribed s) else st_subscribed s - {t})\<rparr>
   | _ \<Rightarrow> s)"

definition send_failed :: "stream \<Rightarrow> stream" where
  "send_failed s = (case st_sender s of Sending _ _ \<Rightarrow> s\<lparr>st_sender := Send_Died\<rparr> | _ \<Rightarrow> s)"

definition set_snapshot_interval :: "flt \<Rightarrow> stream \<Rightarrow> stream" where
  "set_snapshot_interval x s = s\<lparr>st_snapshot_interval := x\<rparr>"

definition set_execution_freshness :: "flt \<Rightarrow> stream \<Rightarrow> stream" where
  "set_execution_freshness x s = s\<lparr>st_freshness := max ORDER_BOOK_MAX_AGE x\<rparr>"

section \<open>Reading the cache\<close>

definition passively_fresh :: "flt \<Rightarrow> string \<Rightarrow> stream \<Rightarrow> bool" where
  "passively_fresh wall t s = (case dict_get (st_books s) t of
     None \<Rightarrow> False
   | Some b \<Rightarrow> ob_status b = MD_VALID \<and>
       (st_connected s \<and> t \<in> st_desired s \<or> max 0 (fsub wall (ob_timestamp b)) \<le> st_freshness s))"

definition execution_book :: "flt \<Rightarrow> string \<Rightarrow> order_book \<Rightarrow> stream \<Rightarrow> order_book" where
  "execution_book wall t b s = (if st_connected s \<and> t \<in> st_desired s then b\<lparr>ob_timestamp := wall\<rparr> else b)"

definition market_data_age :: "flt \<Rightarrow> stream \<Rightarrow> flt option" where
  "market_data_age clock s = (let times = map snd (filter (\<lambda>(t, _). t \<in> st_desired s) (st_book_times s))
     in if times = [] then None else Some (fsub clock (Max (set times))))"

definition target_age :: "flt \<Rightarrow> string \<Rightarrow> stream \<Rightarrow> flt option" where
  "target_age clock t s = map_option (\<lambda>x. max 0 (fsub clock x)) (dict_get (st_book_times s) t)"

definition stream_target_ready :: "flt \<Rightarrow> flt \<Rightarrow> string \<Rightarrow> stream \<Rightarrow> bool" where
  "stream_target_ready wall max_age t s = (case dict_get (st_books s) t of
     None \<Rightarrow> False | Some b \<Rightarrow> is_order_book_execution_fresh wall (execution_book wall t b s) max_age)"

definition market_data_ready :: "stream \<Rightarrow> bool" where
  "market_data_ready s \<longleftrightarrow> st_connected s \<and> st_desired s \<noteq> {} \<and> (\<forall>t \<in> st_desired s. book_valid s t)"

definition market_data_transitioning :: "flt \<Rightarrow> stream \<Rightarrow> bool" where
  "market_data_transitioning clock s \<longleftrightarrow> st_ever_ready s \<and> st_connected s \<and> st_desired s \<noteq> {} \<and> clock \<le> st_deadline s \<and>
     (\<exists>t \<in> st_desired s. \<not> book_valid s t)"

definition ensure_refresh :: "flt \<Rightarrow> string \<Rightarrow> bool \<Rightarrow> stream \<Rightarrow> bool \<times> stream" where
  "ensure_refresh clock t force s =
     (if t \<in> st_running s then (True, s)
      else if force \<and> fsub clock (get_or (st_stale_attempts s) t 0) < st_freshness s then (False, s)
      else if \<not> force \<and> t \<in> st_attempted s then (False, s)
      else (True, s\<lparr>st_attempted := (if force then st_attempted s else insert t (st_attempted s)),
          st_stale_attempts := dict_set t clock (st_stale_attempts s), st_running := insert t (st_running s)\<rparr>))"

text \<open>What \<^verbatim>\<open>watch_order_book\<close> does: return a book, wait for the refresh of the token, or raise.\<close>

datatype watched = Cached order_book | Refreshing | Too_Stale string

definition or_refresh :: "string \<Rightarrow> bool \<times> stream \<Rightarrow> watched \<times> stream" where
  "or_refresh message r = (if fst r then Refreshing else Too_Stale message, snd r)"

definition watch_order_book :: "flt \<Rightarrow> flt \<Rightarrow> string \<Rightarrow> stream \<Rightarrow> watched \<times> stream" where
  "watch_order_book clock wall t s0 =
     (let s = register_token t s0 in case dict_get (st_books s) t of
        None \<Rightarrow> or_refresh (''Polymarket order book bootstrap unavailable for token '' @ t) (ensure_refresh clock t False s)
      | Some b \<Rightarrow>
          if ob_status b \<noteq> MD_VALID \<or> ob_sequence b = None \<and> st_snapshot_interval s \<le> fsub clock (get_or (st_snapshot_times s) t 0)
          then or_refresh (''Polymarket order book refresh is cooling down for token '' @ t) (ensure_refresh clock t True s)
          else if fsub clock (get_or (st_book_times s) t 0) \<le> ORDER_BOOK_MAX_AGE then (Cached b, s)
          else if passively_fresh wall t s then (Cached (execution_book wall t b s), s)
          else or_refresh (''Polymarket order book is stale for token '' @ t) (ensure_refresh clock t True s))"

text \<open>
  The answer of a REST refresh: a snapshot, a confirmed absence of the book, or another failure. A
  refresh that a pruned token cancelled answers nothing.
\<close>

datatype rest_answer = Rest_Book order_book | No_Book | Rest_Failed

definition refresh_done :: "flt \<Rightarrow> flt \<Rightarrow> string \<Rightarrow> rest_answer \<Rightarrow> stream \<Rightarrow> stream" where
  "refresh_done clock wall t answer s0 = (let s = s0\<lparr>st_running := st_running s0 - {t}\<rparr> in if t \<notin> st_running s0 then s0 else case answer of
     Rest_Book b \<Rightarrow> take_snapshot clock wall t b s
   | No_Book \<Rightarrow> s
   | Rest_Failed \<Rightarrow> s\<lparr>st_attempted := st_attempted s - {t}\<rparr>)"

section \<open>The pace of the REST requests\<close>

record rest_pace =
  rp_last_request :: flt
  rp_cooldown_until :: flt
  rp_last_limit :: flt
  rp_backoff :: flt
  rp_limits :: nat

definition REST_INTERVAL :: flt where "REST_INTERVAL = flt_round (1 / 20)"

definition rest_delay :: "flt \<Rightarrow> rest_pace \<Rightarrow> flt" where
  "rest_delay now r = max 0 (max (fsub (rp_cooldown_until r) now) (fsub REST_INTERVAL (fsub now (rp_last_request r))))"

definition record_rate_limit :: "flt \<Rightarrow> rest_pace \<Rightarrow> rest_pace" where
  "record_rate_limit now r =
     (let b = (if 60 < fsub now (rp_last_limit r) then 2 else min 30 (fmul (rp_backoff r) 2))
      in r\<lparr>rp_backoff := b, rp_last_limit := now, rp_cooldown_until := max (rp_cooldown_until r) (fadd now b), rp_limits := rp_limits r + 1\<rparr>)"

section \<open>The subscriptions\<close>

text \<open>The events of the connector in any order.\<close>

inductive stream_step :: "stream \<Rightarrow> stream \<Rightarrow> bool" where
  Watched: "watch_order_book clock wall t s = (w, s') \<Longrightarrow> stream_step s s'"
| Synced: "set removed = st_desired s - (tokens - {[]}) \<Longrightarrow> set added = tokens - {[]} - st_desired s \<Longrightarrow>
    stream_step s (sync_market_targets clock tokens removed added s)"
| Received: "stream_step s (handle_ws_payload str clock wall payload s)"
| Refreshed: "stream_step s (refresh_done clock wall t answer s)"
| Connected: "\<not> st_open s \<Longrightarrow> stream_step s (ws_connected s)"
| Disconnected: "st_open s \<Longrightarrow> stream_step s (ws_disconnected s)"
| Reconnected: "stream_step s (reconnect_market_data s)"
| Interval_Set: "stream_step s (set_snapshot_interval x s)"
| Freshness_Set: "stream_step s (set_execution_freshness x s)"
| Sender_Started: "stream_step s (sender_started s)"
| Send_Begun: "stream_step s (begin_send s)"
| Send_Ended: "stream_step s (end_send s)"
| Send_Failed: "stream_step s (send_failed s)"

inductive_cases stream_stepE: "stream_step s s'"

text \<open>What the subscriptions depend on, and the operations that leave it alone.\<close>

definition link :: "stream \<Rightarrow> string set \<times> (bool \<times> string) list \<times> string set \<times> bool \<times> bool \<times> sender" where
  "link s = (st_desired s, st_queue s, st_subscribed s, st_connected s, st_open s, st_sender s)"

lemma link_update_book: "link (update_book clock wall t b s) = link s"
  by (simp add: update_book_def Let_def link_def)

lemma link_take_snapshot: "link (take_snapshot clock wall t b s) = link s"
  using link_update_book [of clock wall t b s] by (simp add: take_snapshot_def Let_def link_def)

lemma link_fold: "(\<And>x s. link (f x s) = link s) \<Longrightarrow> link (fold f xs s) = link s"
  by (induction xs arbitrary: s) auto

lemma link_handle_item: "link (handle_item str clock wall kvs s) = link s"
proof -
  have one: "link (case dict_get (st_books s) t of None \<Rightarrow> s
      | Some b \<Rightarrow> update_book clock wall t (apply_price_changes str wall b changes t) s) = link s" for changes t s
    by (cases "dict_get (st_books s) t") (simp_all add: link_update_book)
  show ?thesis
    unfolding handle_item_def Let_def
    by (cases "or_chain [field ''changes'' kvs, field ''price_changes'' kvs, field ''priceChanges'' kvs]")
      (simp_all add: link_take_snapshot link_fold [OF one])
qed

lemma link_handle: "link (handle_ws_payload str clock wall payload s) = link s"
  unfolding handle_ws_payload_def by (rule link_fold) (rule link_handle_item)

lemma link_refresh_done: "link (refresh_done clock wall t answer s) = link s"
proof -
  have "link (take_snapshot clock wall t b (s\<lparr>st_running := r\<rparr>)) = link s" for b r
    by (simp add: link_take_snapshot) (simp add: link_def)
  then show ?thesis by (cases answer) (simp_all add: refresh_done_def Let_def link_def)
qed

lemma link_prune: "link (prune_token t s) = link s"
  by (simp add: prune_token_def link_def)

lemma link_ensure: "link (snd (ensure_refresh clock t force s)) = link s"
  by (simp add: ensure_refresh_def link_def)

lemma link_watch: "watch_order_book clock wall t s = (w, s') \<Longrightarrow> link s' = link (register_token t s)"
  by (auto simp: watch_order_book_def or_refresh_def link_ensure Let_def split: option.splits if_splits)

definition last_op :: "string \<Rightarrow> (bool \<times> string) list \<Rightarrow> bool option" where
  "last_op t q = (case rev (filter (\<lambda>(_, u). u = t) q) of [] \<Rightarrow> None | (op, _) # _ \<Rightarrow> Some op)"

lemma last_op_simps [simp]:
  "last_op t [] = None"
  "last_op t (q @ [(op, u)]) = (if u = t then Some op else last_op t q)"
  "last_op t ((op, u) # q) = (case last_op t q of Some x \<Rightarrow> Some x | None \<Rightarrow> if u = t then Some op else None)"
  by (auto simp: last_op_def split: list.splits)

lemma last_op_batch: "last_op t (q @ map (Pair op) us) = (if t \<in> set us then Some op else last_op t q)"
proof (induction us rule: rev_induct)
  case (snoc u us)
  then show ?case by (simp add: append_assoc [symmetric] del: append_assoc)
qed simp

text \<open>
  The queue ends, for every token, with what brings its subscription in line with the targets; when it
  holds nothing for a token, the subscription of the open connection is in line, or will be when the send
  under way ends. A dead sender promises nothing until the next connection.
\<close>

definition promises :: "string \<Rightarrow> string set \<Rightarrow> string set \<Rightarrow> sender \<Rightarrow> bool" where
  "promises t desired subs sender = (case sender of
     Send_Died \<Rightarrow> True
   | Sending op u \<Rightarrow> if t = u then op = (t \<in> desired) else (t \<in> subs \<longleftrightarrow> t \<in> desired)
   | _ \<Rightarrow> (t \<in> subs \<longleftrightarrow> t \<in> desired))"

definition follows :: "string \<Rightarrow> string set \<times> (bool \<times> string) list \<times> string set \<times> bool \<times> bool \<times> sender \<Rightarrow> bool" where
  "follows t = (\<lambda>(desired, queue, subs, connected, opened, sender). (connected \<longrightarrow> opened) \<and>
     (case last_op t queue of Some op \<Rightarrow> op = (t \<in> desired)
      | None \<Rightarrow> opened \<longrightarrow> promises t desired subs sender))"

definition stream_ok :: "stream \<Rightarrow> bool" where
  "stream_ok s \<longleftrightarrow> (\<forall>t. follows t (link s))"

lemma stream_ok_link: "link s' = link s \<Longrightarrow> stream_ok s \<Longrightarrow> stream_ok s'"
  by (simp add: stream_ok_def)

lemma stream_ok_keeps: "stream_ok s \<Longrightarrow> (\<And>t. follows t (link s) \<Longrightarrow> follows t (link s')) \<Longrightarrow> stream_ok s'"
  by (simp add: stream_ok_def)

lemma stream_ok_register: "stream_ok s \<Longrightarrow> stream_ok (register_token t s)"
  by (erule stream_ok_keeps) (auto simp: follows_def link_def register_token_def promises_def split: option.splits if_splits sender.splits)

lemma stream_ok_sync:
  assumes "stream_ok s" and "set removed = st_desired s - (tokens - {[]})" and "set added = tokens - {[]} - st_desired s"
  shows "stream_ok (sync_market_targets clock tokens removed added s)"
proof -
  have "link (fold prune_token removed (s\<lparr>st_desired := tokens - {[]}\<rparr>)) = link (s\<lparr>st_desired := tokens - {[]}\<rparr>)"
    by (rule link_fold) (rule link_prune)
  then have "link (sync_market_targets clock tokens removed added s) =
      (tokens - {[]}, st_queue s @ map (Pair False) removed @ map (Pair True) added, st_subscribed s, st_connected s, st_open s, st_sender s)"
    by (simp add: sync_market_targets_def Let_def link_def)
  moreover have "last_op t (st_queue s @ map (Pair False) removed @ map (Pair True) added) =
      (if t \<in> set added then Some True else if t \<in> set removed then Some False else last_op t (st_queue s))" for t
    using last_op_batch [of t "st_queue s @ map (Pair False) removed" True added] by (simp add: last_op_batch)
  ultimately show ?thesis using assms(2,3)
    by (intro stream_ok_keeps [OF assms(1)]) (auto simp: follows_def link_def promises_def split: option.splits if_splits sender.splits)
qed

lemma stream_ok_link_steps:
  "stream_ok s \<Longrightarrow> stream_ok (ws_connected s)"
  "stream_ok s \<Longrightarrow> stream_ok (ws_disconnected s)"
  "stream_ok s \<Longrightarrow> stream_ok (reconnect_market_data s)"
  "stream_ok s \<Longrightarrow> stream_ok (set_snapshot_interval x s)"
  "stream_ok s \<Longrightarrow> stream_ok (set_execution_freshness x s)"
  "stream_ok s \<Longrightarrow> stream_ok (sender_started s)"
  "stream_ok s \<Longrightarrow> stream_ok (end_send s)"
  "stream_ok s \<Longrightarrow> stream_ok (send_failed s)"
  by (erule stream_ok_keeps, auto simp: follows_def link_def promises_def ws_connected_def ws_disconnected_def mark_books_stale_def
      reconnect_market_data_def set_snapshot_interval_def set_execution_freshness_def sender_started_def end_send_def send_failed_def split: option.splits if_splits sender.splits)+

lemma stream_ok_begin:
  assumes "stream_ok s"
  shows "stream_ok (begin_send s)"
proof (cases "st_queue s")
  case (Cons x q)
  obtain op u where x: "x = (op, u)" by (cases x)
  show ?thesis
  proof (rule stream_ok_keeps [OF assms])
    fix t assume "follows t (link s)"
    then show "follows t (link (begin_send s))"
      by (cases "last_op t q")
        (auto simp: follows_def link_def promises_def begin_send_def Cons x split: if_splits sender.splits)
  qed
qed (use assms in \<open>simp add: begin_send_def\<close>)

lemma stream_ok_step:
  assumes "stream_ok s" and "stream_step s s'"
  shows "stream_ok s'"
  using assms(2)
proof cases
  case Watched
  then show ?thesis by (rule stream_ok_link [OF link_watch stream_ok_register [OF assms(1)]])
next
  case Synced
  then show ?thesis using stream_ok_sync [OF assms(1)] by simp
next
  case Received
  then show ?thesis using stream_ok_link [OF link_handle assms(1)] by simp
next
  case Refreshed
  then show ?thesis using stream_ok_link [OF link_refresh_done assms(1)] by simp
qed (simp_all add: assms(1) stream_ok_link_steps stream_ok_begin)

lemma stream_ok_new: "stream_ok new_stream"
  by (simp add: stream_ok_def follows_def link_def new_stream_def)

interpretation subscriptions: invariant_system "\<lambda>s. s = new_stream" stream_step stream_ok
  by unfold_locales (simp_all add: stream_ok_new stream_ok_step)

section \<open>The cached levels\<close>

text \<open>
  What the venue means, independent of how the connector reads it: a change sets or deletes the
  level of a price on one side of one token, and a ladder is a map from prices to sizes.
\<close>

record venue_change =
  vc_token :: string
  vc_bid :: bool
  vc_price :: flt
  vc_size :: flt

definition put_change :: "string \<Rightarrow> bool \<Rightarrow> venue_change \<Rightarrow> (flt \<rightharpoonup> flt) \<Rightarrow> (flt \<rightharpoonup> flt)" where
  "put_change token bid c m = (if vc_token c = token \<and> vc_bid c = bid
     then m(vc_price c := if vc_size c \<le> 0 then None else Some (vc_size c)) else m)"

definition ladder_after :: "string \<Rightarrow> bool \<Rightarrow> venue_change list \<Rightarrow> (flt \<rightharpoonup> flt) \<Rightarrow> (flt \<rightharpoonup> flt)" where
  "ladder_after token bid cs m = fold (put_change token bid) cs m"

text \<open>How a change and a level of a snapshot appear on the wire.\<close>

definition describes :: "json \<Rightarrow> venue_change \<Rightarrow> bool" where
  "describes j c \<longleftrightarrow> (\<exists>kvs. j = JObj kvs \<and> map_of kvs ''asset_id'' = Some (JStr (vc_token c)) \<and> vc_token c \<noteq> [] \<and>
     map_of kvs ''side'' = Some (JStr (if vc_bid c then ''BUY'' else ''SELL'')) \<and>
     (\<exists>p n. map_of kvs ''price'' = Some p \<and> wire_float p = Some (vc_price c) \<and>
            map_of kvs ''size'' = Some n \<and> wire_float n = Some (vc_size c)))"

definition describes_level :: "json \<Rightarrow> flt \<times> flt \<Rightarrow> bool" where
  "describes_level j l \<longleftrightarrow> (\<exists>kvs p n. j = JObj kvs \<and> map_of kvs ''price'' = Some p \<and> wire_float p = Some (fst l) \<and>
     map_of kvs ''size'' = Some n \<and> wire_float n = Some (snd l))"

text \<open>Every level of a side is one of the ladder, no price twice; and every level of the ladder is one of the side.\<close>

definition in_ladder :: "order_book_level list \<Rightarrow> (flt \<rightharpoonup> flt) \<Rightarrow> bool" where
  "in_ladder ls m \<longleftrightarrow> distinct (map price ls) \<and> (\<forall>l \<in> set ls. m (price l) = Some (lsize l))"

definition all_of_ladder :: "order_book_level list \<Rightarrow> (flt \<rightharpoonup> flt) \<Rightarrow> bool" where
  "all_of_ladder ls m \<longleftrightarrow> (\<forall>p n. m p = Some n \<longrightarrow> \<lparr>price = p, lsize = n\<rparr> \<in> set ls)"

lemma ladder_of_ok: "dict_ok (ladder_of ls)"
  by (induction ls rule: rev_induct) (simp_all add: ladder_of_def)

lemma ladder_of_sub: "in_ladder ls m \<Longrightarrow> dict_get (ladder_of ls) \<subseteq>\<^sub>m m"
proof -
  assume "in_ladder ls m"
  then have "\<forall>l \<in> set ls. m (price l) = Some (lsize l)" by (simp add: in_ladder_def)
  then have "dict_get (ladder_of ls) p = Some n \<Longrightarrow> m p = Some n" for p n
    by (induction ls rule: rev_induct) (auto simp: ladder_of_def split: if_splits)
  then show ?thesis by (auto simp: map_le_def)
qed

lemma ladder_of_get: "distinct (map price ls) \<Longrightarrow> l \<in> set ls \<Longrightarrow> dict_get (ladder_of ls) (price l) = Some (lsize l)"
  by (induction ls rule: rev_induct) (auto simp: ladder_of_def image_iff)

lemma ladder_of_all: "in_ladder ls m \<Longrightarrow> all_of_ladder ls m \<Longrightarrow> dict_get (ladder_of ls) = m"
proof (rule map_le_antisym)
  assume l: "in_ladder ls m" "all_of_ladder ls m"
  show "m \<subseteq>\<^sub>m dict_get (ladder_of ls)"
    unfolding map_le_def
  proof
    fix p assume "p \<in> dom m"
    then obtain n where n: "m p = Some n" by blast
    with l(2) have "\<lparr>price = p, lsize = n\<rparr> \<in> set ls" by (simp add: all_of_ladder_def)
    from ladder_of_get [OF _ this] l(1) n show "m p = dict_get (ladder_of ls) p" by (simp add: in_ladder_def)
  qed
qed (rule ladder_of_sub)

lemma set_level_get:
  "dict_get (set_level l d) = (dict_get d)(price l := if lsize l \<le> 0 then None else Some (lsize l))"
  by (rule ext) (simp add: set_level_def)

lemma described_change:
  assumes "describes j c"
  shows "change_of str token j = (if vc_token c = token then Some (vc_bid c, \<lparr>price = vc_price c, lsize = vc_size c\<rparr>) else None)"
proof -
  obtain kvs p n where j: "j = JObj kvs" and id: "map_of kvs ''asset_id'' = Some (JStr (vc_token c))" "vc_token c \<noteq> []"
    and side: "map_of kvs ''side'' = Some (JStr (if vc_bid c then ''BUY'' else ''SELL''))"
    and level: "map_of kvs ''price'' = Some p" "wire_float p = Some (vc_price c)" "map_of kvs ''size'' = Some n" "wire_float n = Some (vc_size c)"
    using assms by (auto simp: describes_def)
  have "n \<noteq> JNull" using level(4) by (auto simp: wire_float_def)
  with level have "level_from_payload j = Some \<lparr>price = vc_price c, lsize = vc_size c\<rparr>"
    by (simp add: level_from_payload_def j field_def)
  moreover have "change_side kvs = Some (vc_bid c)"
    using side by (simp add: change_side_def field_def j_truthy_def upper_def upper_char_def)
  moreover have "concerns str token kvs \<longleftrightarrow> vc_token c = token"
    using id by (simp add: concerns_def field_def j_truthy_def text_of_def)
  ultimately show ?thesis by (simp add: change_of_def j)
qed

lemma apply_described:
  assumes "describes j c" and "dict_ok (fst d)" and "dict_ok (snd d)"
  shows "dict_ok (fst (apply_change (change_of str token j) d)) \<and> dict_ok (snd (apply_change (change_of str token j) d)) \<and>
    dict_get (fst (apply_change (change_of str token j) d)) = put_change token True c (dict_get (fst d)) \<and>
    dict_get (snd (apply_change (change_of str token j) d)) = put_change token False c (dict_get (snd d))"
  using assms(2,3)
  by (cases "vc_bid c") (simp_all add: described_change [OF assms(1)] apply_change_def put_change_def set_level_get, simp_all add: set_level_def)

lemma apply_all_described:
  "list_all2 describes js cs \<Longrightarrow> dict_ok (fst d) \<Longrightarrow> dict_ok (snd d) \<Longrightarrow>
     dict_ok (fst (foldl (\<lambda>b j. apply_change (change_of str token j) b) d js)) \<and>
     dict_ok (snd (foldl (\<lambda>b j. apply_change (change_of str token j) b) d js)) \<and>
     dict_get (fst (foldl (\<lambda>b j. apply_change (change_of str token j) b) d js)) = ladder_after token True cs (dict_get (fst d)) \<and>
     dict_get (snd (foldl (\<lambda>b j. apply_change (change_of str token j) b) d js)) = ladder_after token False cs (dict_get (snd d))"
proof (induction js cs arbitrary: d rule: list_all2_induct)
  case (Cons j js c cs)
  note one = apply_described [OF Cons.hyps(1) Cons.prems, of str token]
  with Cons.IH [of "apply_change (change_of str token j) d"] show ?case by (simp add: ladder_after_def)
qed (simp add: ladder_after_def)

lemma ladder_after_le: "m \<subseteq>\<^sub>m m' \<Longrightarrow> ladder_after token bid cs m \<subseteq>\<^sub>m ladder_after token bid cs m'"
proof (induction cs arbitrary: m m')
  case (Cons c cs)
  have "put_change token bid c m \<subseteq>\<^sub>m put_change token bid c m'"
    using Cons.prems by (auto simp: put_change_def map_le_def dom_def)
  from Cons.IH [OF this] show ?case by (simp add: ladder_after_def)
qed (simp add: ladder_after_def)

lemma distinct_map_take: "distinct (map f xs) \<Longrightarrow> distinct (map f (take n xs))"
  by (metis distinct_take take_map)

lemma in_ladder_sorted:
  assumes "dict_ok d" and "dict_get d \<subseteq>\<^sub>m m"
  shows "in_ladder (take 10 (sorted_bids (levels_of d))) m" "in_ladder (take 10 (sorted_asks (levels_of d))) m"
proof -
  have "m (price l) = Some (lsize l)" if "l \<in> set (levels_of d)" for l
    using that assms dict_get_iff_mem [of d] by (fastforce simp: levels_of_def map_le_def dom_def)
  moreover have "map price (levels_of d) = map fst d" by (auto simp: levels_of_def)
  then have "distinct (map price (levels_of d))" using assms(1) by (simp add: dict_ok_def)
  then have "distinct (map price (sorted_asks (levels_of d)))" "distinct (map price (sorted_bids (levels_of d)))"
    by (simp_all add: sorted_asks_def sorted_bids_def distinct_map rev_map [symmetric])
  moreover have "set (sorted_asks (levels_of d)) = set (levels_of d)" "set (sorted_bids (levels_of d)) = set (levels_of d)"
    by (simp_all add: sorted_asks_def sorted_bids_def)
  ultimately show "in_ladder (take 10 (sorted_bids (levels_of d))) m" "in_ladder (take 10 (sorted_asks (levels_of d))) m"
    by (auto simp: in_ladder_def distinct_map_take dest: in_set_takeD)
qed

lemma sorted_sides: "sorted (map price (take 10 (sorted_asks ls)))" "sorted (rev (map price (take 10 (sorted_bids ls))))"
proof -
  show "sorted (map price (take 10 (sorted_asks ls)))" by (simp add: sorted_asks_def take_map [symmetric] sorted_wrt_take)
  have "take 10 (rev xs) = rev (drop (length xs - 10) xs)" for xs :: "order_book_level list" by (simp add: take_rev)
  then show "sorted (rev (map price (take 10 (sorted_bids ls))))"
    by (simp add: sorted_bids_def rev_map drop_map [symmetric] sorted_wrt_drop)
qed

lemma all_of_ladder_sorted:
  assumes "dict_ok d" and "dict_get d = m" and "card (dom m) \<le> 10"
  shows "all_of_ladder (take 10 (sorted_bids (levels_of d))) m" "all_of_ladder (take 10 (sorted_asks (levels_of d))) m"
proof -
  have "m = map_of d" using assms(2) by (simp add: fun_eq_iff dict_get_def)
  then have "dom m = fst ` set d" by (simp add: dom_map_of_conv_image_fst)
  then have "length d \<le> 10" using assms(1,3) distinct_card [of "map fst d"] by (simp add: dict_ok_def)
  then have whole: "take 10 (sorted_bids (levels_of d)) = sorted_bids (levels_of d)" "take 10 (sorted_asks (levels_of d)) = sorted_asks (levels_of d)"
    by (simp_all add: sorted_bids_def sorted_asks_def levels_of_def)
  have "\<lparr>price = p, lsize = n\<rparr> \<in> set (levels_of d)" if "m p = Some n" for p n
    using that assms(1,2) dict_get_iff_mem [of d p n] by (force simp: levels_of_def)
  then show "all_of_ladder (take 10 (sorted_bids (levels_of d))) m" "all_of_ladder (take 10 (sorted_asks (levels_of d))) m"
    unfolding whole by (simp_all add: all_of_ladder_def sorted_bids_def sorted_asks_def)
qed

text \<open>What a book keeps from one message to the next.\<close>

definition real_book :: "order_book \<Rightarrow> (flt \<rightharpoonup> flt) \<Rightarrow> (flt \<rightharpoonup> flt) \<Rightarrow> bool" where
  "real_book b mb ma \<longleftrightarrow> in_ladder (bids b) mb \<and> in_ladder (asks b) ma \<and> sorted (map price (asks b)) \<and>
     sorted (rev (map price (bids b))) \<and> length (asks b) \<le> 10 \<and> length (bids b) \<le> 10"

definition whole_book :: "order_book \<Rightarrow> (flt \<rightharpoonup> flt) \<Rightarrow> (flt \<rightharpoonup> flt) \<Rightarrow> bool" where
  "whole_book b mb ma \<longleftrightarrow> all_of_ladder (bids b) mb \<and> all_of_ladder (asks b) ma"

definition shallow :: "(flt \<rightharpoonup> flt) \<Rightarrow> (flt \<rightharpoonup> flt) \<Rightarrow> bool" where
  "shallow mb ma \<longleftrightarrow> card (dom mb) \<le> 10 \<and> card (dom ma) \<le> 10"

lemma price_changes_real:
  assumes "real_book b mb ma" and "list_all2 describes js cs"
  shows "real_book (apply_price_changes str wall b js token) (ladder_after token True cs mb) (ladder_after token False cs ma)"
    "whole_book b mb ma \<Longrightarrow> shallow (ladder_after token True cs mb) (ladder_after token False cs ma) \<Longrightarrow>
     whole_book (apply_price_changes str wall b js token) (ladder_after token True cs mb) (ladder_after token False cs ma)"
proof -
  let ?d = "foldl (\<lambda>b j. apply_change (change_of str token j) b) (ladder_of (bids b), ladder_of (asks b)) js"
  have sides: "bids (apply_price_changes str wall b js token) = take 10 (sorted_bids (levels_of (fst ?d)))"
    "asks (apply_price_changes str wall b js token) = take 10 (sorted_asks (levels_of (snd ?d)))"
    by (simp_all add: apply_price_changes_def Let_def case_prod_beta')
  have d: "dict_ok (fst ?d)" "dict_ok (snd ?d)" "dict_get (fst ?d) = ladder_after token True cs (dict_get (ladder_of (bids b)))"
    "dict_get (snd ?d) = ladder_after token False cs (dict_get (ladder_of (asks b)))"
    using apply_all_described [OF assms(2), of "(ladder_of (bids b), ladder_of (asks b))" str token] by (simp_all add: ladder_of_ok)
  have below: "dict_get (ladder_of (bids b)) \<subseteq>\<^sub>m mb" "dict_get (ladder_of (asks b)) \<subseteq>\<^sub>m ma"
    using assms(1) by (simp_all add: real_book_def ladder_of_sub)
  show "real_book (apply_price_changes str wall b js token) (ladder_after token True cs mb) (ladder_after token False cs ma)"
    unfolding real_book_def sides
    using in_ladder_sorted(1) [OF d(1), unfolded d(3), OF ladder_after_le [OF below(1)]]
      in_ladder_sorted(2) [OF d(2), unfolded d(4), OF ladder_after_le [OF below(2)]] sorted_sides by simp
  assume w: "whole_book b mb ma" and s: "shallow (ladder_after token True cs mb) (ladder_after token False cs ma)"
  have "dict_get (ladder_of (bids b)) = mb" "dict_get (ladder_of (asks b)) = ma"
    using assms(1) w by (simp_all add: real_book_def whole_book_def ladder_of_all)
  with s d show "whole_book (apply_price_changes str wall b js token) (ladder_after token True cs mb) (ladder_after token False cs ma)"
    unfolding whole_book_def sides by (simp add: shallow_def all_of_ladder_sorted)
qed

lemma described_levels: "list_all2 describes_level js ls \<Longrightarrow> levels_from js = map (\<lambda>(p, n). \<lparr>price = p, lsize = n\<rparr>) ls"
proof (induction js ls rule: list_all2_induct)
  case (Cons j js l ls)
  obtain kvs p n where j: "j = JObj kvs" "map_of kvs ''price'' = Some p" "wire_float p = Some (fst l)" "map_of kvs ''size'' = Some n"
    "wire_float n = Some (snd l)" using Cons.hyps(1) by (auto simp: describes_level_def)
  then have "n \<noteq> JNull" by (auto simp: wire_float_def)
  with j Cons.IH show ?case by (simp add: levels_from_def level_from_payload_def field_def case_prod_beta)
qed (simp add: levels_from_def)

text \<open>A snapshot of a side: the levels that the payload lists, no price twice.\<close>

definition lists_side :: "(string \<times> json) list \<Rightarrow> string \<Rightarrow> (flt \<times> flt) list \<Rightarrow> bool" where
  "lists_side kvs key ls \<longleftrightarrow> (\<exists>js. map_of kvs key = Some (JList js) \<and> js \<noteq> [] \<and> list_all2 describes_level js ls \<and> distinct (map fst ls))"

lemma snapshot_real:
  assumes "lists_side kvs ''bids'' lb" and "lists_side kvs ''asks'' la" and "order_book_from_payload str wall kvs = Some b"
  shows "real_book b (map_of lb) (map_of la)"
    "shallow (map_of lb) (map_of la) \<Longrightarrow> whole_book b (map_of lb) (map_of la)"
proof -
  obtain jb ja where j: "map_of kvs ''bids'' = Some (JList jb)" "jb \<noteq> []" "list_all2 describes_level jb lb" "distinct (map fst lb)"
    "map_of kvs ''asks'' = Some (JList ja)" "ja \<noteq> []" "list_all2 describes_level ja la" "distinct (map fst la)"
    using assms(1,2) by (auto simp: lists_side_def)
  then have sides: "bids b = take 10 (sorted_bids (levels_of lb))" "asks b = take 10 (sorted_asks (levels_of la))"
    using assms(3) by (auto simp: order_book_from_payload_def field_def j_truthy_def described_levels levels_of_def)
  have ok: "dict_ok lb" "dict_ok la" "dict_get lb = map_of lb" "dict_get la = map_of la"
    using j(4,8) by (auto simp: dict_ok_def dict_get_def)
  show "real_book b (map_of lb) (map_of la)"
    unfolding real_book_def sides using in_ladder_sorted(1) [OF ok(1)] in_ladder_sorted(2) [OF ok(2)] ok(3,4) sorted_sides by simp
  assume "shallow (map_of lb) (map_of la)"
  then show "whole_book b (map_of lb) (map_of la)"
    unfolding whole_book_def sides using all_of_ladder_sorted ok by (simp add: shallow_def)
qed

text \<open>The book after messages that arrive at the given wall times.\<close>

definition book_after :: "(json \<Rightarrow> string) \<Rightarrow> string \<Rightarrow> (flt \<times> json list) list \<Rightarrow> order_book \<Rightarrow> order_book" where
  "book_after str token messages b = foldl (\<lambda>b (wall, changes). apply_price_changes str wall b changes token) b messages"

section \<open>Properties\<close>

text \<open>What the messages mean, one list of changes for each, and ladders that never exceed ten levels.\<close>

definition mean :: "(flt \<times> json list) list \<Rightarrow> venue_change list list \<Rightarrow> bool" where
  "mean messages groups \<longleftrightarrow> list_all2 (\<lambda>(_, js) cs. list_all2 describes js cs) messages groups"

fun stays_shallow :: "string \<Rightarrow> venue_change list list \<Rightarrow> (flt \<rightharpoonup> flt) \<Rightarrow> (flt \<rightharpoonup> flt) \<Rightarrow> bool" where
  "stays_shallow token [] mb ma = shallow mb ma"
| "stays_shallow token (cs # groups) mb ma \<longleftrightarrow>
     shallow mb ma \<and> stays_shallow token groups (ladder_after token True cs mb) (ladder_after token False cs ma)"

lemma ladder_after_concat: "ladder_after token bid (concat (cs # groups)) m = ladder_after token bid (concat groups) (ladder_after token bid cs m)"
  by (simp add: ladder_after_def)

lemma book_after_real:
  "list_all2 (\<lambda>(_, js) cs. list_all2 describes js cs) messages groups \<Longrightarrow> real_book b mb ma \<Longrightarrow>
     real_book (book_after str token messages b) (ladder_after token True (concat groups) mb) (ladder_after token False (concat groups) ma) \<and>
     (whole_book b mb ma \<longrightarrow> stays_shallow token groups mb ma \<longrightarrow>
       whole_book (book_after str token messages b) (ladder_after token True (concat groups) mb) (ladder_after token False (concat groups) ma))"
proof (induction messages groups arbitrary: b mb ma rule: list_all2_induct)
  case (Cons x messages cs groups)
  obtain wall js where x: "x = (wall, js)" by (cases x)
  with Cons.hyps(1) have js: "list_all2 describes js cs" by simp
  have "shallow (ladder_after token True cs mb) (ladder_after token False cs ma)"
    if "stays_shallow token (cs # groups) mb ma" using that by (cases groups) simp_all
  with Cons.IH [OF price_changes_real(1) [OF Cons.prems js, where str = str and wall = wall and token = token]]
    price_changes_real(2) [OF Cons.prems js, where str = str and wall = wall and token = token]
  show ?case unfolding ladder_after_concat by (simp add: x book_after_def)
qed (simp add: book_after_def ladder_after_def)

text \<open>C38. The cached book shows the venue's ladder: from a snapshot that lists its levels, no price twice, and any
  messages with changes that name their token by \<^verbatim>\<open>asset_id\<close>, for whatever tokens, the book has sorted sides of
  at most ten levels, no price twice, each of which the venue's ladder after the same changes holds
  with exactly that size. While the ladder of neither side exceeds ten levels the book holds all of it.\<close>

theorem cached_levels_are_real:
  assumes "lists_side kvs ''bids'' lb" and "lists_side kvs ''asks'' la" and "order_book_from_payload str wall kvs = Some b"
    and "mean messages groups"
  shows "real_book (book_after str token messages b)
      (ladder_after token True (concat groups) (map_of lb)) (ladder_after token False (concat groups) (map_of la)) \<and>
    (stays_shallow token groups (map_of lb) (map_of la) \<longrightarrow> whole_book (book_after str token messages b)
      (ladder_after token True (concat groups) (map_of lb)) (ladder_after token False (concat groups) (map_of la)))"
proof -
  have "stays_shallow token groups mb ma \<Longrightarrow> shallow mb ma" for mb ma by (cases groups) simp_all
  with book_after_real [OF assms(4) [unfolded mean_def] snapshot_real(1) [OF assms(1-3)]] snapshot_real(2) [OF assms(1-3)]
  show ?thesis by blast
qed

definition sample_change :: "string \<Rightarrow> string \<Rightarrow> string \<Rightarrow> json" where
  "sample_change side p n = JObj [(''asset_id'', JStr ''t''), (''side'', JStr side), (''price'', JStr p), (''size'', JStr n)]"

definition sample_text :: "json \<Rightarrow> string" where
  "sample_text j = []"

definition sample_messages :: "(flt \<times> json list) list" where
  "sample_messages = [(1, [sample_change ''SELL'' ''0.5'' ''40'', sample_change ''BUY'' ''0.25'' ''8'']), (2, [sample_change ''SELL'' ''0.5'' ''0''])]"

definition sample_groups :: "venue_change list list" where
  "sample_groups = [[\<lparr>vc_token = ''t'', vc_bid = False, vc_price = 1 / 2, vc_size = 40\<rparr>, \<lparr>vc_token = ''t'', vc_bid = True, vc_price = 1 / 4, vc_size = 8\<rparr>],
     [\<lparr>vc_token = ''t'', vc_bid = False, vc_price = 1 / 2, vc_size = 0\<rparr>]]"

definition sample_snapshot :: "(string \<times> json) list" where
  "sample_snapshot = [(''bids'', JList [JObj [(''price'', JFloat (1 / 8)), (''size'', JFloat 2)]]),
     (''asks'', JList [JObj [(''price'', JFloat (1 / 2)), (''size'', JFloat 16)]])]"

lemma sample_number_texts: "number_text ''0.5'' = Some (1 / 2)" "number_text ''0.25'' = Some (1 / 4)" "number_text ''40'' = Some 40"
  "number_text ''8'' = Some 8" "number_text ''0'' = Some 0"
  by (simp_all add: number_text_def signed_def strip_def is_space_def is_digit_def digits_value_def Let_def power_int_minus)

theorem cached_levels_are_real_witness:
  "\<exists>b. order_book_from_payload sample_text 0 sample_snapshot = Some b \<and>
     \<lparr>price = 1 / 4, lsize = 8\<rparr> \<in> set (bids (book_after sample_text ''t'' sample_messages b)) \<and>
     asks (book_after sample_text ''t'' sample_messages b) = []"
proof -
  obtain b where b: "order_book_from_payload sample_text 0 sample_snapshot = Some b"
    by (auto simp: order_book_from_payload_def sample_snapshot_def field_def j_truthy_def)
  have snapshot: "lists_side sample_snapshot ''bids'' [(1 / 8, 2)]" "lists_side sample_snapshot ''asks'' [(1 / 2, 16)]"
    by (simp_all add: lists_side_def sample_snapshot_def describes_level_def wire_float_def)
  have meaning: "mean sample_messages sample_groups"
    by (simp add: mean_def sample_messages_def sample_groups_def describes_def sample_change_def wire_float_def sample_number_texts
        flt_round_eval flt.rnd_0)
  let ?b = "book_after sample_text ''t'' sample_messages b"
  let ?mb = "ladder_after ''t'' True (concat sample_groups) (map_of [(1 / 8, 2)])"
  let ?ma = "ladder_after ''t'' False (concat sample_groups) (map_of [(1 / 2, 16)])"
  have "stays_shallow ''t'' sample_groups (map_of [(1 / 8, 2)]) (map_of [(1 / 2, 16)])"
    by (simp add: sample_groups_def shallow_def ladder_after_def put_change_def)
  with cached_levels_are_real [OF snapshot b meaning, of "''t''"] have "real_book ?b ?mb ?ma" "whole_book ?b ?mb ?ma" by blast+
  moreover have "?mb (1 / 4) = Some 8" "?ma = Map.empty"
    by (simp_all add: sample_groups_def ladder_after_def put_change_def)
  ultimately have "\<lparr>price = 1 / 4, lsize = 8\<rparr> \<in> set (bids ?b)" "asks ?b = []"
    by (auto simp: real_book_def whole_book_def all_of_ladder_def in_ladder_def)
  with b show ?thesis by blast
qed

text \<open>A change that names another token only by \<^verbatim>\<open>tokenId\<close>, which \<open>asset_id\<close> reads, is taken for any token.\<close>

lemma foreign_change_applied:
  assumes "kvs = [(''tokenId'', JStr ''u''), (''side'', JStr ''SELL''), (''price'', JStr ''0.5''), (''size'', JStr ''40'')]"
  shows "asset_id str kvs = ''u''" "change_of str ''t'' (JObj kvs) = Some (False, \<lparr>price = 1 / 2, lsize = 40\<rparr>)"
  by (simp_all add: assms asset_id_def change_of_def concerns_def field_def text_of_def level_from_payload_def wire_float_def
      sample_number_texts flt_round_eval flt.rnd_0 change_side_def upper_def upper_char_def j_truthy_def blank_def Let_def)

text \<open>C39. The subscriptions follow the targets: whatever the order of watched tokens, changed targets,
  messages, refreshes, sends, reconnections and failed sends of earlier connections, once the queue of a
  connection is empty and its sender is idle, so that no send of this connection failed, the
  connection has subscribed exactly the desired tokens.\<close>

theorem subscriptions_follow_targets:
  assumes "stream_step\<^sup>*\<^sup>* new_stream s" and "st_connected s" and "st_queue s = []" and "st_sender s = Between_Sends"
  shows "st_subscribed s = st_desired s"
  using subscriptions.inv_reachable [OF refl assms(1)] assms(2-4)
  by (auto simp: stream_ok_def follows_def promises_def link_def)

lemma started_run:
  defines "a \<equiv> sender_started (ws_connected (sync_market_targets 0 {''t''} [] [''t''] new_stream))"
  shows "stream_step\<^sup>*\<^sup>* new_stream a" "link a = ({''t''}, [(True, ''t'')], {''t''}, True, True, Between_Sends)"
proof -
  let ?s = "sync_market_targets 0 {''t''} [] [''t''] new_stream"
  have "stream_step new_stream ?s" by (rule Synced) (simp_all add: new_stream_def)
  moreover have st: "link ?s = ({''t''}, [(True, ''t'')], {}, False, False, Not_Started)"
    by (simp add: sync_market_targets_def new_stream_def link_def)
  then have "stream_step ?s (ws_connected ?s)" by (intro Connected) (simp add: link_def)
  ultimately show "stream_step\<^sup>*\<^sup>* new_stream a"
    unfolding a_def by (meson Sender_Started rtranclp.rtrancl_into_rtrancl rtranclp.rtrancl_refl)
  show "link a = ({''t''}, [(True, ''t'')], {''t''}, True, True, Between_Sends)"
    using st by (simp add: a_def link_def sender_started_def ws_connected_def)
qed

theorem subscriptions_follow_targets_witness:
  "\<exists>s. stream_step\<^sup>*\<^sup>* new_stream s \<and> st_connected s \<and> st_queue s = [] \<and> st_sender s = Between_Sends \<and> st_subscribed s = {''t''}"
proof -
  let ?a = "sender_started (ws_connected (sync_market_targets 0 {''t''} [] [''t''] new_stream))"
  have reach: "stream_step\<^sup>*\<^sup>* new_stream (begin_send ?a)"
    using started_run(1) Send_Begun by (rule rtranclp.rtrancl_into_rtrancl)
  have now: "st_connected (begin_send ?a)" "st_queue (begin_send ?a) = []" "st_sender (begin_send ?a) = Between_Sends"
    "st_desired (begin_send ?a) = {''t''}"
    using started_run(2) by (simp_all add: link_def begin_send_def)
  from subscriptions_follow_targets [OF reach now(1-3)] reach now show ?thesis by metis
qed

text \<open>
  A failed send is not repaired: the task that sends is dead, the message loop and the flag of the
  connection go on, and the token is neither subscribed nor in the queue.
\<close>

lemma failed_send_loses_token:
  "\<exists>s. stream_step\<^sup>*\<^sup>* new_stream s \<and> st_connected s \<and> st_queue s = [] \<and> ''u'' \<in> st_desired s \<and> ''u'' \<notin> st_subscribed s \<and>
     begin_send s = s \<and> sender_started s = s"
proof -
  let ?a = "sender_started (ws_connected (sync_market_targets 0 {''t''} [] [''t''] new_stream))"
  let ?b = "sync_market_targets 0 {''t'', ''u''} [] [''u''] (begin_send ?a)"
  have begun: "link (begin_send ?a) = ({''t''}, [], {''t''}, True, True, Between_Sends)"
    using started_run(2) by (simp add: link_def begin_send_def)
  have "stream_step (begin_send ?a) ?b" by (rule Synced) (use begun in \<open>auto simp: link_def\<close>)
  with started_run(1) have reach: "stream_step\<^sup>*\<^sup>* new_stream (send_failed (begin_send ?b))"
    by (meson Send_Begun Send_Failed rtranclp.rtrancl_into_rtrancl)
  have "link ?b = ({''t'', ''u''}, [(True, ''u'')], {''t''}, True, True, Between_Sends)"
    using begun by (simp add: sync_market_targets_def Let_def link_def)
  then have "link (send_failed (begin_send ?b)) = ({''t'', ''u''}, [], {''t''}, True, True, Send_Died)"
    by (simp add: link_def begin_send_def send_failed_def)
  with reach show ?thesis by (intro exI [of _ "send_failed (begin_send ?b)"]) (simp add: link_def begin_send_def sender_started_def)
qed

end
