(* ===== verification/Polymarket_Orders.thy ===== *)
theory Polymarket_Orders
  imports Polymarket_Stream Config
begin

text \<open>
  Orders and account state of Polymarket, \<^verbatim>\<open>connectors/polymarket.py\<close> with \<^verbatim>\<open>utils/math.py\<close>: the price
  that is sent, the report of an order that is polled, the orders, fills and positions of the
  account, the cash balance and the fee metadata. The answers of the venue's SDK and of its REST
  endpoints are arguments. The lemmas show that the price on the wire respects the limit and that
  the pagination of the positions ends with all of them.
\<close>

section \<open>Quantities on a step\<close>

definition truncated :: "dec \<Rightarrow> int" where
  "truncated x = (if 0 \<le> x then \<lfloor>x\<rfloor> else \<lceil>x\<rceil>)"

definition quantize_down :: "dec \<Rightarrow> dec \<Rightarrow> dec res" where
  "quantize_down value step = raise_if (step \<le> 0) (ValueError ''step must be positive'')
     (Inr (dmul (of_int (truncated (ddiv value step))) step))"

definition quantize_up :: "dec \<Rightarrow> dec \<Rightarrow> dec res" where
  "quantize_up value step = raise_if (value < 0 \<or> step \<le> 0) (ValueError ''value must be non-negative and step must be positive'')
     (Inr (dmul (of_int \<lceil>ddiv value step\<rceil>) step))"

text \<open>A tick that the SDK can sign with: in the unit interval and on four decimals.\<close>

definition sdk_compatible_tick :: "dec \<Rightarrow> dec res" where
  "sdk_compatible_tick tick =
     (if tick \<le> 0 \<or> 1 \<le> tick then Inl (ValueError ''invalid Polymarket tick size'')
      else if of_int \<lfloor>tick * 10 ^ 4\<rfloor> \<noteq> tick * 10 ^ 4 then Inl (ValueError ''exceeds the supported 4-decimal price precision'')
      else Inr tick)"

definition normalize_order_price :: "dec \<Rightarrow> dec \<Rightarrow> bool \<Rightarrow> dec res" where
  "normalize_order_price value tick round_up =
     (if tick \<le> 0 \<or> 1 \<le> tick then Inl (ValueError ''invalid binary-market tick size'')
      else let lower_bound = tick; upper_bound = dsub 1 tick in
        if upper_bound < lower_bound then Inl (ValueError ''binary-market tick size has no executable price range'')
        else rbind (if round_up then quantize_up value tick else quantize_down value tick) (\<lambda>quantized.
          Inr (min (max quantized lower_bound) upper_bound)))"

text \<open>The price of a posted order: a buy rounds down, a sale up.\<close>

definition posted_price :: "string \<Rightarrow> flt \<Rightarrow> dec \<Rightarrow> flt res" where
  "posted_price side limit tick = rbind (sdk_compatible_tick tick) (\<lambda>tick.
     rbind (normalize_order_price (flt_repr limit) tick (side \<noteq> ''BUY'')) (\<lambda>p. Inr (flt_round p)))"

text \<open>The limit of a preview: the tick that is given or that of the constraints, when there is one.\<close>

definition preview_limit :: "dec option \<Rightarrow> market_constraints option res \<Rightarrow> dec \<Rightarrow> dec res" where
  "preview_limit given constraints max_price =
     rbind (case given of Some t \<Rightarrow> Inr (Some t) | None \<Rightarrow> rbind constraints (\<lambda>c. Inr (map_option tick_size c))) (\<lambda>tick.
     case tick of None \<Rightarrow> Inr max_price
     | Some t \<Rightarrow> rbind (sdk_compatible_tick t) (\<lambda>t. if 0 < max_price \<and> max_price \<le> 1 then normalize_order_price max_price t False else Inr max_price))"

section \<open>Calls of the SDK\<close>

datatype 'a sdk_outcome = Answered 'a | Auth_Error py_error | Transient py_error | Sdk_Failed py_error

text \<open>
  Two attempts. Configured credentials that are refused are given up for derived ones; a transient
  failure of the first attempt is repeated. The flag tells whether the client uses configured credentials.
\<close>

definition sdk_call :: "'a sdk_outcome \<Rightarrow> 'a sdk_outcome \<Rightarrow> bool \<Rightarrow> 'a res \<times> bool" where
  "sdk_call first second configured =
     (let last = (\<lambda>configured. case second of
            Answered x \<Rightarrow> (Inr x, configured)
          | Auth_Error e \<Rightarrow> (Inl e, False)
          | Transient e \<Rightarrow> (Inl e, configured)
          | Sdk_Failed e \<Rightarrow> (Inl e, configured))
      in case first of
           Answered x \<Rightarrow> (Inr x, configured)
         | Auth_Error e \<Rightarrow> if configured then last False else (Inl e, configured)
         | Transient e \<Rightarrow> last configured
         | Sdk_Failed e \<Rightarrow> (Inl e, configured))"

section \<open>Order payloads\<close>

definition extract_first :: "(string \<times> json) list \<Rightarrow> string list \<Rightarrow> json" where
  "extract_first kvs keys = (case List.find (\<lambda>k. map_of kvs k \<noteq> None) keys of None \<Rightarrow> JNull | Some k \<Rightarrow> field k kvs)"

text \<open>\<^verbatim>\<open>float(str(value))\<close>: the text of a boolean is no number.\<close>

definition text_float :: "json \<Rightarrow> flt option" where
  "text_float j = (case j of JBool _ \<Rightarrow> None | _ \<Rightarrow> wire_float j)"

definition extract_filled :: "(string \<times> json) list \<Rightarrow> flt option" where
  "extract_filled kvs = text_float (extract_first kvs
     [''size_matched'', ''sizeMatched'', ''filledAmount'', ''filled_amount'', ''amountFilled'', ''executedAmount''])"

definition extract_avg_price :: "(string \<times> json) list \<Rightarrow> flt option" where
  "extract_avg_price kvs = text_float (extract_first kvs [''avg_price'', ''average_price'', ''avgPrice'', ''averagePrice''])"

definition extract_requested :: "(string \<times> json) list \<Rightarrow> flt option" where
  "extract_requested kvs = text_float (extract_first kvs [''original_size'', ''originalSize'', ''size'', ''amount''])"

text \<open>\<^verbatim>\<open>str(value or default)\<close>.\<close>

definition text_or :: "(json \<Rightarrow> string) \<Rightarrow> string \<Rightarrow> json \<Rightarrow> string" where
  "text_or str fallback v = (if j_truthy v then text_of str v else fallback)"

definition order_status :: "(json \<Rightarrow> string) \<Rightarrow> string \<Rightarrow> (string \<times> json) list \<Rightarrow> string" where
  "order_status str fallback kvs = text_or str fallback (extract_first kvs [''status'', ''state'', ''orderStatus''])"

definition nonzero_or :: "flt option \<Rightarrow> flt \<Rightarrow> flt" where
  "nonzero_or x y = (case x of None \<Rightarrow> y | Some v \<Rightarrow> if v = 0 then y else v)"

definition report_of :: "string \<Rightarrow> flt \<Rightarrow> flt \<Rightarrow> string \<Rightarrow> flt \<Rightarrow> execution_report" where
  "report_of oid requested filled status avg =
     from_amounts oid (flt_repr requested) (flt_repr filled) (Inl status) (flt_repr avg)"

text \<open>
  The loop of \<^verbatim>\<open>wait_filled\<close> over the payloads that arrive before the deadline, with the amount, the
  status and the price seen last.
\<close>

fun poll_order :: "(json \<Rightarrow> string) \<Rightarrow> string \<Rightarrow> flt \<Rightarrow> (string \<times> json) list res list \<Rightarrow> flt \<Rightarrow> string \<Rightarrow> flt \<Rightarrow> execution_report res" where
  "poll_order str oid requested [] filled status avg = Inr (report_of oid requested filled status avg)"
| "poll_order str oid requested (m # ms) filled status avg = rbind m (\<lambda>kvs.
     let current = order_status str [] kvs;
         status = (if current = [] then status else current);
         filled = (case extract_filled kvs of None \<Rightarrow> filled | Some x \<Rightarrow> max filled x);
         avg = (case extract_avg_price kvs of None \<Rightarrow> avg | Some x \<Rightarrow> x)
     in if current \<in> {''FILLED'', ''filled'', ''MATCHED'', ''matched''}
        then Inr (report_of oid requested (nonzero_or (extract_filled kvs) requested) current avg)
        else if current \<in> {''CANCELED'', ''cancelled'', ''CANCELLED'', ''EXPIRED'', ''expired''}
        then Inr (report_of oid requested filled current avg)
        else poll_order str oid requested ms filled status avg)"

definition wait_filled :: "(json \<Rightarrow> string) \<Rightarrow> (string, flt) dict \<Rightarrow> (string, flt) dict \<Rightarrow> string \<Rightarrow> (string \<times> json) list res list \<Rightarrow>
    execution_report res" where
  "wait_filled str amounts prices oid polls = poll_order str oid (get_or amounts oid 0) polls 0 ''pending'' (get_or prices oid 0)"

definition get_order :: "(json \<Rightarrow> string) \<Rightarrow> (string, flt) dict \<Rightarrow> (string, flt) dict \<Rightarrow> string \<Rightarrow> (string \<times> json) list \<Rightarrow> execution_report" where
  "get_order str amounts prices oid kvs =
     report_of oid (get_or amounts oid (nonzero_or (extract_requested kvs) 0)) (nonzero_or (extract_filled kvs) 0)
       (order_status str ''open'' kvs) (nonzero_or (extract_avg_price kvs) (get_or prices oid 0))"

definition wire_dec :: "json \<Rightarrow> dec res" where
  "wire_dec j = (case j of JInt n \<Rightarrow> Inr (of_int n) | JFloat x \<Rightarrow> Inr (flt_repr x)
     | JStr s \<Rightarrow> (case number_text s of Some x \<Rightarrow> Inr x | None \<Rightarrow> Inl (InvalidOperation ''invalid decimal'')) | _ \<Rightarrow> Inl (InvalidOperation ''invalid decimal''))"

definition dec_or_zero :: "json \<Rightarrow> dec res" where
  "dec_or_zero v = (if j_truthy v then wire_dec v else Inr 0)"

definition venue_order_from_payload :: "(json \<Rightarrow> string) \<Rightarrow> datetime \<Rightarrow> (string \<times> json) list \<Rightarrow> venue_order res" where
  "venue_order_from_payload str now kvs =
     (let filled = flt_repr (nonzero_or (extract_filled kvs) 0);
          status = lower (text_or str ''open'' (extract_first kvs [''status'', ''state'']))
      in rbind (case extract_avg_price kvs of Some x \<Rightarrow> if x \<noteq> 0 then Inr (flt_repr x) else dec_or_zero (extract_first kvs [''price''])
          | None \<Rightarrow> dec_or_zero (extract_first kvs [''price''])) (\<lambda>average.
        Inr \<lparr>vo_client_order_id = [], vo_venue_order_id = text_or str [] (extract_first kvs [''id'', ''orderID'', ''order_id'', ''hash'']),
          vo_venue = ''Polymarket'',
          vo_status = (if status \<in> {''filled'', ''matched''} then OI_FILLED else if 0 < filled then OI_PARTIAL else ACKNOWLEDGED),
          vo_quantity = flt_repr (nonzero_or (extract_requested kvs) 0), vo_cumulative_filled = filled, vo_average_price = average,
          vo_updated_at = now\<rparr>))"

definition fill_from_trade :: "(json \<Rightarrow> string) \<Rightarrow> flt \<Rightarrow> (string \<times> json) list \<Rightarrow> fill_record res" where
  "fill_from_trade str wall kvs =
     (let fill_id = text_or str [] (extract_first kvs [''id'', ''trade_id'', ''tradeId'', ''match_id'', ''matchId'']);
          time = event_timestamp wall (JObj [(''timestamp'', extract_first kvs [''timestamp'', ''created_at'', ''createdAt'', ''match_time''])])
      in rbind (dec_or_zero (extract_first kvs [''size'', ''amount'', ''quantity''])) (\<lambda>quantity.
         rbind (dec_or_zero (extract_first kvs [''price'', ''avg_price''])) (\<lambda>paid.
         rbind (dec_or_zero (extract_first kvs [''fee'', ''fee_amount'', ''feeAmount''])) (\<lambda>fee.
           Inr \<lparr>fr_fill_id = fill_id, fr_client_order_id = [],
             fr_venue_order_id = text_or str fill_id (extract_first kvs [''order_id'', ''orderId'', ''maker_order_id'', ''taker_order_id'']),
             fr_venue = ''Polymarket'', fr_quantity = quantity, fr_price = paid, fr_fee = fee,
             fr_occurred_at = Aware (half_even (time * 1000000))\<rparr>))))"

definition list_fills :: "(json \<Rightarrow> string) \<Rightarrow> flt \<Rightarrow> datetime option \<Rightarrow> json list \<Rightarrow> fill_record list res" where
  "list_fills str wall since payloads = rbind (rmap (fill_from_trade str wall) (dict_items payloads)) (\<lambda>fills.
     Inr (filter (\<lambda>f. case since of None \<Rightarrow> True | Some t \<Rightarrow> as_utc t \<le> as_utc (fr_occurred_at f)) fills))"

section \<open>Positions\<close>

definition is_evm_address :: "string \<Rightarrow> bool" where
  "is_evm_address a \<longleftrightarrow> length a = 42 \<and> starts_with a ''0x'' \<and> list_all (\<lambda>c. c \<in> set ''0123456789abcdefABCDEF'') (drop 2 a)"

text \<open>The address whose positions count: the funder, or the signer's address (\<open>derived\<close>, if there is a key).\<close>

definition profile_address :: "string option \<Rightarrow> string option \<Rightarrow> string res res \<Rightarrow> string res" where
  "profile_address funder key derived =
     (let a = strip (case funder of None \<Rightarrow> [] | Some f \<Rightarrow> f) in
      rbind (if a \<noteq> [] then Inr a
        else if \<not> truthy key then Inl (RuntimeError ''Polymarket profile address is unavailable for position reconciliation'')
        else (case derived of Inr (Inr x) \<Rightarrow> Inr x
          | _ \<Rightarrow> Inl (RuntimeError ''Polymarket signer address could not be derived for position reconciliation''))) (\<lambda>a.
      if is_evm_address a then Inr a else Inl (RuntimeError ''Polymarket profile address is invalid for position reconciliation'')))"

definition MAX_UINT256 :: nat where
  "MAX_UINT256 = 2 ^ 256 - 1"

text \<open>Characters are codes below 256 here; among them Python's \<^verbatim>\<open>isdecimal\<close> accepts the ten digits only.\<close>

definition valid_asset :: "string \<Rightarrow> bool" where
  "valid_asset t \<longleftrightarrow> t \<noteq> [] \<and> list_all is_digit t \<and> length t \<le> 78 \<and> 0 < digits_value t \<and> digits_value t \<le> MAX_UINT256"

definition position_from_payload :: "string \<Rightarrow> string \<Rightarrow> json \<Rightarrow> (string \<times> dec) res" where
  "position_from_payload profile where_text j =
     (let bad = (\<lambda>what. Inl (RuntimeError (''Polymarket current position '' @ what @ where_text))) in case j of
        JObj kvs \<Rightarrow>
          (case field ''proxyWallet'' kvs of JStr wallet \<Rightarrow>
             if lower wallet \<noteq> lower profile then bad ''has an unexpected profile at ''
             else (case field ''asset'' kvs of JStr token \<Rightarrow>
                 if \<not> valid_asset token then bad ''has an invalid asset at ''
                 else (case map_of kvs ''size'' of
                     None \<Rightarrow> bad ''has an invalid size at ''
                   | Some n \<Rightarrow> (case wire_dec n of Inl _ \<Rightarrow> bad ''has an invalid size at ''
                     | Inr n \<Rightarrow> if n < 0 then bad ''has an invalid size at '' else Inr (token, n)))
               | _ \<Rightarrow> bad ''has an invalid asset at '')
           | _ \<Rightarrow> bad ''has an unexpected profile at '')
      | _ \<Rightarrow> bad ''is invalid at '')"

definition location :: "nat \<Rightarrow> nat \<Rightarrow> string" where
  "location offset row = ''offset '' @ nat_text offset @ '', row '' @ nat_text row"

text \<open>One page: the positions so far and the tokens seen.\<close>

fun add_position_rows :: "string \<Rightarrow> nat \<Rightarrow> nat \<Rightarrow> json list \<Rightarrow> (string, dec) dict \<times> string set \<Rightarrow> ((string, dec) dict \<times> string set) res" where
  "add_position_rows profile offset row [] acc = Inr acc"
| "add_position_rows profile offset row (j # js) (ps, seen) =
     rbind (position_from_payload profile (location offset row) j) (\<lambda>(token, n).
       if token \<in> seen then Inl (RuntimeError (''Polymarket current positions contain duplicate asset at '' @ location offset row))
       else add_position_rows profile offset (row + 1) js (if 0 < n then dict_set token n ps else ps, insert token seen))"

definition PAGE_LIMIT :: nat where "PAGE_LIMIT = 500"
definition MAX_OFFSET :: nat where "MAX_OFFSET = 10000"

function positions_from :: "(nat \<Rightarrow> json list res) \<Rightarrow> string \<Rightarrow> nat \<Rightarrow> (string, dec) dict \<times> string set \<Rightarrow> (string, dec) dict res" where
  "positions_from page profile offset acc =
     rbind (page offset) (\<lambda>rows. rbind (add_position_rows profile offset 0 rows acc) (\<lambda>acc.
       if length rows < PAGE_LIMIT then Inr (fst acc)
       else if MAX_OFFSET \<le> offset then Inl (RuntimeError ''Polymarket current positions exceed the supported pagination window'')
       else positions_from page profile (offset + PAGE_LIMIT) acc))"
  by pat_completeness auto
termination
  by (relation "measure (\<lambda>(_, _, offset, _). MAX_OFFSET + PAGE_LIMIT - offset)") (auto simp: PAGE_LIMIT_def MAX_OFFSET_def)

declare positions_from.simps [simp del]

definition get_positions :: "(nat \<Rightarrow> json list res) \<Rightarrow> string \<Rightarrow> (string, dec) dict res" where
  "get_positions page profile = positions_from page profile 0 ([], {})"

section \<open>Balance and fees\<close>

definition scalar :: "json \<Rightarrow> bool" where
  "scalar j = (case j of JInt _ \<Rightarrow> True | JBool _ \<Rightarrow> True | JFloat _ \<Rightarrow> True | JStr _ \<Rightarrow> True | _ \<Rightarrow> False)"

text \<open>The values of a payload in the order of the search: those under the keys, then all of them.\<close>

definition children :: "string list \<Rightarrow> json \<Rightarrow> json list" where
  "children keys j = (case j of
     JObj kvs \<Rightarrow> concat (map (\<lambda>k. case map_of kvs k of None \<Rightarrow> [] | Some v \<Rightarrow> [v]) keys) @ map snd kvs
   | JList js \<Rightarrow> js | _ \<Rightarrow> [])"

lemma member_smaller: "x \<in> set js \<Longrightarrow> size x < size (JList js)"
  by (induction js) auto

lemma item_smaller: "(k, v) \<in> set kvs \<Longrightarrow> size v < size (JObj kvs)"
  by (induction kvs) auto

lemma child_smaller: "x \<in> set (children keys j) \<Longrightarrow> size x < size j"
  using member_smaller item_smaller field_smaller
  by (cases j) (force simp: children_def split: option.splits)+

function find_balance_value :: "string list \<Rightarrow> json \<Rightarrow> json option" where
  "find_balance_value keys j = (if scalar j then Some j
     else (case List.find (\<lambda>v. v \<noteq> None) (map (find_balance_value keys) (children keys j)) of None \<Rightarrow> None | Some v \<Rightarrow> v))"
  by pat_completeness auto
termination by (relation "measure (\<lambda>(_, j). size j)") (auto dest: child_smaller)

declare find_balance_value.simps [simp del]

text \<open>An integer text counts base units of six decimals.\<close>

definition normalize_collateral_balance :: "json option \<Rightarrow> flt option" where
  "normalize_collateral_balance v = (case v of
     Some (JStr s) \<Rightarrow> map_option (\<lambda>x. if strip s \<noteq> [] \<and> list_all is_digit (strip s) then fdiv (flt_round x) 1000000 else flt_round x) (number_text s)
   | Some (JInt n) \<Rightarrow> Some (if 0 \<le> n then fdiv (flt_round (of_int n)) 1000000 else flt_round (of_int n))
   | Some (JFloat x) \<Rightarrow> Some x
   | _ \<Rightarrow> None)"

definition cash_balance :: "json \<Rightarrow> flt res" where
  "cash_balance answer = (case normalize_collateral_balance
       (find_balance_value [''pusd'', ''pUSD'', ''USDC'', ''cash'', ''balance'', ''available''] answer) of
     None \<Rightarrow> Inl (RuntimeError ''Could not parse Polymarket collateral balance from response'') | Some x \<Rightarrow> Inr x)"

definition polymarket_fee_quote :: "market_constraints option \<Rightarrow> venue_fee_quote option" where
  "polymarket_fee_quote = map_option (\<lambda>c. \<lparr>fq_venue = ''Polymarket'', fq_fee_rate_bps = fee_rate_bps c, fq_model = ''polymarket_dynamic'',
     fq_source = ''polymarket_clob_market_info_v2'', fq_verified = True, fq_fee_exponent = mc_fee_exponent c,
     fq_fee_rate_fraction = None, fq_minimum_fee_usd = 0\<rparr>)"

text \<open>The tokens of the market, its constraints and the options that are cached for its orders.\<close>

definition market_tokens :: "(json \<Rightarrow> string) \<Rightarrow> (string \<times> json) list \<Rightarrow> string set" where
  "market_tokens str kvs = (case field ''t'' kvs of
     JList items \<Rightarrow> set (map (\<lambda>i. text_of str (field ''t'' i)) (filter (\<lambda>i. \<not> blank (field ''t'' i)) (dict_items items)))
   | _ \<Rightarrow> {})"

definition constraints_from_info ::
  "(json \<Rightarrow> string) \<Rightarrow> string \<Rightarrow> (string \<times> json) list \<Rightarrow> (market_constraints \<times> dec \<times> bool) res" where
  "constraints_from_info str token kvs =
     (if token \<notin> market_tokens str kvs then Inl (RuntimeError ''token is not part of condition'')
      else rbind (wire_dec (if j_truthy (field ''mts'' kvs) then field ''mts'' kvs else JStr [])) (\<lambda>tick.
           rbind (wire_dec (if j_truthy (field ''mos'' kvs) then field ''mos'' kvs else JStr [])) (\<lambda>minimum.
           (case field ''fd'' kvs of
              JObj fd \<Rightarrow> if field ''r'' fd = JNull \<or> field ''e'' fd = JNull then Inl (RuntimeError ''Polymarket V2 fee metadata is unavailable'')
                else rbind (wire_dec (field ''r'' fd)) (\<lambda>rate. rbind (wire_dec (field ''e'' fd)) (\<lambda>exponent.
                  if rate < 0 then Inl (RuntimeError ''Polymarket V2 fee rate is invalid'')
                  else if exponent < 0 then Inl (RuntimeError ''Polymarket V2 fee exponent is invalid'')
                  else rbind (sdk_compatible_tick tick) (\<lambda>sdk_tick.
                    Inr (\<lparr>fee_rate_bps = \<lceil>dmul rate 10000\<rceil>, tick_size = tick, lot_size = minimum, minimum_notional = 1,
                      mc_fee_exponent = exponent\<rparr>, sdk_tick, j_truthy (field ''nr'' kvs)))))
            | _ \<Rightarrow> Inl (RuntimeError ''Polymarket V2 fee metadata is unavailable'')))))"

section \<open>Lemmas\<close>

subsection \<open>Positions\<close>

lemma position_location: "position_from_payload profile a j = Inr t \<longleftrightarrow> position_from_payload profile b j = Inr t"
  by (auto simp: position_from_payload_def Let_def split: json.split option.split sum.split if_splits)

text \<open>The rows of the pages up to the first page that is not full.\<close>

inductive paged :: "(nat \<Rightarrow> json list res) \<Rightarrow> nat \<Rightarrow> json list \<Rightarrow> bool" for page where
  last_page: "page offset = Inr rows \<Longrightarrow> length rows < PAGE_LIMIT \<Longrightarrow> paged page offset rows"
| full_page: "page offset = Inr rows \<Longrightarrow> PAGE_LIMIT \<le> length rows \<Longrightarrow> offset < MAX_OFFSET \<Longrightarrow>
    paged page (offset + PAGE_LIMIT) later \<Longrightarrow> paged page offset (rows @ later)"

inductive_simps paged_iff: "paged page offset rows"

definition held_of :: "(string \<times> dec) list \<Rightarrow> (string, dec) dict" where
  "held_of ts = filter (\<lambda>(_, n). 0 < n) ts"

lemma held_of_simps [simp]:
  "held_of [] = []"
  "held_of ((t, n) # ts) = (if 0 < n then (t, n) # held_of ts else held_of ts)"
  "held_of (xs @ ys) = held_of xs @ held_of ys"
  by (simp_all add: held_of_def)

lemma dict_set_fresh: "k \<notin> fst ` set d \<Longrightarrow> dict_set k v d = d @ [(k, v)]"
  by (simp add: dict_set_def update_fresh)

definition parsed :: "string \<Rightarrow> json list \<Rightarrow> (string \<times> dec) list \<Rightarrow> bool" where
  "parsed profile js ts \<longleftrightarrow> map (position_from_payload profile []) js = map Inr ts"

lemma parsed_simps [simp]:
  "parsed profile [] ts \<longleftrightarrow> ts = []"
  "parsed profile (j # js) ts \<longleftrightarrow> (\<exists>t us. ts = t # us \<and> position_from_payload profile [] j = Inr t \<and> parsed profile js us)"
  "parsed profile (js @ ks) ts \<longleftrightarrow> (\<exists>us vs. ts = us @ vs \<and> parsed profile js us \<and> parsed profile ks vs)"
  unfolding parsed_def by (auto simp: Cons_eq_map_conv append_eq_map_conv)

lemma rows_iff:
  assumes "fst ` set ps \<subseteq> seen"
  shows "add_position_rows profile offset row js (ps, seen) = Inr acc \<longleftrightarrow>
    (\<exists>ts. parsed profile js ts \<and> distinct (map fst ts) \<and> fst ` set ts \<inter> seen = {} \<and> acc = (ps @ held_of ts, seen \<union> fst ` set ts))"
  using assms
proof (induction js arbitrary: ps seen row)
  case (Cons j js)
  show ?case
  proof (cases "position_from_payload profile [] j")
    case (Inr x)
    obtain t n where t: "x = (t, n)" by (cases x)
    have p: "position_from_payload profile (location offset row) j = Inr (t, n)" using Inr position_location t by blast
    show ?thesis
    proof (cases "t \<in> seen")
      case False
      then have fresh: "t \<notin> fst ` set ps" using Cons.prems by blast
      have step: "add_position_rows profile offset row (j # js) (ps, seen) =
          add_position_rows profile offset (row + 1) js (ps @ held_of [(t, n)], insert t seen)"
        using False fresh by (simp add: p dict_set_fresh)
      have sub: "fst ` set (ps @ held_of [(t, n)]) \<subseteq> insert t seen" using Cons.prems by auto
      have first: "(\<exists>ts. parsed profile (j # js) ts \<and> Q ts) \<longleftrightarrow> (\<exists>us. parsed profile js us \<and> Q ((t, n) # us))" for Q
        using Inr t by auto
      show ?thesis unfolding step Cons.IH [OF sub] first using False by auto
    qed (auto simp: p Inr t)
  next
    case (Inl e)
    have "position_from_payload profile (location offset row) j \<noteq> Inr x" for x
      using position_location [of profile "location offset row" j x "[]"] Inl by simp
    then obtain e' where "position_from_payload profile (location offset row) j = Inl e'" by (metis sumE)
    with Inl show ?thesis by simp
  qed
qed auto

lemma positions_from_iff:
  assumes "fst ` set (fst acc) \<subseteq> snd acc"
  shows "positions_from page profile offset acc = Inr r \<longleftrightarrow> (\<exists>rows ts. paged page offset rows \<and> parsed profile rows ts \<and>
    distinct (map fst ts) \<and> fst ` set ts \<inter> snd acc = {} \<and> r = fst acc @ held_of ts)"
  using assms
proof (induction page profile offset acc rule: positions_from.induct)
  case (1 page profile offset acc)
  obtain ps seen where acc: "acc = (ps, seen)" by (cases acc)
  show ?case
  proof (cases "page offset")
    case (Inl e)
    then show ?thesis by (simp add: positions_from.simps [of page] paged_iff [of page offset])
  next
    case (Inr rows)
    note rows = rows_iff [OF "1.prems" [unfolded acc fst_conv snd_conv], of profile offset 0 rows]
    show ?thesis
    proof (cases "length rows < PAGE_LIMIT")
      case True
      then have "paged page offset xs \<longleftrightarrow> xs = rows" for xs using Inr by (auto simp: paged_iff [of page offset])
      then show ?thesis using True Inr
        by (auto simp: positions_from.simps [of page profile offset] acc rbind_Inr_iff rows)
    next
      case False
      have next_page: "positions_from page profile (offset + PAGE_LIMIT) (ps @ held_of ts, seen \<union> fst ` set ts) = Inr r \<longleftrightarrow>
          (\<exists>later us. paged page (offset + PAGE_LIMIT) later \<and> parsed profile later us \<and> distinct (map fst us) \<and>
            fst ` set us \<inter> (seen \<union> fst ` set ts) = {} \<and> r = ps @ held_of ts @ held_of us)"
        if "parsed profile rows ts" "distinct (map fst ts)" "fst ` set ts \<inter> seen = {}" "offset < MAX_OFFSET" for ts
      proof -
        have "add_position_rows profile offset 0 rows acc = Inr (ps @ held_of ts, seen \<union> fst ` set ts)" using rows that acc by auto
        have "fst ` set (ps @ held_of ts) \<subseteq> seen \<union> fst ` set ts" using "1.prems" acc by (auto simp: held_of_def)
        with "1.IH" [of rows "(ps @ held_of ts, seen \<union> fst ` set ts)"] that(4) False show ?thesis by (simp add: not_le)
      qed
      let ?next = "\<lambda>ts. positions_from page profile (offset + PAGE_LIMIT) (ps @ held_of ts, seen \<union> fst ` set ts) = Inr r"
      let ?ok = "\<lambda>ts. parsed profile rows ts \<and> distinct (map fst ts) \<and> fst ` set ts \<inter> seen = {}"
      have pages: "paged page offset xs \<longleftrightarrow> offset < MAX_OFFSET \<and> (\<exists>later. xs = rows @ later \<and> paged page (offset + PAGE_LIMIT) later)" for xs
        using Inr False by (auto simp: paged_iff [of page offset])
      have "positions_from page profile offset acc = Inr r \<longleftrightarrow> offset < MAX_OFFSET \<and> (\<exists>ts. ?ok ts \<and> ?next ts)"
        using Inr False by (auto simp: positions_from.simps [of page profile offset] acc rbind_Inr_iff rows)
      also have "\<dots> \<longleftrightarrow> offset < MAX_OFFSET \<and> (\<exists>ts later us. ?ok ts \<and> paged page (offset + PAGE_LIMIT) later \<and> parsed profile later us \<and>
          distinct (map fst us) \<and> fst ` set us \<inter> (seen \<union> fst ` set ts) = {} \<and> r = ps @ held_of ts @ held_of us)"
        by (cases "offset < MAX_OFFSET") (simp_all add: next_page cong: conj_cong)
      also have "\<dots> \<longleftrightarrow> (\<exists>xs us. paged page offset xs \<and> parsed profile xs us \<and> distinct (map fst us) \<and> fst ` set us \<inter> seen = {} \<and>
          r = ps @ held_of us)" (is "?a \<longleftrightarrow> ?b")
      proof
        assume ?a
        then obtain ts later us where "offset < MAX_OFFSET" "?ok ts" "paged page (offset + PAGE_LIMIT) later" "parsed profile later us"
          "distinct (map fst us)" "fst ` set us \<inter> (seen \<union> fst ` set ts) = {}" "r = ps @ held_of ts @ held_of us" by blast
        then show ?b by (intro exI [of _ "rows @ later"] exI [of _ "ts @ us"]) (auto simp: pages)
      next
        assume ?b
        then obtain later ts us where "offset < MAX_OFFSET" "paged page (offset + PAGE_LIMIT) later" "parsed profile rows ts" "parsed profile later us"
          "distinct (map fst (ts @ us))" "fst ` set (ts @ us) \<inter> seen = {}" "r = ps @ held_of (ts @ us)" by (auto simp: pages)
        then show ?a by (intro conjI exI [of _ ts] exI [of _ later] exI [of _ us]) auto
      qed
      finally show ?thesis by (simp add: acc)
    qed
  qed
qed

subsection \<open>Prices\<close>

lemma sdk_tick_grid:
  assumes "sdk_compatible_tick tick = Inr t"
  shows "t = tick" "0 < t" "t < 1" "\<exists>k. t = of_int k / 10 ^ 4"
proof -
  show "t = tick" "0 < t" "t < 1" using assms by (auto simp: sdk_compatible_tick_def split: if_splits)
  have "of_int \<lfloor>tick * 10 ^ 4\<rfloor> = tick * 10 ^ 4" using assms by (metis Inl_Inr_False sdk_compatible_tick_def)
  with \<open>t = tick\<close> have "t = of_int \<lfloor>tick * 10 ^ 4\<rfloor> / 10 ^ 4" by (metis nonzero_mult_div_cancel_right power_not_zero zero_neq_numeral)
  then show "\<exists>k. t = of_int k / 10 ^ 4" by blast
qed

lemma dec_round_steps:
  assumes "t = of_int k / 10 ^ 4" and "\<bar>of_int n * t\<bar> \<le> 10 ^ 10"
  shows "dec_round (of_int n * t) = of_int n * t"
proof (rule dec_round_eval)
  have "of_int n * t * 10 ^ 18 = of_int (n * k * 10 ^ 14)" using assms(1) by simp
  then show "of_int \<lfloor>of_int n * t * 10 ^ 18\<rfloor> = of_int n * t * 10 ^ 18" by (metis floor_of_int)
qed (rule assms(2))

lemma quantized:
  assumes "t = of_int k / 10 ^ 4" and "0 < t" and "t < 1" and "0 \<le> value" and "value \<le> 1" and "dec_round (value / t) = value / t"
  shows "quantize_down value t = Inr (of_int \<lfloor>value / t\<rfloor> * t)" "quantize_up value t = Inr (of_int \<lceil>value / t\<rceil> * t)"
    "of_int \<lfloor>value / t\<rfloor> * t \<le> value" "value - t < of_int \<lfloor>value / t\<rfloor> * t"
    "value \<le> of_int \<lceil>value / t\<rceil> * t" "of_int \<lceil>value / t\<rceil> * t < value + t"
proof -
  have fl: "of_int \<lfloor>value / t\<rfloor> \<le> value / t" "value / t < of_int \<lfloor>value / t\<rfloor> + 1"
    and ce: "value / t \<le> of_int \<lceil>value / t\<rceil>" "of_int \<lceil>value / t\<rceil> < value / t + 1" by linarith+
  from fl show down: "of_int \<lfloor>value / t\<rfloor> * t \<le> value" "value - t < of_int \<lfloor>value / t\<rfloor> * t"
    using mult_right_mono [OF fl(1), of t] assms(2) by (simp_all add: pos_divide_less_eq distrib_right)
  from ce show up: "value \<le> of_int \<lceil>value / t\<rceil> * t" "of_int \<lceil>value / t\<rceil> * t < value + t"
    using mult_right_mono [OF ce(1), of t] mult_strict_right_mono [OF ce(2) assms(2)] assms(2) by (simp_all add: distrib_right)
  have "\<bar>of_int \<lfloor>value / t\<rfloor> * t\<bar> \<le> 10 ^ 10" "\<bar>of_int \<lceil>value / t\<rceil> * t\<bar> \<le> 10 ^ 10"
    using down up assms(2-5) by (simp_all add: abs_le_iff)
  then have "dec_round (of_int \<lfloor>value / t\<rfloor> * t) = of_int \<lfloor>value / t\<rfloor> * t" "dec_round (of_int \<lceil>value / t\<rceil> * t) = of_int \<lceil>value / t\<rceil> * t"
    using dec_round_steps [OF assms(1)] by blast+
  then show "quantize_down value t = Inr (of_int \<lfloor>value / t\<rfloor> * t)" "quantize_up value t = Inr (of_int \<lceil>value / t\<rceil> * t)"
    using assms(2,4,6) by (simp_all add: quantize_down_def quantize_up_def truncated_def ddiv_def dmul_def)
qed

lemma complement_tick: "t = of_int k / 10 ^ 4 \<Longrightarrow> 0 < t \<Longrightarrow> t < 1 \<Longrightarrow> dsub 1 t = 1 - t"
proof -
  assume t: "t = of_int k / 10 ^ 4" "0 < t" "t < 1"
  have eq: "1 - t = of_int (10 ^ 4 - k) * (of_int 1 / 10 ^ 4)" by (simp add: t(1) diff_divide_distrib)
  moreover have "\<bar>1 - t\<bar> \<le> 10 ^ 10" using t by simp
  ultimately have "dec_round (1 - t) = 1 - t" using dec_round_steps [OF refl] by metis
  then show "dsub 1 t = 1 - t" by (simp add: dsub_def)
qed

text \<open>A limit below the tick is raised to the tick, also for a buy.\<close>

lemma buy_above_limit:
  assumes "sdk_compatible_tick tick = Inr t" and "t \<le> 1 / 2" and "0 \<le> limit" and "limit < t" and "dec_round (limit / t) = limit / t"
  shows "normalize_order_price limit t False = Inr t"
proof -
  obtain k where k: "t = of_int k / 10 ^ 4" using sdk_tick_grid(4) [OF assms(1)] by blast
  note t = sdk_tick_grid(2,3) [OF assms(1)]
  have "of_int \<lfloor>limit / t\<rfloor> * t = 0" using assms(3,4) t by (simp add: floor_eq_iff)
  with quantized(1) [OF k t assms(3) _ assms(5)] t assms(2,4) complement_tick [OF k t] show ?thesis
    by (simp add: normalize_order_price_def Let_def)
qed

section \<open>Properties\<close>

text \<open>C40. The positions of the account are those of all its pages: the pagination ends with a result
  exactly when the pages end within the window, every row is a valid position of the profile and no
  asset comes twice, and then the result holds every asset with its positive size, in order.\<close>

theorem positions_are_all_pages:
  "get_positions page profile = Inr ps \<longleftrightarrow>
    (\<exists>rows ts. paged page 0 rows \<and> parsed profile rows ts \<and> distinct (map fst ts) \<and> ps = held_of ts)"
  by (simp add: get_positions_def positions_from_iff)

text \<open>The price on the wire respects the limit: on a tick that the SDK can sign with, the price is
  between the tick and its complement, and for a limit in that range a buy gets at most the limit and
  a sale at least the limit, less than one tick away from it.\<close>

theorem order_price_respects_limit:
  assumes "sdk_compatible_tick tick = Inr t" and "normalize_order_price limit t up = Inr p"
    and "0 \<le> limit" and "limit \<le> 1" and "dec_round (limit / t) = limit / t"
  shows "t \<le> p \<and> p \<le> 1 - t \<and>
    (t \<le> limit \<and> limit \<le> 1 - t \<longrightarrow> (if up then limit \<le> p \<and> p < limit + t else limit - t < p \<and> p \<le> limit))"
proof -
  obtain k where k: "t = of_int k / 10 ^ 4" using sdk_tick_grid(4) [OF assms(1)] by blast
  note t = sdk_tick_grid(2,3) [OF assms(1)]
  note q = quantized [OF k t assms(3-5)]
  have p: "t \<le> 1 - t" "p = min (max (of_int (if up then \<lceil>limit / t\<rceil> else \<lfloor>limit / t\<rfloor>) * t) t) (1 - t)"
    using assms(2) t by (auto simp: normalize_order_price_def Let_def q(1,2) complement_tick [OF k t] split: if_splits)
  have below: "t \<le> of_int \<lfloor>limit / t\<rfloor> * t" if "t \<le> limit"
  proof -
    have "1 \<le> \<lfloor>limit / t\<rfloor>" using that t by (simp add: le_floor_iff pos_le_divide_eq)
    then have "1 * t \<le> of_int \<lfloor>limit / t\<rfloor> * t" using t by (intro mult_right_mono) simp_all
    then show ?thesis by simp
  qed
  show ?thesis
  proof (cases up)
    case True
    then have "p = min (max (of_int \<lceil>limit / t\<rceil> * t) t) (1 - t)" by (simp add: p(2))
    with True p(1) t q(5,6) show ?thesis by (auto simp: min_def max_def)
  next
    case False
    then obtain c where "p = min (max c t) (1 - t)" "c \<le> limit" "limit - t < c" "t \<le> limit \<Longrightarrow> t \<le> c"
      using p(2) q(3,4) below by presburger
    with False p(1) t show ?thesis by (auto simp: min_def max_def)
  qed
qed

theorem order_price_respects_limit_witness:
  "\<exists>p. normalize_order_price (flt_repr (1 / 4)) (1 / 100) False = Inr p \<and> p \<le> 1 / 4 \<and> 1 / 4 - 1 / 100 < p"
proof -
  have tick: "sdk_compatible_tick (1 / 100) = Inr (1 / 100)" by (simp add: sdk_compatible_tick_def)
  have price: "normalize_order_price (1 / 4) (1 / 100) False = Inr (1 / 4)"
    by (simp add: normalize_order_price_def Let_def dsub_def dec_round_eval quantize_down_def truncated_def ddiv_def dmul_def)
  have "dec_round ((1 / 4) / (1 / 100)) = (1 / 4) / (1 / 100 :: dec)" by (rule dec_round_eval) simp_all
  from order_price_respects_limit [OF tick price _ _ this] price show ?thesis
    by (intro exI [of _ "1 / 4"]) (simp add: sample_reprs)
qed

end
