(* ===== verification/Spec2Isabelle.thy ===== *)
theory Spec2Isabelle
  imports Quant Risk_Control Ledger Mapping_Rules Repository Evidence Entry_Gates Preflight Settlement Windows Reconcile Discovery Engine Polymarket_Orders
begin

text \<open>
  A model of an arbitrage engine for binary prediction markets, the Python package
  \<^verbatim>\<open>src/src/arbitrage_engine\<close>. All file names below are relative to it.

  \<^bold>\<open>The program.\<close> A market that two venues offer pays one unit for YES or for NO. The engine
  buys YES on one venue and NO on another when both together cost less than the payout. Discovery
  publishes markets; a mapping that an operator verified says that two listings are the same event.
  In every cycle \<^verbatim>\<open>engine.py\<close> plans evaluations of markets on ten routes, prices them with
  \<^verbatim>\<open>quant.py\<close> and hands a signal to the \<^verbatim>\<open>ExecutionRouter\<close> of the route (\<^verbatim>\<open>execution.py\<close>).
  The router passes the signal through its gates and the preflight, submits both legs, sells what
  stayed unmatched, and writes the position to the ledger (\<^verbatim>\<open>positions.py\<close>) and to the repository
  (\<^verbatim>\<open>database.py\<close>). The monitor (\<^verbatim>\<open>position_manager.py\<close>) closes positions early, and
  \<^verbatim>\<open>settlement.py\<close> redeems expired ones. The risk controller (\<^verbatim>\<open>risk.py\<close>) and the evidence of
  the venue reconciliation (\<^verbatim>\<open>reconciliation.py\<close>) decide whether anything may be opened at all.

  \<^bold>\<open>The theories\<close>, in the order of their imports:

  \<^item> Lab_Prelude: exceptions as values of \<open>py_error\<close>, results as \<open>py_error + 'a\<close>, the
    insertion-ordered dictionary, texts and timestamps; the locale \<open>keyed_store\<close> (what a lookup
    returns after an insertion or a removal), interpreted on the dictionary and on the positions
    table; the locale \<open>invariant_system\<close> (an invariant that holds at the start and is kept by every
    step holds in every reachable state), interpreted on the order budget, the portfolio, the
    repository, the open intents, the baselines and the stream subscriptions.
  \<^item> Py_Num: \<^verbatim>\<open>Decimal\<close> with 28 digits and \<^verbatim>\<open>float\<close> with 53 bits, as rationals with the rounding
    of every operation written out; the locale \<open>rounding\<close> holds the laws the components use.
  \<^item> Market_Model, Position_Model: the classes of \<^verbatim>\<open>models.py\<close>. The accounting of residual exits
    is idempotent and never closes more than a leg holds.
  \<^item> Quant: \<^verbatim>\<open>quant.py\<close>. Plans are balanced, and an admitted signal costs less than its payout.
  \<^item> Risk_Control: \<^verbatim>\<open>risk.py\<close>. One group treats operations as whole steps (\<open>risk_step\<close>), another
    cuts them where the code awaits the store, so that saves and reads interleave
    (\<open>interleaved_step\<close>). The limits hold in every reachable state. A saved pause with nothing
    unpaused in flight lasts until a resume; two lemmas show how a save or a read in flight lifts it.
  \<^item> Ledger: \<^verbatim>\<open>positions.py\<close>, with the round trip of the JSON payload.
  \<^item> Mapping_Rules: \<^verbatim>\<open>market_mapping.py\<close> and the mapping tables of \<^verbatim>\<open>database.py\<close>. A market is live
    on a route through its own list of verified routes or through a verified mapping.
  \<^item> Config: the sections and \<^verbatim>\<open>validate_config\<close> of \<^verbatim>\<open>config.py\<close>.
  \<^item> Repository, Evidence: \<^verbatim>\<open>database.py\<close> and \<^verbatim>\<open>external_baseline.py\<close>. Keys and foreign keys hold
    in every reachable state, redelivered reports change nothing, the positions table refines the
    ledger whatever order its rows are read in, and no failures mean fresh evidence per venue.
  \<^item> Entry_Gates, Preflight: the gates of \<^verbatim>\<open>execution.py\<close>, with \<^verbatim>\<open>chain_cost.py\<close>. The pruned queue
    of submissions is a sliding window, reservations fit the balance, and what passes the preflight
    pays in its worst case.
  \<^item> Actions, Order_Legs, Executor: the rest of \<^verbatim>\<open>execution.py\<close>. Actions is a small calculus of
    computations with state and exceptions; its locale \<open>effect_order\<close> (a preorder on states that
    every part of a computation follows) is interpreted on the stores, the reservations, the
    redemptions and the state of the monitor. Order_Legs follows one order from its durable intent to its end, Executor a
    pair of legs, the sale of what stayed unmatched, the retries and the closing.
  \<^item> Settlement: \<^verbatim>\<open>settlement.py\<close>. No redemption is handed to a connector twice, restarts included.
  \<^item> Windows, Route_Plans, Engine: \<^verbatim>\<open>engine.py\<close>. Which evaluations run and when their selection
    ends; which plans and subscriptions the markets give; the cycle with its signals and gates.
  \<^item> Reconcile: \<^verbatim>\<open>reconciliation.py\<close>. A full turn agrees with the stored positions or leaves the
    engine paused.
  \<^item> Discovery: \<^verbatim>\<open>discovery_lifecycle.py\<close>, with a bounded wait before every recovery.
  \<^item> Position_Manager: \<^verbatim>\<open>position_manager.py\<close>, the router of every position.
  \<^item> Connector_Base: \<^verbatim>\<open>connectors/base.py\<close>, the preview of a buy order and the backoff.
  \<^item> Polymarket_Stream, Polymarket_Orders: \<^verbatim>\<open>connectors/polymarket.py\<close>. The cached book against the
    ladder that the venue describes, the subscriptions against their targets, and the pages of
    positions.
\<close>

text \<open>
  \<^bold>\<open>How code becomes definitions.\<close> A class is a record, an enumeration a datatype, a dictionary
  an association list in insertion order, and a \<^verbatim>\<open>raise\<close> the left side of a sum. A method is a
  function from the state to the new state and its result; where it may fail half-way, the state
  that the exception leaves behind is part of the result. Names are those of the code, with a prefix
  per class for record fields. What a venue, the file system, the clock or the database driver
  answers is an argument: connectors are scripts of answers (\<open>venue_script\<close>), and the clock and
  the failures of the database are functions of the number of queries made so far (\<open>world\<close>), so the
  lemmas hold for every answer and for failures at every point.

  \<^bold>\<open>Bounds and assumptions.\<close>

  \<^item> Every loop is structural recursion or carries a measure, except the selection of windows
    (\<open>interleave\<close>), which the code does not bound: it is a partial function whose value \<open>None\<close> means
    that the loop runs on, and its termination is stated with the condition it needs.
  \<^item> NaN, the infinities and the exponent range of the two number types are not represented. Texts
    hold the characters with codes below 256, so a decimal digit is one of 0 to 9.
  \<^item> The columns with 18 decimals are exact on the grid of 18 decimals; the theorems about them ask
    for amounts on it. The rounding of the column is a definition for baselines
    (\<open>money_column\<close>); in the other tables amounts are taken as stored.
  \<^item> The router has a repository, as in production; the routers share their stores and one risk
    controller. The two legs of a pair, the evaluations of a cycle and the venues of a reconciliation
    cycle, which the code gathers, run one after the other.
  \<^item> Failures of the state file of the risk controller are not modelled; failures of its durable
    store are.
  \<^item> The stream has two clocks, \<^verbatim>\<open>time.monotonic()\<close> and \<^verbatim>\<open>time.time()\<close>, which need not agree. Its
    sender task may be suspended in the middle of a send and may end while the connection stays
    open; the subscriptions follow the targets while it lives.

  \<^bold>\<open>Not modelled.\<close> Process assembly, the command line, the audit before production, metrics, logs
  and messages only wire, read or report. The discovery clients and the connectors of Predict.fun,
  SX Bet, Myriad and Opinion and the chain access enter as answers that the theories quantify over.
  The matching of events by text rests on Unicode normalisation, regular expressions and
  \<^verbatim>\<open>difflib\<close>; a wrong pair stays without effect until an operator verifies it. Heartbeats, timers and
  the shutdown of tasks are scheduling around the modelled operations. \<^verbatim>\<open>load_config\<close>, SQL sessions
  and advisory locks, migrations and operator scripts are input and output.
\<close>

end
